(* ===== verification/Prelude.thy ===== *)
theory Prelude
  imports Main "HOL-Library.Word" "HOL-Library.Sublist" "HOL-Library.Multiset"
begin

unbundle bit_operations_syntax

text \<open>
  Shared vocabulary of the development: Go's run-time panics as values, byte strings and the
  functions of the packages \<^verbatim>\<open>strings\<close> and \<^verbatim>\<open>bytes\<close> that ultimateq calls, and the
  generic list and map lemmas the component theories use.

  A Go \<^verbatim>\<open>string\<close> or \<^verbatim>\<open>[]byte\<close> is a list of bytes, \<^typ>\<open>char list\<close>; a
  \<^verbatim>\<open>rune\<close> is the code point of one ASCII byte.  Functions of Go that look at code points
  (\<^verbatim>\<open>range\<close> over a string, \<^verbatim>\<open>ToLower\<close>, \<^verbatim>\<open>ToUpper\<close>, \<^verbatim>\<open>Fields\<close>,
  \<^verbatim>\<open>TrimSpace\<close>) are exact here on ASCII input; a byte above 127 is a rune of its own
  that has no case and is no white space.
\<close>

named_theorems go_simps \<open>equations of the modelled Go library functions\<close>
named_theorems outcome_simps \<open>equations for panics and returned values\<close>

type_synonym byte = char
type_synonym rune = char

section \<open>Panics\<close>

datatype go_panic = IndexOutOfRange | SliceBounds | NilDereference | MakeSliceLen | NegativeWaitGroup | NilMapWrite

text \<open>A computation either panics (\<^verbatim>\<open>Inl\<close>) or returns a value (\<^verbatim>\<open>Inr\<close>).\<close>

type_synonym 'a outcome = "go_panic + 'a"

definition and_then :: "'a outcome \<Rightarrow> ('a \<Rightarrow> 'b outcome) \<Rightarrow> 'b outcome" where
  "and_then m f = (case m of Inl p \<Rightarrow> Inl p | Inr x \<Rightarrow> f x)"

text \<open>Indexing \<^verbatim>\<open>xs[i]\<close> and slicing \<^verbatim>\<open>xs[i:]\<close> with Go's bounds checks.\<close>

definition index_at :: "'a list \<Rightarrow> nat \<Rightarrow> 'a outcome" where
  "index_at xs i = (if i < length xs then Inr (xs ! i) else Inl IndexOutOfRange)"

definition slice_from :: "'a list \<Rightarrow> nat \<Rightarrow> 'a list outcome" where
  "slice_from xs i = (if i \<le> length xs then Inr (drop i xs) else Inl SliceBounds)"

text \<open>Dereferencing a pointer that may be nil.\<close>

definition deref :: "'a option \<Rightarrow> 'a outcome" where
  "deref p = (case p of None \<Rightarrow> Inl NilDereference | Some x \<Rightarrow> Inr x)"

section \<open>Characters\<close>

definition code :: "char \<Rightarrow> nat" where
  "code c = of_char c"

definition is_upper :: "char \<Rightarrow> bool" where
  "is_upper c \<longleftrightarrow> 65 \<le> code c \<and> code c \<le> 90"

definition is_lower :: "char \<Rightarrow> bool" where
  "is_lower c \<longleftrightarrow> 97 \<le> code c \<and> code c \<le> 122"

definition is_digit :: "char \<Rightarrow> bool" where
  "is_digit c \<longleftrightarrow> 48 \<le> code c \<and> code c \<le> 57"

text \<open>\<^verbatim>\<open>unicode.IsSpace\<close> on ASCII, and the class \<^verbatim>\<open>\s\<close> of Go's regexp, which lacks the vertical tab.\<close>

definition is_space :: "char \<Rightarrow> bool" where
  "is_space c \<longleftrightarrow> code c = 32 \<or> (9 \<le> code c \<and> code c \<le> 13)"

definition rgx_space :: "char \<Rightarrow> bool" where
  "rgx_space c \<longleftrightarrow> code c = 32 \<or> code c = 9 \<or> code c = 10 \<or> code c = 12 \<or> code c = 13"

definition lower_char :: "char \<Rightarrow> char" where
  "lower_char c = (if is_upper c then char_of (code c + 32) else c)"

definition upper_char :: "char \<Rightarrow> char" where
  "upper_char c = (if is_lower c then char_of (code c - 32) else c)"

section \<open>strings and bytes\<close>

definition to_lower :: "string \<Rightarrow> string" where
  "to_lower s = map lower_char s"

definition to_upper :: "string \<Rightarrow> string" where
  "to_upper s = map upper_char s"

text \<open>\<^verbatim>\<open>strings.Fields\<close>: the maximal runs of non-space characters.\<close>

function Fields :: "string \<Rightarrow> string list" where
  "Fields s =
     (case dropWhile is_space s of
        [] \<Rightarrow> []
      | c # cs \<Rightarrow> takeWhile (Not \<circ> is_space) (c # cs) # Fields (dropWhile (Not \<circ> is_space) (c # cs)))"
  by pat_completeness auto
termination
proof (relation "measure length")
  fix s :: string and c cs
  assume *: "dropWhile is_space s = c # cs"
  then have "\<not> is_space c" by (metis dropWhile_eq_Cons_conv)
  then have "length (dropWhile (Not \<circ> is_space) (c # cs)) < length (c # cs)"
    by (simp add: length_dropWhile_le less_Suc_eq_le)
  also have "\<dots> \<le> length s" using length_dropWhile_le [of is_space s] * by simp
  finally show "(dropWhile (Not \<circ> is_space) (c # cs), s) \<in> measure length" by simp
qed simp

declare Fields.simps [simp del]

text \<open>\<^verbatim>\<open>strings.Split(s, d)\<close> for a separator of one byte.\<close>

fun split_on :: "char \<Rightarrow> string \<Rightarrow> string list" where
  "split_on d [] = [[]]"
| "split_on d (c # cs) =
     (if c = d then [] # split_on d cs
      else (case split_on d cs of [] \<Rightarrow> [[c]] | w # ws \<Rightarrow> (c # w) # ws))"

text \<open>\<^verbatim>\<open>strings.SplitN(s, d, 2)\<close> for a separator of one byte.\<close>

definition split_n2 :: "char \<Rightarrow> string \<Rightarrow> string list" where
  "split_n2 d s =
     (case dropWhile (\<lambda>c. c \<noteq> d) s of [] \<Rightarrow> [s] | _ # r \<Rightarrow> [takeWhile (\<lambda>c. c \<noteq> d) s, r])"

text \<open>\<^verbatim>\<open>strings.Join(xs, d)\<close>.\<close>

fun join :: "string \<Rightarrow> string list \<Rightarrow> string" where
  "join d [] = []"
| "join d [x] = x"
| "join d (x # y # xs) = x @ d @ join d (y # xs)"

text \<open>\<^verbatim>\<open>strings.Trim\<close>, \<^verbatim>\<open>TrimLeft\<close> (with a cut set) and \<^verbatim>\<open>TrimSpace\<close>.\<close>

definition trim_left :: "(char \<Rightarrow> bool) \<Rightarrow> string \<Rightarrow> string" where
  "trim_left p s = dropWhile p s"

definition trim :: "(char \<Rightarrow> bool) \<Rightarrow> string \<Rightarrow> string" where
  "trim p s = rev (dropWhile p (rev (dropWhile p s)))"

definition trim_space :: "string \<Rightarrow> string" where
  "trim_space s = trim is_space s"

text \<open>
  \<^verbatim>\<open>bytes.Replace(s, old, new, -1)\<close>: every non-overlapping occurrence from the left.
  The program never calls it with an empty \<^verbatim>\<open>old\<close>.
\<close>

function replace_all :: "string \<Rightarrow> string \<Rightarrow> string \<Rightarrow> string" where
  "replace_all old new [] = []"
| "replace_all old new (c # cs) =
     (if old \<noteq> [] \<and> prefix old (c # cs)
      then new @ replace_all old new (drop (length old) (c # cs))
      else c # replace_all old new cs)"
  by pat_completeness auto
termination by (relation "measure (\<lambda>(old, new, s). length s)") auto

section \<open>Slices used as sets\<close>

text \<open>
  Three places of the program keep a set of strings in a slice: a new element is appended if a
  scan does not find it, and an element is deleted by swapping it with the last one and
  shortening the slice.  \<^verbatim>\<open>index_of\<close> is the scan: the length if there is no such element.
\<close>

definition index_of :: "'a \<Rightarrow> 'a list \<Rightarrow> nat" where
  "index_of a xs = length (takeWhile (\<lambda>x. x \<noteq> a) xs)"

definition swap_remove :: "nat \<Rightarrow> 'a list \<Rightarrow> 'a list" where
  "swap_remove i xs =
     take (length xs - 1)
       (if i < length xs - 1 then xs[i := xs ! (length xs - 1), length xs - 1 := xs ! i] else xs)"

section \<open>Library lemmas\<close>

lemma index_of_less_iff: "index_of a xs < length xs \<longleftrightarrow> a \<in> set xs"
  by (induction xs) (auto simp: index_of_def)

lemma index_of_le: "index_of a xs \<le> length xs"
  by (simp add: index_of_def length_takeWhile_le)

lemma nth_index_of: "a \<in> set xs \<Longrightarrow> xs ! index_of a xs = a"
  by (induction xs) (auto simp: index_of_def)

lemma mset_swap_remove:
  assumes "i < length xs" shows "mset (swap_remove i xs) = mset xs - {#xs ! i#}"
proof -
  let ?n = "length xs - 1"
  let ?ys = "xs[i := xs ! ?n, ?n := xs ! i]"
  have n: "?n < length xs" using assms by simp
  have ys: "mset ?ys = mset xs" using mset_swap [OF n assms] by simp
  have "?ys ! ?n = xs ! i" using n by simp
  moreover have ne: "?ys \<noteq> []" using assms by auto
  ultimately have "?ys \<noteq> []" "last ?ys = xs ! i" by (simp_all add: last_conv_nth del: nth_list_update)
  then have "mset (butlast ?ys) = mset xs - {#xs ! i#}"
    using ys by (metis add_mset_remove_trivial append_butlast_last_id mset.simps(1,2) mset_append union_mset_add_mset_right add.right_neutral)
  moreover have "take ?n ?ys = butlast ?ys" by (simp add: butlast_conv_take)
  moreover have "swap_remove i xs = butlast ?ys"
  proof (cases "i < ?n")
    case True
    then show ?thesis using \<open>take ?n ?ys = butlast ?ys\<close> by (simp add: swap_remove_def)
  next
    case False
    then have "i = ?n" using assms by simp
    then show ?thesis using assms by (simp add: swap_remove_def butlast_conv_take)
  qed
  ultimately show ?thesis by simp
qed

lemma length_swap_remove [simp]: "length (swap_remove i xs) = length xs - 1"
  by (simp add: swap_remove_def)

lemma set_swap_remove_index:
  assumes "distinct xs" "a \<in> set xs"
  shows "set (swap_remove (index_of a xs) xs) = set xs - {a}" "distinct (swap_remove (index_of a xs) xs)"
proof -
  have "mset (swap_remove (index_of a xs) xs) = mset xs - {#a#}"
    using assms(2) by (subst mset_swap_remove) (simp_all add: index_of_less_iff nth_index_of)
  then have m: "mset (swap_remove (index_of a xs) xs) = mset (remove1 a xs)" by simp
  show "set (swap_remove (index_of a xs) xs) = set xs - {a}"
    using mset_eq_setD [OF m] assms(1) by simp
  show "distinct (swap_remove (index_of a xs) xs)"
    using mset_eq_imp_distinct_iff [OF m] assms(1) by simp
qed


lemma and_then_simps [simp, outcome_simps]:
  "and_then (Inl p) f = Inl p"
  "and_then (Inr x) f = f x"
  by (simp_all add: and_then_def)

lemma and_then_eq_Inr:
  "and_then m f = Inr y \<longleftrightarrow> (\<exists>x. m = Inr x \<and> f x = Inr y)"
  by (cases m) auto

lemma and_then_InrE [elim!]:
  assumes "and_then m f = Inr y"
  obtains x where "m = Inr x" "f x = Inr y"
  using assms by (auto simp: and_then_eq_Inr)

lemma index_at_simps [simp, outcome_simps]:
  "index_at [] i = Inl IndexOutOfRange"
  "index_at (x # xs) 0 = Inr x"
  "index_at (x # xs) (Suc i) = index_at xs i"
  by (simp_all add: index_at_def)

lemma index_at_numeral [simp, outcome_simps]:
  "index_at (x # xs) (numeral n) = index_at xs (pred_numeral n)"
  "index_at (x # xs) 1 = index_at xs 0"
  by (simp_all add: numeral_eq_Suc)

lemma index_at_eq_Inr: "index_at xs i = Inr x \<longleftrightarrow> i < length xs \<and> xs ! i = x"
  by (simp add: index_at_def)

lemma index_at_eq_Inl: "index_at xs i = Inl p \<longleftrightarrow> length xs \<le> i \<and> p = IndexOutOfRange"
  by (auto simp: index_at_def)

lemma slice_from_eq_Inr: "slice_from xs i = Inr ys \<longleftrightarrow> i \<le> length xs \<and> ys = drop i xs"
  by (auto simp: slice_from_def)

lemma slice_from_simps [simp, outcome_simps]:
  "slice_from xs 0 = Inr xs"
  "slice_from (x # xs) (Suc i) = slice_from xs i"
  "slice_from [] (Suc i) = Inl SliceBounds"
  by (simp_all add: slice_from_def)

lemma slice_from_numeral [simp, outcome_simps]:
  "slice_from (x # xs) (numeral n) = slice_from xs (pred_numeral n)"
  "slice_from (x # xs) 1 = Inr xs"
  by (simp_all add: numeral_eq_Suc)

lemma deref_simps [simp, outcome_simps]:
  "deref None = Inl NilDereference"
  "deref (Some x) = Inr x"
  by (simp_all add: deref_def)

lemma deref_eq_Inr: "deref p = Inr x \<longleftrightarrow> p = Some x"
  by (cases p) auto

lemma code_less_256 [simp]: "code c < 256"
  by (simp add: code_def)

lemma code_inject [simp]: "code c = code d \<longleftrightarrow> c = d"
  by (simp add: code_def)

lemma code_char_of [simp]: "n < 256 \<Longrightarrow> code (char_of n) = n"
  by (simp add: code_def)

lemma lower_char_idem [simp]: "lower_char (lower_char c) = lower_char c"
  by (auto simp: lower_char_def is_upper_def)

lemma to_lower_idem [simp]: "to_lower (to_lower s) = to_lower s"
  by (simp add: to_lower_def comp_def)

lemma to_lower_Nil_iff [simp]: "to_lower s = [] \<longleftrightarrow> s = []" "[] = to_lower s \<longleftrightarrow> s = []"
  by (auto simp: to_lower_def)

lemma to_lower_append: "to_lower (s @ t) = to_lower s @ to_lower t"
  by (simp add: to_lower_def)

lemma length_to_lower [simp]: "length (to_lower s) = length s"
  by (simp add: to_lower_def)

lemma rgx_space_is_space: "rgx_space c \<Longrightarrow> is_space c"
  by (auto simp: rgx_space_def is_space_def)

lemma split_on_not_Nil [simp]: "split_on d s \<noteq> []"
  by (induction s) (auto split: list.splits)

lemma split_on_notin: "d \<notin> set s \<Longrightarrow> split_on d s = [s]"
  by (induction s) auto

lemma join_split_on: "join [d] (split_on d s) = s"
proof (induction s)
  case (Cons c cs)
  obtain w ws where eq: "split_on d cs = w # ws" by (metis list.exhaust split_on_not_Nil)
  with Cons show ?case by (cases ws) auto
qed simp

lemma split_on_sep: "d \<notin> set w \<Longrightarrow> split_on d (w @ d # s) = w # split_on d s"
  by (induction w) auto

lemma split_on_join:
  "xs \<noteq> [] \<Longrightarrow> \<forall>x \<in> set xs. d \<notin> set x \<Longrightarrow> split_on d (join [d] xs) = xs"
proof (induction "[d]" xs rule: join.induct)
  case (3 x y xs)
  then show ?case by (simp add: split_on_sep)
qed (simp_all add: split_on_notin)

lemma takeWhile_dropWhile_append:
  assumes "\<forall>x \<in> set xs. P x" and "ys = [] \<or> \<not> P (hd ys)"
  shows "takeWhile P (xs @ ys) = xs" "dropWhile P (xs @ ys) = ys"
  using assms by (cases ys; simp)+

lemma replace_all_Nil [simp]: "replace_all [] new s = s"
  by (induction s) auto

lemma replace_all_single:
  "replace_all [a] new s = concat (map (\<lambda>c. if c = a then new else [c]) s)"
  by (induction s) (auto simp: prefix_def)

text \<open>Runs of a step function over a list of inputs that may panic.\<close>

fun fold_outcome :: "('a \<Rightarrow> 's \<Rightarrow> 's outcome) \<Rightarrow> 'a list \<Rightarrow> 's \<Rightarrow> 's outcome" where
  "fold_outcome f [] s = Inr s"
| "fold_outcome f (x # xs) s = and_then (f x s) (fold_outcome f xs)"

lemma fold_outcome_invariant:
  assumes "\<And>x s s'. x \<in> set xs \<Longrightarrow> P s \<Longrightarrow> f x s = Inr s' \<Longrightarrow> P s'"
    and "P s" and "fold_outcome f xs s = Inr s'"
  shows "P s'"
  using assms
proof (induction xs arbitrary: s)
  case (Cons x xs)
  then obtain t where "f x s = Inr t" "fold_outcome f xs t = Inr s'" by auto
  with Cons show ?case by (metis list.set_intros)
qed simp

lemma fold_outcome_append:
  "fold_outcome f (xs @ ys) s = and_then (fold_outcome f xs s) (fold_outcome f ys)"
  by (induction xs arbitrary: s) (auto simp: and_then_def split: sum.splits)

end
