(* ===== verification/Hosts.thy ===== *)
theory Hosts
  imports Prelude
begin

text \<open>
  Hosts and host masks, \<^verbatim>\<open>src/irc/hosts.go\<close>: the nick, user and host name of
  \<^verbatim>\<open>nick!user@host\<close>, the two regular expressions that validate and split hosts and
  masks, and the wildcard matcher \<^verbatim>\<open>isMatch\<close>.  The loop of \<^verbatim>\<open>isMatch\<close> walks two
  indices; here the two suffixes that are left are its arguments.
\<close>

section \<open>The regular expressions\<close>

text \<open>The class \<^verbatim>\<open>\w\<close> and the character classes of \<^verbatim>\<open>rgxHost\<close> and \<^verbatim>\<open>rgxMask\<close>.\<close>

definition word_char :: "char \<Rightarrow> bool" where
  "word_char c \<longleftrightarrow> is_digit c \<or> is_upper c \<or> is_lower c \<or> c = CHR ''_''"

definition nick_char :: "char \<Rightarrow> bool" where
  "nick_char c \<longleftrightarrow> word_char c \<or> (91 \<le> code c \<and> code c \<le> 96)"

definition is_wild :: "char \<Rightarrow> bool" where
  "is_wild c \<longleftrightarrow> c = CHR ''?'' \<or> c = CHR ''*''"

definition mask_nick_char :: "char \<Rightarrow> bool" where
  "mask_nick_char c \<longleftrightarrow> nick_char c \<or> is_wild c"

definition user_char :: "char \<Rightarrow> bool" where
  "user_char c \<longleftrightarrow> c \<noteq> CHR 0x00 \<and> c \<noteq> CHR ''@'' \<and> \<not> rgx_space c"

definition host_char :: "char \<Rightarrow> bool" where
  "host_char c \<longleftrightarrow> c \<noteq> CHR 0x00 \<and> \<not> rgx_space c"

text \<open>
  \<^verbatim>\<open>FindStringSubmatch\<close> of \<^verbatim>\<open>^(nick+)!(user+)@(host+)$\<close>, scanned from the left: no
  nick character is an exclamation mark and no user character is an at sign, so each group is
  the longest run of its class.
\<close>

definition find_submatch :: "(char \<Rightarrow> bool) \<Rightarrow> string \<Rightarrow> (string \<times> string \<times> string) option" where
  "find_submatch nc s =
     (case dropWhile nc s of
        c # r \<Rightarrow>
          (if c = CHR ''!'' then
             (case dropWhile user_char r of
                d # h \<Rightarrow>
                  (if d = CHR ''@'' \<and> takeWhile nc s \<noteq> [] \<and> takeWhile user_char r \<noteq> []
                      \<and> h \<noteq> [] \<and> list_all host_char h
                   then Some (takeWhile nc s, takeWhile user_char r, h) else None)
              | [] \<Rightarrow> None)
           else None)
      | [] \<Rightarrow> None)"

definition rgxHost :: "string \<Rightarrow> (string \<times> string \<times> string) option" where
  "rgxHost s = find_submatch nick_char s"

definition rgxMask :: "string \<Rightarrow> (string \<times> string \<times> string) option" where
  "rgxMask s = find_submatch mask_nick_char s"

section \<open>Hosts\<close>

definition Nick :: "string \<Rightarrow> string" where
  "Nick host = takeWhile (\<lambda>c. c \<noteq> CHR ''!'' \<and> c \<noteq> CHR ''@'') host"

definition Split :: "string \<Rightarrow> string \<times> string \<times> string" where
  "Split host = (case rgxHost host of None \<Rightarrow> ([], [], []) | Some fragments \<Rightarrow> fragments)"

definition Username :: "string \<Rightarrow> string" where
  "Username host = (case Split host of (_, user, _) \<Rightarrow> user)"

definition Hostname :: "string \<Rightarrow> string" where
  "Hostname host = (case Split host of (_, _, hostname) \<Rightarrow> hostname)"

definition Host_IsValid :: "string \<Rightarrow> bool" where
  "Host_IsValid h \<longleftrightarrow> rgxHost h \<noteq> None"

definition Mask_IsValid :: "string \<Rightarrow> bool" where
  "Mask_IsValid m \<longleftrightarrow> rgxMask m \<noteq> None"

definition Mask_Split :: "string \<Rightarrow> string \<times> string \<times> string" where
  "Mask_Split m = (case rgxMask m of None \<Rightarrow> ([], [], []) | Some fragments \<Rightarrow> fragments)"

section \<open>The matcher\<close>

text \<open>
  The budget a run of wildcards gives (\<^verbatim>\<open>-1\<close> with a star in it, else its length), and the
  main loop.  \<^verbatim>\<open>None\<close> is its early \<^verbatim>\<open>return false\<close>; otherwise the result is what is
  left of the mask and of the host and the value of \<^verbatim>\<open>consume\<close>.
\<close>

definition run_budget :: "string \<Rightarrow> int" where
  "run_budget run = (if CHR ''*'' \<in> set run then -1 else int (length run))"

function isMatch_loop :: "string \<Rightarrow> string \<Rightarrow> int \<Rightarrow> (string \<times> string \<times> int) option" where
  "isMatch_loop [] hs consume = Some ([], hs, consume)"
| "isMatch_loop (m # ms) [] consume = Some (m # ms, [], consume)"
| "isMatch_loop (m # ms) (h # hs) consume =
     (if is_wild m then
        isMatch_loop (dropWhile is_wild (m # ms)) (h # hs) (run_budget (takeWhile is_wild (m # ms)))
      else if m = h then isMatch_loop ms hs 0
      else if consume \<noteq> 0 then isMatch_loop (m # ms) hs (consume - 1)
      else None)"
  by pat_completeness auto
termination
  by (relation "measure (\<lambda>(ms, hs, c). length ms + length hs)")
    (auto simp: length_dropWhile_le less_Suc_eq_le)

text \<open>What follows the loop: trailing wildcards, the rest of the budget, the final test.\<close>

definition isMatch_end :: "string \<times> string \<times> int \<Rightarrow> bool" where
  "isMatch_end r = (case r of (ms, hs, consume) \<Rightarrow>
     let rest = dropWhile is_wild ms;
         budget = (if consume < 0 then int (length hs) else consume)
     in \<not> (rest \<noteq> [] \<or> budget < int (length hs)))"

definition isMatch :: "string \<Rightarrow> string \<Rightarrow> bool" where
  "isMatch hs ms =
     (if ms = [] then hs = []
      else (case isMatch_loop ms hs 0 of None \<Rightarrow> False | Some r \<Rightarrow> isMatch_end r))"

definition Mask_Match :: "string \<Rightarrow> string \<Rightarrow> bool" where
  "Mask_Match m h = isMatch h m"

definition Host_Match :: "string \<Rightarrow> string \<Rightarrow> bool" where
  "Host_Match h m = isMatch h m"

text \<open>
  The specification of matching: a star stands for any string, a question mark for at most one
  character, every other character for itself.
\<close>

fun glob :: "string \<Rightarrow> string \<Rightarrow> bool" where
  "glob [] hs = (hs = [])"
| "glob (m # ms) [] = (is_wild m \<and> glob ms [])"
| "glob (m # ms) (h # hs) =
     (if m = CHR ''*'' then glob ms (h # hs) \<or> glob (m # ms) hs
      else if m = CHR ''?'' then glob ms (h # hs) \<or> glob ms hs
      else m = h \<and> glob ms hs)"

section \<open>Lemmas on the regular expressions\<close>

text \<open>What the expression describes, without reference to a matching strategy.\<close>

definition rgx_lang :: "(char \<Rightarrow> bool) \<Rightarrow> string \<Rightarrow> string \<times> string \<times> string \<Rightarrow> bool" where
  "rgx_lang nc s f = (case f of (n, u, h) \<Rightarrow>
     s = n @ CHR ''!'' # u @ CHR ''@'' # h \<and> n \<noteq> [] \<and> u \<noteq> [] \<and> h \<noteq> []
     \<and> (\<forall>c \<in> set n. nc c) \<and> (\<forall>c \<in> set u. user_char c) \<and> (\<forall>c \<in> set h. host_char c))"

lemma user_char_at [simp]: "\<not> user_char CHR ''@''"
  by (simp add: user_char_def)

lemma nick_char_delims [simp]:
  "\<not> nick_char CHR ''!''" "\<not> nick_char CHR ''@''"
  "\<not> mask_nick_char CHR ''!''" "\<not> mask_nick_char CHR ''@''"
  by (simp_all add: mask_nick_char_def is_wild_def nick_char_def word_char_def is_digit_def
      is_upper_def is_lower_def code_def)

lemma find_submatch_lang:
  assumes "find_submatch nc s = Some f" shows "rgx_lang nc s f"
proof -
  from assms obtain r h where
    r: "dropWhile nc s = CHR ''!'' # r" and h: "dropWhile user_char r = CHR ''@'' # h"
    and f: "f = (takeWhile nc s, takeWhile user_char r, h)"
    and ne: "takeWhile nc s \<noteq> []" "takeWhile user_char r \<noteq> []" "h \<noteq> []" "list_all host_char h"
    by (auto simp: find_submatch_def split: list.splits if_splits)
  have "s = takeWhile nc s @ CHR ''!'' # takeWhile user_char r @ CHR ''@'' # h"
    using r h by (metis takeWhile_dropWhile_id)
  then show ?thesis using f ne
    by (auto simp: rgx_lang_def list_all_iff dest: set_takeWhileD)
qed

lemma lang_find_submatch:
  assumes "rgx_lang nc s f" "\<not> nc CHR ''!''" shows "find_submatch nc s = Some f"
proof -
  obtain n u h where f: "f = (n, u, h)" by (cases f)
  have n: "takeWhile nc s = n" "dropWhile nc s = CHR ''!'' # u @ CHR ''@'' # h"
    using assms f by (auto simp: rgx_lang_def takeWhile_dropWhile_append)
  have u: "takeWhile user_char (u @ CHR ''@'' # h) = u" "dropWhile user_char (u @ CHR ''@'' # h) = CHR ''@'' # h"
    using assms f by (auto simp: rgx_lang_def takeWhile_dropWhile_append)
  show ?thesis using assms f by (simp add: find_submatch_def n u rgx_lang_def list_all_iff)
qed

lemma find_submatch_iff:
  "\<not> nc CHR ''!'' \<Longrightarrow> find_submatch nc s = Some f \<longleftrightarrow> rgx_lang nc s f"
  by (metis find_submatch_lang lang_find_submatch)

lemma rgxHost_iff: "rgxHost s = Some f \<longleftrightarrow> rgx_lang nick_char s f"
  by (simp add: rgxHost_def find_submatch_iff)

lemma rgxMask_iff: "rgxMask s = Some f \<longleftrightarrow> rgx_lang mask_nick_char s f"
  by (simp add: rgxMask_def find_submatch_iff)

lemma Nick_append:
  assumes "CHR ''!'' \<notin> set n" "CHR ''@'' \<notin> set n"
  shows "Nick (n @ CHR ''!'' # r) = n"
  using assms unfolding Nick_def by (subst takeWhile_dropWhile_append) auto

lemma Nick_plain: "CHR ''!'' \<notin> set n \<Longrightarrow> CHR ''@'' \<notin> set n \<Longrightarrow> Nick n = n"
  unfolding Nick_def by (subst takeWhile_eq_all_conv) auto

lemma Nick_notin: "CHR ''!'' \<notin> set (Nick h)" "CHR ''@'' \<notin> set (Nick h)"
  unfolding Nick_def by (auto dest: set_takeWhileD)

lemma Nick_idem [simp]: "Nick (Nick h) = Nick h"
  by (simp add: Nick_plain Nick_notin)

section \<open>Lemmas on the matcher\<close>

lemma is_wild_simps [simp]: "is_wild CHR ''*''" "is_wild CHR ''?''"
  by (simp_all add: is_wild_def)

lemma glob_drop_wild: "is_wild w \<Longrightarrow> glob ms hs \<Longrightarrow> glob (w # ms) hs"
  by (cases hs) (auto simp: is_wild_def)

lemma glob_drop_wilds: "\<forall>c \<in> set ws. is_wild c \<Longrightarrow> glob ms hs \<Longrightarrow> glob (ws @ ms) hs"
  by (induction ws) (auto intro: glob_drop_wild)

lemma glob_star_any: "glob ms hs \<Longrightarrow> glob (CHR ''*'' # ms) (xs @ hs)"
  by (induction xs) (auto intro: glob_drop_wild)

lemma glob_star_mono:
  assumes "\<And>hs. glob ms hs \<Longrightarrow> glob ms' hs" and "glob (CHR ''*'' # ms) hs"
  shows "glob (CHR ''*'' # ms') hs"
  using assms(2) by (induction hs) (auto simp: assms(1))

lemma glob_star_in_run:
  assumes "\<forall>c \<in> set run. is_wild c" "CHR ''*'' \<in> set run" "glob (CHR ''*'' # ms) hs"
  shows "glob (run @ ms) hs"
  using assms
proof (induction run)
  case (Cons r run)
  show ?case
  proof (cases "r = CHR ''*''")
    case True
    have "glob (CHR ''*'' # run @ ms) hs"
      by (rule glob_star_mono [OF _ Cons.prems(3)]) (use Cons.prems(1) in \<open>auto intro: glob_drop_wilds\<close>)
    with True show ?thesis by simp
  next
    case False
    with Cons show ?thesis by (auto intro: glob_drop_wild)
  qed
qed simp

text \<open>The wildcards that the budget \<^verbatim>\<open>consume\<close> stands for.\<close>

definition pending :: "int \<Rightarrow> string" where
  "pending c = (if c < 0 then ''*'' else replicate (nat c) CHR ''?'')"

lemma pending_wild: "\<forall>w \<in> set (pending c). is_wild w"
  by (auto simp: pending_def)

lemma glob_questions: "length hs \<le> n \<Longrightarrow> glob (replicate n CHR ''?'') hs"
proof (induction n arbitrary: hs)
  case (Suc n)
  then show ?case by (cases hs) auto
qed simp

lemma glob_end: "isMatch_end (ms, hs, c) \<Longrightarrow> glob (pending c @ ms) hs"
proof -
  assume e: "isMatch_end (ms, hs, c)"
  then have ms: "\<forall>w \<in> set ms. is_wild w" by (auto simp: isMatch_end_def Let_def)
  have "glob (pending c) hs"
    using e glob_star_any [of "[]" "[]" hs]
    by (auto simp: pending_def isMatch_end_def Let_def intro: glob_questions)
  then show ?thesis using ms
  proof (induction "pending c" arbitrary: hs c rule: list.induct)
    case Nil
    then show ?case using glob_drop_wilds [of ms "[]" "[]"] by simp
  next
    case (Cons x xs)
    have *: "glob (ws @ ms) hs" if "glob ws hs" for ws hs
      using that ms glob_drop_wilds [of ms "[]" "[]"] by (induction ws hs rule: glob.induct) auto
    show ?case using * [of "pending c" hs] Cons.prems by simp
  qed
qed

lemma glob_run_budget:
  assumes "\<forall>w \<in> set run. is_wild w" "glob (pending (run_budget run) @ ms) hs"
  shows "glob (run @ ms) hs"
proof (cases "CHR ''*'' \<in> set run")
  case True
  with assms show ?thesis by (auto simp: run_budget_def pending_def intro: glob_star_in_run)
next
  case False
  then have "\<forall>x \<in> set run. x = CHR ''?''" using assms by (auto simp: is_wild_def)
  then have "replicate (length run) CHR ''?'' = run" by (metis replicate_eqI)
  with False assms show ?thesis by (simp add: run_budget_def pending_def)
qed

lemma isMatch_loop_sound:
  "isMatch_loop ms hs c = Some r \<Longrightarrow> isMatch_end r \<Longrightarrow> glob (pending c @ ms) hs"
proof (induction ms hs c rule: isMatch_loop.induct)
  case (1 hs c)
  then show ?case using glob_end by fastforce
next
  case (2 m ms c)
  then show ?case using glob_end by fastforce
next
  case (3 m ms h hs c)
  let ?run = "takeWhile is_wild (m # ms)" and ?rest = "dropWhile is_wild (m # ms)"
  consider (wild) "is_wild m" | (lit) "\<not> is_wild m" "m = h" | (skip) "\<not> is_wild m" "m \<noteq> h" "c \<noteq> 0"
    using 3 by (auto split: if_splits)
  then show ?case
  proof cases
    case wild
    have run: "\<forall>w \<in> set ?run. is_wild w" by (auto dest: set_takeWhileD)
    have "glob (pending (run_budget ?run) @ ?rest) (h # hs)"
      using "3.IH"(1) [OF wild] 3 wild by simp
    then have "glob (?run @ ?rest) (h # hs)" by (rule glob_run_budget [OF run])
    then have "glob (m # ms) (h # hs)" by (simp only: takeWhile_dropWhile_id)
    then show ?thesis using pending_wild glob_drop_wilds by blast
  next
    case lit
    then have "glob (pending 0 @ ms) hs" using 3 by simp
    then have "glob (m # ms) (h # hs)" using lit by (auto simp: pending_def is_wild_def)
    then show ?thesis using pending_wild glob_drop_wilds by blast
  next
    case skip
    then have g: "glob (pending (c - 1) @ m # ms) hs" using 3 by simp
    show ?thesis
    proof (cases "c < 0")
      case True
      with g show ?thesis by (simp add: pending_def)
    next
      case False
      with skip have "pending c = CHR ''?'' # pending (c - 1)"
        by (cases "nat c") (auto simp: pending_def nat_diff_distrib' dest: arg_cong [of _ _ int])
      with g show ?thesis by simp
    qed
  qed
qed

text \<open>Behaviour of the loop on a literal mask, and on a star followed by a literal.\<close>

lemma isMatch_loop_literal:
  assumes "\<forall>c \<in> set ms. \<not> is_wild c"
  shows "(case isMatch_loop ms hs 0 of None \<Rightarrow> False | Some r \<Rightarrow> isMatch_end r) \<longleftrightarrow> hs = ms"
  using assms
proof (induction ms arbitrary: hs)
  case Nil
  then show ?case by (simp add: isMatch_end_def)
next
  case (Cons m ms)
  then show ?case by (cases hs) (auto simp: isMatch_end_def)
qed

lemma isMatch_loop_star_skip:
  assumes "c < 0" "\<not> is_wild x" "x \<notin> set pre"
  shows "isMatch_loop (x # ms) (pre @ x # hs) c = isMatch_loop ms hs 0"
  using assms by (induction pre arbitrary: c) auto

lemma isMatch_loop_star:
  assumes "\<not> is_wild x" "x \<notin> set pre"
  shows "isMatch_loop (CHR ''*'' # x # ms) (pre @ x # hs) c = isMatch_loop ms hs 0"
  using assms isMatch_loop_star_skip [OF _ assms, of "-1" ms hs]
  by (cases pre) (auto simp: run_budget_def)

section \<open>Properties\<close>

text \<open>
  C33: Matching is sound.  Whenever \<^verbatim>\<open>isMatch\<close> accepts a host for a mask, the host is an
  instance of the mask: stars stand for arbitrary strings, question marks for at most one
  character, everything else for itself.
\<close>

theorem isMatch_sound: "isMatch hs ms \<Longrightarrow> glob ms hs"
proof -
  assume m: "isMatch hs ms"
  show "glob ms hs"
  proof (cases "ms = []")
    case True
    with m show ?thesis by (simp add: isMatch_def)
  next
    case False
    with m obtain r where "isMatch_loop ms hs 0 = Some r" "isMatch_end r"
      by (auto simp: isMatch_def split: option.splits)
    then have "glob (pending 0 @ ms) hs" by (rule isMatch_loop_sound)
    then show ?thesis by (simp add: pending_def)
  qed
qed

theorem isMatch_sound_witness:
  "isMatch ''nick!user@host.com'' ''n?ck!*@*.com'' \<and> glob ''n?ck!*@*.com'' ''nick!user@host.com''"
proof -
  have m: "isMatch ''nick!user@host.com'' ''n?ck!*@*.com''" by code_simp
  then show ?thesis using isMatch_sound [OF m] by simp
qed

text \<open>
  Bans by host name are exact.  On a valid host, the mask \<^verbatim>\<open>*!*@d\<close> (the usual ban
  mask, with no wildcard in \<^verbatim>\<open>d\<close>) matches if and only if the host name is \<^verbatim>\<open>d\<close>.
\<close>

theorem isMatch_host_ban:
  assumes "rgxHost h = Some (n, u, d')" and "\<forall>c \<in> set d. \<not> is_wild c"
  shows "isMatch h (''*!*@'' @ d) \<longleftrightarrow> d' = d"
proof -
  have h: "h = n @ CHR ''!'' # u @ CHR ''@'' # d'"
    and n: "CHR ''!'' \<notin> set n" and u: "CHR ''@'' \<notin> set u"
    using assms(1) by (auto simp: rgxHost_iff rgx_lang_def)
  have "isMatch_loop (''*!*@'' @ d) h 0 = isMatch_loop (CHR ''*'' # CHR ''@'' # d) (u @ CHR ''@'' # d') 0"
    using isMatch_loop_star [OF _ n, of "CHR ''*'' # CHR ''@'' # d" "u @ CHR ''@'' # d'" 0]
    by (simp add: h is_wild_def)
  also have "\<dots> = isMatch_loop d d' 0"
    by (rule isMatch_loop_star [OF _ u]) (simp add: is_wild_def)
  finally show ?thesis using isMatch_loop_literal [OF assms(2), of d'] by (simp add: isMatch_def)
qed

theorem isMatch_host_ban_witness:
  "rgxHost ''nick!user@host.com'' = Some (''nick'', ''user'', ''host.com'')
   \<and> isMatch ''nick!user@host.com'' ''*!*@host.com'' \<and> \<not> isMatch ''nick!user@host.com'' ''*!*@host''"
proof -
  have r: "rgxHost ''nick!user@host.com'' = Some (''nick'', ''user'', ''host.com'')" by code_simp
  have w: "\<forall>c \<in> set ''host.com''. \<not> is_wild c" by (simp add: is_wild_def)
  have w': "\<forall>c \<in> set ''host''. \<not> is_wild c" by (simp add: is_wild_def)
  show ?thesis using r isMatch_host_ban [OF r w] isMatch_host_ban [OF r w'] by simp
qed

text \<open>
  Matching is not complete.  The matcher never backtracks, so a star stops at the first
  occurrence of the character that follows it: the mask \<^verbatim>\<open>*ab\<close> describes \<^verbatim>\<open>aab\<close>, but
  \<^verbatim>\<open>isMatch\<close> rejects it, and so a ban on \<^verbatim>\<open>*!*@*.example.com\<close> misses the host
  \<^verbatim>\<open>a.b.example.com\<close>.
\<close>

theorem isMatch_incomplete:
  "glob ''*ab'' ''aab'' \<and> \<not> isMatch ''aab'' ''*ab''
   \<and> glob ''*!*@*.example.com'' ''n!u@a.b.example.com''
   \<and> \<not> isMatch ''n!u@a.b.example.com'' ''*!*@*.example.com''"
  by code_simp

text \<open>
  Splitting a host inverts its construction.  \<^verbatim>\<open>Split\<close> returns a non-empty nick exactly
  when the host is \<^verbatim>\<open>nick!user@host\<close> with non-empty parts over the classes of the regular
  expression; the parts then put together are the host, \<^verbatim>\<open>Nick\<close> agrees with the first of
  them, and \<^verbatim>\<open>IsValid\<close> holds.
\<close>

theorem Split_iff:
  "(Split h = (n, u, d) \<and> n \<noteq> []) \<longleftrightarrow> rgx_lang nick_char h (n, u, d)
     \<and> Host_IsValid h \<and> Nick h = n \<and> Username h = u \<and> Hostname h = d"
proof
  assume l: "Split h = (n, u, d) \<and> n \<noteq> []"
  then have r: "rgxHost h = Some (n, u, d)" by (auto simp: Split_def split: option.splits)
  then have lang: "rgx_lang nick_char h (n, u, d)" by (simp add: rgxHost_iff)
  then have "CHR ''!'' \<notin> set n" "CHR ''@'' \<notin> set n" by (auto simp: rgx_lang_def)
  then have "Nick h = n" using lang by (simp add: rgx_lang_def Nick_append)
  with l r lang show "rgx_lang nick_char h (n, u, d) \<and> Host_IsValid h \<and> Nick h = n
      \<and> Username h = u \<and> Hostname h = d"
    by (simp add: Host_IsValid_def Username_def Hostname_def)
next
  assume "rgx_lang nick_char h (n, u, d) \<and> Host_IsValid h \<and> Nick h = n \<and> Username h = u \<and> Hostname h = d"
  then have "rgxHost h = Some (n, u, d)" "n \<noteq> []" by (auto simp: rgxHost_iff rgx_lang_def)
  then show "Split h = (n, u, d) \<and> n \<noteq> []" by (simp add: Split_def)
qed

end
