(* ===== verification/Ctcp.thy ===== *)
theory Ctcp
  imports Prelude
begin

text \<open>
  Client-to-client messages, \<^verbatim>\<open>src/irc/ctcp.go\<close>: recognising, packing and unpacking a
  delimited message with its two levels of quoting.  The optional data part is an option: a nil
  slice is \<^verbatim>\<open>None\<close>.
\<close>

section \<open>The code\<close>

definition ctcpDelim :: byte where "ctcpDelim = CHR 0x01"
definition ctcpLowQuote :: byte where "ctcpLowQuote = CHR 0x10"
definition ctcpHighQuote :: byte where "ctcpHighQuote = CHR 0x5C"
definition ctcpSep :: byte where "ctcpSep = CHR 0x20"

definition IsCTCP :: "string \<Rightarrow> bool outcome" where
  "IsCTCP msg =
     and_then (index_at msg 0) (\<lambda>first.
       if ctcpDelim = first then
         and_then (index_at msg (length msg - 1)) (\<lambda>last. Inr (ctcpDelim = last))
       else Inr False)"

definition ctcpUnpack :: "string \<Rightarrow> string \<times> string option" where
  "ctcpUnpack msg =
     (case split_n2 ctcpSep msg of
        [tag, data] \<Rightarrow> (tag, Some data)
      | splits \<Rightarrow> (hd splits, None))"

definition ctcpPack :: "string \<Rightarrow> string option \<Rightarrow> string" where
  "ctcpPack tag data =
     (case data of
        None \<Rightarrow> tag
      | Some d \<Rightarrow> (if d = [] then tag else tag @ [ctcpSep] @ d))"

definition ctcpHighLevelEscape :: "string \<Rightarrow> string" where
  "ctcpHighLevelEscape msg =
     (let out = replace_all [ctcpHighQuote] [ctcpHighQuote, ctcpHighQuote] msg
      in replace_all [CHR 0x01] [ctcpHighQuote, CHR 0x61] out)"

definition ctcpHighLevelUnescape :: "string \<Rightarrow> string" where
  "ctcpHighLevelUnescape msg =
     (let out = replace_all [ctcpHighQuote, CHR 0x61] [CHR 0x01] msg
      in replace_all [ctcpHighQuote, ctcpHighQuote] [ctcpHighQuote] out)"

definition ctcpLowLevelEscape :: "string \<Rightarrow> string" where
  "ctcpLowLevelEscape msg =
     (let out = replace_all [ctcpLowQuote] [ctcpLowQuote, ctcpLowQuote] msg;
          out = replace_all [CHR 0x0D] [ctcpLowQuote, CHR 0x0D] out;
          out = replace_all [CHR 0x0A] [ctcpLowQuote, CHR 0x0A] out
      in replace_all [CHR 0x00] [ctcpLowQuote, CHR 0x00] out)"

definition ctcpLowLevelUnescape :: "string \<Rightarrow> string" where
  "ctcpLowLevelUnescape msg =
     (let out = replace_all [ctcpLowQuote, CHR 0x00] [CHR 0x00] msg;
          out = replace_all [ctcpLowQuote, CHR 0x0A] [CHR 0x0A] out;
          out = replace_all [ctcpLowQuote, CHR 0x0D] [CHR 0x0D] out
      in replace_all [ctcpLowQuote, ctcpLowQuote] [ctcpLowQuote] out)"

text \<open>\<^verbatim>\<open>msg[1 : len(msg)-1]\<close> is out of bounds for fewer than two bytes.\<close>

definition CTCPunpack :: "string \<Rightarrow> (string \<times> string option) outcome" where
  "CTCPunpack msg =
     (if length msg < 2 then Inl SliceBounds
      else
        let body = ctcpLowLevelUnescape (butlast (tl msg));
            (tag, data) = ctcpUnpack body
        in Inr (ctcpHighLevelUnescape tag, map_option ctcpHighLevelUnescape data))"

definition CTCPpack :: "string \<Rightarrow> string option \<Rightarrow> string" where
  "CTCPpack tag data =
     (let data' = map_option ctcpHighLevelEscape data;
          tag' = ctcpHighLevelEscape tag;
          ret = ctcpLowLevelEscape (ctcpPack tag' data')
      in [ctcpDelim] @ ret @ [ctcpDelim])"

text \<open>The variants on strings: \<^verbatim>\<open>[]byte(data)\<close> is never nil, \<^verbatim>\<open>string(nil)\<close> is empty.\<close>

definition IsCTCPString :: "string \<Rightarrow> bool outcome" where
  "IsCTCPString msg =
     and_then (index_at msg 0) (\<lambda>first.
       if ctcpDelim = first then
         and_then (index_at msg (length msg - 1)) (\<lambda>last. Inr (ctcpDelim = last))
       else Inr False)"

definition CTCPunpackString :: "string \<Rightarrow> (string \<times> string) outcome" where
  "CTCPunpackString msg =
     and_then (CTCPunpack msg) (\<lambda>(t, d). Inr (t, case d of None \<Rightarrow> [] | Some d \<Rightarrow> d))"

definition CTCPpackString :: "string \<Rightarrow> string \<Rightarrow> string" where
  "CTCPpackString tag data = CTCPpack tag (Some data)"

lemmas ctcp_consts = ctcpDelim_def ctcpLowQuote_def ctcpHighQuote_def ctcpSep_def

section \<open>Quoting\<close>

text \<open>Putting \<^verbatim>\<open>q\<close> before every \<^verbatim>\<open>x\<close>, and doubling every \<^verbatim>\<open>q\<close>.\<close>

definition quoted :: "char \<Rightarrow> char \<Rightarrow> string \<Rightarrow> string" where
  "quoted q x s = concat (map (\<lambda>c. if c = x then [q, x] else [c]) s)"

lemma replace_quoted: "replace_all [x] [q, x] s = quoted q x s"
  by (simp add: replace_all_single quoted_def)

lemma quoted_simps [simp]:
  "quoted q x [] = []"
  "quoted q x (c # s) = (if c = x then q # x # quoted q x s else c # quoted q x s)"
  by (simp_all add: quoted_def)

lemma quoted_hd: "q \<noteq> x \<Longrightarrow> \<not> prefix [x] (quoted q x s)"
  by (cases s) auto

lemma unquote_quoted: "q \<noteq> x \<Longrightarrow> replace_all [q, x] [x] (quoted q x s) = s"
proof (induction s)
  case (Cons c s)
  then show ?case using quoted_hd [of q x s] by auto
qed simp

lemma undouble_quoted: "replace_all [q, q] [q] (quoted q q s) = s"
proof (induction s)
  case (Cons c s)
  then show ?case by auto
qed simp

text \<open>Writing \<^verbatim>\<open>d\<close> as the pair \<^verbatim>\<open>q a\<close> is undone where no such pair is in the text.\<close>

definition paired :: "char \<Rightarrow> char \<Rightarrow> char \<Rightarrow> string \<Rightarrow> string" where
  "paired d q a s = concat (map (\<lambda>c. if c = d then [q, a] else [c]) s)"

lemma replace_paired: "replace_all [d] [q, a] s = paired d q a s"
  by (simp add: replace_all_single paired_def)

lemma paired_simps [simp]:
  "paired d q a [] = []"
  "paired d q a (c # s) = (if c = d then q # a # paired d q a s else c # paired d q a s)"
  by (simp_all add: paired_def)

lemma paired_hd: "prefix [a] (paired d q a s) \<Longrightarrow> a \<noteq> q \<Longrightarrow> prefix [a] s"
  by (cases s) (auto split: if_splits)

lemma unpair_paired:
  assumes "\<not> sublist [q, a] s" "a \<noteq> q" "d \<noteq> q"
  shows "replace_all [q, a] [d] (paired d q a s) = s"
  using assms
proof (induction s)
  case (Cons c s)
  then have ns: "\<not> sublist [q, a] s" and np: "\<not> (c = q \<and> prefix [a] s)"
    by (auto simp: sublist_Cons_right prefix_def)
  then show ?case using Cons paired_hd [of a d q s] by auto
qed simp

lemma sublist_pair_doubled:
  assumes "a \<noteq> q" shows "sublist [q, a] (quoted q q s) \<longleftrightarrow> sublist [q, a] s"
proof (induction s)
  case (Cons c s)
  have "prefix [a] (quoted q q s) \<longleftrightarrow> prefix [a] s" using assms by (cases s) auto
  with Cons assms show ?case by (auto simp: sublist_Cons_right)
qed simp

lemma high_level_roundtrip:
  assumes "\<not> sublist [ctcpHighQuote, CHR 0x61] s"
  shows "ctcpHighLevelUnescape (ctcpHighLevelEscape s) = s"
proof -
  let ?q = ctcpHighQuote
  have "\<not> sublist [?q, CHR 0x61] (quoted ?q ?q s)"
    using assms by (simp add: sublist_pair_doubled ctcpHighQuote_def)
  then have "replace_all [?q, CHR 0x61] [CHR 0x01] (paired (CHR 0x01) ?q (CHR 0x61) (quoted ?q ?q s))
      = quoted ?q ?q s"
    by (rule unpair_paired) (simp_all add: ctcpHighQuote_def)
  then show ?thesis
    by (simp add: ctcpHighLevelUnescape_def ctcpHighLevelEscape_def replace_quoted replace_paired
        undouble_quoted)
qed

lemma low_level_roundtrip: "ctcpLowLevelUnescape (ctcpLowLevelEscape s) = s"
  by (simp add: ctcpLowLevelUnescape_def ctcpLowLevelEscape_def Let_def replace_quoted)
    (simp add: unquote_quoted undouble_quoted ctcpLowQuote_def)

lemma set_quoted: "set (quoted q x s) \<subseteq> insert q (set s)"
  by (induction s) auto

lemma set_paired: "set (paired d q a s) \<subseteq> {q, a} \<union> (set s - {d})"
  by (induction s) auto

lemma set_high_level_escape:
  "set (ctcpHighLevelEscape s) \<subseteq> {ctcpHighQuote, CHR 0x61} \<union> (set s - {ctcpDelim})"
  using set_paired [of ctcpDelim ctcpHighQuote "CHR 0x61" "quoted ctcpHighQuote ctcpHighQuote s"]
    set_quoted [of ctcpHighQuote ctcpHighQuote s]
  by (auto simp: ctcpHighLevelEscape_def replace_quoted replace_paired ctcpDelim_def)

lemma set_low_level_escape: "set (ctcpLowLevelEscape s) \<subseteq> insert ctcpLowQuote (set s)"
  unfolding ctcpLowLevelEscape_def Let_def replace_quoted
  by (intro order_trans [OF set_quoted] insert_subsetI) (auto dest: subsetD [OF set_quoted])

lemma split_n2_notin: "d \<notin> set s \<Longrightarrow> split_n2 d s = [s]"
proof -
  assume "d \<notin> set s"
  then have "dropWhile (\<lambda>c. c \<noteq> d) s = []" by (auto simp: dropWhile_eq_Nil_conv)
  then show ?thesis by (simp only: split_n2_def list.case)
qed

lemma split_n2_append: "d \<notin> set s \<Longrightarrow> split_n2 d (s @ d # t) = [s, t]"
proof -
  assume "d \<notin> set s"
  then have "\<forall>x \<in> set s. x \<noteq> d" by auto
  note td = takeWhile_dropWhile_append [of s "\<lambda>c. c \<noteq> d" "d # t", OF this]
  then have "takeWhile (\<lambda>c. c \<noteq> d) (s @ d # t) = s" "dropWhile (\<lambda>c. c \<noteq> d) (s @ d # t) = d # t"
    by simp_all
  then show ?thesis by (simp add: split_n2_def)
qed

lemma ctcpUnpack_ctcpPack:
  assumes "ctcpSep \<notin> set tag"
  shows "ctcpUnpack (ctcpPack tag data)
         = (tag, case data of None \<Rightarrow> None | Some d \<Rightarrow> (if d = [] then None else Some d))"
  using assms
  by (auto simp: ctcpUnpack_def ctcpPack_def split_n2_notin split_n2_append split: option.splits)

lemma ctcpHighLevelEscape_Nil_iff: "ctcpHighLevelEscape s = [] \<longleftrightarrow> s = []"
proof -
  have "quoted q x s = [] \<longleftrightarrow> s = []" "paired d q x s = [] \<longleftrightarrow> s = []" for d q x and s :: string
    by (cases s; simp)+
  then show ?thesis by (simp add: ctcpHighLevelEscape_def replace_quoted replace_paired)
qed

lemma CTCPunpack_delimited:
  "CTCPunpack ([c] @ s @ [d]) =
     (case ctcpUnpack (ctcpLowLevelUnescape s) of
        (tag, data) \<Rightarrow> Inr (ctcpHighLevelUnescape tag, map_option ctcpHighLevelUnescape data))"
  by (simp add: CTCPunpack_def Let_def)

section \<open>Properties\<close>

text \<open>
  Packing and unpacking are inverse.  A tag without a space and non-empty data, neither of
  which holds a backslash directly followed by the letter a, are recovered from the packed
  message; the packed message is recognised as a CTCP message, and between its two delimiters
  there is no further delimiter byte.
\<close>

theorem CTCP_roundtrip:
  assumes "ctcpSep \<notin> set tag" and "data \<noteq> []"
    and "\<not> sublist [ctcpHighQuote, CHR ''a''] tag" and "\<not> sublist [ctcpHighQuote, CHR ''a''] data"
  shows "CTCPunpack (CTCPpack tag (Some data)) = Inr (tag, Some data)
    \<and> IsCTCP (CTCPpack tag (Some data)) = Inr True
    \<and> ctcpDelim \<notin> set (butlast (tl (CTCPpack tag (Some data))))"
proof (intro conjI)
  let ?t = "ctcpHighLevelEscape tag" and ?d = "ctcpHighLevelEscape data"
  let ?body = "ctcpLowLevelEscape (ctcpPack ?t (Some ?d))"
  have pack: "CTCPpack tag (Some data) = [ctcpDelim] @ ?body @ [ctcpDelim]"
    by (simp add: CTCPpack_def Let_def)
  have "ctcpSep \<notin> set ?t"
    using set_high_level_escape [of tag] assms(1) by (auto simp: ctcp_consts)
  then have "ctcpUnpack (ctcpPack ?t (Some ?d)) = (?t, Some ?d)"
    using assms(2) by (simp add: ctcpUnpack_ctcpPack ctcpHighLevelEscape_Nil_iff)
  then show "CTCPunpack (CTCPpack tag (Some data)) = Inr (tag, Some data)"
    unfolding pack CTCPunpack_delimited low_level_roundtrip
    using assms(3,4) by (simp add: high_level_roundtrip)
  show "IsCTCP (CTCPpack tag (Some data)) = Inr True"
    unfolding pack by (simp add: IsCTCP_def index_at_def nth_append)
  have "ctcpDelim \<notin> set ?body"
    using set_low_level_escape [of "ctcpPack ?t (Some ?d)"] set_high_level_escape [of tag]
      set_high_level_escape [of data]
    by (auto simp: ctcpPack_def ctcp_consts split: if_splits)
  then show "ctcpDelim \<notin> set (butlast (tl (CTCPpack tag (Some data))))"
    unfolding pack by simp
qed

theorem CTCP_roundtrip_witness:
  "CTCPunpack (CTCPpack ''PING'' (Some [CHR 0x01, CHR ''b'', CHR 0x0A, CHR 0x10]))
   = Inr (''PING'', Some [CHR 0x01, CHR ''b'', CHR 0x0A, CHR 0x10])"
  using CTCP_roundtrip [of "''PING''" "[CHR 0x01, CHR ''b'', CHR 0x0A, CHR 0x10]"]
  by (simp add: ctcp_consts sublist_Cons_right)

text \<open>
  The quoting has gaps.  Data that holds a backslash followed by the letter a does not
  survive the round trip, since unescaping reads the second half of an escaped backslash
  together with the letter; and the low-level escape keeps carriage return, line feed and NUL
  as they are after the quote byte, where the comment of the code (and the CTCP protocol) puts
  the letters r, n and 0, so that a packed message can hold a raw line feed.
\<close>

theorem CTCP_quoting_gaps:
  "CTCPunpack (CTCPpack ''T'' (Some [CHR 0x5C, CHR ''a'']))
     = Inr (''T'', Some [CHR 0x5C, CHR 0x01])
   \<and> ctcpLowLevelEscape [CHR 0x0A] = [ctcpLowQuote, CHR 0x0A]
   \<and> CHR 0x0A \<in> set (CTCPpack ''T'' (Some [CHR 0x0A]))"
  by code_simp

text \<open>
  A lone delimiter is taken for a CTCP message but cannot be unpacked: \<^verbatim>\<open>IsCTCP\<close> accepts
  the one-byte message, and \<^verbatim>\<open>CTCPunpack\<close> panics on exactly the messages of fewer than two
  bytes.
\<close>

theorem CTCPunpack_panics_iff:
  "(CTCPunpack msg = Inl p \<longleftrightarrow> length msg < 2 \<and> p = SliceBounds)
   \<and> IsCTCP [ctcpDelim] = Inr True"
  by (auto simp: CTCPunpack_def IsCTCP_def Let_def split: prod.splits)

end
