(* ===== verification/NetworkInfo.thy ===== *)
theory NetworkInfo
  imports Prelude
begin

text \<open>
  Server capabilities, \<^verbatim>\<open>src/irc/network_info.go\<close>: the record the bot keeps for each
  network, filled from the replies 004 and 005.  The mutex that guards it is left out: every
  operation runs under it as one step.
\<close>

section \<open>State\<close>

record NetworkInfo =
  serverName :: string
  ircdVersion :: string
  usermodes :: string
  lchanmodes :: string
  rfc :: string
  ircd :: string
  casemapping :: string
  ni_prefix :: string
  chantypes :: string
  chanmodes :: string
  chanlimit :: int
  channellen :: int
  nicklen :: int
  topiclen :: int
  awaylen :: int
  kicklen :: int
  ni_modes :: int
  extras :: "string \<rightharpoonup> string"

definition NewNetworkInfo :: NetworkInfo where
  "NewNetworkInfo = \<lparr>
     serverName = ''unknown'', ircdVersion = ''unknown'',
     usermodes = ''acCiorRswx'', lchanmodes = ''beiIklmnoOPrRstvz'',
     rfc = ''RFC2812'', ircd = ''unknown'', casemapping = ''ascii'',
     ni_prefix = ''(ov)@+'', chantypes = ''#&~'', chanmodes = ''beI,k,l,imnOPRstz'',
     chanlimit = 20, channellen = 50, nicklen = 9, topiclen = 490,
     awaylen = 127, kicklen = 400, ni_modes = 5, extras = Map.empty\<rparr>"

text \<open>\<^verbatim>\<open>Clone\<close> copies the struct and the map of extras; as a value the copy is the original.\<close>

definition NetworkInfo_Clone :: "NetworkInfo \<Rightarrow> NetworkInfo" where
  "NetworkInfo_Clone p = p\<lparr>extras := (\<lambda>k. case extras p k of None \<Rightarrow> None | Some v \<Rightarrow> Some v)\<rparr>"

section \<open>Reading\<close>

definition ServerName :: "NetworkInfo \<Rightarrow> string" where "ServerName p = serverName p"
definition IrcdVersion :: "NetworkInfo \<Rightarrow> string" where "IrcdVersion p = ircdVersion p"
definition Usermodes :: "NetworkInfo \<Rightarrow> string" where "Usermodes p = usermodes p"
definition LegacyChanmodes :: "NetworkInfo \<Rightarrow> string" where "LegacyChanmodes p = lchanmodes p"
definition RFC :: "NetworkInfo \<Rightarrow> string" where "RFC p = rfc p"
definition IRCD :: "NetworkInfo \<Rightarrow> string" where "IRCD p = ircd p"
definition Casemapping :: "NetworkInfo \<Rightarrow> string" where "Casemapping p = casemapping p"
definition Prefix :: "NetworkInfo \<Rightarrow> string" where "Prefix p = ni_prefix p"
definition Chantypes :: "NetworkInfo \<Rightarrow> string" where "Chantypes p = chantypes p"
definition Chanmodes :: "NetworkInfo \<Rightarrow> string" where "Chanmodes p = chanmodes p"
definition Chanlimit :: "NetworkInfo \<Rightarrow> int" where "Chanlimit p = chanlimit p"
definition Channellen :: "NetworkInfo \<Rightarrow> int" where "Channellen p = channellen p"
definition Nicklen :: "NetworkInfo \<Rightarrow> int" where "Nicklen p = nicklen p"
definition Topiclen :: "NetworkInfo \<Rightarrow> int" where "Topiclen p = topiclen p"
definition Awaylen :: "NetworkInfo \<Rightarrow> int" where "Awaylen p = awaylen p"
definition Kicklen :: "NetworkInfo \<Rightarrow> int" where "Kicklen p = kicklen p"
definition Modes :: "NetworkInfo \<Rightarrow> int" where "Modes p = ni_modes p"

definition Extra :: "NetworkInfo \<Rightarrow> string \<Rightarrow> string" where
  "Extra p key = (case extras p key of None \<Rightarrow> [] | Some v \<Rightarrow> v)"

definition IsChannel :: "NetworkInfo \<Rightarrow> string \<Rightarrow> bool" where
  "IsChannel p target = (case target of [] \<Rightarrow> False | c # _ \<Rightarrow> c \<in> set (chantypes p))"

section \<open>Parsing numbers\<close>

definition digit_val :: "char \<Rightarrow> int" where
  "digit_val c = int (code c) - 48"

definition digits_val :: "string \<Rightarrow> int" where
  "digits_val s = fold (\<lambda>c n. 10 * n + digit_val c) s 0"

text \<open>\<^verbatim>\<open>strconv.Atoi\<close>: an optional sign and decimal digits, within the range of a 64-bit \<^verbatim>\<open>int\<close>.\<close>

definition atoi :: "string \<Rightarrow> int option" where
  "atoi s =
     (let (neg, ds) = (case s of
            [] \<Rightarrow> (False, [])
          | c # cs \<Rightarrow> if c = CHR ''-'' then (True, cs) else if c = CHR ''+'' then (False, cs) else (False, s));
          v = (if neg then - digits_val ds else digits_val ds)
      in if ds \<noteq> [] \<and> list_all is_digit ds \<and> - (2 ^ 63) \<le> v \<and> v < 2 ^ 63 then Some v else None)"

definition set_int :: "string \<Rightarrow> int \<Rightarrow> int" where
  "set_int value old = (case atoi value of None \<Rightarrow> old | Some i \<Rightarrow> i)"

section \<open>Parsing the replies\<close>

text \<open>
  \<^verbatim>\<open>capsRegexp\<close>, \<^verbatim>\<open>^(?i)([A-Z0-9]+)(?:=([^\s]+))?$\<close>: a name of letters and digits, then
  nothing or an equals sign and a non-empty value.
\<close>

definition caps_char :: "char \<Rightarrow> bool" where
  "caps_char c \<longleftrightarrow> is_upper c \<or> is_lower c \<or> is_digit c"

definition capsRegexp :: "string \<Rightarrow> (string \<times> string) option" where
  "capsRegexp s =
     (let name = takeWhile caps_char s in
      if name = [] then None
      else (case dropWhile caps_char s of
              [] \<Rightarrow> Some (name, [])
            | c # v \<Rightarrow> if c = CHR ''='' \<and> v \<noteq> [] \<and> list_all (Not \<circ> rgx_space) v then Some (name, v) else None))"

text \<open>One argument of a 005 reply; \<^verbatim>\<open>None\<close> is the panic of indexing the nil match.\<close>

definition isupport_arg :: "string \<Rightarrow> NetworkInfo \<Rightarrow> NetworkInfo option" where
  "isupport_arg arg p =
     (if CHR '' '' \<in> set arg then Some p
      else case capsRegexp arg of
        None \<Rightarrow> None
      | Some (name, value) \<Rightarrow>
          if prefix ''RFC'' name then Some (p\<lparr>rfc := name\<rparr>)
          else if name = ''IRCD'' then Some (p\<lparr>ircd := value\<rparr>)
          else if name = ''CASEMAPPING'' then Some (p\<lparr>casemapping := value\<rparr>)
          else if name = ''PREFIX'' then Some (p\<lparr>ni_prefix := value\<rparr>)
          else if name = ''CHANTYPES'' then Some (p\<lparr>chantypes := value\<rparr>)
          else if name = ''CHANMODES'' then Some (p\<lparr>chanmodes := value\<rparr>)
          else if name = ''CHANLIMIT'' then
            Some (p\<lparr>chanlimit := set_int (if CHR '':'' \<in> set value then split_on CHR '':'' value ! 1 else value)
                                   (chanlimit p)\<rparr>)
          else if name = ''CHANNELLEN'' then Some (p\<lparr>channellen := set_int value (channellen p)\<rparr>)
          else if name = ''NICKLEN'' then Some (p\<lparr>nicklen := set_int value (nicklen p)\<rparr>)
          else if name = ''TOPICLEN'' then Some (p\<lparr>topiclen := set_int value (topiclen p)\<rparr>)
          else if name = ''AWAYLEN'' then Some (p\<lparr>awaylen := set_int value (awaylen p)\<rparr>)
          else if name = ''KICKLEN'' then Some (p\<lparr>kicklen := set_int value (kicklen p)\<rparr>)
          else if name = ''MODES'' then Some (p\<lparr>ni_modes := set_int value (ni_modes p)\<rparr>)
          else Some (p\<lparr>extras := (extras p)(name \<mapsto> (if value = [] then ''true'' else value))\<rparr>))"

text \<open>
  The loop over the arguments.  A panic keeps what earlier arguments changed, so the result is
  the state together with the panic, if any.
\<close>

fun isupport_args :: "string list \<Rightarrow> NetworkInfo \<Rightarrow> NetworkInfo \<times> go_panic option" where
  "isupport_args [] p = (p, None)"
| "isupport_args (arg # args) p =
     (case isupport_arg arg p of
        None \<Rightarrow> (p, Some IndexOutOfRange)
      | Some p' \<Rightarrow> isupport_args args p')"

definition ParseISupport :: "string list \<Rightarrow> NetworkInfo \<Rightarrow> NetworkInfo \<times> go_panic option" where
  "ParseISupport args p =
     (case args of [] \<Rightarrow> (p, Some SliceBounds) | _ # rest \<Rightarrow> isupport_args rest p)"

definition ParseMyInfo :: "string list \<Rightarrow> NetworkInfo \<Rightarrow> NetworkInfo \<times> go_panic option" where
  "ParseMyInfo args p =
     (case args of
        _ # a # b # c # d # _ \<Rightarrow>
          (p\<lparr>serverName := a, ircdVersion := b, usermodes := c, lchanmodes := d\<rparr>, None)
      | [_, a, b, c] \<Rightarrow> (p\<lparr>serverName := a, ircdVersion := b, usermodes := c\<rparr>, Some IndexOutOfRange)
      | [_, a, b] \<Rightarrow> (p\<lparr>serverName := a, ircdVersion := b\<rparr>, Some IndexOutOfRange)
      | [_, a] \<Rightarrow> (p\<lparr>serverName := a\<rparr>, Some IndexOutOfRange)
      | _ \<Rightarrow> (p, Some IndexOutOfRange))"

section \<open>Lemmas\<close>

lemma NetworkInfo_Clone_eq [simp]: "NetworkInfo_Clone p = p"
proof -
  have "(\<lambda>k. case extras p k of None \<Rightarrow> None | Some v \<Rightarrow> Some v) = extras p"
    by (auto split: option.splits)
  then show ?thesis by (simp add: NetworkInfo_Clone_def)
qed

lemma isupport_args_append:
  "isupport_args (xs @ ys) p =
     (case isupport_args xs p of (p', None) \<Rightarrow> isupport_args ys p' | r \<Rightarrow> r)"
  by (induction xs arbitrary: p) (auto split: option.splits prod.splits)

lemma isupport_arg_None_iff:
  "isupport_arg arg p = None \<longleftrightarrow> CHR '' '' \<notin> set arg \<and> capsRegexp arg = None"
  by (auto simp: isupport_arg_def split: option.splits)

lemma isupport_args_panic_iff:
  "snd (isupport_args args p) = None \<longleftrightarrow> (\<forall>arg \<in> set args. CHR '' '' \<in> set arg \<or> capsRegexp arg \<noteq> None)"
proof (induction args arbitrary: p)
  case (Cons arg args)
  show ?case
  proof (cases "isupport_arg arg p")
    case None
    moreover from None have "\<not> (CHR '' '' \<in> set arg \<or> capsRegexp arg \<noteq> None)"
      using isupport_arg_None_iff [of arg p] by auto
    ultimately show ?thesis by simp
  next
    case (Some p')
    then have "CHR '' '' \<in> set arg \<or> capsRegexp arg \<noteq> None" using isupport_arg_None_iff [of arg p] by auto
    with Some Cons show ?thesis by simp
  qed
qed simp

lemma capsRegexp_pair:
  assumes "k \<noteq> []" "list_all caps_char k" "v \<noteq> []" "list_all (Not \<circ> rgx_space) v"
  shows "capsRegexp (k @ CHR ''='' # v) = Some (k, v)"
proof -
  have ne: "\<not> caps_char CHR ''=''"
    by (simp add: caps_char_def is_upper_def is_lower_def is_digit_def code_def)
  have "takeWhile caps_char (k @ CHR ''='' # v) = k" "dropWhile caps_char (k @ CHR ''='' # v) = CHR ''='' # v"
    using assms ne takeWhile_dropWhile_append [of k caps_char "CHR ''='' # v"] by (auto simp: list_all_iff)
  then show ?thesis using assms by (simp add: capsRegexp_def)
qed

section \<open>Properties\<close>

text \<open>
  A 005 reply is read to the end exactly when each argument after the first either
  contains a space or has the form \<^verbatim>\<open>NAME\<close> or \<^verbatim>\<open>NAME=value\<close> with a non-empty value; any
  other argument, such as the negation \<^verbatim>\<open>-EXCEPTS\<close> or the empty value \<^verbatim>\<open>SILENCE=\<close> that
  servers may send, makes the handler panic, keeping the arguments before it.
\<close>

theorem ParseISupport_panics:
  "(snd (ParseISupport (me # args) p) = None
      \<longleftrightarrow> (\<forall>arg \<in> set args. CHR '' '' \<in> set arg \<or> capsRegexp arg \<noteq> None))
   \<and> capsRegexp ''-EXCEPTS'' = None \<and> capsRegexp ''SILENCE='' = None"
proof (intro conjI)
  show "snd (ParseISupport (me # args) p) = None
      \<longleftrightarrow> (\<forall>arg \<in> set args. CHR '' '' \<in> set arg \<or> capsRegexp arg \<noteq> None)"
    by (simp add: ParseISupport_def isupport_args_panic_iff)
  show "capsRegexp ''-EXCEPTS'' = None" "capsRegexp ''SILENCE='' = None"
    by code_simp+
qed

theorem ParseISupport_panics_witness:
  "capsRegexp ''NICKLEN=9'' = Some (''NICKLEN'', ''9'')
   \<and> snd (ParseISupport [''me'', ''NICKLEN=9''] NewNetworkInfo) = None"
proof -
  have c: "capsRegexp ''NICKLEN=9'' = Some (''NICKLEN'', ''9'')" by code_simp
  then show ?thesis using ParseISupport_panics [of "''me''" "[''NICKLEN=9'']" NewNetworkInfo] by simp
qed

end
