(* ===== verification/IrcEvent.thy ===== *)
theory IrcEvent
  imports Hosts Ctcp NetworkInfo
begin

text \<open>
  Events and the protocol parser, \<^verbatim>\<open>src/irc/event.go\<close> and \<^verbatim>\<open>src/parse/parse.go\<close>: the
  record of one message, its accessors with their panics, printing it as a protocol line, and
  parsing a line.  The clock reading of \<^verbatim>\<open>NewEvent\<close> is an argument.  The pointer to the
  network information is an option, nil being \<^verbatim>\<open>None\<close>, and stands for what it points to
  when the event is handled.
\<close>

section \<open>Event names\<close>

text \<open>The constants of \<^verbatim>\<open>src/irc/proto.go\<close> that the modelled code compares with.\<close>

abbreviation (input) JOIN :: string where "JOIN \<equiv> ''JOIN''"
abbreviation (input) KICK :: string where "KICK \<equiv> ''KICK''"
abbreviation (input) MODE :: string where "MODE \<equiv> ''MODE''"
abbreviation (input) NICK :: string where "NICK \<equiv> ''NICK''"
abbreviation (input) NOTICE :: string where "NOTICE \<equiv> ''NOTICE''"
abbreviation (input) PART :: string where "PART \<equiv> ''PART''"
abbreviation (input) PRIVMSG :: string where "PRIVMSG \<equiv> ''PRIVMSG''"
abbreviation (input) QUIT :: string where "QUIT \<equiv> ''QUIT''"
abbreviation (input) TOPIC :: string where "TOPIC \<equiv> ''TOPIC''"
abbreviation (input) RPL_WELCOME :: string where "RPL_WELCOME \<equiv> ''001''"
abbreviation (input) RPL_CHANNELMODEIS :: string where "RPL_CHANNELMODEIS \<equiv> ''324''"
abbreviation (input) RPL_TOPIC :: string where "RPL_TOPIC \<equiv> ''332''"
abbreviation (input) RPL_WHOREPLY :: string where "RPL_WHOREPLY \<equiv> ''352''"
abbreviation (input) RPL_NAMREPLY :: string where "RPL_NAMREPLY \<equiv> ''353''"
abbreviation (input) RPL_BANLIST :: string where "RPL_BANLIST \<equiv> ''367''"

section \<open>Events\<close>

record Event =
  eName :: string
  eSender :: string
  eArgs :: "string list"
  eTime :: int
  eNetworkID :: string
  eNetworkInfo :: "NetworkInfo option"

definition NewEvent :: "int \<Rightarrow> string \<Rightarrow> NetworkInfo option \<Rightarrow> string \<Rightarrow> string \<Rightarrow> string list \<Rightarrow> Event" where
  "NewEvent now netID ni name sender args =
     \<lparr>eName = name, eSender = sender, eArgs = args, eTime = now, eNetworkID = netID, eNetworkInfo = ni\<rparr>"

definition Event_Nick :: "Event \<Rightarrow> string" where
  "Event_Nick e = Nick (eSender e)"

definition Event_Username :: "Event \<Rightarrow> string" where
  "Event_Username e = Username (eSender e)"

definition Event_Hostname :: "Event \<Rightarrow> string" where
  "Event_Hostname e = Hostname (eSender e)"

definition SplitHost :: "Event \<Rightarrow> string \<times> string \<times> string" where
  "SplitHost e = Split (eSender e)"

definition SplitArgs :: "Event \<Rightarrow> nat \<Rightarrow> string list outcome" where
  "SplitArgs e index = and_then (index_at (eArgs e) index) (\<lambda>arg. Inr (split_on CHR '','' arg))"

definition Target :: "Event \<Rightarrow> string outcome" where
  "Target e = index_at (eArgs e) 0"

text \<open>\<^verbatim>\<open>IsChannel\<close> touches its receiver only for a non-empty target.\<close>

definition IsTargetChan :: "Event \<Rightarrow> bool outcome" where
  "IsTargetChan e =
     and_then (index_at (eArgs e) 0) (\<lambda>target.
       if target = [] then Inr False
       else and_then (deref (eNetworkInfo e)) (\<lambda>ni. Inr (IsChannel ni target)))"

definition Message :: "Event \<Rightarrow> string outcome" where
  "Message e = index_at (eArgs e) 1"

text \<open>The loop of \<^verbatim>\<open>String\<close> over the arguments.\<close>

fun write_args :: "string list \<Rightarrow> string" where
  "write_args [] = []"
| "write_args [arg] = '' '' @ (if CHR '' '' \<in> set arg then '':'' else []) @ arg"
| "write_args (arg # args) = '' '' @ arg @ write_args args"

definition Event_String :: "Event \<Rightarrow> string" where
  "Event_String e =
     (if eSender e \<noteq> [] then '':'' @ eSender e @ '' '' else []) @ eName e @ write_args (eArgs e)"

definition Event_IsCTCP :: "Event \<Rightarrow> bool outcome" where
  "Event_IsCTCP e =
     (if (eName e = PRIVMSG \<or> eName e = NOTICE) \<and> 2 \<le> length (eArgs e)
      then and_then (index_at (eArgs e) 1) IsCTCPString else Inr False)"

definition UnpackCTCP :: "Event \<Rightarrow> (string \<times> string) outcome" where
  "UnpackCTCP e = and_then (index_at (eArgs e) 1) CTCPunpackString"

section \<open>The parser\<close>

datatype ParseError = ParseError string

text \<open>
  The groups of \<^verbatim>\<open>ircRegex\<close>,
  \<^verbatim>\<open>^(?::(\S+) )?([A-Z0-9]+)((?: (?:[^:\s][^\s]*))*)(?: :(.*))?\s*$\<close>, from the left.  No piece
  can give back characters to the piece after it, so each is its longest match.
\<close>

definition nonspace :: "char \<Rightarrow> bool" where
  "nonspace c \<longleftrightarrow> \<not> rgx_space c"

definition name_char :: "char \<Rightarrow> bool" where
  "name_char c \<longleftrightarrow> is_upper c \<or> is_digit c"

definition rgx_sender :: "string \<Rightarrow> (string \<times> string) option" where
  "rgx_sender s =
     (case s of
        c # r \<Rightarrow>
          (if c = CHR '':'' then
             (case dropWhile nonspace r of
                d # r' \<Rightarrow> if d = CHR '' '' \<and> takeWhile nonspace r \<noteq> [] then Some (takeWhile nonspace r, r') else None
              | [] \<Rightarrow> None)
           else Some ([], s))
      | [] \<Rightarrow> Some ([], s))"

function rgx_args :: "string \<Rightarrow> string \<times> string" where
  "rgx_args (s # c # cs) =
     (if s = CHR '' '' \<and> c \<noteq> CHR '':'' \<and> nonspace c then
        (case rgx_args (dropWhile nonspace cs) of
           (a, r) \<Rightarrow> (s # c # takeWhile nonspace cs @ a, r))
      else ([], s # c # cs))"
| "rgx_args [s] = ([], [s])"
| "rgx_args [] = ([], [])"
  by pat_completeness auto
termination
  by (relation "measure length") (auto simp: length_dropWhile_le le_imp_less_Suc le_SucI)

definition rgx_trailing :: "string \<Rightarrow> string option" where
  "rgx_trailing r =
     (case r of
        s # c # t \<Rightarrow>
          (if s = CHR '' '' \<and> c = CHR '':'' then
             (if list_all rgx_space (dropWhile (\<lambda>c. c \<noteq> CHR 0x0A) t)
              then Some (takeWhile (\<lambda>c. c \<noteq> CHR 0x0A) t) else None)
           else if list_all rgx_space r then Some [] else None)
      | _ \<Rightarrow> if list_all rgx_space r then Some [] else None)"

definition ircRegex :: "string \<Rightarrow> (string \<times> string \<times> string \<times> string) option" where
  "ircRegex s =
     (case rgx_sender s of
        None \<Rightarrow> None
      | Some (sender, r) \<Rightarrow>
          (if takeWhile name_char r = [] then None
           else (case rgx_args (dropWhile name_char r) of
                   (args, r') \<Rightarrow>
                     (case rgx_trailing r' of
                        None \<Rightarrow> None
                      | Some trailing \<Rightarrow> Some (sender, takeWhile name_char r, args, trailing)))))"

text \<open>The arguments: the words of the middle group, then the trailing group if it is not empty.\<close>

definition parse_args :: "string \<Rightarrow> string \<Rightarrow> string list" where
  "parse_args middle trailing =
     (let args = (if middle \<noteq> [] then Fields middle else [])
      in if trailing \<noteq> [] then args @ [trailing] else args)"

definition Parse :: "int \<Rightarrow> string \<Rightarrow> ParseError + Event" where
  "Parse now str =
     (case ircRegex str of
        None \<Rightarrow> Inl (ParseError str)
      | Some (sender, name, middle, trailing) \<Rightarrow>
          Inr (NewEvent now [] None name sender (parse_args middle trailing)))"

section \<open>Lemmas\<close>

text \<open>A word that can stand as a middle argument of a protocol line.\<close>

definition middle_word :: "string \<Rightarrow> bool" where
  "middle_word a \<longleftrightarrow> a \<noteq> [] \<and> hd a \<noteq> CHR '':'' \<and> (\<forall>c \<in> set a. \<not> is_space c)"

definition spaced :: "string list \<Rightarrow> string" where
  "spaced ws = concat (map (\<lambda>w. CHR '' '' # w) ws)"

lemma spaced_simps [simp]: "spaced [] = []" "spaced (w # ws) = CHR '' '' # w @ spaced ws"
  by (simp_all add: spaced_def)

lemma is_space_blank [simp]: "is_space CHR '' ''" "rgx_space CHR '' ''" "\<not> nonspace CHR '' ''"
  by (simp_all add: nonspace_def is_space_def rgx_space_def code_def)

lemma Fields_Nil [simp]: "Fields [] = []"
  by (simp add: Fields.simps)

lemma Fields_space: "is_space c \<Longrightarrow> Fields (c # s) = Fields s"
  by (subst (1 2) Fields.simps) simp

lemma Fields_word:
  assumes "w \<noteq> []" "\<forall>c \<in> set w. \<not> is_space c" "r = [] \<or> is_space (hd r)"
  shows "Fields (w @ r) = w # Fields r"
proof -
  obtain c cs where w: "w = c # cs" using assms(1) by (cases w) auto
  have "takeWhile (Not \<circ> is_space) (w @ r) = w" "dropWhile (Not \<circ> is_space) (w @ r) = r"
    using assms takeWhile_dropWhile_append [of w "Not \<circ> is_space" r] by auto
  then show ?thesis using assms(2) w by (subst Fields.simps) simp
qed

lemma Fields_spaced:
  assumes "\<forall>w \<in> set ws. w \<noteq> [] \<and> (\<forall>c \<in> set w. \<not> is_space c)" shows "Fields (spaced ws) = ws"
  using assms
proof (induction ws)
  case (Cons w ws)
  have "spaced ws = [] \<or> is_space (hd (spaced ws))" by (cases ws) auto
  with Cons show ?case by (simp add: Fields_space Fields_word)
qed simp

text \<open>The middle arguments of a line end where the rest cannot start another one.\<close>

definition args_stop :: "string \<Rightarrow> bool" where
  "args_stop r \<longleftrightarrow> (case r of [] \<Rightarrow> True | s # r' \<Rightarrow> s = CHR '' '' \<and> (r' = [] \<or> hd r' = CHR '':''))"

lemma rgx_args_stop: "args_stop r \<Longrightarrow> rgx_args r = ([], r)"
  by (cases r rule: rgx_args.cases) (auto simp: args_stop_def)

lemma middle_nonspace: "middle_word w \<Longrightarrow> \<forall>c \<in> set w. nonspace c"
  by (auto simp: middle_word_def nonspace_def dest: rgx_space_is_space)

lemma rgx_args_spaced:
  assumes "\<forall>w \<in> set ws. middle_word w" "args_stop r"
  shows "rgx_args (spaced ws @ r) = (spaced ws, r)"
  using assms
proof (induction ws)
  case Nil
  then show ?case by (simp add: rgx_args_stop)
next
  case (Cons w ws)
  obtain c cs where w: "w = c # cs" using Cons.prems by (cases w) (auto simp: middle_word_def)
  have stop: "spaced ws @ r = [] \<or> \<not> nonspace (hd (spaced ws @ r))"
    using Cons.prems(2) by (cases ws) (auto simp: args_stop_def split: list.splits)
  have ns: "\<forall>c \<in> set cs. nonspace c" "nonspace c" "c \<noteq> CHR '':''"
    using Cons.prems(1) middle_nonspace [of w] by (auto simp: w middle_word_def)
  note td = takeWhile_dropWhile_append [OF ns(1) stop]
  have "rgx_args (spaced ws @ r) = (spaced ws, r)" using Cons by simp
  then show ?case using ns td by (simp add: w)
qed

lemma rgx_trailing_text:
  assumes "CHR 0x0A \<notin> set t" shows "rgx_trailing (CHR '' '' # CHR '':'' # t) = Some t"
proof -
  have "\<forall>c \<in> set t. c \<noteq> CHR 0x0A" using assms by auto
  note td = takeWhile_eq_all_conv [THEN iffD2, OF this] dropWhile_eq_Nil_conv [THEN iffD2, OF this]
  show ?thesis unfolding rgx_trailing_def by (simp only: list.case td) simp
qed

lemma name_char_delims [simp]: "\<not> name_char CHR '':''" "\<not> name_char CHR '' ''"
  by (simp_all add: name_char_def is_upper_def is_digit_def code_def)

lemma rgx_sender_text:
  assumes "sd \<noteq> []" "\<forall>c \<in> set sd. nonspace c"
  shows "rgx_sender ('':'' @ sd @ '' '' @ r) = Some (sd, r)"
proof -
  note td = takeWhile_dropWhile_append [OF assms(2), of "CHR '' '' # r"]
  then show ?thesis using assms(1) by (simp add: rgx_sender_def)
qed

lemma Fields_words: "w \<in> set (Fields s) \<Longrightarrow> w \<noteq> [] \<and> (\<forall>c \<in> set w. \<not> is_space c)"
proof (induction s rule: Fields.induct)
  case (1 s)
  show ?case
  proof (cases "dropWhile is_space s")
    case Nil
    with 1 show ?thesis by (simp add: Fields.simps [of s])
  next
    case (Cons c cs)
    then have "\<not> is_space c" by (metis dropWhile_eq_Cons_conv)
    have "\<forall>c \<in> set (takeWhile (Not \<circ> is_space) cs). \<not> is_space c" by (auto dest!: set_takeWhileD)
    moreover have "Fields s = (c # takeWhile (Not \<circ> is_space) cs) # Fields (dropWhile (Not \<circ> is_space) (c # cs))"
      using Cons \<open>\<not> is_space c\<close> by (subst Fields.simps) simp
    ultimately consider "w = c # takeWhile (Not \<circ> is_space) cs" | "w \<in> set (Fields (dropWhile (Not \<circ> is_space) (c # cs)))"
      using "1.prems" by auto
    then show ?thesis
    proof cases
      case 1
      then show ?thesis using \<open>\<not> is_space c\<close> \<open>\<forall>c \<in> set (takeWhile (Not \<circ> is_space) cs). \<not> is_space c\<close> by simp
    next
      case 2
      then show ?thesis by (rule "1.IH" [OF Cons])
    qed
  qed
qed

text \<open>Events that can be printed without loss.\<close>

definition last_ok :: "string \<Rightarrow> bool" where
  "last_ok a \<longleftrightarrow> (if CHR '' '' \<in> set a then CHR 0x0A \<notin> set a else middle_word a)"

definition wf_event :: "Event \<Rightarrow> bool" where
  "wf_event e \<longleftrightarrow> eName e \<noteq> [] \<and> (\<forall>c \<in> set (eName e). name_char c)
     \<and> (\<forall>c \<in> set (eSender e). nonspace c)
     \<and> (eArgs e \<noteq> [] \<longrightarrow> (\<forall>a \<in> set (butlast (eArgs e)). middle_word a) \<and> last_ok (last (eArgs e)))"

lemma write_args_snoc:
  "write_args (ms @ [l]) = spaced ms @ '' '' @ (if CHR '' '' \<in> set l then '':'' else []) @ l"
proof (induction ms)
  case (Cons m ms)
  then show ?case by (cases ms) auto
qed simp

text \<open>The tail of a printed line gives its arguments back.\<close>

lemma ircRegex_args:
  assumes "as \<noteq> [] \<longrightarrow> (\<forall>a \<in> set (butlast as). middle_word a) \<and> last_ok (last as)"
  obtains mid r tr where "rgx_args (write_args as) = (mid, r)" "rgx_trailing r = Some tr"
    and "parse_args mid tr = as"
proof (cases as rule: rev_cases)
  case Nil
  show ?thesis by (rule that [of "[]" "[]" "[]"]) (simp_all add: Nil rgx_trailing_def parse_args_def)
next
  case (snoc ms l)
  have ms: "\<forall>w \<in> set ms. middle_word w" and l: "last_ok l" using assms snoc by auto
  have Fms: "Fields (spaced ms) = ms" using ms by (intro Fields_spaced) (auto simp: middle_word_def)
  show ?thesis
  proof (cases "CHR '' '' \<in> set l")
    case True
    then have nl: "CHR 0x0A \<notin> set l" and ne: "l \<noteq> []" using l by (auto simp: last_ok_def)
    have "rgx_args (write_args as) = (spaced ms, CHR '' '' # CHR '':'' # l)"
      using rgx_args_spaced [OF ms, of "CHR '' '' # CHR '':'' # l"] True
      by (simp add: snoc write_args_snoc args_stop_def)
    moreover have "rgx_trailing (CHR '' '' # CHR '':'' # l) = Some l" by (rule rgx_trailing_text [OF nl])
    ultimately show ?thesis by (rule that) (use ne snoc Fms in \<open>cases ms; simp add: parse_args_def\<close>)
  next
    case False
    then have "\<forall>w \<in> set (ms @ [l]). middle_word w" using l ms by (auto simp: last_ok_def)
    note w = this
    have F: "Fields (spaced (ms @ [l])) = ms @ [l]"
      using w by (intro Fields_spaced) (auto simp: middle_word_def)
    have "rgx_args (write_args as) = (spaced (ms @ [l]), [])"
      using rgx_args_spaced [OF w, of "[]"] False
      by (simp add: snoc write_args_snoc args_stop_def spaced_def)
    moreover have "rgx_trailing [] = Some []" by (simp add: rgx_trailing_def)
    ultimately show ?thesis by (rule that) (use F snoc in \<open>simp add: spaced_def parse_args_def\<close>)
  qed
qed

section \<open>Properties\<close>

text \<open>
  C22: Printing and parsing are inverse.  For an event whose name is upper-case letters and
  digits, whose sender has no white space, whose arguments but the last are words that do not
  start with a colon, and whose last argument is such a word or contains a space and no line
  feed, parsing the printed line gives the same name, sender and arguments.
\<close>

theorem Parse_String_roundtrip:
  assumes "wf_event e"
  shows "Parse now (Event_String e)
       = Inr (NewEvent now [] None (eName e) (eSender e) (eArgs e))"
proof -
  let ?tail = "eName e @ write_args (eArgs e)"
  obtain c cs where nm: "eName e = c # cs" "name_char c" using assms by (cases "eName e") (auto simp: wf_event_def)
  have sender: "rgx_sender (Event_String e) = Some (eSender e, ?tail)"
  proof (cases "eSender e = []")
    case True
    then show ?thesis using nm by (auto simp: Event_String_def rgx_sender_def)
  next
    case False
    then show ?thesis using assms rgx_sender_text [OF False, of ?tail]
      by (simp add: Event_String_def wf_event_def)
  qed
  have stop: "write_args as = [] \<or> \<not> name_char (hd (write_args as))" for as
    by (cases as rule: write_args.cases) auto
  have "\<forall>c \<in> set (eName e). name_char c" using assms by (simp add: wf_event_def)
  note name = takeWhile_dropWhile_append [OF this stop]
  obtain mid r tr where "rgx_args (write_args (eArgs e)) = (mid, r)" "rgx_trailing r = Some tr"
    and args: "parse_args mid tr = eArgs e"
    using ircRegex_args assms unfolding wf_event_def by metis
  then have "ircRegex (Event_String e) = Some (eSender e, eName e, mid, tr)"
    unfolding ircRegex_def sender using name nm(1) by simp
  then show ?thesis using args by (simp add: Parse_def)
qed

theorem Parse_String_roundtrip_witness:
  "Parse 7 (Event_String (NewEvent 3 ''net'' None ''PRIVMSG'' ''nick!user@host'' [''#chan'', ''hello there'']))
   = Inr (NewEvent 7 [] None ''PRIVMSG'' ''nick!user@host'' [''#chan'', ''hello there''])"
proof -
  have "wf_event (NewEvent 3 ''net'' None ''PRIVMSG'' ''nick!user@host'' [''#chan'', ''hello there''])"
    by code_simp
  from Parse_String_roundtrip [OF this, of 7] show ?thesis by (simp add: NewEvent_def)
qed

text \<open>
  Printing loses a leading colon and an empty last argument: \<^verbatim>\<open>String\<close> puts a colon only
  before a last argument with a space, so the message \<^verbatim>\<open>:)\<close> is printed as \<^verbatim>\<open>PRIVMSG #c :)\<close>
  and reads back as \<^verbatim>\<open>)\<close>, and an empty topic reads back as no argument.
\<close>

theorem Event_String_drops_colon:
  "Parse t (Event_String (NewEvent t n ni ''PRIVMSG'' [] [''#c'', '':)'']))
     = Inr (NewEvent t [] None ''PRIVMSG'' [] [''#c'', '')''])
   \<and> Parse t (Event_String (NewEvent t n ni ''TOPIC'' [] [''#c'', []]))
     = Inr (NewEvent t [] None ''TOPIC'' [] [''#c''])"
proof -
  have s: "Event_String (NewEvent t n ni ''PRIVMSG'' [] [''#c'', '':)'']) = ''PRIVMSG #c :)''"
    "Event_String (NewEvent t n ni ''TOPIC'' [] [''#c'', []]) = ''TOPIC #c ''"
    by (simp_all add: Event_String_def NewEvent_def)
  have r: "ircRegex ''PRIVMSG #c :)'' = Some ([], ''PRIVMSG'', '' #c'', '')'')"
    "ircRegex ''TOPIC #c '' = Some ([], ''TOPIC'', '' #c'', [])" "Fields '' #c'' = [''#c'']"
    by code_simp+
  show ?thesis unfolding s by (simp add: Parse_def parse_args_def r)
qed

text \<open>
  What the parser returns is well-formed: the name is a non-empty word of upper-case letters
  and digits, the sender has no white space, and no argument is empty; so testing a parsed
  event for CTCP never panics.
\<close>

theorem Parse_sound:
  assumes "Parse now str = Inr e"
  shows "eName e \<noteq> [] \<and> (\<forall>c \<in> set (eName e). name_char c) \<and> (\<forall>c \<in> set (eSender e). nonspace c)
    \<and> [] \<notin> set (eArgs e) \<and> (\<exists>b. Event_IsCTCP e = Inr b)"
proof -
  obtain sd r mid tr where sd: "rgx_sender str = Some (sd, r)" and nm: "takeWhile name_char r \<noteq> []"
    and e: "e = NewEvent now [] None (takeWhile name_char r) sd
              (parse_args mid tr)"
    using assms by (fastforce simp: Parse_def ircRegex_def split: option.splits prod.splits if_splits)
  have sender: "\<forall>c \<in> set sd. nonspace c"
    using sd by (auto simp: rgx_sender_def split: list.splits if_splits dest: set_takeWhileD)
  have args: "[] \<notin> set (eArgs e)" using Fields_words [of _ mid] by (auto simp: e NewEvent_def parse_args_def Let_def split: if_splits)
  have "\<exists>b. IsCTCPString a = Inr b" if "a \<noteq> []" for a
    using that by (cases a) (auto simp: IsCTCPString_def index_at_def)
  moreover have "eArgs e ! 1 \<noteq> []" if "2 \<le> length (eArgs e)"
  proof -
    from that have "1 < length (eArgs e)" by simp
    then show ?thesis using args by (metis nth_mem)
  qed
  ultimately have "\<exists>b. Event_IsCTCP e = Inr b" by (auto simp: Event_IsCTCP_def index_at_def)
  with sender args nm show ?thesis by (auto simp: e NewEvent_def dest: set_takeWhileD)
qed

theorem Parse_sound_witness:
  "\<exists>e. Parse 0 '':n!u@h PRIVMSG #c :hi all'' = Inr e \<and> eArgs e = [''#c'', ''hi all'']
     \<and> [] \<notin> set (eArgs e) \<and> eName e \<noteq> []"
proof -
  have p: "Parse 0 '':n!u@h PRIVMSG #c :hi all''
      = Inr (NewEvent 0 [] None ''PRIVMSG'' ''n!u@h'' [''#c'', ''hi all''])"
  proof -
    have r: "ircRegex '':n!u@h PRIVMSG #c :hi all'' = Some (''n!u@h'', ''PRIVMSG'', '' #c'', ''hi all'')"
      "Fields '' #c'' = [''#c'']"
      by code_simp+
    show ?thesis by (simp add: Parse_def parse_args_def r)
  qed
  show ?thesis using p Parse_sound [OF p] by (auto simp: NewEvent_def)
qed

end
