(* ===== verification/FlagBits.thy ===== *)
theory FlagBits
  imports Prelude
begin

text \<open>
  The contract of a set of flags kept as bits of a machine word, shared by the channel modes
  of a user (one byte) and the access flags of an account (64 bits): every known flag has one
  bit of its own.  The laws of setting, clearing and testing flags are proved here once.
\<close>

lemma word_exp_inj:
  assumes "(2 :: 'w::len word) ^ i = 2 ^ n" "(2 :: 'w word) ^ i \<noteq> 0" shows "i = n"
proof -
  have "i < LENGTH('w)" using assms(2) by (metis exp_eq_zero_iff not_le)
  then have "bit ((2 :: 'w word) ^ i) i" by (simp add: bit_exp_iff)
  then have "bit ((2 :: 'w word) ^ n) i" by (simp add: assms(1))
  then show ?thesis by (simp add: bit_exp_iff)
qed

locale flag_bits =
  fixes flag_bit :: "'f \<Rightarrow> 'w::len word"
  assumes flag_bit_single: "flag_bit f \<noteq> 0 \<Longrightarrow> \<exists>n. flag_bit f = 2 ^ n"
    and flag_bit_inj: "flag_bit f = flag_bit g \<Longrightarrow> flag_bit f \<noteq> 0 \<Longrightarrow> f = g"
begin

lemma flag_bits_disjoint:
  assumes "f \<noteq> g" shows "flag_bit f AND flag_bit g = 0"
proof (cases "flag_bit f = 0 \<or> flag_bit g = 0")
  case True
  then show ?thesis by auto
next
  case False
  then obtain m n where m: "flag_bit f = 2 ^ m" and n: "flag_bit g = 2 ^ n"
    using flag_bit_single by metis
  then have "m \<noteq> n" using False assms flag_bit_inj by metis
  then show ?thesis unfolding m n
    by (intro bit_eqI) (auto simp: bit_and_iff bit_exp_iff)
qed

lemma set_has: "flag_bit f = (w OR flag_bit f) AND flag_bit f"
  by (intro bit_eqI) (auto simp: bit_simps)

lemma set_other: "f \<noteq> g \<Longrightarrow> (w OR flag_bit f) AND flag_bit g = w AND flag_bit g"
  using flag_bits_disjoint [of f g] by (simp add: and.commute [of _ "flag_bit g"] bit.conj_disj_distrib)

lemma clear_has: "(w AND NOT (flag_bit f)) AND flag_bit f = 0"
  by (intro bit_eqI) (auto simp: bit_simps)

lemma clear_other:
  assumes "f \<noteq> g" shows "(w AND NOT (flag_bit f)) AND flag_bit g = w AND flag_bit g"
proof (rule bit_eqI)
  fix n
  have "\<not> (bit (flag_bit f) n \<and> bit (flag_bit g) n)"
    using flag_bits_disjoint [OF assms] by (metis bit_0_eq bit_and_iff bot_apply bot_bool_def)
  then show "bit ((w AND NOT (flag_bit f)) AND flag_bit g) n = bit (w AND flag_bit g) n"
    by (auto simp: bit_simps dest: bit_imp_le_length)
qed

text \<open>A flag is tested by masking with its bit; the test is the bit itself.\<close>

lemma has_iff_bit:
  assumes "flag_bit f = 2 ^ n" "flag_bit f \<noteq> 0"
  shows "flag_bit f = w AND flag_bit f \<longleftrightarrow> bit w n"
proof -
  have "n < LENGTH('w)" using assms by (metis exp_eq_zero_iff not_le)
  then have b: "bit (flag_bit f) i \<longleftrightarrow> i = n" for i
    by (auto simp: assms(1) bit_exp_iff)
  show ?thesis
  proof
    assume "flag_bit f = w AND flag_bit f"
    then show "bit w n" by (metis b bit_and_iff)
  next
    assume "bit w n"
    then show "flag_bit f = w AND flag_bit f" by (intro bit_eqI) (auto simp: bit_and_iff b)
  qed
qed

end

end
