(* ===== verification/Modes.thy ===== *)
theory Modes
  imports FlagBits
begin

text \<open>
  Mode tables and mode strings, \<^verbatim>\<open>src/data/modes_common.go\<close> and \<^verbatim>\<open>src/data/user_modes.go\<close>:
  the user modes of a network (\<^verbatim>\<open>PREFIX\<close>), its channel modes (\<^verbatim>\<open>CHANMODES\<close>), the modes
  of one user as bits of a byte, and the interpreter \<^verbatim>\<open>apply\<close> of mode strings over anything
  that implements the interface \<^verbatim>\<open>moder\<close>.

  The structs hold pointers to the tables; an operation gets the table that the pointer leads
  to when it runs.  The Go interface \<^verbatim>\<open>moder\<close> is a record of its methods.
\<close>

section \<open>User modes of a network\<close>

datatype ModeError = CsvParse string | CouldNotParsePrefix string | MoreThanEight string

record UserMode =
  Mode :: rune
  Arg :: string

record UserModeKinds =
  modeInfo :: "(rune \<times> rune) list"

text \<open>
  \<^verbatim>\<open>parsePrefixString\<close>: letters in brackets, then as many symbols.  The loop reads
  \<^verbatim>\<open>prefix[split+i]\<close> without a check.
\<close>

definition parsePrefixString :: "string \<Rightarrow> (ModeError + (rune \<times> rune) list) outcome" where
  "parsePrefixString pre =
     (if pre = [] \<or> hd pre \<noteq> CHR ''('' then Inr (Inl (CouldNotParsePrefix pre))
      else if CHR '')'' \<notin> set pre then Inr (Inl (CouldNotParsePrefix pre))
      else
        let split = length (takeWhile (\<lambda>c. c \<noteq> CHR '')'') pre) in
        if 8 < split - 1 then Inr (Inl (MoreThanEight pre))
        else if \<forall>i \<in> set [1..<split]. split + i < length pre
        then Inr (Inr (map (\<lambda>i. (pre ! i, pre ! (split + i))) [1..<split]))
        else Inl IndexOutOfRange)"

definition NewUserModeKinds :: "string \<Rightarrow> (ModeError + UserModeKinds) outcome" where
  "NewUserModeKinds pre =
     and_then (parsePrefixString pre) (\<lambda>r.
       Inr (case r of Inl err \<Rightarrow> Inl err | Inr modes \<Rightarrow> Inr \<lparr>modeInfo = modes\<rparr>))"

definition UpdateModes :: "string \<Rightarrow> UserModeKinds \<Rightarrow> (ModeError option \<times> UserModeKinds) outcome" where
  "UpdateModes pre u =
     and_then (parsePrefixString pre) (\<lambda>r.
       Inr (case r of Inl err \<Rightarrow> (Some err, u) | Inr update \<Rightarrow> (None, u\<lparr>modeInfo := update\<rparr>)))"

text \<open>The three loops over the table; the rune 0 is the answer for an unknown mode.\<close>

fun find_symbol :: "(rune \<times> rune) list \<Rightarrow> rune \<Rightarrow> rune" where
  "find_symbol [] mode = CHR 0x00"
| "find_symbol ((m, s) # info) mode = (if m = mode then s else find_symbol info mode)"

fun find_mode :: "(rune \<times> rune) list \<Rightarrow> rune \<Rightarrow> rune" where
  "find_mode [] symbol = CHR 0x00"
| "find_mode ((m, s) # info) symbol = (if s = symbol then m else find_mode info symbol)"

fun find_bit :: "nat \<Rightarrow> (rune \<times> rune) list \<Rightarrow> rune \<Rightarrow> 8 word" where
  "find_bit i [] mode = 0"
| "find_bit i ((m, s) # info) mode = (if m = mode then push_bit i 1 else find_bit (Suc i) info mode)"

definition GetSymbol :: "UserModeKinds \<Rightarrow> rune \<Rightarrow> rune" where
  "GetSymbol u mode = find_symbol (modeInfo u) mode"

definition GetMode :: "UserModeKinds \<Rightarrow> rune \<Rightarrow> rune" where
  "GetMode u symbol = find_mode (modeInfo u) symbol"

definition GetModeBit :: "UserModeKinds \<Rightarrow> rune \<Rightarrow> 8 word" where
  "GetModeBit u mode = find_bit 0 (modeInfo u) mode"

section \<open>Modes of one user\<close>

record UserModes =
  umodes :: "8 word"

definition NewUserModes :: UserModes where
  "NewUserModes = \<lparr>umodes = 0\<rparr>"

definition SetMode :: "UserModeKinds \<Rightarrow> rune \<Rightarrow> UserModes \<Rightarrow> UserModes" where
  "SetMode k mode u = u\<lparr>umodes := umodes u OR GetModeBit k mode\<rparr>"

definition HasMode :: "UserModeKinds \<Rightarrow> rune \<Rightarrow> UserModes \<Rightarrow> bool" where
  "HasMode k mode u \<longleftrightarrow> GetModeBit k mode \<noteq> 0 \<and> GetModeBit k mode = umodes u AND GetModeBit k mode"

definition UnsetMode :: "UserModeKinds \<Rightarrow> rune \<Rightarrow> UserModes \<Rightarrow> UserModes" where
  "UnsetMode k mode u = u\<lparr>umodes := umodes u AND NOT (GetModeBit k mode)\<rparr>"

definition UserModes_String :: "UserModeKinds \<Rightarrow> UserModes \<Rightarrow> string" where
  "UserModes_String k u = map fst (filter (\<lambda>(m, s). HasMode k m u) (modeInfo k))"

definition StringSymbols :: "UserModeKinds \<Rightarrow> UserModes \<Rightarrow> string" where
  "StringSymbols k u = map snd (filter (\<lambda>(m, s). HasMode k m u) (modeInfo k))"

section \<open>Channel modes of a network\<close>

abbreviation (input) ARGS_NONE :: nat where "ARGS_NONE \<equiv> 1"
abbreviation (input) ARGS_ALWAYS :: nat where "ARGS_ALWAYS \<equiv> 2"
abbreviation (input) ARGS_ONSET :: nat where "ARGS_ONSET \<equiv> 3"
abbreviation (input) ARGS_ADDRESS :: nat where "ARGS_ADDRESS \<equiv> 4"

record ChannelModeKinds =
  kinds :: "rune \<rightharpoonup> nat"

definition set_kinds :: "nat \<Rightarrow> string \<Rightarrow> (rune \<rightharpoonup> nat) \<Rightarrow> (rune \<rightharpoonup> nat)" where
  "set_kinds kind ms m = fold (\<lambda>mode m. m(mode \<mapsto> kind)) ms m"

definition parseChannelModeKinds :: "string \<Rightarrow> string \<Rightarrow> string \<Rightarrow> string \<Rightarrow> (rune \<rightharpoonup> nat)" where
  "parseChannelModeKinds address always onset none =
     set_kinds ARGS_NONE none
       (set_kinds ARGS_ADDRESS address
         (set_kinds ARGS_ONSET onset
           (set_kinds ARGS_ALWAYS always Map.empty)))"

definition parseChannelModeKindsCSV :: "string \<Rightarrow> ModeError + (rune \<rightharpoonup> nat)" where
  "parseChannelModeKindsCSV kindstr =
     (if kindstr = [] then Inl (CsvParse kindstr)
      else (case split_on CHR '','' kindstr of
              [address, always, onset, none] \<Rightarrow> Inr (parseChannelModeKinds address always onset none)
            | _ \<Rightarrow> Inl (CsvParse kindstr)))"

definition NewChannelModeKindsCSV :: "string \<Rightarrow> ModeError + ChannelModeKinds" where
  "NewChannelModeKindsCSV kindstr =
     (case parseChannelModeKindsCSV kindstr of Inl err \<Rightarrow> Inl err | Inr m \<Rightarrow> Inr \<lparr>kinds = m\<rparr>)"

definition NewChannelModeKinds :: "string \<Rightarrow> string \<Rightarrow> string \<Rightarrow> string \<Rightarrow> ChannelModeKinds" where
  "NewChannelModeKinds address always onset none =
     \<lparr>kinds = parseChannelModeKinds address always onset none\<rparr>"

definition ChannelModeKinds_Update ::
    "string \<Rightarrow> string \<Rightarrow> string \<Rightarrow> string \<Rightarrow> ChannelModeKinds \<Rightarrow> ChannelModeKinds" where
  "ChannelModeKinds_Update address always onset none m =
     m\<lparr>kinds := parseChannelModeKinds address always onset none\<rparr>"

definition UpdateCSV :: "string \<Rightarrow> ChannelModeKinds \<Rightarrow> ModeError option \<times> ChannelModeKinds" where
  "UpdateCSV kindstr m =
     (case parseChannelModeKindsCSV kindstr of
        Inl err \<Rightarrow> (Some err, m)
      | Inr ks \<Rightarrow> (None, m\<lparr>kinds := ks\<rparr>))"

definition getKind :: "ChannelModeKinds \<Rightarrow> rune \<Rightarrow> nat" where
  "getKind m mode = (case kinds m mode of None \<Rightarrow> 0 | Some k \<Rightarrow> k)"

section \<open>Mode strings\<close>

record 'm moder =
  m_setMode :: "rune \<Rightarrow> 'm \<Rightarrow> 'm"
  m_setArg :: "rune \<Rightarrow> string \<Rightarrow> 'm \<Rightarrow> 'm"
  m_setAddress :: "rune \<Rightarrow> string \<Rightarrow> 'm \<Rightarrow> 'm"
  m_unsetMode :: "rune \<Rightarrow> 'm \<Rightarrow> 'm"
  m_unsetArg :: "rune \<Rightarrow> string \<Rightarrow> 'm \<Rightarrow> 'm"
  m_unsetAddress :: "rune \<Rightarrow> string \<Rightarrow> 'm \<Rightarrow> 'm"
  m_getKind :: "rune \<Rightarrow> nat"
  m_isUserMode :: "rune \<Rightarrow> bool"

text \<open>
  The loop of \<^verbatim>\<open>apply\<close>.  The arguments not used yet stand for the slice and the counter
  \<^verbatim>\<open>used\<close>; \<^verbatim>\<open>break\<close> leaves the switch, so a mode without its argument is skipped.
\<close>

fun apply_loop :: "'m moder \<Rightarrow> rune list \<Rightarrow> bool \<Rightarrow> string list \<Rightarrow> 'm \<Rightarrow> UserMode list \<Rightarrow> UserMode list
    \<Rightarrow> 'm \<times> UserMode list \<times> UserMode list" where
  "apply_loop M [] adding args m pos neg = (m, pos, neg)"
| "apply_loop M (mode # modes) adding args m pos neg =
     (if mode = CHR ''+'' then apply_loop M modes True args m pos neg
      else if mode = CHR ''-'' then apply_loop M modes False args m pos neg
      else if m_getKind M mode = ARGS_ALWAYS \<or> m_getKind M mode = ARGS_ONSET then
        (if adding then
           (case args of
              [] \<Rightarrow> apply_loop M modes adding args m pos neg
            | a # as \<Rightarrow> apply_loop M modes adding as (m_setArg M mode a m) pos neg)
         else if m_getKind M mode = ARGS_ALWAYS then
           (case args of
              [] \<Rightarrow> apply_loop M modes adding args m pos neg
            | a # as \<Rightarrow> apply_loop M modes adding as (m_unsetArg M mode a m) pos neg)
         else apply_loop M modes adding args (m_unsetArg M mode [] m) pos neg)
      else if m_getKind M mode = ARGS_ADDRESS then
        (case args of
           [] \<Rightarrow> apply_loop M modes adding args m pos neg
         | a # as \<Rightarrow>
             apply_loop M modes adding as
               (if adding then m_setAddress M mode a m else m_unsetAddress M mode a m) pos neg)
      else if m_isUserMode M mode then
        (case args of
           [] \<Rightarrow> apply_loop M modes adding args m pos neg
         | a # as \<Rightarrow>
             (if adding then apply_loop M modes adding as m (pos @ [\<lparr>Mode = mode, Arg = a\<rparr>]) neg
              else apply_loop M modes adding as m pos (neg @ [\<lparr>Mode = mode, Arg = a\<rparr>])))
      else apply_loop M modes adding args (if adding then m_setMode M mode m else m_unsetMode M mode m) pos neg)"

definition apply_modes :: "'m moder \<Rightarrow> string \<Rightarrow> 'm \<Rightarrow> 'm \<times> UserMode list \<times> UserMode list" where
  "apply_modes M modestring m =
     (case split_on CHR '' '' (trim_space modestring) of
        modes # args \<Rightarrow> apply_loop M modes True args m [] []
      | [] \<Rightarrow> (m, [], []))"

text \<open>
  \<^verbatim>\<open>parseSimpleModestrings\<close>: the modes and the arguments of several simple mode strings.  A
  string without arguments moves its last mode back over as many places as there are arguments
  so far; the loop can step below index 0.
\<close>

fun swap_back :: "nat \<Rightarrow> nat \<Rightarrow> rune list \<Rightarrow> rune list outcome" where
  "swap_back 0 p modes = Inr modes"
| "swap_back (Suc n) p modes =
     (if p = 0 then Inl IndexOutOfRange
      else swap_back n (p - 1) (modes[p := modes ! (p - 1), p - 1 := modes ! p]))"

fun parse_simple_loop :: "string list \<Rightarrow> rune list \<Rightarrow> string list \<Rightarrow> (rune list \<times> string list) outcome" where
  "parse_simple_loop [] modes args = Inr (modes, args)"
| "parse_simple_loop (str # strs) modes args =
     (let modestr = trim_space str in
      if modestr = [] then parse_simple_loop strs modes args
      else if CHR '' '' \<in> set modestr then
        (case split_on CHR '' '' modestr of
           m # as \<Rightarrow> parse_simple_loop strs (modes @ m) (args @ as)
         | [] \<Rightarrow> parse_simple_loop strs modes args)
      else and_then (swap_back (length args) (length (modes @ modestr) - 1) (modes @ modestr))
             (\<lambda>modes'. parse_simple_loop strs modes' args))"

definition parseSimpleModestrings :: "string list \<Rightarrow> (rune list \<times> string list) outcome" where
  "parseSimpleModestrings modestrs = parse_simple_loop modestrs [] []"

section \<open>Contracts of moder\<close>

text \<open>An implementation of \<^verbatim>\<open>moder\<close> whose operations keep a property.\<close>

locale moder_invariant =
  fixes M :: "'m moder" and I :: "'m \<Rightarrow> bool"
  assumes keep_setMode: "I m \<Longrightarrow> I (m_setMode M c m)"
    and keep_setArg: "I m \<Longrightarrow> I (m_setArg M c a m)"
    and keep_setAddress: "I m \<Longrightarrow> I (m_setAddress M c a m)"
    and keep_unsetMode: "I m \<Longrightarrow> I (m_unsetMode M c m)"
    and keep_unsetArg: "I m \<Longrightarrow> I (m_unsetArg M c a m)"
    and keep_unsetAddress: "I m \<Longrightarrow> I (m_unsetAddress M c a m)"
begin

lemmas keeps = keep_setMode keep_setArg keep_setAddress keep_unsetMode keep_unsetArg keep_unsetAddress

lemma apply_loop_keeps: "I m \<Longrightarrow> I (fst (apply_loop M modes adding args m pos neg))"
proof (induction modes arbitrary: adding args m pos neg)
  case (Cons mode modes)
  then show ?case by (simp add: keeps split: list.splits)
qed simp

lemma apply_modes_keeps: "I m \<Longrightarrow> I (fst (apply_modes M s m))"
  by (simp add: apply_modes_def apply_loop_keeps split: list.splits)

end

text \<open>
  Two implementations over the same tables, with a relation that corresponding operations
  keep.  Interpreting a mode string then keeps the relation and reports the same user modes.
\<close>

locale moder_simulation =
  fixes M :: "'m moder" and N :: "'n moder" and R :: "'m \<Rightarrow> 'n \<Rightarrow> bool"
  assumes same_kind: "m_getKind M c = m_getKind N c"
    and same_user: "m_isUserMode M c = m_isUserMode N c"
    and sim_setMode: "R m n \<Longrightarrow> R (m_setMode M c m) (m_setMode N c n)"
    and sim_setArg: "R m n \<Longrightarrow> R (m_setArg M c a m) (m_setArg N c a n)"
    and sim_setAddress: "R m n \<Longrightarrow> R (m_setAddress M c a m) (m_setAddress N c a n)"
    and sim_unsetMode: "R m n \<Longrightarrow> R (m_unsetMode M c m) (m_unsetMode N c n)"
    and sim_unsetArg: "R m n \<Longrightarrow> R (m_unsetArg M c a m) (m_unsetArg N c a n)"
    and sim_unsetAddress: "R m n \<Longrightarrow> R (m_unsetAddress M c a m) (m_unsetAddress N c a n)"
begin

lemmas sims = sim_setMode sim_setArg sim_setAddress sim_unsetMode sim_unsetArg sim_unsetAddress

lemma apply_loop_sim:
  assumes "R m n"
  shows "R (fst (apply_loop M modes adding args m pos neg)) (fst (apply_loop N modes adding args n pos neg))"
    and "snd (apply_loop M modes adding args m pos neg) = snd (apply_loop N modes adding args n pos neg)"
  using assms
proof (induction modes arbitrary: adding args m n pos neg)
  case (Cons mode modes)
  note IH = Cons.IH
  case 1
  then show ?case by (simp add: same_kind same_user sims IH split: list.splits)
  case 2
  then show ?case by (simp add: same_kind same_user sims IH split: list.splits)
qed simp_all

lemma apply_modes_sim:
  assumes "R m n"
  shows "R (fst (apply_modes M s m)) (fst (apply_modes N s n))"
    and "snd (apply_modes M s m) = snd (apply_modes N s n)"
  using apply_loop_sim [OF assms] by (simp_all add: apply_modes_def split: list.splits)

end

section \<open>Lemmas on the tables\<close>

lemma find_bit_single: "find_bit i info m \<noteq> 0 \<Longrightarrow> \<exists>n. find_bit i info m = 2 ^ n"
  by (induction i info m rule: find_bit.induct) auto

lemma find_bit_pow: "find_bit i info m = 2 ^ n \<Longrightarrow> find_bit i info m \<noteq> 0 \<Longrightarrow> i \<le> n"
proof (induction i info m rule: find_bit.induct)
  case (2 i m s info mode)
  show ?case
  proof (cases "m = mode")
    case True
    with 2 have "(2 :: 8 word) ^ i = 2 ^ n" "(2 :: 8 word) ^ i \<noteq> 0" by simp_all
    then have "i = n" by (rule word_exp_inj)
    then show ?thesis by simp
  next
    case False
    with 2 show ?thesis by simp
  qed
qed simp

lemma find_bit_inj:
  "find_bit i info m = find_bit i info m' \<Longrightarrow> find_bit i info m \<noteq> 0 \<Longrightarrow> m = m'"
proof (induction i info m rule: find_bit.induct)
  case (2 i x s info m)
  show ?case
  proof (cases "x = m")
    case True
    have "x = m'"
    proof (rule ccontr)
      assume "x \<noteq> m'"
      with True 2 have "find_bit (Suc i) info m' = 2 ^ i" "find_bit (Suc i) info m' \<noteq> 0" by auto
      then have "Suc i \<le> i" by (rule find_bit_pow)
      then show False by simp
    qed
    with True show ?thesis by simp
  next
    case False
    have "x \<noteq> m'"
    proof
      assume "x = m'"
      with False 2 have "find_bit (Suc i) info m = 2 ^ i" "find_bit (Suc i) info m \<noteq> 0" by auto
      then have "Suc i \<le> i" by (rule find_bit_pow)
      then show False by simp
    qed
    with False 2 show ?thesis by auto
  qed
qed simp

lemma find_bit_nonzero_iff:
  "i + length info \<le> 8 \<Longrightarrow> find_bit i info m \<noteq> 0 \<longleftrightarrow> m \<in> fst ` set info"
  by (induction i info m rule: find_bit.induct) (force simp: exp_eq_zero_iff)+

interpretation user_bits: flag_bits "GetModeBit k" for k
  by unfold_locales (auto simp: GetModeBit_def find_bit_single intro: find_bit_inj)

lemma set_kinds_apply: "set_kinds k ms m c = (if c \<in> set ms then Some k else m c)"
  unfolding set_kinds_def by (induction ms arbitrary: m) auto

lemma HasMode_iff_AND: "HasMode k m u \<longleftrightarrow> GetModeBit k m \<noteq> 0 \<and> umodes u AND GetModeBit k m = GetModeBit k m"
  by (auto simp: HasMode_def)

lemma HasMode_NewUserModes [simp]: "\<not> HasMode k m NewUserModes"
  by (simp add: HasMode_def NewUserModes_def)

section \<open>Properties\<close>

text \<open>
  The modes of a user behave as a set.  After setting a mode, exactly the modes that were
  set before and the new one (if the network knows it) are set; after unsetting one, exactly
  the others; setting or unsetting one mode never disturbs the bit of another.
\<close>

theorem user_modes_set_laws:
  "(HasMode k g (SetMode k f u) \<longleftrightarrow> HasMode k g u \<or> (f = g \<and> GetModeBit k f \<noteq> 0))
   \<and> (HasMode k g (UnsetMode k f u) \<longleftrightarrow> HasMode k g u \<and> f \<noteq> g)"
proof (intro conjI)
  show "HasMode k g (SetMode k f u) \<longleftrightarrow> HasMode k g u \<or> (f = g \<and> GetModeBit k f \<noteq> 0)"
    using user_bits.set_has [where k = k and f = f] user_bits.set_other [where k = k and f = f and g = g]
    by (cases "f = g") (auto simp: HasMode_iff_AND SetMode_def)
  show "HasMode k g (UnsetMode k f u) \<longleftrightarrow> HasMode k g u \<and> f \<noteq> g"
    using user_bits.clear_has [where k = k and f = f] user_bits.clear_other [where k = k and f = f and g = g]
    by (cases "f = g") (auto simp: HasMode_iff_AND UnsetMode_def)
qed

text \<open>
  The \<^verbatim>\<open>PREFIX\<close> parser pairs letters and symbols.  For up to eight letters it returns
  the letters zipped with the symbols when there are at least as many symbols as letters, and
  panics with an index out of range when there are fewer.
\<close>

theorem parsePrefixString_pairs:
  assumes "CHR '')'' \<notin> set ms" and "length ms \<le> 8"
  shows "parsePrefixString (''('' @ ms @ '')'' @ ss)
       = (if length ms \<le> length ss then Inr (Inr (zip ms ss)) else Inl IndexOutOfRange)"
proof -
  let ?pre = "''('' @ ms @ '')'' @ ss"
  have "\<forall>c \<in> set (CHR ''('' # ms). c \<noteq> CHR '')''" using assms(1) by auto
  from takeWhile_dropWhile_append(1) [OF this, of "'')'' @ ss"]
  have split: "length (takeWhile (\<lambda>c. c \<noteq> CHR '')'') ?pre) = Suc (length ms)" by simp
  have ok: "(\<forall>i \<in> set [1..<Suc (length ms)]. Suc (length ms) + i < length ?pre) \<longleftrightarrow> length ms \<le> length ss"
    by (cases "length ms") (auto simp: less_Suc_eq_le)
  have pairs: "map (\<lambda>i. (?pre ! i, ?pre ! (Suc (length ms) + i))) [1..<Suc (length ms)] = zip ms ss"
    if "length ms \<le> length ss"
    using that by (intro nth_equalityI) (auto simp: nth_append nth_Cons' simp del: upt_Suc)
  have p: "parsePrefixString ?pre =
      (if \<forall>i \<in> set [1..<Suc (length ms)]. Suc (length ms) + i < length ?pre
       then Inr (Inr (map (\<lambda>i. (?pre ! i, ?pre ! (Suc (length ms) + i))) [1..<Suc (length ms)]))
       else Inl IndexOutOfRange)"
    unfolding parsePrefixString_def Let_def split using assms(2) by simp
  show ?thesis unfolding p ok using pairs by simp
qed

theorem parsePrefixString_pairs_witness:
  "parsePrefixString ''(ov)@+'' = Inr (Inr [(CHR ''o'', CHR ''@''), (CHR ''v'', CHR ''+'')])
   \<and> parsePrefixString ''(ov)@'' = Inl IndexOutOfRange"
  using parsePrefixString_pairs [of "''ov''" "''@+''"] parsePrefixString_pairs [of "''ov''" "''@''"] by simp

text \<open>
  The \<^verbatim>\<open>CHANMODES\<close> parser sorts the modes of the four comma-separated lists into their
  kinds, a later list (in the order always, on set, address, none) winning; other strings are
  refused.
\<close>

theorem parse_channel_kinds:
  assumes "CHR '','' \<notin> set a" "CHR '','' \<notin> set b" "CHR '','' \<notin> set c" "CHR '','' \<notin> set d"
  shows "\<exists>k. NewChannelModeKindsCSV (a @ '','' @ b @ '','' @ c @ '','' @ d) = Inr k
    \<and> (\<forall>m. getKind k m = (if m \<in> set d then ARGS_NONE else if m \<in> set a then ARGS_ADDRESS
          else if m \<in> set c then ARGS_ONSET else if m \<in> set b then ARGS_ALWAYS else 0))"
proof -
  have "split_on CHR '','' (a @ '','' @ b @ '','' @ c @ '','' @ d) = [a, b, c, d]"
    using assms by (simp add: split_on_sep split_on_notin)
  then show ?thesis
    by (simp add: NewChannelModeKindsCSV_def parseChannelModeKindsCSV_def parseChannelModeKinds_def
        getKind_def set_kinds_apply)
qed

theorem parse_channel_kinds_witness:
  "\<exists>k. NewChannelModeKindsCSV ''beI,k,l,imnOPRstz'' = Inr k \<and> getKind k CHR ''b'' = 4
     \<and> getKind k CHR ''k'' = 2 \<and> getKind k CHR ''l'' = 3 \<and> getKind k CHR ''n'' = 1 \<and> getKind k CHR ''o'' = 0"
proof -
  obtain k where "NewChannelModeKindsCSV (''beI'' @ '','' @ ''k'' @ '','' @ ''l'' @ '','' @ ''imnOPRstz'') = Inr k"
    and "\<forall>m. getKind k m = (if m \<in> set ''imnOPRstz'' then ARGS_NONE else if m \<in> set ''beI'' then ARGS_ADDRESS
          else if m \<in> set ''l'' then ARGS_ONSET else if m \<in> set ''k'' then ARGS_ALWAYS else 0)"
    using parse_channel_kinds [of "''beI''" "''k''" "''l''" "''imnOPRstz''"] by auto
  then show ?thesis by (intro exI [of _ k]) simp
qed

end
