(* ===== verification/ChannelModes.thy ===== *)
theory ChannelModes
  imports Modes
begin

text \<open>
  The modes of a channel and differences of modes, \<^verbatim>\<open>src/data/channel_modes.go\<close> and
  \<^verbatim>\<open>src/data/channel_modes_diff.go\<close>.

  The embedded pointer to the mode kinds and the pointer \<^verbatim>\<open>userModeKinds\<close> (which may be nil)
  are arguments of the operations that follow them.  The order in which \<^verbatim>\<open>range\<close> visits the
  keys of a map is a parameter \<^verbatim>\<open>rng\<close>, a list of the keys; \<^verbatim>\<open>map_order\<close> is what Go
  promises of it.
\<close>

definition map_order :: "('k set \<Rightarrow> 'k list) \<Rightarrow> bool" where
  "map_order rng \<longleftrightarrow> (\<forall>S. finite S \<longrightarrow> set (rng S) = S \<and> distinct (rng S))"

section \<open>ChannelModes\<close>

record ChannelModes =
  cmodes :: "rune \<rightharpoonup> bool"
  argModes :: "rune \<rightharpoonup> string"
  addressModes :: "rune \<rightharpoonup> string list"
  addresses :: int

definition NewChannelModes :: ChannelModes where
  "NewChannelModes = \<lparr>cmodes = Map.empty, argModes = Map.empty, addressModes = Map.empty, addresses = 0\<rparr>"

definition GetArg :: "rune \<Rightarrow> ChannelModes \<Rightarrow> string" where
  "GetArg mode m = (case argModes m mode of None \<Rightarrow> [] | Some a \<Rightarrow> a)"

definition GetAddresses :: "rune \<Rightarrow> ChannelModes \<Rightarrow> string list" where
  "GetAddresses mode m = (case addressModes m mode of None \<Rightarrow> [] | Some as \<Rightarrow> as)"

definition isModeSet :: "rune \<Rightarrow> ChannelModes \<Rightarrow> bool" where
  "isModeSet mode m \<longleftrightarrow> cmodes m mode = Some True"

definition setMode :: "rune \<Rightarrow> ChannelModes \<Rightarrow> ChannelModes" where
  "setMode mode m = m\<lparr>cmodes := (cmodes m)(mode \<mapsto> True)\<rparr>"

definition unsetMode :: "rune \<Rightarrow> ChannelModes \<Rightarrow> ChannelModes" where
  "unsetMode mode m = m\<lparr>cmodes := (cmodes m)(mode := None)\<rparr>"

definition isArgSet :: "rune \<Rightarrow> string \<Rightarrow> ChannelModes \<Rightarrow> bool" where
  "isArgSet mode arg m =
     (case argModes m mode of None \<Rightarrow> False | Some check \<Rightarrow> arg = [] \<or> arg = check)"

definition setArg :: "rune \<Rightarrow> string \<Rightarrow> ChannelModes \<Rightarrow> ChannelModes" where
  "setArg mode arg m = m\<lparr>argModes := (argModes m)(mode \<mapsto> arg)\<rparr>"

definition unsetArg :: "rune \<Rightarrow> string \<Rightarrow> ChannelModes \<Rightarrow> ChannelModes" where
  "unsetArg mode arg m =
     (case argModes m mode of
        None \<Rightarrow> m
      | Some check \<Rightarrow>
          if arg = [] \<or> arg = check then m\<lparr>argModes := (argModes m)(mode := None)\<rparr> else m)"

definition isAddressSet :: "rune \<Rightarrow> string \<Rightarrow> ChannelModes \<Rightarrow> bool" where
  "isAddressSet mode address m =
     (case addressModes m mode of
        None \<Rightarrow> False
      | Some as \<Rightarrow> address = [] \<or> index_of address as < length as)"

definition setAddress :: "rune \<Rightarrow> string \<Rightarrow> ChannelModes \<Rightarrow> ChannelModes" where
  "setAddress mode address m =
     (case addressModes m mode of
        None \<Rightarrow> m\<lparr>addressModes := (addressModes m)(mode \<mapsto> [address]), addresses := addresses m + 1\<rparr>
      | Some as \<Rightarrow>
          if length as \<le> index_of address as
          then m\<lparr>addressModes := (addressModes m)(mode \<mapsto> as @ [address]), addresses := addresses m + 1\<rparr>
          else m)"

definition unsetAddress :: "rune \<Rightarrow> string \<Rightarrow> ChannelModes \<Rightarrow> ChannelModes" where
  "unsetAddress mode address m =
     (case addressModes m mode of
        None \<Rightarrow> m
      | Some as \<Rightarrow>
          let i = index_of address as in
          if i < length as then
            (if length as = 1
             then m\<lparr>addressModes := (addressModes m)(mode := None), addresses := addresses m - 1\<rparr>
             else m\<lparr>addressModes := (addressModes m)(mode \<mapsto> swap_remove i as), addresses := addresses m - 1\<rparr>)
          else m)"

definition isUserMode :: "UserModeKinds option \<Rightarrow> rune \<Rightarrow> bool" where
  "isUserMode uk mode = (case uk of None \<Rightarrow> False | Some k \<Rightarrow> 0 < GetModeBit k mode)"

text \<open>The implementation of \<^verbatim>\<open>moder\<close> by \<^verbatim>\<open>*ChannelModes\<close>, and \<^verbatim>\<open>Apply\<close>.\<close>

definition channel_moder :: "ChannelModeKinds \<Rightarrow> UserModeKinds option \<Rightarrow> ChannelModes moder" where
  "channel_moder k uk =
     \<lparr>m_setMode = setMode, m_setArg = setArg, m_setAddress = setAddress,
      m_unsetMode = unsetMode, m_unsetArg = unsetArg, m_unsetAddress = unsetAddress,
      m_getKind = getKind k, m_isUserMode = isUserMode uk\<rparr>"

definition ChannelModes_Apply :: "ChannelModeKinds \<Rightarrow> UserModeKinds option \<Rightarrow> string \<Rightarrow> ChannelModes
    \<Rightarrow> ChannelModes \<times> UserMode list \<times> UserMode list" where
  "ChannelModes_Apply k uk modestring m = apply_modes (channel_moder k uk) modestring m"

text \<open>
  \<^verbatim>\<open>String\<close> fills a slice of letters and a slice of arguments whose lengths come from the
  counter \<^verbatim>\<open>addresses\<close>: a negative length panics in \<^verbatim>\<open>make\<close>, a short slice panics when it is
  filled, a long one keeps zero runes and empty strings at its end.
\<close>

definition ChannelModes_String :: "(rune set \<Rightarrow> rune list) \<Rightarrow> ChannelModes \<Rightarrow> string outcome" where
  "ChannelModes_String rng m =
     (let flags = rng (dom (cmodes m));
          args = map (\<lambda>c. (c, GetArg c m)) (rng (dom (argModes m)))
            @ concat (map (\<lambda>c. map (Pair c) (GetAddresses c m)) (rng (dom (addressModes m))));
          arglength = int (card (dom (argModes m))) + addresses m;
          pad = nat (arglength - int (length args))
      in if arglength < 0 then Inl MakeSliceLen
         else if arglength < int (length args) then Inl IndexOutOfRange
         else if args = [] then Inr (flags @ replicate pad (CHR 0x00))
         else Inr (flags @ map fst args @ replicate pad (CHR 0x00) @ '' ''
                @ join '' '' (map snd args @ replicate pad [])))"

fun is_set_loop :: "ChannelModeKinds \<Rightarrow> ChannelModes \<Rightarrow> rune list \<Rightarrow> string list \<Rightarrow> bool" where
  "is_set_loop k m [] args = True"
| "is_set_loop k m (mode # modes) args =
     (let kind = getKind k mode in
      if kind = ARGS_ALWAYS \<or> kind = ARGS_ONSET \<or> kind = ARGS_ADDRESS then
        (let arg = (case args of [] \<Rightarrow> [] | a # _ \<Rightarrow> a);
             found = (if kind = ARGS_ADDRESS then isAddressSet mode arg m else isArgSet mode arg m)
         in if \<not> found then False else is_set_loop k m modes (tl args))
      else if \<not> isModeSet mode m then False else is_set_loop k m modes args)"

definition ChannelModes_IsSet :: "ChannelModeKinds \<Rightarrow> string list \<Rightarrow> ChannelModes \<Rightarrow> bool outcome" where
  "ChannelModes_IsSet k modestrs m =
     and_then (parseSimpleModestrings modestrs) (\<lambda>(modes, args).
       Inr (if modes = [] then False else is_set_loop k m modes args))"

fun set_loop :: "ChannelModeKinds \<Rightarrow> rune list \<Rightarrow> string list \<Rightarrow> ChannelModes \<Rightarrow> ChannelModes" where
  "set_loop k [] args m = m"
| "set_loop k (mode # modes) args m =
     (let kind = getKind k mode in
      if kind = ARGS_ALWAYS \<or> kind = ARGS_ONSET then
        (case args of [] \<Rightarrow> set_loop k modes args m | a # as \<Rightarrow> set_loop k modes as (setArg mode a m))
      else if kind = ARGS_ADDRESS then
        (case args of [] \<Rightarrow> set_loop k modes args m | a # as \<Rightarrow> set_loop k modes as (setAddress mode a m))
      else set_loop k modes args (setMode mode m))"

definition ChannelModes_Set :: "ChannelModeKinds \<Rightarrow> string list \<Rightarrow> ChannelModes \<Rightarrow> ChannelModes outcome" where
  "ChannelModes_Set k modestrs m =
     and_then (parseSimpleModestrings modestrs) (\<lambda>(modes, args).
       Inr (if modes = [] then m else set_loop k modes args m))"

fun unset_loop :: "ChannelModeKinds \<Rightarrow> rune list \<Rightarrow> string list \<Rightarrow> ChannelModes \<Rightarrow> ChannelModes" where
  "unset_loop k [] args m = m"
| "unset_loop k (mode # modes) args m =
     (let kind = getKind k mode in
      if kind = ARGS_ALWAYS then
        (case args of [] \<Rightarrow> unset_loop k modes args m | a # as \<Rightarrow> unset_loop k modes as (unsetArg mode a m))
      else if kind = ARGS_ADDRESS then
        (case args of [] \<Rightarrow> unset_loop k modes args m | a # as \<Rightarrow> unset_loop k modes as (unsetAddress mode a m))
      else if kind = ARGS_ONSET then unset_loop k modes args (unsetArg mode [] m)
      else unset_loop k modes args (unsetMode mode m))"

definition ChannelModes_Unset :: "ChannelModeKinds \<Rightarrow> string list \<Rightarrow> ChannelModes \<Rightarrow> ChannelModes outcome" where
  "ChannelModes_Unset k modestrs m =
     and_then (parseSimpleModestrings modestrs) (\<lambda>(modes, args).
       Inr (if modes = [] then m else unset_loop k modes args m))"

section \<open>ModeDiff\<close>

record ModeDiff =
  d_pos :: ChannelModes
  d_neg :: ChannelModes

definition NewModeDiff :: ModeDiff where
  "NewModeDiff = \<lparr>d_pos = NewChannelModes, d_neg = NewChannelModes\<rparr>"

definition ModeDiff_IsSet :: "ChannelModeKinds \<Rightarrow> string list \<Rightarrow> ModeDiff \<Rightarrow> bool outcome" where
  "ModeDiff_IsSet k modestrs d = ChannelModes_IsSet k modestrs (d_pos d)"

definition ModeDiff_IsUnset :: "ChannelModeKinds \<Rightarrow> string list \<Rightarrow> ModeDiff \<Rightarrow> bool outcome" where
  "ModeDiff_IsUnset k modestrs d = ChannelModes_IsSet k modestrs (d_neg d)"

definition diff_setMode :: "rune \<Rightarrow> ModeDiff \<Rightarrow> ModeDiff" where
  "diff_setMode mode d = \<lparr>d_pos = setMode mode (d_pos d), d_neg = unsetMode mode (d_neg d)\<rparr>"

definition diff_unsetMode :: "rune \<Rightarrow> ModeDiff \<Rightarrow> ModeDiff" where
  "diff_unsetMode mode d = \<lparr>d_pos = unsetMode mode (d_pos d), d_neg = setMode mode (d_neg d)\<rparr>"

definition diff_setArg :: "rune \<Rightarrow> string \<Rightarrow> ModeDiff \<Rightarrow> ModeDiff" where
  "diff_setArg mode arg d = \<lparr>d_pos = setArg mode arg (d_pos d), d_neg = unsetArg mode arg (d_neg d)\<rparr>"

definition diff_unsetArg :: "rune \<Rightarrow> string \<Rightarrow> ModeDiff \<Rightarrow> ModeDiff" where
  "diff_unsetArg mode arg d = \<lparr>d_pos = unsetArg mode arg (d_pos d), d_neg = setArg mode arg (d_neg d)\<rparr>"

definition diff_setAddress :: "rune \<Rightarrow> string \<Rightarrow> ModeDiff \<Rightarrow> ModeDiff" where
  "diff_setAddress mode address d =
     \<lparr>d_pos = setAddress mode address (d_pos d), d_neg = unsetAddress mode address (d_neg d)\<rparr>"

definition diff_unsetAddress :: "rune \<Rightarrow> string \<Rightarrow> ModeDiff \<Rightarrow> ModeDiff" where
  "diff_unsetAddress mode address d =
     \<lparr>d_pos = unsetAddress mode address (d_pos d), d_neg = setAddress mode address (d_neg d)\<rparr>"

definition diff_moder :: "ChannelModeKinds \<Rightarrow> UserModeKinds option \<Rightarrow> ModeDiff moder" where
  "diff_moder k uk =
     \<lparr>m_setMode = diff_setMode, m_setArg = diff_setArg, m_setAddress = diff_setAddress,
      m_unsetMode = diff_unsetMode, m_unsetArg = diff_unsetArg, m_unsetAddress = diff_unsetAddress,
      m_getKind = getKind k, m_isUserMode = isUserMode uk\<rparr>"

definition ModeDiff_Apply :: "ChannelModeKinds \<Rightarrow> UserModeKinds option \<Rightarrow> string \<Rightarrow> ModeDiff
    \<Rightarrow> ModeDiff \<times> UserMode list \<times> UserMode list" where
  "ModeDiff_Apply k uk modestring d = apply_modes (diff_moder k uk) modestring d"

text \<open>One half of \<^verbatim>\<open>String\<close>: the letters before the first space and the rest with its space.\<close>

definition diff_half :: "rune \<Rightarrow> string \<Rightarrow> string \<times> string" where
  "diff_half sign s =
     (if s = [] then ([], [])
      else (sign # takeWhile (\<lambda>c. c \<noteq> CHR '' '') s, dropWhile (\<lambda>c. c \<noteq> CHR '' '') s))"

definition ModeDiff_String :: "(rune set \<Rightarrow> rune list) \<Rightarrow> ModeDiff \<Rightarrow> string outcome" where
  "ModeDiff_String rng d =
     and_then (ChannelModes_String rng (d_pos d)) (\<lambda>pos.
     and_then (ChannelModes_String rng (d_neg d)) (\<lambda>neg.
       Inr (fst (diff_half CHR ''+'' pos) @ fst (diff_half CHR ''-'' neg)
          @ snd (diff_half CHR ''+'' pos) @ snd (diff_half CHR ''-'' neg))))"

definition fold_addresses :: "(rune \<Rightarrow> string \<Rightarrow> ChannelModes \<Rightarrow> ChannelModes) \<Rightarrow> rune list
    \<Rightarrow> ChannelModes \<Rightarrow> ChannelModes \<Rightarrow> ChannelModes" where
  "fold_addresses f ms d m = fold (\<lambda>mode m. fold (f mode) (GetAddresses mode d) m) ms m"

definition ApplyDiff :: "(rune set \<Rightarrow> rune list) \<Rightarrow> ModeDiff \<Rightarrow> ChannelModes \<Rightarrow> ChannelModes" where
  "ApplyDiff rng d m =
     (let pos = d_pos d; neg = d_neg d;
          m = fold setMode (rng (dom (cmodes pos))) m;
          m = fold (\<lambda>mode. setArg mode (GetArg mode pos)) (rng (dom (argModes pos))) m;
          m = fold_addresses setAddress (rng (dom (addressModes pos))) pos m;
          m = fold unsetMode (rng (dom (cmodes neg))) m;
          m = fold (\<lambda>mode. unsetArg mode (GetArg mode neg)) (rng (dom (argModes neg))) m
      in fold_addresses unsetAddress (rng (dom (addressModes neg))) neg m)"

section \<open>The invariant\<close>

text \<open>
  Flags are stored as true only, every address list is non-empty and without duplicates, and
  the counter \<^verbatim>\<open>addresses\<close> is the total length of the lists.
\<close>

definition address_count :: "(rune \<rightharpoonup> string list) \<Rightarrow> int" where
  "address_count A = (\<Sum>c \<in> dom A. int (length (the (A c))))"

definition cm_inv :: "ChannelModes \<Rightarrow> bool" where
  "cm_inv m \<longleftrightarrow>
     finite (dom (cmodes m)) \<and> finite (dom (argModes m)) \<and> finite (dom (addressModes m))
     \<and> (\<forall>c. cmodes m c \<noteq> Some False)
     \<and> (\<forall>c as. addressModes m c = Some as \<longrightarrow> as \<noteq> [] \<and> distinct as)
     \<and> addresses m = address_count (addressModes m)"

named_theorems cm_defs \<open>the primitive operations of ChannelModes\<close>

lemmas cm_ops [cm_defs] = setMode_def unsetMode_def setArg_def unsetArg_def setAddress_def unsetAddress_def
  isModeSet_def isArgSet_def isAddressSet_def GetArg_def GetAddresses_def

lemma address_count_delete:
  "finite (dom A) \<Longrightarrow> A c = Some as \<Longrightarrow> address_count (A(c := None)) = address_count A - int (length as)"
  by (simp add: address_count_def sum.remove [of "dom A" c] domIff)

lemma address_count_update:
  assumes "finite (dom A)"
  shows "address_count (A(c \<mapsto> as)) = address_count (A(c := None)) + int (length as)"
  using assms by (simp add: address_count_def sum.insert_remove domIff insert_Diff_if)

lemma cm_inv_New [simp]: "cm_inv NewChannelModes"
  by (simp add: cm_inv_def NewChannelModes_def address_count_def)

lemma cm_inv_setMode: "cm_inv m \<Longrightarrow> cm_inv (setMode c m)"
  and cm_inv_unsetMode: "cm_inv m \<Longrightarrow> cm_inv (unsetMode c m)"
  and cm_inv_setArg: "cm_inv m \<Longrightarrow> cm_inv (setArg c a m)"
  and cm_inv_unsetArg: "cm_inv m \<Longrightarrow> cm_inv (unsetArg c a m)"
  by (auto simp: cm_inv_def cm_ops split: option.splits)

lemma cm_inv_setAddress: assumes "cm_inv m" shows "cm_inv (setAddress c a m)"
proof (cases "addressModes m c")
  case None
  then have "(addressModes m)(c := None) = addressModes m" by (simp add: fun_upd_idem_iff)
  with None assms show ?thesis by (auto simp: cm_inv_def setAddress_def address_count_update)
next
  case (Some as)
  with assms show ?thesis
    by (auto simp: cm_inv_def setAddress_def address_count_update address_count_delete not_less [symmetric] index_of_less_iff)
qed

lemma cm_inv_unsetAddress: assumes "cm_inv m" shows "cm_inv (unsetAddress c a m)"
proof (cases "addressModes m c")
  case None
  with assms show ?thesis by (simp add: unsetAddress_def)
next
  case (Some as)
  then have as: "as \<noteq> []" "distinct as" using assms by (auto simp: cm_inv_def)
  show ?thesis
  proof (cases "a \<in> set as")
    case True
    have ne: "length as \<noteq> 1 \<Longrightarrow> swap_remove (index_of a as) as \<noteq> []"
      using as(1) by (metis One_nat_def Suc_pred length_greater_0_conv length_swap_remove list.size(3))
    have "1 \<le> length as" using as(1) by (simp add: Suc_leI)
    with True Some assms ne set_swap_remove_index [OF as(2) True] show ?thesis
      by (auto simp: cm_inv_def unsetAddress_def Let_def index_of_less_iff address_count_update
          address_count_delete of_nat_diff)
  next
    case False
    with Some assms show ?thesis by (simp add: unsetAddress_def Let_def index_of_less_iff)
  qed
qed

lemmas cm_inv_ops = cm_inv_setMode cm_inv_unsetMode cm_inv_setArg cm_inv_unsetArg
  cm_inv_setAddress cm_inv_unsetAddress

interpretation channel_inv: moder_invariant "channel_moder k uk" cm_inv for k uk
  by unfold_locales (simp_all add: channel_moder_def cm_inv_ops)

definition diff_inv :: "ModeDiff \<Rightarrow> bool" where
  "diff_inv d \<longleftrightarrow> cm_inv (d_pos d) \<and> cm_inv (d_neg d)"

lemmas diff_ops = diff_setMode_def diff_unsetMode_def diff_setArg_def diff_unsetArg_def
  diff_setAddress_def diff_unsetAddress_def

interpretation diff_inv: moder_invariant "diff_moder k uk" diff_inv for k uk
  by unfold_locales (simp_all add: diff_moder_def diff_inv_def diff_ops cm_inv_ops)

lemma cm_inv_fold: "(\<And>x m. cm_inv m \<Longrightarrow> cm_inv (f x m)) \<Longrightarrow> cm_inv m \<Longrightarrow> cm_inv (fold f xs m)"
  by (induction xs arbitrary: m) auto

lemma cm_inv_fold_addresses:
  "(\<And>c a m. cm_inv m \<Longrightarrow> cm_inv (f c a m)) \<Longrightarrow> cm_inv m \<Longrightarrow> cm_inv (fold_addresses f cs d m)"
  by (auto simp: fold_addresses_def intro!: cm_inv_fold)

lemma cm_inv_ApplyDiff: "cm_inv m \<Longrightarrow> cm_inv (ApplyDiff rng d m)"
  by (auto simp: ApplyDiff_def Let_def intro!: cm_inv_fold_addresses cm_inv_fold cm_inv_ops)

lemma set_loop_inv: "cm_inv m \<Longrightarrow> cm_inv (set_loop k modes args m)"
  by (induction k modes args m rule: set_loop.induct) (auto simp: Let_def cm_inv_ops split: list.splits)

lemma unset_loop_inv: "cm_inv m \<Longrightarrow> cm_inv (unset_loop k modes args m)"
  by (induction k modes args m rule: unset_loop.induct) (auto simp: Let_def cm_inv_ops split: list.splits)

section \<open>Lookup after update\<close>

lemma isModeSet_ops [simp]:
  "isModeSet c (setMode c' m) \<longleftrightarrow> isModeSet c m \<or> c = c'"
  "isModeSet c (unsetMode c' m) \<longleftrightarrow> isModeSet c m \<and> c \<noteq> c'"
  "isModeSet c (setArg c' a m) \<longleftrightarrow> isModeSet c m"
  "isModeSet c (unsetArg c' a m) \<longleftrightarrow> isModeSet c m"
  "isModeSet c (setAddress c' a m) \<longleftrightarrow> isModeSet c m"
  "isModeSet c (unsetAddress c' a m) \<longleftrightarrow> isModeSet c m"
  "\<not> isModeSet c NewChannelModes"
  by (auto simp: cm_ops Let_def NewChannelModes_def split: option.splits)

lemma GetAddresses_ops [simp]:
  "GetAddresses c (setMode c' m) = GetAddresses c m"
  "GetAddresses c (unsetMode c' m) = GetAddresses c m"
  "GetAddresses c (setArg c' a m) = GetAddresses c m"
  "GetAddresses c (unsetArg c' a m) = GetAddresses c m"
  "GetAddresses c NewChannelModes = []"
  by (auto simp: cm_ops NewChannelModes_def split: option.splits)

lemma set_GetAddresses_setAddress [simp]:
  "set (GetAddresses c (setAddress c' a m)) = (if c = c' then insert a (set (GetAddresses c m)) else set (GetAddresses c m))"
  by (auto simp: cm_ops not_less [symmetric] index_of_less_iff split: option.splits if_splits)

lemma set_GetAddresses_unsetAddress [simp]:
  assumes "cm_inv m"
  shows "set (GetAddresses c (unsetAddress c' a m)) = (if c = c' then set (GetAddresses c m) - {a} else set (GetAddresses c m))"
proof (cases "addressModes m c'")
  case (Some as)
  then have as: "distinct as" using assms by (auto simp: cm_inv_def)
  then show ?thesis
  proof (cases "a \<in> set as")
    case True
    have "set as - {a} = {}" if "length as = Suc 0" using that True by (auto simp: length_Suc_conv)
    with True Some set_swap_remove_index [OF as True] show ?thesis
      by (auto simp: unsetAddress_def GetAddresses_def Let_def index_of_less_iff)
  qed (auto simp: Some unsetAddress_def GetAddresses_def Let_def index_of_less_iff)
qed (auto simp: unsetAddress_def GetAddresses_def)

lemma isAddressSet_iff:
  "cm_inv m \<Longrightarrow> a \<noteq> [] \<Longrightarrow> isAddressSet c a m \<longleftrightarrow> a \<in> set (GetAddresses c m)"
  by (auto simp: isAddressSet_def GetAddresses_def index_of_less_iff split: option.splits)

lemma dom_addressModes: "cm_inv m \<Longrightarrow> c \<in> dom (addressModes m) \<longleftrightarrow> GetAddresses c m \<noteq> []"
  by (auto simp: cm_inv_def GetAddresses_def split: option.splits)

lemma dom_cmodes: "cm_inv m \<Longrightarrow> c \<in> dom (cmodes m) \<longleftrightarrow> isModeSet c m"
proof -
  assume "cm_inv m"
  then have "cmodes m c \<noteq> Some False" by (simp add: cm_inv_def)
  then show ?thesis by (cases "cmodes m c") (auto simp: isModeSet_def)
qed

section \<open>Differences\<close>

text \<open>
  The relation between a channel that has followed a mode string from the modes \<^verbatim>\<open>base\<close> and
  a difference that has collected it: a flag or an address is set exactly if the difference adds
  it, or it was set before and the difference does not remove it, and the difference never does
  both.
\<close>

definition diff_rel :: "ChannelModes \<Rightarrow> ChannelModes \<Rightarrow> ModeDiff \<Rightarrow> bool" where
  "diff_rel base m d \<longleftrightarrow> cm_inv m \<and> diff_inv d
     \<and> (\<forall>c. isModeSet c m \<longleftrightarrow> isModeSet c (d_pos d) \<or> (isModeSet c base \<and> \<not> isModeSet c (d_neg d)))
     \<and> (\<forall>c. \<not> (isModeSet c (d_pos d) \<and> isModeSet c (d_neg d)))
     \<and> (\<forall>c. set (GetAddresses c m)
            = set (GetAddresses c (d_pos d)) \<union> (set (GetAddresses c base) - set (GetAddresses c (d_neg d))))
     \<and> (\<forall>c. set (GetAddresses c (d_pos d)) \<inter> set (GetAddresses c (d_neg d)) = {})"

interpretation diff_sim: moder_simulation "channel_moder k uk" "diff_moder k uk" "diff_rel base" for k uk base
  by unfold_locales
    (auto simp: channel_moder_def diff_moder_def diff_rel_def diff_inv_def diff_ops cm_inv_ops)

lemma fold_setMode [simp]: "isModeSet c (fold setMode cs m) \<longleftrightarrow> isModeSet c m \<or> c \<in> set cs"
  by (induction cs arbitrary: m) auto

lemma fold_unsetMode [simp]: "isModeSet c (fold unsetMode cs m) \<longleftrightarrow> isModeSet c m \<and> c \<notin> set cs"
  by (induction cs arbitrary: m) auto

lemma fold_same: "(\<And>x m. g (f x m) = g m) \<Longrightarrow> g (fold f xs m) = g m"
  by (induction xs arbitrary: m) auto

lemma fold_other [simp]:
  "isModeSet c (fold (\<lambda>x. setArg x (f x)) cs m) = isModeSet c m"
  "isModeSet c (fold (\<lambda>x. unsetArg x (f x)) cs m) = isModeSet c m"
  "isModeSet c (fold_addresses setAddress cs d m) = isModeSet c m"
  "isModeSet c (fold_addresses unsetAddress cs d m) = isModeSet c m"
  "GetAddresses c (fold (\<lambda>x. setArg x (f x)) cs m) = GetAddresses c m"
  "GetAddresses c (fold (\<lambda>x. unsetArg x (f x)) cs m) = GetAddresses c m"
  "GetAddresses c (fold setMode cs m) = GetAddresses c m"
  "GetAddresses c (fold unsetMode cs m) = GetAddresses c m"
  by (simp_all add: fold_addresses_def fold_same [where g = "isModeSet c"] fold_same [where g = "GetAddresses c"])

lemma fold_setAddress:
  "set (GetAddresses c (fold (setAddress c') as m))
   = (if c = c' then set (GetAddresses c m) \<union> set as else set (GetAddresses c m))"
  by (induction as arbitrary: m) auto

lemma fold_unsetAddress:
  "cm_inv m \<Longrightarrow> set (GetAddresses c (fold (unsetAddress c') as m))
   = (if c = c' then set (GetAddresses c m) - set as else set (GetAddresses c m))"
  by (induction as arbitrary: m) (auto simp: cm_inv_ops)

lemma fold_addresses_set:
  "set (GetAddresses c (fold_addresses setAddress cs d m))
   = set (GetAddresses c m) \<union> (if c \<in> set cs then set (GetAddresses c d) else {})"
  unfolding fold_addresses_def by (induction cs arbitrary: m) (auto simp: fold_setAddress)

lemma fold_addresses_unset:
  "cm_inv m \<Longrightarrow> set (GetAddresses c (fold_addresses unsetAddress cs d m))
   = set (GetAddresses c m) - (if c \<in> set cs then set (GetAddresses c d) else {})"
  unfolding fold_addresses_def
  by (induction cs arbitrary: m) (auto simp: fold_unsetAddress cm_inv_fold cm_inv_ops)

lemma ApplyDiff_view:
  assumes "map_order rng" "cm_inv m" "diff_inv d"
  shows "isModeSet c (ApplyDiff rng d m) \<longleftrightarrow> (isModeSet c m \<or> isModeSet c (d_pos d)) \<and> \<not> isModeSet c (d_neg d)"
    and "set (GetAddresses c (ApplyDiff rng d m))
       = (set (GetAddresses c m) \<union> set (GetAddresses c (d_pos d))) - set (GetAddresses c (d_neg d))"
proof -
  have inv: "cm_inv (d_pos d)" "cm_inv (d_neg d)" using assms(3) by (simp_all add: diff_inv_def)
  have r: "c \<in> set (rng (dom (cmodes x))) \<longleftrightarrow> isModeSet c x"
    "c \<in> set (rng (dom (addressModes x))) \<longleftrightarrow> GetAddresses c x \<noteq> []" if "cm_inv x" for x
    using assms(1) that dom_cmodes [OF that, of c] dom_addressModes [OF that, of c]
    by (auto simp: map_order_def cm_inv_def)
  show "isModeSet c (ApplyDiff rng d m) \<longleftrightarrow> (isModeSet c m \<or> isModeSet c (d_pos d)) \<and> \<not> isModeSet c (d_neg d)"
    using inv by (auto simp: ApplyDiff_def Let_def r)
  show "set (GetAddresses c (ApplyDiff rng d m))
       = (set (GetAddresses c m) \<union> set (GetAddresses c (d_pos d))) - set (GetAddresses c (d_neg d))"
    unfolding ApplyDiff_def Let_def
    by (subst fold_addresses_unset)
      (auto simp: fold_addresses_set r inv assms intro!: cm_inv_fold_addresses cm_inv_fold cm_inv_ops)
qed

section \<open>Printing and applying\<close>

definition plain_mode :: "rune \<Rightarrow> bool" where
  "plain_mode c \<longleftrightarrow> c \<noteq> CHR ''+'' \<and> c \<noteq> CHR ''-'' \<and> \<not> is_space c"

definition plain_arg :: "string \<Rightarrow> bool" where
  "plain_arg a \<longleftrightarrow> a \<noteq> [] \<and> (\<forall>c \<in> set a. \<not> is_space c)"

text \<open>The modes are of the kinds the network announces, and no mode or argument has white space.\<close>

definition wf_modes :: "ChannelModeKinds \<Rightarrow> UserModeKinds option \<Rightarrow> ChannelModes \<Rightarrow> bool" where
  "wf_modes k uk m \<longleftrightarrow> cm_inv m
     \<and> (\<forall>c \<in> dom (cmodes m). plain_mode c \<and> getKind k c \<notin> {ARGS_ALWAYS, ARGS_ONSET, ARGS_ADDRESS} \<and> \<not> isUserMode uk c)
     \<and> (\<forall>c \<in> dom (argModes m). plain_mode c \<and> getKind k c \<in> {ARGS_ALWAYS, ARGS_ONSET} \<and> plain_arg (GetArg c m))
     \<and> (\<forall>c \<in> dom (addressModes m). plain_mode c \<and> getKind k c = ARGS_ADDRESS
          \<and> (\<forall>a \<in> set (GetAddresses c m). plain_arg a))"

lemma dropWhile_hd: "s \<noteq> [] \<Longrightarrow> \<not> P (hd s) \<Longrightarrow> dropWhile P s = s"
  by (cases s) auto

lemma trim_space_ends:
  "s \<noteq> [] \<Longrightarrow> \<not> is_space (hd s) \<Longrightarrow> \<not> is_space (last s) \<Longrightarrow> trim_space s = s"
  by (simp add: trim_space_def trim_def dropWhile_hd hd_rev)

lemma last_join: "xs \<noteq> [] \<Longrightarrow> last xs \<noteq> [] \<Longrightarrow> last (join d xs) = last (last xs) \<and> join d xs \<noteq> []"
  by (induction d xs rule: join.induct) auto

lemma apply_loop_flags:
  assumes "\<forall>c \<in> set cs. plain_mode c \<and> getKind k c \<notin> {ARGS_ALWAYS, ARGS_ONSET, ARGS_ADDRESS} \<and> \<not> isUserMode uk c"
  shows "apply_loop (channel_moder k uk) (cs @ rest) True as m p n
       = apply_loop (channel_moder k uk) rest True as (fold setMode cs m) p n"
  using assms by (induction cs arbitrary: m) (auto simp: channel_moder_def plain_mode_def)

lemma apply_loop_args:
  assumes "\<forall>(c, a) \<in> set ps. plain_mode c \<and> getKind k c \<in> {ARGS_ALWAYS, ARGS_ONSET}"
  shows "apply_loop (channel_moder k uk) (map fst ps @ rest) True (map snd ps @ as) m p n
       = apply_loop (channel_moder k uk) rest True as (fold (\<lambda>(c, a). setArg c a) ps m) p n"
  using assms by (induction ps arbitrary: m) (auto simp: channel_moder_def plain_mode_def)

lemma apply_loop_addresses:
  assumes "\<forall>(c, a) \<in> set ps. plain_mode c \<and> getKind k c = ARGS_ADDRESS"
  shows "apply_loop (channel_moder k uk) (map fst ps) True (map snd ps) m p n
       = (fold (\<lambda>(c, a). setAddress c a) ps m, p, n)"
  using assms by (induction ps arbitrary: m) (auto simp: channel_moder_def plain_mode_def)

text \<open>What the three folds of a printed mode set build.\<close>

lemma fold_setMode_view:
  "fold setMode cs m = m\<lparr>cmodes := (\<lambda>c. if c \<in> set cs then Some True else cmodes m c)\<rparr>"
  by (induction cs arbitrary: m) (auto simp: setMode_def fun_eq_iff)

lemma fold_setArg_view:
  "fold (\<lambda>(c, a). setArg c a) (map (\<lambda>c. (c, f c)) cs) m
   = m\<lparr>argModes := (\<lambda>c. if c \<in> set cs then Some (f c) else argModes m c)\<rparr>"
  by (induction cs arbitrary: m) (auto simp: setArg_def fun_eq_iff)

lemma fold_setAddress_append:
  "addressModes m c = Some as \<Longrightarrow> distinct (as @ bs) \<Longrightarrow>
   addressModes (fold (setAddress c) bs m) = (addressModes m)(c \<mapsto> as @ bs)"
proof (induction bs arbitrary: as m)
  case (Cons b bs)
  have "addressModes (setAddress c b m) = (addressModes m)(c \<mapsto> as @ [b])"
    using Cons.prems by (auto simp: setAddress_def index_of_less_iff not_less [symmetric])
  with Cons.IH [of "setAddress c b m" "as @ [b]"] Cons.prems show ?case by (auto simp: fun_eq_iff)
qed (simp add: fun_upd_idem)

lemma fold_setAddress_new:
  assumes "addressModes m c = None" "bs \<noteq> []" "distinct bs"
  shows "addressModes (fold (setAddress c) bs m) = (addressModes m)(c \<mapsto> bs)"
proof (cases bs)
  case (Cons b bs')
  then show ?thesis
    using assms fold_setAddress_append [of "setAddress c b m" c "[b]" bs'] by (simp add: setAddress_def)
qed (use assms in simp)

lemma fold_setAddress_all:
  assumes "distinct cs" "\<forall>c \<in> set cs. addressModes m c = None \<and> f c \<noteq> [] \<and> distinct (f c)"
  shows "addressModes (fold (\<lambda>c. fold (setAddress c) (f c)) cs m)
       = (\<lambda>c. if c \<in> set cs then Some (f c) else addressModes m c)"
  using assms
proof (induction cs arbitrary: m)
  case (Cons c cs)
  then have s: "addressModes (fold (setAddress c) (f c) m) = (addressModes m)(c \<mapsto> f c)"
    by (intro fold_setAddress_new) auto
  from Cons show ?case by (subst fold_Cons, subst comp_apply, subst Cons.IH) (auto simp: s fun_eq_iff)
qed simp

lemma fold_setAddress_keeps:
  "cmodes (fold (\<lambda>c. fold (setAddress c) (f c)) cs m) = cmodes m"
  "argModes (fold (\<lambda>c. fold (setAddress c) (f c)) cs m) = argModes m"
proof -
  have "cmodes (setAddress c a x) = cmodes x \<and> argModes (setAddress c a x) = argModes x" for c a x
    by (simp add: setAddress_def split: option.splits)
  then show "cmodes (fold (\<lambda>c. fold (setAddress c) (f c)) cs m) = cmodes m"
    "argModes (fold (\<lambda>c. fold (setAddress c) (f c)) cs m) = argModes m"
    by (simp_all add: fold_same)
qed

lemma fold_concat_pairs:
  "fold (\<lambda>(c, a). setAddress c a) (concat (map (\<lambda>c. map (Pair c) (f c)) cs)) m
   = fold (\<lambda>c. fold (setAddress c) (f c)) cs m"
  by (induction cs arbitrary: m) (simp_all add: fold_map comp_def)

text \<open>What \<^verbatim>\<open>String\<close> returns for a set of modes that keeps the invariant.\<close>

definition arg_pairs :: "(rune set \<Rightarrow> rune list) \<Rightarrow> ChannelModes \<Rightarrow> (rune \<times> string) list" where
  "arg_pairs rng m = map (\<lambda>c. (c, GetArg c m)) (rng (dom (argModes m)))"

definition address_pairs :: "(rune set \<Rightarrow> rune list) \<Rightarrow> ChannelModes \<Rightarrow> (rune \<times> string) list" where
  "address_pairs rng m = concat (map (\<lambda>c. map (Pair c) (GetAddresses c m)) (rng (dom (addressModes m))))"

lemma length_address_pairs:
  assumes "map_order rng" "cm_inv m"
  shows "int (length (address_pairs rng m)) = addresses m"
proof -
  have d: "distinct (rng (dom (addressModes m)))" "set (rng (dom (addressModes m))) = dom (addressModes m)"
    using assms by (auto simp: map_order_def cm_inv_def)
  have "length (address_pairs rng m) = (\<Sum>c \<leftarrow> rng (dom (addressModes m)). length (GetAddresses c m))"
    by (simp add: address_pairs_def length_concat comp_def)
  also have "\<dots> = (\<Sum>c \<in> dom (addressModes m). length (GetAddresses c m))"
    using d by (simp add: sum_list_distinct_conv_sum_set)
  also have "int \<dots> = addresses m"
    using assms(2) by (auto simp: cm_inv_def address_count_def GetAddresses_def intro!: sum.cong)
  finally show ?thesis .
qed

lemma ChannelModes_String_inv:
  assumes "map_order rng" "cm_inv m"
  shows "ChannelModes_String rng m =
    (let flags = rng (dom (cmodes m)); args = arg_pairs rng m @ address_pairs rng m
     in Inr (if args = [] then flags else flags @ map fst args @ '' '' @ join '' '' (map snd args)))"
proof -
  have "distinct (rng (dom (argModes m)))" "set (rng (dom (argModes m))) = dom (argModes m)"
    using assms by (auto simp: map_order_def cm_inv_def)
  then have "card (dom (argModes m)) = length (arg_pairs rng m)"
    using distinct_card [of "rng (dom (argModes m))"] by (simp add: arg_pairs_def)
  then show ?thesis
    using length_address_pairs [OF assms]
    by (auto simp: ChannelModes_String_def arg_pairs_def [symmetric] address_pairs_def [symmetric] Let_def)
qed

lemma apply_words:
  assumes "modes \<noteq> []" "\<forall>c \<in> set modes. \<not> is_space c" "\<forall>a \<in> set args. plain_arg a"
  shows "apply_modes M (if args = [] then modes else modes @ '' '' @ join '' '' args) m
       = apply_loop M modes True args m [] []"
proof -
  let ?s = "join '' '' (modes # args)"
  have eq: "(if args = [] then modes else modes @ '' '' @ join '' '' args) = ?s" by (cases args) auto
  have l: "last (modes # args) \<noteq> []" "\<not> is_space (last (last (modes # args)))"
    using assms by (auto simp: plain_arg_def dest!: last_in_set split: if_splits)
  then have "last ?s = last (last (modes # args))" "?s \<noteq> []" using last_join [of "modes # args"] by auto
  moreover have "hd ?s = hd modes" using assms(1) by (cases args) auto
  ultimately have "trim_space ?s = ?s" using assms l by (intro trim_space_ends) auto
  moreover have "\<not> is_space c \<Longrightarrow> c \<noteq> CHR '' ''" for c by (auto simp: is_space_def code_def)
  then have "split_on CHR '' '' ?s = modes # args"
    using assms by (intro split_on_join) (auto simp: plain_arg_def)
  ultimately show ?thesis unfolding eq by (simp add: apply_modes_def)
qed

lemma wf_modes_rebuild:
  assumes "map_order rng" "cm_inv m"
  shows "fold (\<lambda>(c, a). setAddress c a) (address_pairs rng m)
      (fold (\<lambda>(c, a). setArg c a) (arg_pairs rng m) (fold setMode (rng (dom (cmodes m))) NewChannelModes)) = m"
    (is "?r = m")
proof -
  have d: "set (rng (dom (cmodes m))) = dom (cmodes m)" "set (rng (dom (argModes m))) = dom (argModes m)"
    "set (rng (dom (addressModes m))) = dom (addressModes m)" "distinct (rng (dom (addressModes m)))"
    using assms by (auto simp: map_order_def cm_inv_def)
  have as: "\<forall>c \<in> dom (addressModes m). GetAddresses c m \<noteq> [] \<and> distinct (GetAddresses c m)"
    using assms(2) by (auto simp: cm_inv_def GetAddresses_def)
  have inv: "cm_inv ?r" unfolding address_pairs_def arg_pairs_def
    by (auto intro!: cm_inv_fold cm_inv_ops)
  have "cmodes ?r c = cmodes m c" for c
    using dom_cmodes [OF assms(2), of c] by (cases "cmodes m c")
      (auto simp: address_pairs_def arg_pairs_def fold_concat_pairs fold_setAddress_keeps fold_setArg_view
        fold_setMode_view d isModeSet_def NewChannelModes_def)
  moreover have "argModes ?r c = argModes m c" for c
    by (cases "argModes m c")
      (auto simp: address_pairs_def arg_pairs_def fold_concat_pairs fold_setAddress_keeps fold_setArg_view
        fold_setMode_view d GetArg_def NewChannelModes_def)
  moreover have "addressModes ?r c = addressModes m c" for c
    unfolding address_pairs_def fold_concat_pairs
    by (subst fold_setAddress_all)
      (use d as in \<open>auto simp: arg_pairs_def fold_setArg_view fold_setMode_view NewChannelModes_def
        GetAddresses_def split: option.splits\<close>)
  ultimately have eq: "cmodes ?r = cmodes m" "argModes ?r = argModes m" "addressModes ?r = addressModes m"
    by (simp_all add: fun_eq_iff)
  show ?thesis by (rule ChannelModes.ChannelModes.equality) (use eq inv assms(2) in \<open>simp_all add: cm_inv_def\<close>)
qed

text \<open>An order of the keys that meets \<^verbatim>\<open>map_order\<close>: by code point.\<close>

definition code_order :: "rune set \<Rightarrow> rune list" where
  "code_order S = filter (\<lambda>c. c \<in> S) (map char_of [0..<256::nat])"

lemma map_order_code_order: "map_order code_order"
proof -
  have "c \<in> set (map char_of [0..<256::nat])" for c :: char
    by (auto intro!: image_eqI [of _ _ "of_char c"])
  moreover have "distinct (map char_of [0..<256::nat] :: char list)"
    by (auto simp: distinct_map inj_on_def dest: arg_cong [of _ _ "of_char :: char \<Rightarrow> nat"])
  ultimately show ?thesis by (auto simp: map_order_def code_order_def)
qed

section \<open>Properties\<close>

text \<open>
  C24: Every operation keeps the invariant of the channel modes, and on modes that keep it
  \<^verbatim>\<open>String\<close> never panics: applying any mode string, applying a difference, and setting and
  unsetting simple mode strings keep the lists free of duplicates and the counter
  \<^verbatim>\<open>addresses\<close> equal to their total length.
\<close>

theorem channel_modes_invariant:
  assumes "cm_inv m" and "map_order rng"
  shows "cm_inv (fst (ChannelModes_Apply k uk s m)) \<and> cm_inv (ApplyDiff rng d m)
    \<and> (ChannelModes_Set k ss m = Inr m' \<longrightarrow> cm_inv m') \<and> (ChannelModes_Unset k ss m = Inr m' \<longrightarrow> cm_inv m')
    \<and> (\<exists>str. ChannelModes_String rng m = Inr str)"
proof (intro conjI impI)
  show "cm_inv (fst (ChannelModes_Apply k uk s m))"
    unfolding ChannelModes_Apply_def using assms(1) by (rule channel_inv.apply_modes_keeps)
  show "cm_inv (ApplyDiff rng d m)" using assms(1) by (rule cm_inv_ApplyDiff)
  show "cm_inv m'" if "ChannelModes_Set k ss m = Inr m'"
    using that assms(1) by (auto simp: ChannelModes_Set_def set_loop_inv split: if_splits)
  show "cm_inv m'" if "ChannelModes_Unset k ss m = Inr m'"
    using that assms(1) by (auto simp: ChannelModes_Unset_def unset_loop_inv split: if_splits)
  show "\<exists>str. ChannelModes_String rng m = Inr str"
    using ChannelModes_String_inv [OF assms(2,1)] by (simp add: Let_def)
qed

theorem channel_modes_invariant_witness:
  "cm_inv (fst (ChannelModes_Apply (NewChannelModeKinds ''b'' ''k'' ''l'' ''nt'') None ''+bn-b *!*@a x'' NewChannelModes))
   \<and> (\<exists>str. ChannelModes_String code_order NewChannelModes = Inr str)"
  using channel_modes_invariant [OF cm_inv_New map_order_code_order] by blast

text \<open>
  C29: A mode set survives printing.  For modes of the kinds the network announces and arguments
  without white space, applying the string that \<^verbatim>\<open>String\<close> returns to an empty mode set
  gives the mode set back, lists, order and counter included, with no user modes left over.
\<close>

theorem String_Apply_roundtrip:
  assumes "map_order rng" and "wf_modes k uk m" and "m \<noteq> NewChannelModes"
  shows "\<exists>str. ChannelModes_String rng m = Inr str \<and> ChannelModes_Apply k uk str NewChannelModes = (m, [], [])"
proof -
  have inv: "cm_inv m" using assms(2) by (simp add: wf_modes_def)
  have d: "set (rng (dom (cmodes m))) = dom (cmodes m)" "set (rng (dom (argModes m))) = dom (argModes m)"
    "set (rng (dom (addressModes m))) = dom (addressModes m)"
    using assms(1) inv by (auto simp: map_order_def cm_inv_def)
  let ?fs = "rng (dom (cmodes m))" and ?ps = "arg_pairs rng m" and ?qs = "address_pairs rng m"
  have ps: "\<forall>(c, a) \<in> set ?ps. plain_mode c \<and> getKind k c \<in> {ARGS_ALWAYS, ARGS_ONSET}"
    and qs: "\<forall>(c, a) \<in> set ?qs. plain_mode c \<and> getKind k c = ARGS_ADDRESS"
    and fs: "\<forall>c \<in> set ?fs. plain_mode c \<and> getKind k c \<notin> {ARGS_ALWAYS, ARGS_ONSET, ARGS_ADDRESS} \<and> \<not> isUserMode uk c"
    and args: "\<forall>a \<in> set (map snd (?ps @ ?qs)). plain_arg a"
    using assms(2) unfolding wf_modes_def by (fastforce simp: arg_pairs_def address_pairs_def d)+
  let ?ms = "?fs @ map fst ?ps @ map fst ?qs"
  have rebuilt: "apply_loop (channel_moder k uk) ?ms True (map snd ?ps @ map snd ?qs) NewChannelModes [] [] = (m, [], [])"
    by (simp add: apply_loop_flags [OF fs] apply_loop_args [OF ps] apply_loop_addresses [OF qs]
        wf_modes_rebuild [OF assms(1) inv])
  then have "?ms \<noteq> []" using assms(3) by auto
  moreover have "\<forall>c \<in> set ?ms. plain_mode c"
    using fs ps qs unfolding ball_Un set_append set_map by (auto simp only: fst_conv)
  then have "\<forall>c \<in> set ?ms. \<not> is_space c" unfolding plain_mode_def by blast
  ultimately show ?thesis
    using apply_words [of ?ms "map snd (?ps @ ?qs)" "channel_moder k uk"] args rebuilt
    by (auto simp: ChannelModes_String_inv [OF assms(1) inv] ChannelModes_Apply_def Let_def split: if_splits)
qed

definition sample_modes :: ChannelModes where
  "sample_modes = setAddress CHR ''b'' ''*!*@a'' (setArg CHR ''l'' ''5'' (setMode CHR ''n'' NewChannelModes))"

theorem String_Apply_roundtrip_witness:
  "\<exists>str. ChannelModes_String code_order sample_modes = Inr str
     \<and> ChannelModes_Apply (NewChannelModeKinds ''b'' ''k'' ''l'' ''nt'') None str NewChannelModes = (sample_modes, [], [])"
proof (rule String_Apply_roundtrip [OF map_order_code_order])
  have "cm_inv sample_modes" unfolding sample_modes_def by (intro cm_inv_ops cm_inv_New)
  then show "wf_modes (NewChannelModeKinds ''b'' ''k'' ''l'' ''nt'') None sample_modes"
    by (auto simp: wf_modes_def sample_modes_def cm_ops NewChannelModes_def NewChannelModeKinds_def
        parseChannelModeKinds_def set_kinds_apply getKind_def plain_mode_def plain_arg_def isUserMode_def
        is_space_def code_def)
  show "sample_modes \<noteq> NewChannelModes" by (simp add: sample_modes_def cm_ops NewChannelModes_def)
qed

text \<open>
  C31: A difference does to a channel what its mode string does.  Collecting a mode string in a
  new difference and applying that leaves the same flags set and the same addresses (bans and
  the like) as applying the string itself, and reports the same user modes.
\<close>

theorem diff_refines_apply:
  assumes "map_order rng" and "cm_inv m"
  shows "isModeSet c (ApplyDiff rng (fst (ModeDiff_Apply k uk s NewModeDiff)) m)
           = isModeSet c (fst (ChannelModes_Apply k uk s m))
    \<and> set (GetAddresses c (ApplyDiff rng (fst (ModeDiff_Apply k uk s NewModeDiff)) m))
           = set (GetAddresses c (fst (ChannelModes_Apply k uk s m)))
    \<and> snd (ModeDiff_Apply k uk s NewModeDiff) = snd (ChannelModes_Apply k uk s m)"
proof -
  have "diff_rel m m NewModeDiff" using assms(2) by (auto simp: diff_rel_def diff_inv_def NewModeDiff_def)
  then have r: "diff_rel m (fst (ChannelModes_Apply k uk s m)) (fst (ModeDiff_Apply k uk s NewModeDiff))"
    and e: "snd (ModeDiff_Apply k uk s NewModeDiff) = snd (ChannelModes_Apply k uk s m)"
    using diff_sim.apply_modes_sim by (simp_all add: ChannelModes_Apply_def ModeDiff_Apply_def)
  then have "diff_inv (fst (ModeDiff_Apply k uk s NewModeDiff))" by (simp add: diff_rel_def)
  with r e show ?thesis by (auto simp: ApplyDiff_view assms diff_rel_def)
qed

theorem diff_refines_apply_witness:
  "isModeSet CHR ''n'' (ApplyDiff code_order (fst (ModeDiff_Apply (NewChannelModeKinds ''b'' ''k'' ''l'' ''nt'') None ''-t+n-n'' NewModeDiff)) sample_modes)
   = isModeSet CHR ''n'' (fst (ChannelModes_Apply (NewChannelModeKinds ''b'' ''k'' ''l'' ''nt'') None ''-t+n-n'' sample_modes))"
proof -
  have "cm_inv sample_modes" unfolding sample_modes_def by (intro cm_inv_ops cm_inv_New)
  from diff_refines_apply [OF map_order_code_order this] show ?thesis by blast
qed

text \<open>
  Modes with an argument are an exception.  Removing and then setting the limit in one mode
  string leaves the removal in the difference, so applying the difference ends without the limit
  that the string itself sets.
\<close>

theorem diff_drops_argument:
  assumes "map_order rng"
  shows "(let k = NewChannelModeKinds ''b'' ''k'' ''l'' ''nt''; s = ''-l+l 5'' in
     GetArg CHR ''l'' (fst (ChannelModes_Apply k None s NewChannelModes)) = ''5''
     \<and> argModes (ApplyDiff rng (fst (ModeDiff_Apply k None s NewModeDiff)) NewChannelModes) CHR ''l'' = None)"
proof -
  have e: "rng {} = []" and l: "rng {c} = [c]" for c
  proof -
    have "set (rng {}) = {}" using assms unfolding map_order_def by blast
    then show "rng {} = []" by simp
    have "set (rng {c}) = {c}" "distinct (rng {c})" using assms by (auto simp: map_order_def)
    then show "rng {c} = [c]" by (metis distinct_card card.empty card_insert_disjoint empty_iff finite.emptyI
          length_0_conv length_Suc_conv list.set_intros(1) singletonD)
  qed
  have s: "trim_space ''-l+l 5'' = ''-l+l 5''" "split_on CHR '' '' ''-l+l 5'' = [''-l+l'', ''5'']" by code_simp+
  show ?thesis
    by (simp add: ChannelModes_Apply_def ModeDiff_Apply_def apply_modes_def s channel_moder_def diff_moder_def
        NewChannelModeKinds_def parseChannelModeKinds_def set_kinds_apply getKind_def isUserMode_def
        cm_ops diff_ops NewChannelModes_def NewModeDiff_def ApplyDiff_def fold_addresses_def e l Let_def)
qed

theorem diff_drops_argument_witness:
  "GetArg CHR ''l'' (fst (ChannelModes_Apply (NewChannelModeKinds ''b'' ''k'' ''l'' ''nt'') None ''-l+l 5'' NewChannelModes)) = ''5''
   \<and> argModes (ApplyDiff code_order (fst (ModeDiff_Apply (NewChannelModeKinds ''b'' ''k'' ''l'' ''nt'') None ''-l+l 5'' NewModeDiff)) NewChannelModes) CHR ''l'' = None"
  using diff_drops_argument [OF map_order_code_order] by (simp add: Let_def)

end
