(* ===== verification/ChannelData.thy ===== *)
theory ChannelData
  imports ChannelModes Hosts
begin

text \<open>
  Channels, \<^verbatim>\<open>src/data/channel.go\<close>: a name, a topic, the modes, and the ban list kept in
  the address modes under the letter b.
\<close>

abbreviation (input) banMode :: rune where "banMode \<equiv> CHR ''b''"

record Channel =
  ch_name :: string
  ch_topic :: string
  ch_modes :: ChannelModes

definition NewChannel :: "string \<Rightarrow> Channel option" where
  "NewChannel name =
     (if name = [] then None else Some \<lparr>ch_name = name, ch_topic = [], ch_modes = NewChannelModes\<rparr>)"

definition Channel_Name :: "Channel \<Rightarrow> string" where "Channel_Name c = ch_name c"

definition SetTopic :: "string \<Rightarrow> Channel \<Rightarrow> Channel" where "SetTopic topic c = c\<lparr>ch_topic := topic\<rparr>"

definition Channel_Topic :: "Channel \<Rightarrow> string" where "Channel_Topic c = ch_topic c"

text \<open>A nick without a user or host part is completed by \<^verbatim>\<open>!@\<close> before matching.\<close>

definition complete_host :: "string \<Rightarrow> string" where
  "complete_host host = (if CHR ''!'' \<in> set host \<or> CHR ''@'' \<in> set host then host else host @ ''!@'')"

definition IsBanned :: "string \<Rightarrow> Channel \<Rightarrow> bool" where
  "IsBanned host c \<longleftrightarrow>
     list_ex (\<lambda>ban. Mask_Match ban (complete_host host)) (GetAddresses banMode (ch_modes c))"

definition SetBans :: "string list \<Rightarrow> Channel \<Rightarrow> Channel" where
  "SetBans bans c =
     c\<lparr>ch_modes := fold (setAddress banMode) bans ((ch_modes c)\<lparr>cmodes := (cmodes (ch_modes c))(banMode := None)\<rparr>)\<rparr>"

definition AddBan :: "string \<Rightarrow> Channel \<Rightarrow> Channel" where
  "AddBan ban c = c\<lparr>ch_modes := setAddress banMode ban (ch_modes c)\<rparr>"

definition Bans :: "Channel \<Rightarrow> string list" where
  "Bans c = GetAddresses banMode (ch_modes c)"

definition HasBan :: "string \<Rightarrow> Channel \<Rightarrow> bool" where
  "HasBan ban c = isAddressSet banMode ban (ch_modes c)"

definition DeleteBan :: "string \<Rightarrow> Channel \<Rightarrow> Channel" where
  "DeleteBan ban c = c\<lparr>ch_modes := unsetAddress banMode ban (ch_modes c)\<rparr>"

definition Channel_String :: "Channel \<Rightarrow> string" where "Channel_String c = ch_name c"

definition DeleteBans :: "string \<Rightarrow> Channel \<Rightarrow> Channel" where
  "DeleteBans host c =
     (let bans = GetAddresses banMode (ch_modes c) in
      if bans = [] then c
      else c\<lparr>ch_modes := fold (unsetAddress banMode)
               (filter (\<lambda>ban. Mask_Match ban (complete_host host)) bans) (ch_modes c)\<rparr>)"

section \<open>Lemmas\<close>

definition channel_inv :: "Channel \<Rightarrow> bool" where
  "channel_inv c \<longleftrightarrow> cm_inv (ch_modes c)"

lemma channel_inv_ops:
  assumes "channel_inv c"
  shows "channel_inv (SetTopic t c)" "channel_inv (AddBan b c)" "channel_inv (DeleteBan b c)"
    "channel_inv (SetBans bs c)" "channel_inv (DeleteBans h c)"
proof -
  have "cm_inv ((ch_modes c)\<lparr>cmodes := (cmodes (ch_modes c))(banMode := None)\<rparr>)"
    using cm_inv_unsetMode [of "ch_modes c" banMode] assms by (simp add: channel_inv_def unsetMode_def)
  with assms show "channel_inv (SetTopic t c)" "channel_inv (AddBan b c)" "channel_inv (DeleteBan b c)"
    "channel_inv (SetBans bs c)" "channel_inv (DeleteBans h c)"
    by (auto simp: channel_inv_def SetTopic_def AddBan_def DeleteBan_def SetBans_def DeleteBans_def Let_def
        intro!: cm_inv_fold cm_inv_ops)
qed

lemma set_Bans_DeleteBans:
  assumes "channel_inv c"
  shows "set (Bans (DeleteBans h c)) = {b \<in> set (Bans c). \<not> Mask_Match b (complete_host h)}"
  using assms by (auto simp: DeleteBans_def Bans_def Let_def fold_unsetAddress channel_inv_def)

section \<open>Properties\<close>

text \<open>
  Deleting bans unbans.  After \<^verbatim>\<open>DeleteBans\<close> for a host, that host is not banned, exactly
  the bans that did not match it are left, and the mode set keeps its invariant.
\<close>

theorem DeleteBans_unbans:
  assumes "channel_inv c"
  shows "\<not> IsBanned h (DeleteBans h c) \<and> set (Bans (DeleteBans h c)) = {b \<in> set (Bans c). \<not> Mask_Match b (complete_host h)}
    \<and> channel_inv (DeleteBans h c)"
  using set_Bans_DeleteBans [OF assms, of h] channel_inv_ops(5) [OF assms, of h]
  by (auto simp: IsBanned_def list_ex_iff Bans_def)

definition sample_channel :: Channel where
  "sample_channel = AddBan ''*!*@b'' (AddBan ''*!*@a'' \<lparr>ch_name = ''#c'', ch_topic = [], ch_modes = NewChannelModes\<rparr>)"

theorem DeleteBans_unbans_witness:
  "IsBanned ''n!u@a'' sample_channel \<and> \<not> IsBanned ''n!u@a'' (DeleteBans ''n!u@a'' sample_channel)
   \<and> Bans sample_channel = [''*!*@a'', ''*!*@b'']"
proof -
  have i: "channel_inv sample_channel"
    unfolding sample_channel_def by (intro channel_inv_ops) (simp add: channel_inv_def)
  have b: "GetAddresses banMode (ch_modes sample_channel) = [''*!*@a'', ''*!*@b'']"
    by (simp add: sample_channel_def AddBan_def cm_ops NewChannelModes_def index_of_def)
  have "isMatch ''n!u@a'' ''*!*@a''" by code_simp
  then have "IsBanned ''n!u@a'' sample_channel"
    unfolding IsBanned_def b by (simp add: Mask_Match_def complete_host_def)
  then show ?thesis using DeleteBans_unbans [OF i, of "''n!u@a''"] b by (simp add: Bans_def)
qed

text \<open>
  \<^verbatim>\<open>SetBans\<close> does not replace the ban list: it deletes the letter b from the flags, where
  bans are never stored, so the old bans stay and the new ones are added.
\<close>

theorem SetBans_keeps_old:
  "set (Bans (SetBans bs c)) = set (Bans c) \<union> set bs"
proof -
  have "GetAddresses banMode (m\<lparr>cmodes := f\<rparr>) = GetAddresses banMode m" for m f
    by (simp add: GetAddresses_def)
  then show ?thesis by (simp add: SetBans_def Bans_def fold_setAddress)
qed

end
