(* ===== verification/State.thy ===== *)
theory State
  imports ChannelData IrcEvent
begin

text \<open>
  The state of a network, \<^verbatim>\<open>src/data/state.go\<close> with \<^verbatim>\<open>user.go\<close> and
  \<^verbatim>\<open>channeluser_meta.go\<close>: who is online, on which channels, with which modes.

  The program shares objects: a user is reached from \<^verbatim>\<open>users\<close> and from each channel the user
  is on, and one \<^verbatim>\<open>UserModes\<close> object is shared by the \<^verbatim>\<open>ChannelUser\<close> and the
  \<^verbatim>\<open>UserChannel\<close> of a membership.  So \<^verbatim>\<open>*User\<close>, \<^verbatim>\<open>*Channel\<close> and
  \<^verbatim>\<open>*UserModes\<close> are references into heaps, with \<^verbatim>\<open>None\<close> for a nil pointer.  The inner
  maps of \<^verbatim>\<open>channelUsers\<close> and \<^verbatim>\<open>userChannels\<close> are never shared and are values.
  \<^verbatim>\<open>Self\<close> has a nil user until the server's welcome.
\<close>

section \<open>Users\<close>

record User =
  u_host :: string
  u_name :: string

definition NewUser :: "string \<Rightarrow> User option" where
  "NewUser nickorhost = (if nickorhost = [] then None else Some \<lparr>u_host = nickorhost, u_name = []\<rparr>)"

definition User_Nick :: "User \<Rightarrow> string" where "User_Nick u = Nick (u_host u)"
definition User_Username :: "User \<Rightarrow> string" where "User_Username u = Username (u_host u)"
definition User_Hostname :: "User \<Rightarrow> string" where "User_Hostname u = Hostname (u_host u)"
definition User_Host :: "User \<Rightarrow> string" where "User_Host u = u_host u"
definition SetRealname :: "string \<Rightarrow> User \<Rightarrow> User" where "SetRealname realname u = u\<lparr>u_name := realname\<rparr>"
definition Realname :: "User \<Rightarrow> string" where "Realname u = u_name u"

definition User_String :: "User \<Rightarrow> string" where
  "User_String u =
     Nick (u_host u)
     @ (if u_host u \<noteq> [] \<and> Nick (u_host u) \<noteq> u_host u then '' '' @ u_host u else [])
     @ (if u_name u \<noteq> [] then '' '' @ u_name u else [])"

type_synonym ref = nat

record ChannelUser =
  cu_User :: "ref option"
  cu_UserModes :: ref

record UserChannel =
  uc_Channel :: "ref option"
  uc_UserModes :: ref

definition NewChannelUser :: "ref option \<Rightarrow> ref \<Rightarrow> ChannelUser" where
  "NewChannelUser u m = \<lparr>cu_User = u, cu_UserModes = m\<rparr>"

definition NewUserChannel :: "ref option \<Rightarrow> ref \<Rightarrow> UserChannel" where
  "NewUserChannel c m = \<lparr>uc_Channel = c, uc_UserModes = m\<rparr>"

section \<open>The state\<close>

record State =
  heapUser :: "ref \<rightharpoonup> User"
  heapChannel :: "ref \<rightharpoonup> Channel"
  heapModes :: "ref \<rightharpoonup> UserModes"
  nextRef :: ref
  selfUser :: "ref option"
  selfModes :: ChannelModes
  channels :: "string \<rightharpoonup> ref option"
  users :: "string \<rightharpoonup> ref option"
  channelUsers :: "string \<rightharpoonup> (string \<rightharpoonup> ChannelUser)"
  userChannels :: "string \<rightharpoonup> (string \<rightharpoonup> UserChannel)"
  st_kinds :: ChannelModeKinds
  st_umodes :: UserModeKinds

datatype StateError = ProtoCapsMissing | ModeTables ModeError

definition SetNetworkInfo :: "NetworkInfo option \<Rightarrow> State \<Rightarrow> (StateError + State) outcome" where
  "SetNetworkInfo ni s =
     (case ni of
        None \<Rightarrow> Inr (Inl ProtoCapsMissing)
      | Some i \<Rightarrow>
          (case NewChannelModeKindsCSV (Chanmodes i) of
             Inl err \<Rightarrow> Inr (Inl (ModeTables err))
           | Inr ks \<Rightarrow>
               and_then (NewUserModeKinds (Prefix i)) (\<lambda>r.
                 case r of
                   Inl err \<Rightarrow> Inr (Inl (ModeTables err))
                 | Inr modes \<Rightarrow> Inr (Inr (s\<lparr>st_kinds := ks, st_umodes := modes\<rparr>)))))"

definition empty_state :: State where
  "empty_state =
     \<lparr>heapUser = Map.empty, heapChannel = Map.empty, heapModes = Map.empty, nextRef = 0,
      selfUser = None, selfModes = NewChannelModes, channels = Map.empty, users = Map.empty,
      channelUsers = Map.empty, userChannels = Map.empty,
      st_kinds = \<lparr>kinds = Map.empty\<rparr>, st_umodes = \<lparr>modeInfo = []\<rparr>\<rparr>"

definition NewState :: "NetworkInfo option \<Rightarrow> (StateError + State) outcome" where
  "NewState ni = SetNetworkInfo ni empty_state"

text \<open>\<^verbatim>\<open>Self.Host()\<close> and \<^verbatim>\<open>Self.Nick()\<close> follow the embedded user.\<close>

definition the_user :: "ref option \<Rightarrow> State \<Rightarrow> User outcome" where
  "the_user p s = and_then (deref p) (\<lambda>r. deref (heapUser s r))"

definition the_channel :: "ref option \<Rightarrow> State \<Rightarrow> Channel outcome" where
  "the_channel p s = and_then (deref p) (\<lambda>r. deref (heapChannel s r))"

definition the_modes :: "ref option \<Rightarrow> State \<Rightarrow> UserModes outcome" where
  "the_modes p s = and_then (deref p) (\<lambda>r. deref (heapModes s r))"

definition upd_channel :: "ref option \<Rightarrow> (Channel \<Rightarrow> Channel) \<Rightarrow> State \<Rightarrow> State outcome" where
  "upd_channel p f s =
     and_then (the_channel p s) (\<lambda>ch. Inr (s\<lparr>heapChannel := (heapChannel s)(the p \<mapsto> f ch)\<rparr>))"

definition upd_user :: "ref option \<Rightarrow> (User \<Rightarrow> User) \<Rightarrow> State \<Rightarrow> State outcome" where
  "upd_user p f s = and_then (the_user p s) (\<lambda>u. Inr (s\<lparr>heapUser := (heapUser s)(the p \<mapsto> f u)\<rparr>))"

definition upd_modes :: "ref option \<Rightarrow> (UserModes \<Rightarrow> UserModes) \<Rightarrow> State \<Rightarrow> State outcome" where
  "upd_modes p f s = and_then (the_modes p s) (\<lambda>u. Inr (s\<lparr>heapModes := (heapModes s)(the p \<mapsto> f u)\<rparr>))"

definition new_user :: "string \<Rightarrow> State \<Rightarrow> ref option \<times> State" where
  "new_user nickorhost s =
     (case NewUser nickorhost of
        None \<Rightarrow> (None, s)
      | Some u \<Rightarrow> (Some (nextRef s), s\<lparr>heapUser := (heapUser s)(nextRef s \<mapsto> u), nextRef := nextRef s + 1\<rparr>))"

section \<open>Queries\<close>

definition nick_key :: "string \<Rightarrow> string" where
  "nick_key nickorhost = to_lower (Nick nickorhost)"

definition cu_at :: "State \<Rightarrow> string \<Rightarrow> string \<Rightarrow> ChannelUser option" where
  "cu_at s c n = (case channelUsers s c of None \<Rightarrow> None | Some m \<Rightarrow> m n)"

definition uc_at :: "State \<Rightarrow> string \<Rightarrow> string \<Rightarrow> UserChannel option" where
  "uc_at s n c = (case userChannels s n of None \<Rightarrow> None | Some m \<Rightarrow> m c)"

definition GetUser :: "string \<Rightarrow> State \<Rightarrow> ref option" where
  "GetUser nickorhost s = (case users s (nick_key nickorhost) of None \<Rightarrow> None | Some p \<Rightarrow> p)"

definition GetChannel :: "string \<Rightarrow> State \<Rightarrow> ref option" where
  "GetChannel channel s = (case channels s (to_lower channel) of None \<Rightarrow> None | Some p \<Rightarrow> p)"

definition GetUsersChannelModes :: "string \<Rightarrow> string \<Rightarrow> State \<Rightarrow> ref option" where
  "GetUsersChannelModes nickorhost channel s =
     map_option cu_UserModes (cu_at s (to_lower channel) (nick_key nickorhost))"

definition GetNUsers :: "State \<Rightarrow> nat" where
  "GetNUsers s = card (dom (users s))"

definition GetNChannels :: "State \<Rightarrow> nat" where
  "GetNChannels s = card (dom (channels s))"

definition GetNUserChans :: "string \<Rightarrow> State \<Rightarrow> nat" where
  "GetNUserChans nickorhost s =
     (case userChannels s (nick_key nickorhost) of None \<Rightarrow> 0 | Some ucs \<Rightarrow> card (dom ucs))"

definition GetNChanUsers :: "string \<Rightarrow> State \<Rightarrow> nat" where
  "GetNChanUsers channel s =
     (case channelUsers s (to_lower channel) of None \<Rightarrow> 0 | Some cus \<Rightarrow> card (dom cus))"

text \<open>The iterators: what they hand to the callback, in the order of \<^verbatim>\<open>range\<close>.\<close>

definition map_values :: "('k set \<Rightarrow> 'k list) \<Rightarrow> ('k \<rightharpoonup> 'v) \<Rightarrow> 'v list" where
  "map_values rng m = map (\<lambda>k. the (m k)) (rng (dom m))"

definition EachUser :: "(string set \<Rightarrow> string list) \<Rightarrow> State \<Rightarrow> ref option list" where
  "EachUser rng s = map_values rng (users s)"

definition EachChannel :: "(string set \<Rightarrow> string list) \<Rightarrow> State \<Rightarrow> ref option list" where
  "EachChannel rng s = map_values rng (channels s)"

definition EachUserChan :: "(string set \<Rightarrow> string list) \<Rightarrow> string \<Rightarrow> State \<Rightarrow> UserChannel list" where
  "EachUserChan rng nickorhost s =
     (case userChannels s (nick_key nickorhost) of None \<Rightarrow> [] | Some ucs \<Rightarrow> map_values rng ucs)"

definition EachChanUser :: "(string set \<Rightarrow> string list) \<Rightarrow> string \<Rightarrow> State \<Rightarrow> ChannelUser list" where
  "EachChanUser rng channel s =
     (case channelUsers s (to_lower channel) of None \<Rightarrow> [] | Some cus \<Rightarrow> map_values rng cus)"

fun map_outcome :: "('a \<Rightarrow> 'b outcome) \<Rightarrow> 'a list \<Rightarrow> 'b list outcome" where
  "map_outcome f [] = Inr []"
| "map_outcome f (x # xs) = and_then (f x) (\<lambda>y. and_then (map_outcome f xs) (\<lambda>ys. Inr (y # ys)))"

definition GetUsers :: "(string set \<Rightarrow> string list) \<Rightarrow> State \<Rightarrow> string list outcome" where
  "GetUsers rng s = map_outcome (\<lambda>p. and_then (the_user p s) (\<lambda>u. Inr (User_Host u))) (EachUser rng s)"

definition GetChannels :: "(string set \<Rightarrow> string list) \<Rightarrow> State \<Rightarrow> string list outcome" where
  "GetChannels rng s = map_outcome (\<lambda>p. and_then (the_channel p s) (\<lambda>c. Inr (Channel_Name c))) (EachChannel rng s)"

definition GetUserChans :: "(string set \<Rightarrow> string list) \<Rightarrow> string \<Rightarrow> State \<Rightarrow> string list outcome" where
  "GetUserChans rng nickorhost s =
     map_outcome (\<lambda>uc. and_then (the_channel (uc_Channel uc) s) (\<lambda>c. Inr (Channel_Name c))) (EachUserChan rng nickorhost s)"

definition GetChanUsers :: "(string set \<Rightarrow> string list) \<Rightarrow> string \<Rightarrow> State \<Rightarrow> string list outcome" where
  "GetChanUsers rng channel s =
     map_outcome (\<lambda>cu. and_then (the_user (cu_User cu) s) (\<lambda>u. Inr (User_Host u))) (EachChanUser rng channel s)"

definition IsOn :: "string \<Rightarrow> string \<Rightarrow> State \<Rightarrow> bool" where
  "IsOn nickorhost channel s \<longleftrightarrow> uc_at s (nick_key nickorhost) (to_lower channel) \<noteq> None"

section \<open>Changes\<close>

definition addUser :: "string \<Rightarrow> State \<Rightarrow> (ref option \<times> State) outcome" where
  "addUser nickorhost s =
     (let full = (CHR ''!'' \<in> set nickorhost \<and> CHR ''@'' \<in> set nickorhost);
          nick = nick_key nickorhost in
      if CHR ''.'' \<in> set nickorhost \<and> \<not> full then Inr (None, s)
      else (case users s nick of
              Some user \<Rightarrow>
                (if full then
                   and_then (the_user user s) (\<lambda>u.
                     if User_Host u \<noteq> nickorhost
                     then and_then (upd_user user (\<lambda>u. u\<lparr>u_host := nickorhost\<rparr>) s) (\<lambda>s. Inr (user, s))
                     else Inr (user, s))
                 else Inr (user, s))
            | None \<Rightarrow>
                (case new_user nickorhost s of
                   (user, s) \<Rightarrow> Inr (user, s\<lparr>users := (users s)(nick \<mapsto> user)\<rparr>))))"

definition removeUser :: "string \<Rightarrow> State \<Rightarrow> State" where
  "removeUser nickorhost s =
     (let nick = nick_key nickorhost in
      s\<lparr>channelUsers := (\<lambda>c. map_option (\<lambda>cus. cus(nick := None)) (channelUsers s c)),
        userChannels := (userChannels s)(nick := None),
        users := (users s)(nick := None)\<rparr>)"

definition addChannel :: "string \<Rightarrow> State \<Rightarrow> State" where
  "addChannel channel s =
     (case channels s (to_lower channel) of
        Some ch \<Rightarrow> s
      | None \<Rightarrow>
          (case NewChannel channel of
             None \<Rightarrow> s\<lparr>channels := (channels s)(to_lower channel \<mapsto> None)\<rparr>
           | Some ch \<Rightarrow>
               s\<lparr>heapChannel := (heapChannel s)(nextRef s \<mapsto> ch),
                 channels := (channels s)(to_lower channel \<mapsto> Some (nextRef s)), nextRef := nextRef s + 1\<rparr>))"

definition removeChannel :: "string \<Rightarrow> State \<Rightarrow> State" where
  "removeChannel channel s =
     (let channel = to_lower channel in
      s\<lparr>userChannels := (\<lambda>n. map_option (\<lambda>ucs. ucs(channel := None)) (userChannels s n)),
        channelUsers := (channelUsers s)(channel := None),
        channels := (channels s)(channel := None)\<rparr>)"

definition addToChannel :: "string \<Rightarrow> string \<Rightarrow> State \<Rightarrow> State" where
  "addToChannel nickorhost channel s =
     (let nick = nick_key nickorhost; channel = to_lower channel in
      case users s nick of
        None \<Rightarrow> s
      | Some user \<Rightarrow>
          (case channels s channel of
             None \<Rightarrow> s
           | Some ch \<Rightarrow>
               if cu_at s channel nick \<noteq> None \<or> uc_at s nick channel \<noteq> None then s
               else
                 let cu = (case channelUsers s channel of None \<Rightarrow> Map.empty | Some m \<Rightarrow> m);
                     uc = (case userChannels s nick of None \<Rightarrow> Map.empty | Some m \<Rightarrow> m);
                     modes = nextRef s
                 in s\<lparr>heapModes := (heapModes s)(modes \<mapsto> NewUserModes), nextRef := nextRef s + 1,
                      channelUsers := (channelUsers s)(channel \<mapsto> cu(nick \<mapsto> NewChannelUser user modes)),
                      userChannels := (userChannels s)(nick \<mapsto> uc(channel \<mapsto> NewUserChannel ch modes))\<rparr>))"

definition removeFromChannel :: "string \<Rightarrow> string \<Rightarrow> State \<Rightarrow> State" where
  "removeFromChannel nickorhost channel s =
     (let nick = nick_key nickorhost; channel = to_lower channel in
      s\<lparr>channelUsers := (\<lambda>c. if c = channel then map_option (\<lambda>cu. cu(nick := None)) (channelUsers s c) else channelUsers s c),
        userChannels := (\<lambda>n. if n = nick then map_option (\<lambda>uc. uc(channel := None)) (userChannels s n) else userChannels s n)\<rparr>)"

section \<open>Handlers\<close>

definition arg :: "Event \<Rightarrow> nat \<Rightarrow> string outcome" where
  "arg ev i = index_at (eArgs ev) i"

definition self_host :: "State \<Rightarrow> string outcome" where
  "self_host s = and_then (the_user (selfUser s) s) (\<lambda>u. Inr (User_Host u))"

definition self_nick :: "State \<Rightarrow> string outcome" where
  "self_nick s = and_then (the_user (selfUser s) s) (\<lambda>u. Inr (User_Nick u))"

definition rename_user :: "string \<Rightarrow> string \<Rightarrow> State \<Rightarrow> State" where
  "rename_user nick newnick s =
     s\<lparr>channelUsers :=
         (\<lambda>c. map_option (\<lambda>cus. case cus nick of None \<Rightarrow> cus | Some cu \<Rightarrow> (cus(newnick \<mapsto> cu))(nick := None))
            (channelUsers s c)),
       userChannels :=
         (case userChannels s nick of
            None \<Rightarrow> userChannels s
          | Some ucs \<Rightarrow> ((userChannels s)(newnick \<mapsto> ucs))(nick := None)),
       users := ((users s)(newnick := users s nick))(nick := None)\<rparr>"

definition nick :: "Event \<Rightarrow> State \<Rightarrow> State outcome" where
  "nick ev s =
     (case SplitHost ev of (nk, username, host) \<Rightarrow>
        and_then (arg ev 0) (\<lambda>newnick.
          case users s (to_lower nk) of
            None \<Rightarrow> Inr s
          | Some user \<Rightarrow>
              and_then (upd_user user (\<lambda>u. u\<lparr>u_host := newnick @ ''!'' @ username @ ''@'' @ host\<rparr>) s) (\<lambda>s.
                Inr (rename_user (to_lower nk) (to_lower newnick) s))))"

definition join :: "Event \<Rightarrow> State \<Rightarrow> State outcome" where
  "join ev s =
     and_then (self_host s) (\<lambda>self.
     and_then (arg ev 0) (\<lambda>chan.
       Inr (addToChannel (eSender ev) chan (if eSender ev = self then addChannel chan s else s))))"

definition part :: "Event \<Rightarrow> State \<Rightarrow> State outcome" where
  "part ev s =
     and_then (self_host s) (\<lambda>self.
     and_then (arg ev 0) (\<lambda>chan.
       Inr (if eSender ev = self then removeChannel chan s else removeFromChannel (eSender ev) chan s)))"

definition quit :: "Event \<Rightarrow> State \<Rightarrow> State outcome" where
  "quit ev s =
     and_then (self_host s) (\<lambda>self. Inr (if eSender ev \<noteq> self then removeUser (eSender ev) s else s))"

definition kick :: "Event \<Rightarrow> State \<Rightarrow> State outcome" where
  "kick ev s =
     and_then (arg ev 1) (\<lambda>who.
     and_then (self_nick s) (\<lambda>self.
     and_then (arg ev 0) (\<lambda>chan.
       Inr (if who = self then removeChannel chan s else removeFromChannel who chan s))))"

text \<open>The loops of \<^verbatim>\<open>mode\<close> over the reported user modes; a user not on the channel is a nil pointer.\<close>

definition mode_user :: "(UserModeKinds \<Rightarrow> rune \<Rightarrow> UserModes \<Rightarrow> UserModes) \<Rightarrow> string \<Rightarrow> UserMode \<Rightarrow> State \<Rightarrow> State outcome" where
  "mode_user f target um s =
     upd_modes (map_option cu_UserModes (cu_at s target (to_lower (Arg um)))) (f (st_umodes s) (Mode um)) s"

definition apply_to_channel :: "ref option \<Rightarrow> string \<Rightarrow> State \<Rightarrow> (UserMode list \<times> UserMode list \<times> State) outcome" where
  "apply_to_channel p modes s =
     and_then (the_channel p s) (\<lambda>ch.
       case ChannelModes_Apply (st_kinds s) (Some (st_umodes s)) modes (ch_modes ch) of
         (m, pos, neg) \<Rightarrow>
           Inr (pos, neg, s\<lparr>heapChannel := (heapChannel s)(the p \<mapsto> ch\<lparr>ch_modes := m\<rparr>)\<rparr>))"

definition mode :: "Event \<Rightarrow> State \<Rightarrow> State outcome" where
  "mode ev s =
     and_then (arg ev 0) (\<lambda>target0.
     let target = to_lower target0 in
     and_then (IsTargetChan ev) (\<lambda>isChan.
       if isChan then
         (case channels s target of
            None \<Rightarrow> Inr s
          | Some ch \<Rightarrow>
              and_then (slice_from (eArgs ev) 1) (\<lambda>args.
              and_then (apply_to_channel ch (Prelude.join '' '' args) s) (\<lambda>(pos, neg, s).
              and_then (fold_outcome (mode_user SetMode target) pos s) (\<lambda>s.
                fold_outcome (mode_user UnsetMode target) neg s))))
       else
         and_then (self_nick s) (\<lambda>self.
           if target = self then
             and_then (arg ev 1) (\<lambda>modes.
               Inr (s\<lparr>selfModes := fst (ChannelModes_Apply \<lparr>kinds = Map.empty\<rparr> None modes (selfModes s))\<rparr>))
           else Inr s)))"

definition topic :: "Event \<Rightarrow> State \<Rightarrow> State outcome" where
  "topic ev s =
     and_then (arg ev 0) (\<lambda>chname.
       case channels s (to_lower chname) of
         None \<Rightarrow> Inr s
       | Some ch \<Rightarrow>
           if 2 \<le> length (eArgs ev)
           then and_then (arg ev 1) (\<lambda>t. upd_channel ch (SetTopic t) s)
           else upd_channel ch (SetTopic []) s)"

definition rplTopic :: "Event \<Rightarrow> State \<Rightarrow> State outcome" where
  "rplTopic ev s =
     and_then (arg ev 1) (\<lambda>chname.
       case channels s (to_lower chname) of
         None \<Rightarrow> Inr s
       | Some ch \<Rightarrow> and_then (arg ev 2) (\<lambda>t. upd_channel ch (SetTopic t) s))"

definition msg :: "Event \<Rightarrow> State \<Rightarrow> State outcome" where
  "msg ev s =
     and_then (IsTargetChan ev) (\<lambda>isChan.
       if isChan then and_then (arg ev 0) (\<lambda>chan. Inr (addToChannel (eSender ev) chan s)) else Inr s)"

definition welcome_host :: "Event \<Rightarrow> string outcome" where
  "welcome_host ev =
     and_then (arg ev 1) (\<lambda>text.
     and_then (if Fields text = [] then Inl IndexOutOfRange else Inr (last (Fields text))) (\<lambda>host.
       if CHR ''!'' \<notin> set host \<or> CHR ''@'' \<notin> set host then arg ev 0 else Inr host))"

definition rplWelcome :: "Event \<Rightarrow> State \<Rightarrow> State outcome" where
  "rplWelcome ev s =
     and_then (welcome_host ev) (\<lambda>host.
       case new_user host s of (user, s) \<Rightarrow>
         and_then (the_user user s) (\<lambda>u.
           Inr (s\<lparr>selfUser := user, users := (users s)(to_lower (User_Nick u) \<mapsto> user)\<rparr>)))"

definition name_reply :: "string \<Rightarrow> string \<Rightarrow> State \<Rightarrow> State outcome" where
  "name_reply channel name s =
     (case find (\<lambda>(m, symbol). symbol = hd name) (modeInfo (st_umodes s)) of
        Some (m, _) \<Rightarrow>
          and_then (addUser (tl name) s) (\<lambda>(_, s).
            let s = addToChannel (tl name) channel s
            in upd_modes (GetUsersChannelModes (tl name) channel s) (SetMode (st_umodes s) m) s)
      | None \<Rightarrow>
          and_then (addUser name s) (\<lambda>(_, s). Inr (addToChannel name channel s)))"

definition rplNameReply :: "Event \<Rightarrow> State \<Rightarrow> State outcome" where
  "rplNameReply ev s =
     and_then (arg ev 2) (\<lambda>channel.
     and_then (arg ev 3) (\<lambda>names.
       fold_outcome (name_reply channel) (Fields names) s))"

definition who_mode :: "string \<Rightarrow> string \<Rightarrow> rune \<Rightarrow> State \<Rightarrow> State outcome" where
  "who_mode fullhost channel modechar s =
     (let m = GetMode (st_umodes s) modechar in
      if m \<noteq> CHR 0x00 then
        (case GetUsersChannelModes fullhost channel s of
           None \<Rightarrow> Inr s
         | Some uc \<Rightarrow> upd_modes (Some uc) (SetMode (st_umodes s) m) s)
      else Inr s)"

definition rplWhoReply :: "Event \<Rightarrow> State \<Rightarrow> State outcome" where
  "rplWhoReply ev s =
     and_then (arg ev 1) (\<lambda>channel.
     and_then (arg ev 5) (\<lambda>nk.
     and_then (arg ev 2) (\<lambda>user.
     and_then (arg ev 3) (\<lambda>host.
     and_then (arg ev 6) (\<lambda>modes.
     and_then (arg ev 7) (\<lambda>real.
     and_then (index_at (split_n2 CHR '' '' real) 1) (\<lambda>realname.
       let fullhost = nk @ ''!'' @ user @ ''@'' @ host in
       and_then (addUser fullhost s) (\<lambda>(_, s).
       let s = addToChannel fullhost channel s in
       and_then (upd_user (GetUser fullhost s) (SetRealname realname) s) (\<lambda>s.
         fold_outcome (who_mode fullhost channel) modes s)))))))))"

definition rplChannelModeIs :: "Event \<Rightarrow> State \<Rightarrow> State outcome" where
  "rplChannelModeIs ev s =
     and_then (arg ev 1) (\<lambda>channel.
     and_then (slice_from (eArgs ev) 2) (\<lambda>args.
       case GetChannel channel s of
         None \<Rightarrow> Inr s
       | Some ch \<Rightarrow>
           and_then (apply_to_channel (Some ch) (Prelude.join '' '' args) s) (\<lambda>(_, _, s). Inr s)))"

definition rplBanList :: "Event \<Rightarrow> State \<Rightarrow> State outcome" where
  "rplBanList ev s =
     and_then (arg ev 1) (\<lambda>channel.
       case GetChannel channel s of
         None \<Rightarrow> Inr s
       | Some ch \<Rightarrow> and_then (arg ev 2) (\<lambda>ban. upd_channel (Some ch) (AddBan ban) s))"

definition handle :: "Event \<Rightarrow> State \<Rightarrow> State outcome" where
  "handle ev s =
     (if eName ev = NICK then nick ev s
      else if eName ev = JOIN then join ev s
      else if eName ev = PART then part ev s
      else if eName ev = QUIT then quit ev s
      else if eName ev = KICK then kick ev s
      else if eName ev = MODE then mode ev s
      else if eName ev = TOPIC then topic ev s
      else if eName ev = RPL_TOPIC then rplTopic ev s
      else if eName ev = PRIVMSG \<or> eName ev = NOTICE then msg ev s
      else if eName ev = RPL_WELCOME then rplWelcome ev s
      else if eName ev = RPL_NAMREPLY then rplNameReply ev s
      else if eName ev = RPL_WHOREPLY then rplWhoReply ev s
      else if eName ev = RPL_CHANNELMODEIS then rplChannelModeIs ev s
      else if eName ev = RPL_BANLIST then rplBanList ev s
      else Inr s)"

definition Update :: "Event \<Rightarrow> State \<Rightarrow> State outcome" where
  "Update ev s =
     and_then (if eSender ev \<noteq> [] then and_then (addUser (eSender ev) s) (\<lambda>(_, s). Inr s) else Inr s) (handle ev)"

end
