(* ===== verification/StateInvariant.thy ===== *)
theory StateInvariant
  imports State
begin

text \<open>
  The invariant of the network state, that every handler of \<^verbatim>\<open>State.Update\<close> keeps it, and what
  the handlers do to users, channels and memberships.
\<close>

section \<open>The invariant\<close>

text \<open>
  Keys are the lower-case names of the objects they lead to.  A membership is recorded on both
  sides, with one shared modes object that no other membership has; its user is known and its channel is
  the one the state knows.  (The user object of a membership need not be the one under \<^verbatim>\<open>users\<close>: a welcome after a
  reconnection makes a new object for the bot and leaves its memberships with the old one.)  References are allocated below \<^verbatim>\<open>nextRef\<close>.
\<close>

definition users_ok :: "(ref \<rightharpoonup> User) \<Rightarrow> (string \<rightharpoonup> ref option) \<Rightarrow> bool" where
  "users_ok heap us \<longleftrightarrow>
     (\<forall>n. us n = Some None \<longrightarrow> n = [])
     \<and> (\<forall>n r. us n = Some (Some r) \<longrightarrow> (\<exists>u. heap r = Some u \<and> nick_key (u_host u) = n))"

definition channels_ok :: "(ref \<rightharpoonup> Channel) \<Rightarrow> (string \<rightharpoonup> ref option) \<Rightarrow> bool" where
  "channels_ok heap cs \<longleftrightarrow>
     (\<forall>c. cs c = Some None \<longrightarrow> c = [])
     \<and> (\<forall>c r. cs c = Some (Some r) \<longrightarrow> (\<exists>ch. heap r = Some ch \<and> to_lower (ch_name ch) = c \<and> channel_inv ch))"

definition members_ok :: "(string \<Rightarrow> string \<Rightarrow> ChannelUser option) \<Rightarrow> (string \<Rightarrow> string \<Rightarrow> UserChannel option)
    \<Rightarrow> (string \<rightharpoonup> ref option) \<Rightarrow> (string \<rightharpoonup> ref option) \<Rightarrow> (ref \<rightharpoonup> UserModes) \<Rightarrow> bool" where
  "members_ok cu uc us cs heap \<longleftrightarrow>
     (\<forall>c n. map_option cu_UserModes (cu c n) = map_option uc_UserModes (uc n c))
     \<and> (\<forall>c n x. cu c n = Some x \<longrightarrow> us n \<noteq> None \<and> heap (cu_UserModes x) \<noteq> None)
     \<and> (\<forall>n c x. uc n c = Some x \<longrightarrow> cs c = Some (uc_Channel x))
     \<and> (\<forall>c n x c' n' x'. cu c n = Some x \<longrightarrow> cu c' n' = Some x' \<longrightarrow>
          cu_UserModes x = cu_UserModes x' \<longrightarrow> c = c' \<and> n = n')"

definition refs_ok :: "ref \<Rightarrow> (ref \<rightharpoonup> User) \<Rightarrow> (ref \<rightharpoonup> Channel) \<Rightarrow> (ref \<rightharpoonup> UserModes) \<Rightarrow> bool" where
  "refs_ok next hu hc hm \<longleftrightarrow> (\<forall>r \<ge> next. hu r = None \<and> hc r = None \<and> hm r = None)"

definition st_inv :: "State \<Rightarrow> bool" where
  "st_inv s \<longleftrightarrow> users_ok (heapUser s) (users s) \<and> channels_ok (heapChannel s) (channels s)
     \<and> members_ok (cu_at s) (uc_at s) (users s) (channels s) (heapModes s)
     \<and> refs_ok (nextRef s) (heapUser s) (heapChannel s) (heapModes s)
     \<and> (\<forall>r. selfUser s = Some r \<longrightarrow> heapUser s r \<noteq> None) \<and> cm_inv (selfModes s)"

lemma at_update [simp]:
  "cu_at (s\<lparr>heapUser := hu\<rparr>) = cu_at s" "uc_at (s\<lparr>heapUser := hu\<rparr>) = uc_at s"
  "cu_at (s\<lparr>heapChannel := hc\<rparr>) = cu_at s" "uc_at (s\<lparr>heapChannel := hc\<rparr>) = uc_at s"
  "cu_at (s\<lparr>heapModes := hm\<rparr>) = cu_at s" "uc_at (s\<lparr>heapModes := hm\<rparr>) = uc_at s"
  "cu_at (s\<lparr>nextRef := nr\<rparr>) = cu_at s" "uc_at (s\<lparr>nextRef := nr\<rparr>) = uc_at s"
  "cu_at (s\<lparr>selfUser := su\<rparr>) = cu_at s" "uc_at (s\<lparr>selfUser := su\<rparr>) = uc_at s"
  "cu_at (s\<lparr>selfModes := sm\<rparr>) = cu_at s" "uc_at (s\<lparr>selfModes := sm\<rparr>) = uc_at s"
  "cu_at (s\<lparr>channels := cs\<rparr>) = cu_at s" "uc_at (s\<lparr>channels := cs\<rparr>) = uc_at s"
  "cu_at (s\<lparr>users := us\<rparr>) = cu_at s" "uc_at (s\<lparr>users := us\<rparr>) = uc_at s"
  "cu_at (s\<lparr>st_kinds := k\<rparr>) = cu_at s" "uc_at (s\<lparr>st_kinds := k\<rparr>) = uc_at s"
  "cu_at (s\<lparr>st_umodes := k'\<rparr>) = cu_at s" "uc_at (s\<lparr>st_umodes := k'\<rparr>) = uc_at s"
  "uc_at (s\<lparr>channelUsers := x\<rparr>) = uc_at s" "cu_at (s\<lparr>userChannels := y\<rparr>) = cu_at s"
  by (simp_all add: fun_eq_iff cu_at_def uc_at_def)

text \<open>What the changes do to memberships.\<close>

lemma removeUser_at [simp]:
  "cu_at (removeUser x s) c n = (if n = nick_key x then None else cu_at s c n)"
  "uc_at (removeUser x s) n c = (if n = nick_key x then None else uc_at s n c)"
  by (auto simp: removeUser_def cu_at_def uc_at_def Let_def split: option.splits)

lemma removeChannel_at [simp]:
  "cu_at (removeChannel x s) c n = (if c = to_lower x then None else cu_at s c n)"
  "uc_at (removeChannel x s) n c = (if c = to_lower x then None else uc_at s n c)"
  by (auto simp: removeChannel_def cu_at_def uc_at_def Let_def split: option.splits)

lemma removeFromChannel_at [simp]:
  "cu_at (removeFromChannel x y s) c n = (if c = to_lower y \<and> n = nick_key x then None else cu_at s c n)"
  "uc_at (removeFromChannel x y s) n c = (if c = to_lower y \<and> n = nick_key x then None else uc_at s n c)"
  by (auto simp: removeFromChannel_def cu_at_def uc_at_def Let_def split: option.splits)

lemma addChannel_at [simp]: "cu_at (addChannel x s) = cu_at s" "uc_at (addChannel x s) = uc_at s"
  by (simp_all add: addChannel_def split: option.splits)

lemma addToChannel_cases:
  obtains (same) "addToChannel x y s = s" "users s (nick_key x) = None \<or> channels s (to_lower y) = None
      \<or> cu_at s (to_lower y) (nick_key x) \<noteq> None \<or> uc_at s (nick_key x) (to_lower y) \<noteq> None"
  | (added) user ch where "users s (nick_key x) = Some user" "channels s (to_lower y) = Some ch"
      "cu_at s (to_lower y) (nick_key x) = None" "uc_at s (nick_key x) (to_lower y) = None"
      "users (addToChannel x y s) = users s" "channels (addToChannel x y s) = channels s"
      "heapUser (addToChannel x y s) = heapUser s" "heapChannel (addToChannel x y s) = heapChannel s"
      "heapModes (addToChannel x y s) = (heapModes s)(nextRef s \<mapsto> NewUserModes)"
      "nextRef (addToChannel x y s) = Suc (nextRef s)"
      "selfUser (addToChannel x y s) = selfUser s" "selfModes (addToChannel x y s) = selfModes s"
      "st_umodes (addToChannel x y s) = st_umodes s"
      "\<And>c n. cu_at (addToChannel x y s) c n
         = (if c = to_lower y \<and> n = nick_key x then Some (NewChannelUser user (nextRef s)) else cu_at s c n)"
      "\<And>c n. uc_at (addToChannel x y s) n c
         = (if c = to_lower y \<and> n = nick_key x then Some (NewUserChannel ch (nextRef s)) else uc_at s n c)"
proof (cases "users s (nick_key x) = None \<or> channels s (to_lower y) = None
    \<or> cu_at s (to_lower y) (nick_key x) \<noteq> None \<or> uc_at s (nick_key x) (to_lower y) \<noteq> None")
  case True
  then show ?thesis by (intro same) (auto simp: addToChannel_def Let_def split: option.splits)
next
  case False
  then obtain user ch where "users s (nick_key x) = Some user" "channels s (to_lower y) = Some ch" by auto
  then show ?thesis using False
    by (intro added [of user ch])
      (auto simp: addToChannel_def Let_def cu_at_def uc_at_def split: option.splits)
qed

lemma removeUser_fields [simp]:
  "users (removeUser x s) = (users s)(nick_key x := None)" "channels (removeUser x s) = channels s"
  "heapUser (removeUser x s) = heapUser s" "heapChannel (removeUser x s) = heapChannel s"
  "heapModes (removeUser x s) = heapModes s" "nextRef (removeUser x s) = nextRef s"
  "selfUser (removeUser x s) = selfUser s" "selfModes (removeUser x s) = selfModes s"
  by (simp_all add: removeUser_def Let_def)

lemma removeChannel_fields [simp]:
  "users (removeChannel x s) = users s" "channels (removeChannel x s) = (channels s)(to_lower x := None)"
  "heapUser (removeChannel x s) = heapUser s" "heapChannel (removeChannel x s) = heapChannel s"
  "heapModes (removeChannel x s) = heapModes s" "nextRef (removeChannel x s) = nextRef s"
  "selfUser (removeChannel x s) = selfUser s" "selfModes (removeChannel x s) = selfModes s"
  by (simp_all add: removeChannel_def Let_def)

lemma removeFromChannel_fields [simp]:
  "users (removeFromChannel x y s) = users s" "channels (removeFromChannel x y s) = channels s"
  "heapUser (removeFromChannel x y s) = heapUser s" "heapChannel (removeFromChannel x y s) = heapChannel s"
  "heapModes (removeFromChannel x y s) = heapModes s" "nextRef (removeFromChannel x y s) = nextRef s"
  "selfUser (removeFromChannel x y s) = selfUser s" "selfModes (removeFromChannel x y s) = selfModes s"
  by (simp_all add: removeFromChannel_def Let_def)

section \<open>Every change keeps the invariant\<close>

lemmas ok_defs = users_ok_def channels_ok_def members_ok_def refs_ok_def

lemma users_okD:
  "users_ok hu us \<Longrightarrow> us n = Some (Some r) \<Longrightarrow> \<exists>u. hu r = Some u \<and> nick_key (u_host u) = n"
  unfolding users_ok_def by blast

lemma channels_okD:
  "channels_ok hc cs \<Longrightarrow> cs c = Some (Some r) \<Longrightarrow> \<exists>ch. hc r = Some ch \<and> to_lower (ch_name ch) = c \<and> channel_inv ch"
  unfolding channels_ok_def by blast

lemma st_inv_removeUser: "st_inv s \<Longrightarrow> st_inv (removeUser x s)"
  by (auto simp: st_inv_def ok_defs split: if_splits)

lemma st_inv_removeChannel: "st_inv s \<Longrightarrow> st_inv (removeChannel x s)"
  by (auto simp: st_inv_def ok_defs split: if_splits)

lemma st_inv_removeFromChannel: "st_inv s \<Longrightarrow> st_inv (removeFromChannel x y s)"
  by (auto simp: st_inv_def ok_defs split: if_splits)

lemma members_ok_mono:
  assumes "members_ok cu uc us cs hm"
    and "\<And>n p. us n = Some p \<Longrightarrow> us' n = Some p" "\<And>n p. cs n = Some p \<Longrightarrow> cs' n = Some p"
    and "\<And>r. hm r \<noteq> None \<Longrightarrow> hm' r \<noteq> None"
  shows "members_ok cu uc us' cs' hm'"
proof -
  have "us' n \<noteq> None" if "us n \<noteq> None" for n using assms(2) that by blast
  then show ?thesis using assms(1,3,4) unfolding members_ok_def by meson
qed

lemma st_inv_addChannel: assumes "st_inv s" shows "st_inv (addChannel x s)"
proof (cases "channels s (to_lower x)")
  case None
  have r: "refs_ok (nextRef s) (heapUser s) (heapChannel s) (heapModes s)" using assms by (simp add: st_inv_def)
  then have "channels s c \<noteq> Some (Some (nextRef s))" for c
    using assms by (fastforce simp: st_inv_def channels_ok_def refs_ok_def)
  then have "channels_ok (heapChannel (addChannel x s)) (channels (addChannel x s))"
    using assms None
    by (auto simp: addChannel_def NewChannel_def st_inv_def channels_ok_def channel_inv_def)
  moreover have "refs_ok (nextRef (addChannel x s)) (heapUser s) (heapChannel (addChannel x s)) (heapModes s)"
    using r None by (auto simp: addChannel_def NewChannel_def refs_ok_def)
  moreover have "members_ok (cu_at s) (uc_at s) (users s) (channels (addChannel x s)) (heapModes s)"
    by (rule members_ok_mono [of _ _ "users s" "channels s" "heapModes s"])
      (use assms None in \<open>auto simp: st_inv_def addChannel_def NewChannel_def\<close>)
  moreover have "heapUser (addChannel x s) = heapUser s" "heapModes (addChannel x s) = heapModes s"
    "users (addChannel x s) = users s" "selfUser (addChannel x s) = selfUser s" "selfModes (addChannel x s) = selfModes s"
    using None by (auto simp: addChannel_def NewChannel_def)
  ultimately show ?thesis using assms by (simp add: st_inv_def)
qed (use assms in \<open>simp add: addChannel_def\<close>)

lemma members_ok_add:
  assumes "members_ok cu uc us cs hm" "us n = Some user" "cs c = Some ch" "hm r = None"
  shows "members_ok (\<lambda>c' n'. if c' = c \<and> n' = n then Some (NewChannelUser user r) else cu c' n')
    (\<lambda>n' c'. if c' = c \<and> n' = n then Some (NewUserChannel ch r) else uc n' c') us cs (hm(r \<mapsto> m))"
proof -
  have "cu_UserModes x \<noteq> r" if "cu c' n' = Some x" for c' n' x
    using assms(1,4) that unfolding members_ok_def by metis
  then show ?thesis using assms
    by (auto simp: members_ok_def NewChannelUser_def NewUserChannel_def split: if_splits)
qed

lemma st_inv_addToChannel: assumes "st_inv s" shows "st_inv (addToChannel x y s)"
proof (rule addToChannel_cases [of x y s])
  fix user ch
  assume "users s (nick_key x) = Some user" "channels s (to_lower y) = Some ch"
    and eqs: "users (addToChannel x y s) = users s" "channels (addToChannel x y s) = channels s"
      "heapUser (addToChannel x y s) = heapUser s" "heapChannel (addToChannel x y s) = heapChannel s"
      "heapModes (addToChannel x y s) = (heapModes s)(nextRef s \<mapsto> NewUserModes)"
      "nextRef (addToChannel x y s) = Suc (nextRef s)"
      "selfUser (addToChannel x y s) = selfUser s" "selfModes (addToChannel x y s) = selfModes s"
    and at: "\<And>c n. cu_at (addToChannel x y s) c n
         = (if c = to_lower y \<and> n = nick_key x then Some (NewChannelUser user (nextRef s)) else cu_at s c n)"
      "\<And>c n. uc_at (addToChannel x y s) n c
         = (if c = to_lower y \<and> n = nick_key x then Some (NewUserChannel ch (nextRef s)) else uc_at s n c)"
  moreover have "heapModes s (nextRef s) = None" using assms by (simp add: st_inv_def refs_ok_def)
  ultimately have "members_ok (cu_at (addToChannel x y s)) (uc_at (addToChannel x y s)) (users s) (channels s)
      ((heapModes s)(nextRef s \<mapsto> NewUserModes))"
    using members_ok_add [of "cu_at s" "uc_at s" "users s" "channels s" "heapModes s"] assms
    by (simp add: st_inv_def fun_eq_iff [of "cu_at _"] fun_eq_iff [of "uc_at _"] at [abs_def])
  then show ?thesis using assms by (simp add: st_inv_def eqs refs_ok_def)
qed (use assms in simp)

lemma st_inv_upd_modes: "st_inv s \<Longrightarrow> upd_modes p f s = Inr s' \<Longrightarrow> st_inv s'"
  by (auto simp: upd_modes_def the_modes_def deref_eq_Inr st_inv_def refs_ok_def
      elim!: members_ok_mono split: if_splits)

lemma channels_ok_upd:
  assumes "channels_ok hc cs" "hc r = Some ch" "ch_name ch' = ch_name ch" "channel_inv ch \<Longrightarrow> channel_inv ch'"
  shows "channels_ok (hc(r \<mapsto> ch')) cs"
  unfolding channels_ok_def
proof (intro conjI allI impI)
  fix c r' assume "cs c = Some (Some r')"
  with assms(1) obtain ch'' where "hc r' = Some ch''" "to_lower (ch_name ch'') = c" "channel_inv ch''"
    by (blast dest: channels_okD)
  with assms show "\<exists>x. (hc(r \<mapsto> ch')) r' = Some x \<and> to_lower (ch_name x) = c \<and> channel_inv x"
    by (cases "r' = r") auto
qed (use assms(1) in \<open>auto simp: channels_ok_def\<close>)

lemma users_ok_upd:
  assumes "users_ok hu us" "hu r = Some u" "nick_key (u_host u') = nick_key (u_host u)"
  shows "users_ok (hu(r \<mapsto> u')) us"
  unfolding users_ok_def
proof (intro conjI allI impI)
  fix n r' assume "us n = Some (Some r')"
  with assms(1) obtain u'' where "hu r' = Some u''" "nick_key (u_host u'') = n"
    by (blast dest: users_okD)
  with assms show "\<exists>x. (hu(r \<mapsto> u')) r' = Some x \<and> nick_key (u_host x) = n" by (cases "r' = r") auto
qed (use assms(1) in \<open>auto simp: users_ok_def\<close>)

lemma st_inv_upd_channel:
  assumes "st_inv s" "upd_channel p f s = Inr s'"
    and "\<And>ch. ch_name (f ch) = ch_name ch" "\<And>ch. channel_inv ch \<Longrightarrow> channel_inv (f ch)"
  shows "st_inv s'"
  using assms
  by (auto simp: upd_channel_def the_channel_def deref_eq_Inr st_inv_def refs_ok_def
      intro!: channels_ok_upd split: if_splits)

lemma st_inv_upd_user:
  assumes "st_inv s" "upd_user p f s = Inr s'"
    and "\<And>u. the_user p s = Inr u \<Longrightarrow> nick_key (u_host (f u)) = nick_key (u_host u)"
  shows "st_inv s'"
  using assms
  by (auto simp: upd_user_def the_user_def deref_eq_Inr st_inv_def refs_ok_def
      intro!: users_ok_upd split: if_splits)

lemma st_inv_apply_to_channel:
  assumes "st_inv s" "apply_to_channel p ms s = Inr (pos, neg, s')" shows "st_inv s'"
proof -
  obtain ch where ch: "the_channel p s = Inr ch" using assms(2) by (auto simp: apply_to_channel_def)
  let ?m = "fst (ChannelModes_Apply (st_kinds s) (Some (st_umodes s)) ms (ch_modes ch))"
  have "upd_channel p (\<lambda>c. if c = ch then ch\<lparr>ch_modes := ?m\<rparr> else c) s = Inr s'"
    using assms(2) by (auto simp: apply_to_channel_def upd_channel_def ch split: prod.splits)
  then show ?thesis
  proof (rule st_inv_upd_channel [OF assms(1)])
    fix c assume "channel_inv c"
    then show "channel_inv (if c = ch then ch\<lparr>ch_modes := ?m\<rparr> else c)"
      using channel_inv.apply_modes_keeps by (auto simp: channel_inv_def ChannelModes_Apply_def)
  qed simp
qed

lemma new_user_cases:
  "new_user x s = (p, s') \<Longrightarrow> st_inv s \<Longrightarrow>
   (p = None \<and> x = [] \<and> s' = s) \<or>
   (p = Some (nextRef s) \<and> x \<noteq> [] \<and> heapUser s (nextRef s) = None
    \<and> s' = s\<lparr>heapUser := (heapUser s)(nextRef s \<mapsto> \<lparr>u_host = x, u_name = []\<rparr>), nextRef := nextRef s + 1\<rparr>)"
  by (auto simp: new_user_def NewUser_def st_inv_def refs_ok_def split: if_splits)

lemma users_ok_new:
  assumes "users_ok hu us" "hu r = None" "nick_key (u_host u) = n"
  shows "users_ok (hu(r \<mapsto> u)) (us(n \<mapsto> Some r))"
proof -
  have "us m \<noteq> Some (Some r)" for m using users_okD [OF assms(1)] assms(2) by force
  then show ?thesis using assms by (auto simp: users_ok_def)
qed

text \<open>A new user object, under a key that may be in use.\<close>

lemma st_inv_new_user:
  assumes "st_inv s" "new_user x s = (p, s')"
  shows "st_inv (s'\<lparr>users := (users s')(nick_key x \<mapsto> p)\<rparr>)"
proof -
  have m: "members_ok (cu_at s) (uc_at s) ((users s)(nick_key x \<mapsto> q)) (channels s) (heapModes s)" for q
    using assms(1) by (auto simp: st_inv_def members_ok_def)
  have nil: "nick_key [] = []" by (simp add: nick_key_def Nick_def)
  from new_user_cases [OF assms(2,1)] show ?thesis
  proof (elim disjE conjE)
    assume "p = None" "x = []" "s' = s"
    then show ?thesis using assms(1) m nil by (auto simp: st_inv_def users_ok_def)
  next
    assume *: "p = Some (nextRef s)" "heapUser s (nextRef s) = None"
      "s' = s\<lparr>heapUser := (heapUser s)(nextRef s \<mapsto> \<lparr>u_host = x, u_name = []\<rparr>), nextRef := nextRef s + 1\<rparr>"
    have "users_ok ((heapUser s)(nextRef s \<mapsto> \<lparr>u_host = x, u_name = []\<rparr>)) ((users s)(nick_key x \<mapsto> p))"
      unfolding *(1) by (rule users_ok_new) (use assms(1) *(2) in \<open>auto simp: st_inv_def\<close>)
    then show ?thesis using assms(1) m * by (auto simp: st_inv_def refs_ok_def)
  qed
qed

lemma st_inv_addUser:
  assumes "st_inv s" "addUser x s = Inr (p, s')" shows "st_inv s'"
proof (cases "users s (nick_key x)")
  case None
  then show ?thesis using assms None st_inv_new_user [OF assms(1)]
    by (auto simp: addUser_def Let_def split: if_splits prod.splits)
next
  case (Some user)
  have k: "nick_key (u_host u) = nick_key x" if "the_user user s = Inr u" for u
    using that Some assms(1) by (auto simp: the_user_def deref_eq_Inr st_inv_def dest: users_okD)
  have "st_inv t" if "upd_user user (\<lambda>u. u\<lparr>u_host := x\<rparr>) s = Inr t" for t
    by (rule st_inv_upd_user [OF assms(1) that]) (simp add: k)
  then show ?thesis using assms Some by (auto simp: addUser_def Let_def split: if_splits)
qed

text \<open>Renaming to a nick that is on no channel, or to the same nick, which forgets the user.\<close>

lemma rename_at:
  assumes "nk \<noteq> new \<Longrightarrow> \<forall>c. cu_at s c new = None" "st_inv s"
  shows "cu_at (rename_user nk new s) c n = (if n = nk then None else if n = new then cu_at s c nk else cu_at s c n)"
    and "uc_at (rename_user nk new s) n c = (if n = nk then None else if n = new then uc_at s nk c else uc_at s n c)"
proof -
  have fresh: "nk \<noteq> new \<Longrightarrow> cu_at s c new = None" for c using assms(1) by simp
  have "cu_at s c new = None \<Longrightarrow> uc_at s new c = None" for c
    using assms(2) unfolding st_inv_def members_ok_def by (metis option.map_disc_iff)
  then have fresh': "nk \<noteq> new \<Longrightarrow> uc_at s new c = None" for c using fresh by blast
  show "cu_at (rename_user nk new s) c n = (if n = nk then None else if n = new then cu_at s c nk else cu_at s c n)"
    using fresh [of c] by (auto simp: rename_user_def cu_at_def split: option.splits)
  show "uc_at (rename_user nk new s) n c = (if n = nk then None else if n = new then uc_at s nk c else uc_at s n c)"
    using fresh' [of c] by (auto simp: rename_user_def uc_at_def split: option.splits)
qed

lemma nick_key_host:
  assumes "CHR ''!'' \<notin> set n" "CHR ''@'' \<notin> set n"
  shows "nick_key (n @ ''!'' @ u @ ''@'' @ h) = to_lower n"
  using assms by (auto simp: nick_key_def Nick_def takeWhile_append)

lemma rename_heap: "rename_user nk new (s\<lparr>heapUser := h\<rparr>) = (rename_user nk new s)\<lparr>heapUser := h\<rparr>"
  by (simp add: rename_user_def split: option.splits)

lemma rename_fields [simp]:
  "users (rename_user nk new s) = ((users s)(new := users s nk))(nk := None)"
  "channels (rename_user nk new s) = channels s" "heapUser (rename_user nk new s) = heapUser s"
  "heapChannel (rename_user nk new s) = heapChannel s" "heapModes (rename_user nk new s) = heapModes s"
  "nextRef (rename_user nk new s) = nextRef s" "selfUser (rename_user nk new s) = selfUser s"
  "selfModes (rename_user nk new s) = selfModes s"
  by (simp_all add: rename_user_def)

lemma members_ok_rename:
  assumes "members_ok cu uc us cs hm"
    and cu': "\<And>c n. cu' c n = (if n = nk then None else if n = new then cu c nk else cu c n)"
    and uc': "\<And>c n. uc' n c = (if n = nk then None else if n = new then uc nk c else uc n c)"
  shows "members_ok cu' uc' ((us(new := us nk))(nk := None)) cs hm"
proof -
  let ?old = "\<lambda>n. if n = new then nk else n"
  have cu: "cu' c n = (if n = nk then None else cu c (?old n))" and uc: "uc' n c = (if n = nk then None else uc (?old n) c)"
    and us: "((us(new := us nk))(nk := None)) n = (if n = nk then None else us (?old n))" for c n
    by (simp_all add: cu' uc')
  have inj: "n = n'" if "?old n = ?old n'" "n \<noteq> nk" "n' \<noteq> nk" for n n'
    using that by (auto split: if_splits)
  show ?thesis unfolding members_ok_def
  proof (intro conjI allI impI)
    fix c n c' n' x x' assume *: "cu' c n = Some x" "cu' c' n' = Some x'" "cu_UserModes x = cu_UserModes x'"
    then have "cu c (?old n) = Some x" "cu c' (?old n') = Some x'" "n \<noteq> nk" "n' \<noteq> nk"
      by (auto simp: cu split: if_splits)
    moreover from this *(3) assms(1) have "c = c' \<and> ?old n = ?old n'" unfolding members_ok_def by blast
    ultimately show "c = c'" "n = n'" using inj by blast+
  qed (use assms(1) in \<open>auto simp: members_ok_def cu uc us split: if_splits\<close>)
qed

lemma users_ok_rename:
  assumes "users_ok hu us" "us nk = Some (Some r)" "nick_key (u_host u') = new"
  shows "users_ok (hu(r \<mapsto> u')) ((us(new := us nk))(nk := None))"
proof -
  have other: "r' \<noteq> r" if "us n = Some (Some r')" "n \<noteq> nk" for n r'
    using users_okD [OF assms(1) that(1)] users_okD [OF assms(1,2)] that(2) by auto
  show ?thesis unfolding users_ok_def
  proof (intro conjI allI impI)
    fix n r' assume *: "((us(new := us nk))(nk := None)) n = Some (Some r')"
    show "\<exists>u. (hu(r \<mapsto> u')) r' = Some u \<and> nick_key (u_host u) = n"
    proof (cases "n = new")
      case True
      with * assms show ?thesis by (auto split: if_splits)
    next
      case False
      with * have "us n = Some (Some r')" "n \<noteq> nk" by (auto split: if_splits)
      with other users_okD [OF assms(1)] show ?thesis by (metis fun_upd_other)
    qed
  qed (use assms in \<open>auto simp: users_ok_def split: if_splits\<close>)
qed

lemma st_inv_nick:
  assumes "st_inv s" "nick ev s = Inr s'"
    and "\<And>new. arg ev 0 = Inr new \<Longrightarrow>
      CHR ''!'' \<notin> set new \<and> CHR ''@'' \<notin> set new
      \<and> (to_lower (fst (SplitHost ev)) \<noteq> to_lower new \<longrightarrow> (\<forall>c. cu_at s c (to_lower new) = None))"
  shows "st_inv s'"
proof -
  obtain nk0 us h where sp: "SplitHost ev = (nk0, us, h)" by (cases "SplitHost ev")
  obtain new where new: "arg ev 0 = Inr new" using assms(2) by (auto simp: nick_def sp)
  let ?nk = "to_lower nk0" and ?new = "to_lower new"
  show ?thesis
  proof (cases "users s ?nk")
    case (Some user)
    from assms(2) obtain r u where u: "user = Some r" "heapUser s r = Some u"
      and s': "s' = (rename_user ?nk ?new s)\<lparr>heapUser := (heapUser s)(r \<mapsto> u\<lparr>u_host := new @ ''!'' @ us @ ''@'' @ h\<rparr>)\<rparr>"
      by (auto simp: nick_def sp new Some upd_user_def the_user_def deref_eq_Inr rename_heap)
    have free: "?nk \<noteq> ?new \<Longrightarrow> \<forall>c. cu_at s c ?new = None" and key: "nick_key (new @ ''!'' @ us @ ''@'' @ h) = ?new"
      using assms(3) [OF new] nick_key_host sp by auto
    have "users_ok (heapUser s') (users s')"
      unfolding s' using users_ok_rename [of "heapUser s" "users s" ?nk r "u\<lparr>u_host := new @ ''!'' @ us @ ''@'' @ h\<rparr>" ?new] assms(1) Some u key by (simp add: st_inv_def)
    moreover have "members_ok (cu_at (rename_user ?nk ?new s)) (uc_at (rename_user ?nk ?new s))
        (((users s)(?new := users s ?nk))(?nk := None)) (channels s) (heapModes s)"
      by (rule members_ok_rename [of "cu_at s" "uc_at s"])
        (use assms(1) rename_at [OF free assms(1)] in \<open>simp_all add: st_inv_def\<close>)
    ultimately show ?thesis using assms(1) u by (auto simp: st_inv_def s' refs_ok_def)
  qed (use assms new in \<open>auto simp: nick_def sp\<close>)
qed

lemma st_inv_rplWelcome:
  assumes "st_inv s" "rplWelcome ev s = Inr s'"
  shows "st_inv s'"
proof -
  obtain host user t u where w: "welcome_host ev = Inr host" "new_user host s = (user, t)" "the_user user t = Inr u"
    and s': "s' = t\<lparr>selfUser := user, users := (users t)(to_lower (User_Nick u) \<mapsto> user)\<rparr>"
    using assms(2) by (auto simp: rplWelcome_def split: prod.splits)
  have "u_host u = host"
    using w(2,3) new_user_cases [OF w(2) assms(1)] by (auto simp: the_user_def)
  then have k: "to_lower (User_Nick u) = nick_key host" by (simp add: User_Nick_def nick_key_def)
  have "st_inv (t\<lparr>users := (users t)(nick_key host \<mapsto> user)\<rparr>)"
    by (rule st_inv_new_user [OF assms(1) w(2)])
  then show ?thesis using w(3) by (auto simp: st_inv_def s' k the_user_def deref_eq_Inr)
qed

lemma st_inv_fold:
  assumes "\<And>x t t'. st_inv t \<Longrightarrow> f x t = Inr t' \<Longrightarrow> st_inv t'" "st_inv s" "fold_outcome f xs s = Inr s'"
  shows "st_inv s'"
  using fold_outcome_invariant [of xs st_inv f s s'] assms by blast

lemma st_inv_self:
  "st_inv s \<Longrightarrow> st_inv (s\<lparr>selfModes := fst (ChannelModes_Apply k uk ms (selfModes s))\<rparr>)"
  using channel_inv.apply_modes_keeps by (auto simp: st_inv_def ChannelModes_Apply_def)

lemma st_inv_mode: assumes "st_inv s" "mode ev s = Inr s'" shows "st_inv s'"
proof -
  have m: "st_inv t'" if "st_inv t" "mode_user f target um t = Inr t'" for f target um t t'
    using that by (auto simp: mode_user_def dest: st_inv_upd_modes)
  have "st_inv t'" if "fold_outcome (mode_user f target) ums t = Inr t'" "st_inv t" for f target ums t t'
    by (rule st_inv_fold [OF _ that(2,1)]) (rule m)
  then have "st_inv t''" if "apply_to_channel p ms s = Inr (pos, neg, t)"
      "fold_outcome (mode_user SetMode target) pos t = Inr t'" "fold_outcome (mode_user UnsetMode target) neg t' = Inr t''"
    for p ms pos neg target t t' t''
    using that st_inv_apply_to_channel [OF assms(1)] by blast
  then show ?thesis using assms
    by (auto simp: mode_def Let_def st_inv_self split: if_splits option.splits)
qed

lemma st_inv_name_reply: "st_inv s \<Longrightarrow> name_reply c x s = Inr s' \<Longrightarrow> st_inv s'"
  by (auto simp: name_reply_def Let_def split: option.splits dest!: st_inv_addUser [rotated]
      intro: st_inv_upd_modes st_inv_addToChannel)

lemma st_inv_who_mode: "st_inv s \<Longrightarrow> who_mode h c x s = Inr s' \<Longrightarrow> st_inv s'"
  by (auto simp: who_mode_def Let_def split: option.splits if_splits dest: st_inv_upd_modes)

lemma st_inv_rplWhoReply: assumes "st_inv s" "rplWhoReply ev s = Inr s'" shows "st_inv s'"
proof -
  obtain h c real modes p s1 s2 where "addUser h s = Inr (p, s1)"
    and r: "upd_user (GetUser h (addToChannel h c s1)) (SetRealname real) (addToChannel h c s1) = Inr s2"
    and "fold_outcome (who_mode h c) modes s2 = Inr s'"
    using assms(2) by (auto simp: rplWhoReply_def Let_def)
  moreover from this have "st_inv s2"
    by (intro st_inv_upd_user [OF _ r]) (auto simp: SetRealname_def intro: st_inv_addToChannel st_inv_addUser assms)
  ultimately show ?thesis by (blast intro: st_inv_fold st_inv_who_mode)
qed

lemma st_inv_topics:
  assumes "st_inv s" "upd_channel p (SetTopic t) s = Inr s'" shows "st_inv s'"
  by (rule st_inv_upd_channel [OF assms]) (simp_all add: SetTopic_def channel_inv_def)

lemma st_inv_ban:
  assumes "st_inv s" "upd_channel p (AddBan b) s = Inr s'" shows "st_inv s'"
  by (rule st_inv_upd_channel [OF assms]) (simp_all add: AddBan_def channel_inv_def cm_inv_ops)

text \<open>
  The one event that breaks the invariant: a change of nick to a nick that another known user has on a channel of
  the state.  (A network does not send it while the state is up to date; after missed events it can.)  Besides, nicks have no
  \<^verbatim>\<open>!\<close> and no \<^verbatim>\<open>@\<close>.
\<close>

definition admissible :: "Event \<Rightarrow> State \<Rightarrow> bool" where
  "admissible ev s \<longleftrightarrow>
     (eName ev = NICK \<longrightarrow> (\<forall>new. arg ev 0 = Inr new \<longrightarrow> CHR ''!'' \<notin> set new \<and> CHR ''@'' \<notin> set new
        \<and> (to_lower (fst (SplitHost ev)) \<noteq> to_lower new \<longrightarrow> (\<forall>c. cu_at s c (to_lower new) = None))))"

lemma upd_user_other: "upd_user p f s = Inr s' \<Longrightarrow> users s' = users s \<and> cu_at s' = cu_at s"
  by (auto simp: upd_user_def)

lemma addUser_other:
  "addUser x s = Inr (p, s') \<Longrightarrow> (n \<noteq> nick_key x \<longrightarrow> users s' n = users s n) \<and> cu_at s' = cu_at s"
  by (auto simp: addUser_def new_user_def Let_def dest!: upd_user_other split: if_splits option.splits)

lemma st_inv_members:
  assumes "st_inv s"
  shows "join ev s = Inr s' \<Longrightarrow> st_inv s'" "part ev s = Inr s' \<Longrightarrow> st_inv s'" "quit ev s = Inr s' \<Longrightarrow> st_inv s'"
    "kick ev s = Inr s' \<Longrightarrow> st_inv s'" "msg ev s = Inr s' \<Longrightarrow> st_inv s'" "rplNameReply ev s = Inr s' \<Longrightarrow> st_inv s'"
proof -
  show "st_inv s'" if "rplNameReply ev s = Inr s'"
    using that st_inv_fold [OF st_inv_name_reply assms] by (auto simp: rplNameReply_def)
qed (use assms in \<open>auto simp: join_def part_def quit_def kick_def msg_def
      intro!: st_inv_addToChannel st_inv_addChannel st_inv_removeChannel st_inv_removeFromChannel st_inv_removeUser
      split: if_splits\<close>)

lemma st_inv_channel_data:
  assumes "st_inv s"
  shows "topic ev s = Inr s' \<Longrightarrow> st_inv s'" "rplTopic ev s = Inr s' \<Longrightarrow> st_inv s'"
    "rplChannelModeIs ev s = Inr s' \<Longrightarrow> st_inv s'" "rplBanList ev s = Inr s' \<Longrightarrow> st_inv s'"
  using assms
  by (auto simp: topic_def rplTopic_def rplChannelModeIs_def rplBanList_def
      intro: st_inv_topics st_inv_ban st_inv_apply_to_channel split: if_splits option.splits)

lemma st_inv_handle:
  assumes "st_inv s" "handle ev s = Inr s'" "admissible ev s"
  shows "st_inv s'"
proof -
  have "st_inv s'" if "eName ev = NICK" "nick ev s = Inr s'"
    using st_inv_nick [OF assms(1) that(2)] assms(3) that(1) by (simp add: admissible_def)
  moreover have "st_inv s'" if "rplWelcome ev s = Inr s'" by (rule st_inv_rplWelcome [OF assms(1) that])
  ultimately show ?thesis
    using assms(2) st_inv_members [OF assms(1)] st_inv_channel_data [OF assms(1)]
      st_inv_mode [OF assms(1)] st_inv_rplWhoReply [OF assms(1)] assms(1)
    unfolding handle_def by (simp split: if_split_asm)
qed

lemma st_inv_Update:
  assumes "st_inv s" "Update ev s = Inr s'" "admissible ev s" shows "st_inv s'"
proof (cases "eSender ev = []")
  case True
  then show ?thesis using assms by (auto simp: Update_def intro: st_inv_handle)
next
  case False
  then obtain p t where t: "addUser (eSender ev) s = Inr (p, t)" "handle ev t = Inr s'"
    using assms(2) by (auto simp: Update_def)
  have "admissible ev t" using assms(3) addUser_other [OF t(1)] by (auto simp: admissible_def)
  with t assms(1) show ?thesis by (blast intro: st_inv_handle st_inv_addUser)
qed

lemma st_inv_empty: "st_inv (empty_state\<lparr>st_kinds := k, st_umodes := u\<rparr>)"
  by (simp add: st_inv_def ok_defs empty_state_def cu_at_def uc_at_def)

lemma st_inv_SetNetworkInfo: "st_inv s \<Longrightarrow> SetNetworkInfo ni s = Inr (Inr s') \<Longrightarrow> st_inv s'"
  by (auto simp: SetNetworkInfo_def st_inv_def split: option.splits sum.splits)

lemma st_inv_NewState: "NewState ni = Inr (Inr s) \<Longrightarrow> st_inv s"
  using st_inv_empty by (auto simp: NewState_def SetNetworkInfo_def split: option.splits sum.splits)

text \<open>
  The states of a running bot: created from the network's information, changed by admissible events and by
  new network information (after a 005 reply).
\<close>

inductive reachable :: "State \<Rightarrow> bool" where
  created: "NewState ni = Inr (Inr s) \<Longrightarrow> reachable s"
| event: "reachable s \<Longrightarrow> admissible ev s \<Longrightarrow> Update ev s = Inr s' \<Longrightarrow> reachable s'"
| netinfo: "reachable s \<Longrightarrow> SetNetworkInfo ni s = Inr (Inr s') \<Longrightarrow> reachable s'"

lemma reachable_inv: "reachable s \<Longrightarrow> st_inv s"
  by (induction rule: reachable.induct) (auto intro: st_inv_NewState st_inv_Update st_inv_SetNetworkInfo)

end
