(* ===== verification/StateProps.thy ===== *)
theory StateProps
  imports StateInvariant
begin

text \<open>
  What the network state promises: consistency of every state a running bot can reach, and the
  effect of the events NICK, QUIT, JOIN and MODE on users and memberships.
\<close>

section \<open>A sample run\<close>

text \<open>
  A state reached from the default network information by the server's welcome and the bot's own
  JOIN, with the events that lead to it.
\<close>


definition start_state :: State where
  "start_state = empty_state\<lparr>st_kinds := \<lparr>kinds = parseChannelModeKinds ''beI'' ''k'' ''l'' ''imnOPRstz''\<rparr>,
     st_umodes := \<lparr>modeInfo = [(CHR ''o'', CHR ''@''), (CHR ''v'', CHR ''+'')]\<rparr>\<rparr>"

lemma NewState_default: "NewState (Some NewNetworkInfo) = Inr (Inr start_state)"
proof -
  have "parsePrefixString ''(ov)@+'' = Inr (Inr [(CHR ''o'', CHR ''@''), (CHR ''v'', CHR ''+'')])" by code_simp
  moreover have "split_on CHR '','' ''beI,k,l,imnOPRstz'' = [''beI'', ''k'', ''l'', ''imnOPRstz'']" by code_simp
  ultimately show ?thesis
    by (simp add: NewState_def SetNetworkInfo_def NewNetworkInfo_def Chanmodes_def Prefix_def start_state_def
        NewChannelModeKindsCSV_def parseChannelModeKindsCSV_def NewUserModeKinds_def)
qed

definition net_event :: "string \<Rightarrow> string \<Rightarrow> string list \<Rightarrow> Event" where
  "net_event name sender args = NewEvent 0 ''net'' (Some NewNetworkInfo) name sender args"

definition joined_state :: State where
  "joined_state = start_state
     \<lparr>heapUser := [0 \<mapsto> \<lparr>u_host = ''me!u@h'', u_name = []\<rparr>],
      heapChannel := [1 \<mapsto> \<lparr>ch_name = ''#c'', ch_topic = [], ch_modes = NewChannelModes\<rparr>],
      heapModes := [2 \<mapsto> NewUserModes], nextRef := 3, selfUser := Some 0,
      users := [''me'' \<mapsto> Some 0], channels := [''#c'' \<mapsto> Some 1],
      channelUsers := [''#c'' \<mapsto> [''me'' \<mapsto> \<lparr>cu_User = Some 0, cu_UserModes = 2\<rparr>]],
      userChannels := [''me'' \<mapsto> [''#c'' \<mapsto> \<lparr>uc_Channel = Some 1, uc_UserModes = 2\<rparr>]]\<rparr>"

lemma sample_keys: "nick_key ''me!u@h'' = ''me''" "nick_key ''me'' = ''me''" "Fields ''hi me!u@h'' = [''hi'', ''me!u@h'']" "to_lower ''#c'' = ''#c''"
   "to_lower ''me'' = ''me''" "Nick ''me!u@h'' = ''me''"
  by code_simp+

lemma joined:
  "and_then (Update (net_event ''001'' ''irc.net'' [''me'', ''hi me!u@h'']) start_state)
     (Update (net_event ''JOIN'' ''me!u@h'' [''#c''])) = Inr joined_state"
  by (simp add: Update_def handle_def net_event_def NewEvent_def addUser_def rplWelcome_def welcome_host_def arg_def
   sample_keys new_user_def NewUser_def the_user_def User_Nick_def join_def self_host_def User_Host_def
   addChannel_def NewChannel_def addToChannel_def cu_at_def uc_at_def Let_def start_state_def empty_state_def
   joined_state_def NewChannelUser_def NewUserChannel_def numeral_eq_Suc)

section \<open>Properties\<close>


lemma st_inv_members_agree:
  assumes "st_inv s"
  shows "uc_at s n c \<noteq> None \<longleftrightarrow> cu_at s c n \<noteq> None"
    and "cu_at s c n = Some x \<Longrightarrow> users s n \<noteq> None \<and> heapModes s (cu_UserModes x) \<noteq> None"
    and "uc_at s n c = Some y \<Longrightarrow> channels s c = Some (uc_Channel y)"
    and "cu_at s c n = Some x \<Longrightarrow> cu_at s c' n' = Some x' \<Longrightarrow> cu_UserModes x = cu_UserModes x' \<Longrightarrow> c = c' \<and> n = n'"
proof -
  have m: "members_ok (cu_at s) (uc_at s) (users s) (channels s) (heapModes s)" using assms by (simp add: st_inv_def)
  then show "uc_at s n c \<noteq> None \<longleftrightarrow> cu_at s c n \<noteq> None" unfolding members_ok_def by (metis option.map_disc_iff)
  show "cu_at s c n = Some x \<Longrightarrow> users s n \<noteq> None \<and> heapModes s (cu_UserModes x) \<noteq> None" using m unfolding members_ok_def by blast
  show "uc_at s n c = Some y \<Longrightarrow> channels s c = Some (uc_Channel y)" using m unfolding members_ok_def by blast
  show "cu_at s c n = Some x \<Longrightarrow> cu_at s c' n' = Some x' \<Longrightarrow> cu_UserModes x = cu_UserModes x' \<Longrightarrow> c = c' \<and> n = n'"
    using m unfolding members_ok_def by blast
qed

lemma reachable_joined: "reachable joined_state"
proof -
  let ?w = "net_event ''001'' ''irc.net'' [''me'', ''hi me!u@h'']" and ?j = "net_event ''JOIN'' ''me!u@h'' [''#c'']"
  obtain s1 where s1: "Update ?w start_state = Inr s1" "Update ?j s1 = Inr joined_state" using joined by auto
  have "admissible ?w start_state"
    by (simp add: admissible_def net_event_def NewEvent_def start_state_def empty_state_def cu_at_def)
  with s1 have "reachable s1" by (blast intro: reachable.intros NewState_default)
  then show ?thesis by (rule event [OF _ _ s1(2)]) (simp add: admissible_def net_event_def NewEvent_def)
qed



text \<open>Adding the sender of an event, and what it leaves alone.\<close>

lemma addUser_full:
  assumes "st_inv s" "CHR ''!'' \<in> set x" "CHR ''@'' \<in> set x" "Nick x \<noteq> []"
  shows "\<exists>r t v. addUser x s = Inr (Some r, t) \<and> users t (nick_key x) = Some (Some r) \<and> cu_at t = cu_at s \<and> uc_at t = uc_at s
    \<and> channels t = channels s \<and> heapModes t = heapModes s \<and> selfUser t = selfUser s
    \<and> heapUser t r = Some v \<and> u_host v = x \<and> (\<forall>r'. r' \<noteq> r \<longrightarrow> heapUser t r' = heapUser s r')
    \<and> (\<forall>n. n \<noteq> nick_key x \<longrightarrow> users t n = users s n) \<and> st_umodes t = st_umodes s
    \<and> (case users s (nick_key x) of None \<Rightarrow> heapUser s r = None \<and> u_name v = []
       | Some p \<Rightarrow> p = Some r \<and> heapUser s r \<noteq> None \<and> u_name v = u_name (the (heapUser s r)))"
proof (cases "users s (nick_key x)")
  case None
  moreover have "x \<noteq> []" using assms(2) by auto
  moreover have "heapUser s (nextRef s) = None" using assms(1) by (simp add: st_inv_def refs_ok_def)
  ultimately show ?thesis using assms by (auto simp: addUser_def Let_def new_user_def NewUser_def)
next
  case (Some p)
  have "nick_key x \<noteq> []" using assms(4) by (simp add: nick_key_def)
  then obtain r where "p = Some r" using Some assms(1) by (cases p) (auto simp: st_inv_def users_ok_def)
  moreover from this Some assms(1) obtain u where "heapUser s r = Some u" by (auto simp: st_inv_def dest: users_okD)
  ultimately show ?thesis using assms Some
    by (auto simp: addUser_def Let_def the_user_def upd_user_def User_Host_def)
qed

lemma rgxHost_parts:
  assumes "rgxHost x = Some (n, u, h)"
  shows "Nick x = n" "nick_key x = to_lower n" "n \<noteq> []" "CHR ''!'' \<in> set x" "CHR ''@'' \<in> set x"
    "CHR ''!'' \<notin> set n" "CHR ''@'' \<notin> set n"
proof -
  have x: "x = n @ CHR ''!'' # u @ CHR ''@'' # h" and n: "n \<noteq> []" "CHR ''!'' \<notin> set n" "CHR ''@'' \<notin> set n"
    using assms by (auto simp: rgxHost_iff rgx_lang_def nick_char_def word_char_def code_def is_digit_def is_upper_def is_lower_def)
  have "takeWhile (\<lambda>c. c \<noteq> CHR ''!'' \<and> c \<noteq> CHR ''@'') (n @ CHR ''!'' # u @ CHR ''@'' # h) = n"
    using n by (intro takeWhile_dropWhile_append(1)) auto
  then show "Nick x = n" by (simp add: Nick_def x)
  then show "nick_key x = to_lower n" by (simp add: nick_key_def)
  show "n \<noteq> []" "CHR ''!'' \<notin> set n" "CHR ''@'' \<notin> set n" "CHR ''!'' \<in> set x" "CHR ''@'' \<in> set x"
    using n x by auto
qed

lemma nick_key_plain: "CHR ''!'' \<notin> set n \<Longrightarrow> CHR ''@'' \<notin> set n \<Longrightarrow> nick_key n = to_lower n"
  unfolding nick_key_def Nick_def by (subst takeWhile_eq_all_conv [THEN iffD2]) auto

text \<open>The run of a NICK event up to the renaming.\<close>

lemma Update_nick:
  assumes "st_inv s" "eName e = NICK" "rgxHost (eSender e) = Some (n, u, h)" "eArgs e = new # rest"
  obtains t r v where "st_inv t" "Update e s = Inr ((rename_user (to_lower n) (to_lower new) t)
      \<lparr>heapUser := (heapUser t)(r \<mapsto> v\<lparr>u_host := new @ ''!'' @ u @ ''@'' @ h\<rparr>)\<rparr>)"
    "users t (to_lower n) = Some (Some r)" "cu_at t = cu_at s" "uc_at t = uc_at s"
    "\<forall>m. m \<noteq> to_lower n \<longrightarrow> users t m = users s m" "\<forall>r'. r' \<noteq> r \<longrightarrow> heapUser t r' = heapUser s r'"
    "case users s (to_lower n) of None \<Rightarrow> heapUser s r = None \<and> u_name v = []
     | Some p \<Rightarrow> p = Some r \<and> heapUser s r \<noteq> None \<and> u_name v = u_name (the (heapUser s r))"
proof -
  note p = rgxHost_parts [OF assms(3)]
  from addUser_full [OF assms(1) p(4,5)] p obtain r t v where t: "addUser (eSender e) s = Inr (Some r, t)"
    "users t (to_lower n) = Some (Some r)" "cu_at t = cu_at s" "uc_at t = uc_at s" "heapUser t r = Some v"
    "\<forall>m. m \<noteq> to_lower n \<longrightarrow> users t m = users s m" "\<forall>r'. r' \<noteq> r \<longrightarrow> heapUser t r' = heapUser s r'"
    "case users s (to_lower n) of None \<Rightarrow> heapUser s r = None \<and> u_name v = []
     | Some p \<Rightarrow> p = Some r \<and> heapUser s r \<noteq> None \<and> u_name v = u_name (the (heapUser s r))" by auto
  have "SplitHost e = (n, u, h)" using assms(3) by (simp add: SplitHost_def Split_def)
  then have "Update e s = Inr ((rename_user (to_lower n) (to_lower new) t)
      \<lparr>heapUser := (heapUser t)(r \<mapsto> v\<lparr>u_host := new @ ''!'' @ u @ ''@'' @ h\<rparr>)\<rparr>)"
    using p(4) t assms(2,4)
    by (auto simp: Update_def handle_def nick_def arg_def upd_user_def the_user_def rename_heap)
  then show ?thesis using that t st_inv_addUser [OF assms(1) t(1)] by blast
qed

lemma admissible_nick:
  assumes "admissible e s" "eName e = NICK" "rgxHost (eSender e) = Some (n, u, h)" "eArgs e = new # rest"
  shows "CHR ''!'' \<notin> set new" "CHR ''@'' \<notin> set new" "to_lower n \<noteq> to_lower new \<Longrightarrow> \<forall>c. cu_at s c (to_lower new) = None"
  using assms by (auto simp: admissible_def arg_def SplitHost_def Split_def)

text \<open>
  C3: A change of nick moves the user.  When a NICK event takes another nick that nobody has on a channel, it
  never panics; the new nick is on exactly the channels of the old one, in both indexes and with
  the same mode objects; the new nick leads to the very user object of the old one (a new one if the sender was not known), which
  keeps its real name and has its new host; the old nick is gone; and all other users
  keep their entries, objects and memberships.
\<close>

theorem nick_moves_user:
  assumes "reachable s" and "eName e = NICK" and "rgxHost (eSender e) = Some (n, u, h)"
    and "eArgs e = new # rest" and "admissible e s" and "to_lower new \<noteq> to_lower n"
  shows "\<exists>s' r. Update e s = Inr s'
    \<and> IsOn new c s' = IsOn n c s \<and> GetUsersChannelModes new c s' = GetUsersChannelModes n c s
    \<and> GetUser new s' = Some r \<and> (GetUser n s \<noteq> None \<longrightarrow> GetUser n s = Some r)
    \<and> heapUser s' r = Some \<lparr>u_host = new @ ''!'' @ u @ ''@'' @ h,
                            u_name = (case GetUser n s of None \<Rightarrow> [] | Some q \<Rightarrow> u_name (the (heapUser s q)))\<rparr>
    \<and> GetUser n s' = None \<and> \<not> IsOn n c s' \<and> GetUsersChannelModes n c s' = None
    \<and> (nick_key x \<noteq> to_lower n \<and> nick_key x \<noteq> to_lower new \<longrightarrow>
         IsOn x c s' = IsOn x c s \<and> GetUsersChannelModes x c s' = GetUsersChannelModes x c s
         \<and> GetUser x s' = GetUser x s \<and> (\<forall>q. GetUser x s = Some q \<longrightarrow> heapUser s' q = heapUser s q))"
proof -
  note inv = reachable_inv [OF assms(1)] and p = rgxHost_parts [OF assms(3)]
  note new = admissible_nick [OF assms(5,2-4)]
  obtain t r v where t: "st_inv t" and up: "Update e s = Inr ((rename_user (to_lower n) (to_lower new) t)
      \<lparr>heapUser := (heapUser t)(r \<mapsto> v\<lparr>u_host := new @ ''!'' @ u @ ''@'' @ h\<rparr>)\<rparr>)"
    and us: "users t (to_lower n) = Some (Some r)" and at: "cu_at t = cu_at s" "uc_at t = uc_at s"
    and other: "\<forall>m. m \<noteq> to_lower n \<longrightarrow> users t m = users s m" "\<forall>r'. r' \<noteq> r \<longrightarrow> heapUser t r' = heapUser s r'"
    and old: "case users s (to_lower n) of None \<Rightarrow> heapUser s r = None \<and> u_name v = []
     | Some p \<Rightarrow> p = Some r \<and> heapUser s r \<noteq> None \<and> u_name v = u_name (the (heapUser s r))"
    by (rule Update_nick [OF inv assms(2-4)])
  note at' = rename_at [of "to_lower n" "to_lower new" t, unfolded at, OF new(3) t]
  have k: "nick_key n = to_lower n" "nick_key new = to_lower new" using p new by (simp_all add: nick_key_plain)
  have "q \<noteq> r" if "nick_key x \<noteq> to_lower n" "users s (nick_key x) = Some (Some q)" for q
  proof
    assume "q = r"
    then have "users t (nick_key x) = Some (Some r)" using that other(1) by auto
    moreover have "users_ok (heapUser t) (users t)" using t by (simp add: st_inv_def)
    ultimately show False using users_okD [of "heapUser t" "users t" _ r] us that(1) by (metis option.inject)
  qed
  then have obj: "heapUser t q = heapUser s q \<and> q \<noteq> r" if "nick_key x \<noteq> to_lower n" "users s (nick_key x) = Some (Some q)" for q
    using other(2) that by blast
  have name: "v\<lparr>u_host := new @ ''!'' @ u @ ''@'' @ h\<rparr> = \<lparr>u_host = new @ ''!'' @ u @ ''@'' @ h,
      u_name = (case GetUser n s of None \<Rightarrow> [] | Some q \<Rightarrow> u_name (the (heapUser s q)))\<rparr>"
    "GetUser n s \<noteq> None \<Longrightarrow> GetUser n s = Some r"
    using old k by (auto simp: GetUser_def split: option.splits)
  let ?s' = "(rename_user (to_lower n) (to_lower new) t)\<lparr>heapUser := (heapUser t)(r \<mapsto> v\<lparr>u_host := new @ ''!'' @ u @ ''@'' @ h\<rparr>)\<rparr>"
  have on: "IsOn new c ?s' = IsOn n c s \<and> GetUsersChannelModes new c ?s' = GetUsersChannelModes n c s
      \<and> \<not> IsOn n c ?s' \<and> GetUsersChannelModes n c ?s' = None"
    using assms(6) by (simp add: GetUsersChannelModes_def IsOn_def at' k)
  have self: "GetUser new ?s' = Some r \<and> GetUser n ?s' = None" using assms(6) us by (simp add: GetUser_def k)
  have rest: "IsOn x c ?s' = IsOn x c s \<and> GetUsersChannelModes x c ?s' = GetUsersChannelModes x c s
         \<and> GetUser x ?s' = GetUser x s \<and> (\<forall>q. GetUser x s = Some q \<longrightarrow> heapUser ?s' q = heapUser s q)"
    if "nick_key x \<noteq> to_lower n \<and> nick_key x \<noteq> to_lower new"
    using that other(1) obj by (auto simp: GetUsersChannelModes_def IsOn_def GetUser_def at' split: option.splits)
  have "heapUser ?s' r = Some \<lparr>u_host = new @ ''!'' @ u @ ''@'' @ h,
      u_name = (case GetUser n s of None \<Rightarrow> [] | Some q \<Rightarrow> u_name (the (heapUser s q)))\<rparr>" unfolding name(1) [symmetric] by simp
  then show ?thesis using up on self rest name(2) by blast
qed

text \<open>
  The event that \<^verbatim>\<open>admissible\<close> leaves out really breaks the state: a NICK onto a nick that is on a channel where the sender is not
  leaves that nick in the index by channel and takes it out of the index by user.
\<close>

lemma nick_onto_member_breaks:
  assumes "reachable s" "eName e = NICK" "rgxHost (eSender e) = Some (n, u, h)" "eArgs e = new # rest"
    and "CHR ''!'' \<notin> set new" "CHR ''@'' \<notin> set new" "to_lower new \<noteq> to_lower n"
    and "IsOn n d s" "\<not> IsOn n c s" "IsOn new c s"
  shows "\<exists>s'. Update e s = Inr s' \<and> \<not> IsOn new c s' \<and> GetUsersChannelModes new c s' \<noteq> None"
proof -
  note inv = reachable_inv [OF assms(1)] and p = rgxHost_parts [OF assms(3)]
  obtain t r v where t: "st_inv t" and up: "Update e s = Inr ((rename_user (to_lower n) (to_lower new) t)
      \<lparr>heapUser := (heapUser t)(r \<mapsto> v\<lparr>u_host := new @ ''!'' @ u @ ''@'' @ h\<rparr>)\<rparr>)"
    and at: "cu_at t = cu_at s" "uc_at t = uc_at s" by (rule Update_nick [OF inv assms(2-4)])
  have k: "nick_key n = to_lower n" "nick_key new = to_lower new" using p assms(5,6) by (simp_all add: nick_key_plain)
  have "uc_at t (to_lower n) (to_lower d) \<noteq> None" "uc_at t (to_lower n) (to_lower c) = None" "uc_at t (to_lower new) (to_lower c) \<noteq> None"
    using assms(8-10) by (simp_all add: IsOn_def k at)
  moreover from this have "cu_at t (to_lower c) (to_lower n) = None" "cu_at t (to_lower c) (to_lower new) \<noteq> None"
    using st_inv_members_agree(1) [OF t] by blast+
  ultimately show ?thesis unfolding up using assms(7)
    by (auto simp: IsOn_def GetUsersChannelModes_def k rename_user_def cu_at_def uc_at_def split: option.splits)
qed

text \<open>
  A change of nick that only changes the case of letters deletes the user: old and new key are
  the same, so the entries are stored and then deleted, and the user is on no channel any more.
\<close>

theorem nick_case_change_deletes:
  assumes "reachable s" and "eName e = NICK" and "rgxHost (eSender e) = Some (n, u, h)"
    and "eArgs e = new # rest" and "to_lower new = to_lower n"
  shows "\<exists>s'. Update e s = Inr s' \<and> GetUser n s' = None \<and> GetUsersChannelModes n c s' = None \<and> \<not> IsOn n c s'"
proof -
  note inv = reachable_inv [OF assms(1)] and p = rgxHost_parts [OF assms(3)]
  obtain t r v where t: "st_inv t" and up: "Update e s = Inr ((rename_user (to_lower n) (to_lower new) t)
      \<lparr>heapUser := (heapUser t)(r \<mapsto> v\<lparr>u_host := new @ ''!'' @ u @ ''@'' @ h\<rparr>)\<rparr>)"
    and us: "users t (to_lower n) = Some (Some r)"
    by (rule Update_nick [OF inv assms(2-4)])
  have "nick_key n = to_lower n" using p by (simp add: nick_key_plain)
  moreover have "cu_at (rename_user k k t) d k = None" "uc_at (rename_user k k t) k d = None" for k d
    by (auto simp: rename_user_def cu_at_def uc_at_def split: option.splits)
  ultimately show ?thesis unfolding up assms(5) by (simp add: GetUsersChannelModes_def GetUser_def IsOn_def)
qed

definition nick_event :: "string \<Rightarrow> Event" where
  "nick_event new = net_event ''NICK'' ''me!u@h'' [new]"

lemma rgxHost_me: "rgxHost ''me!u@h'' = Some (''me'', ''u'', ''h'')"
  by code_simp

theorem nick_moves_user_witness:
  "\<exists>s'. Update (nick_event ''you'') joined_state = Inr s'
    \<and> GetUsersChannelModes ''you'' ''#c'' s' = Some 2 \<and> GetUser ''you'' s' = Some 0 \<and> IsOn ''you'' ''#c'' s' \<and> \<not> IsOn ''me'' ''#c'' s'"
proof -
  have "GetUsersChannelModes ''me'' ''#c'' joined_state = Some 2" "GetUser ''me'' joined_state = Some 0" "IsOn ''me'' ''#c'' joined_state"
    by (simp_all add: GetUsersChannelModes_def cu_at_def GetUser_def IsOn_def uc_at_def joined_state_def sample_keys)
  moreover have "to_lower ''you'' = ''you''" by code_simp
  then have "admissible (nick_event ''you'') joined_state \<and> to_lower ''you'' \<noteq> to_lower ''me''"
    by (auto simp: cu_at_def admissible_def nick_event_def net_event_def NewEvent_def arg_def joined_state_def sample_keys)
  ultimately show ?thesis
    using nick_moves_user [OF reachable_joined, of "nick_event ''you''" "''me''" "''u''" "''h''" "''you''" "[]" "''#c''"]
      rgxHost_me by (auto simp: nick_event_def net_event_def NewEvent_def)
qed

theorem nick_case_change_deletes_witness:
  "IsOn ''me'' ''#c'' joined_state \<and> (\<exists>s'. Update (nick_event ''Me'') joined_state = Inr s' \<and> GetUser ''me'' s' = None \<and> \<not> IsOn ''me'' ''#c'' s')"
proof -
  have "to_lower ''Me'' = to_lower ''me''" by code_simp
  moreover have "IsOn ''me'' ''#c'' joined_state" by (simp add: IsOn_def uc_at_def joined_state_def sample_keys)
  ultimately show ?thesis
    using nick_case_change_deletes [OF reachable_joined, of "nick_event ''Me''" "''me''" "''u''" "''h''" "''Me''" "[]" "''#c''"]
      rgxHost_me by (auto simp: nick_event_def net_event_def NewEvent_def)
qed


text \<open>The run of an event from a user with a full host, up to its handler.\<close>

lemma Update_sender:
  assumes "st_inv s" "rgxHost (eSender e) = Some (n, u, h)" "self_host s = Inr me"
    and "eSender e = me \<or> nick_key me \<noteq> to_lower n"
  obtains t where "st_inv t" "Update e s = handle e t" "self_host t = Inr me" "users t (to_lower n) \<noteq> None"
    "cu_at t = cu_at s" "uc_at t = uc_at s" "channels t = channels s" "heapModes t = heapModes s"
    "\<forall>m. m \<noteq> to_lower n \<longrightarrow> users t m = users s m"
proof -
  note p = rgxHost_parts [OF assms(2)]
  from addUser_full [OF assms(1) p(4,5)] p obtain r t v where t: "addUser (eSender e) s = Inr (Some r, t)"
    "users t (to_lower n) = Some (Some r)" "cu_at t = cu_at s" "uc_at t = uc_at s" "selfUser t = selfUser s"
    "heapUser t r = Some v" "u_host v = eSender e" "channels t = channels s" "heapModes t = heapModes s"
    "\<forall>r'. r' \<noteq> r \<longrightarrow> heapUser t r' = heapUser s r'" "\<forall>m. m \<noteq> to_lower n \<longrightarrow> users t m = users s m" by auto
  from assms(3) obtain r0 v0 where r0: "selfUser s = Some r0" "heapUser s r0 = Some v0" "u_host v0 = me"
    by (auto simp: self_host_def the_user_def deref_eq_Inr User_Host_def)
  have "eSender e = me" if "r0 = r"
  proof (cases "users s (to_lower n)")
    case None
    then have "r = nextRef s"
      using t(1) p(4,5) by (auto simp: addUser_def Let_def p(2) new_user_def NewUser_def split: if_splits)
    then show ?thesis using assms(1) r0 that by (auto simp: st_inv_def refs_ok_def)
  next
    case (Some q)
    then have "q = Some r" using t(1) p(4,5) by (auto simp: addUser_def Let_def p(2) split: if_splits)
    then have "nick_key (u_host v0) = to_lower n" using Some assms(1) r0 that by (auto simp: st_inv_def dest: users_okD)
    then show ?thesis using assms(4) r0 by simp
  qed
  then have "self_host t = Inr me" using r0 t by (cases "r0 = r") (auto simp: self_host_def the_user_def User_Host_def)
  moreover have "Update e s = handle e t" using t(1) p(4) by (auto simp: Update_def)
  ultimately show ?thesis using that t st_inv_addUser [OF assms(1) t(1)] by auto
qed

text \<open>The modes of a membership.\<close>

definition modes_of :: "State \<Rightarrow> string \<Rightarrow> string \<Rightarrow> UserModes option" where
  "modes_of s c n = (case cu_at s c n of None \<Rightarrow> None | Some cu \<Rightarrow> heapModes s (cu_UserModes cu))"

text \<open>
  C4: A user who quits is forgotten: after the QUIT of another user, the state has no entry for
  the nick and no membership on any channel, and all other users keep theirs.
\<close>

theorem quit_forgets_user:
  assumes "reachable s" and "eName e = QUIT" and "rgxHost (eSender e) = Some (n, u, h)"
    and "self_host s = Inr me" and "nick_key me \<noteq> to_lower n"
  shows "\<exists>s'. Update e s = Inr s' \<and> GetUser n s' = None \<and> \<not> IsOn n c s' \<and> GetUsersChannelModes n c s' = None
    \<and> (nick_key x \<noteq> to_lower n \<longrightarrow>
         GetUser x s' = GetUser x s \<and> GetUsersChannelModes x c s' = GetUsersChannelModes x c s)"
proof -
  note p = rgxHost_parts [OF assms(3)]
  obtain t where t: "Update e s = handle e t" "self_host t = Inr me" "cu_at t = cu_at s" "uc_at t = uc_at s"
    "\<forall>m. m \<noteq> to_lower n \<longrightarrow> users t m = users s m"
    using Update_sender [OF reachable_inv [OF assms(1)] assms(3,4)] assms(5) by metis
  have "eSender e \<noteq> me" using assms(5) p(2) by auto
  then have "Update e s = Inr (removeUser (eSender e) t)"
    using t(1,2) assms(2) by (auto simp: handle_def quit_def)
  moreover have "nick_key n = to_lower n" using p by (simp add: nick_key_plain)
  ultimately show ?thesis using t p by (auto simp: GetUser_def IsOn_def GetUsersChannelModes_def)
qed

definition sample_event :: "string \<Rightarrow> string list \<Rightarrow> Event" where
  "sample_event name args = net_event name ''bob!b@d'' args"

lemma rgxHost_bob: "rgxHost ''bob!b@d'' = Some (''bob'', ''b'', ''d'')"
  by code_simp

lemma self_joined: "self_host joined_state = Inr ''me!u@h''"
  by (simp add: self_host_def the_user_def joined_state_def User_Host_def)

lemma bob_not_me: "nick_key ''me!u@h'' \<noteq> to_lower ''bob''"
  by code_simp

theorem quit_forgets_user_witness:
  "\<exists>s'. Update (sample_event ''QUIT'' [''bye'']) joined_state = Inr s' \<and> GetUser ''bob'' s' = None
     \<and> GetUser ''me'' s' = Some 0"
proof -
  have "GetUser ''me'' joined_state = Some 0" "nick_key ''me'' \<noteq> to_lower ''bob''"
    using bob_not_me by (simp_all add: GetUser_def joined_state_def sample_keys)
  then show ?thesis
    using quit_forgets_user [OF reachable_joined _ _ self_joined bob_not_me, of "sample_event ''QUIT'' [''bye'']" "''b''" "''d''" "''#c''" "''me''"]
      rgxHost_bob by (auto simp: sample_event_def net_event_def NewEvent_def)
qed

text \<open>Adding a channel, and joining one that is known afterwards.\<close>

lemma addChannel_known:
  "channels (addChannel x s) (to_lower x) \<noteq> None" "c \<noteq> to_lower x \<Longrightarrow> channels (addChannel x s) c = channels s c"
  "users (addChannel x s) = users s" "heapModes (addChannel x s) = heapModes s" "selfUser (addChannel x s) = selfUser s"
  "channels s (to_lower x) \<noteq> None \<Longrightarrow> addChannel x s = s"
  "channels s (to_lower x) = None \<Longrightarrow> x \<noteq> [] \<Longrightarrow>
   \<exists>q. channels (addChannel x s) (to_lower x) = Some (Some q) \<and> heapChannel (addChannel x s) q = NewChannel x"
  by (auto simp: addChannel_def NewChannel_def split: option.splits)

lemma addToChannel_known:
  assumes "st_inv t" "users t (nick_key x) \<noteq> None" "channels t (to_lower y) \<noteq> None"
  shows "uc_at (addToChannel x y t) (nick_key x) (to_lower y) \<noteq> None"
    and "uc_at t (nick_key x) (to_lower y) = None \<Longrightarrow> modes_of (addToChannel x y t) (to_lower y) (nick_key x) = Some NewUserModes"
    and "(c, m) \<noteq> (to_lower y, nick_key x) \<Longrightarrow> modes_of (addToChannel x y t) c m = modes_of t c m"
    and "(c, m) \<noteq> (to_lower y, nick_key x) \<Longrightarrow> uc_at (addToChannel x y t) m c = uc_at t m c"
    and "channels (addToChannel x y t) = channels t" "heapChannel (addToChannel x y t) = heapChannel t"
proof -
  have old: "cu_UserModes z \<noteq> nextRef t" if "cu_at t c n' = Some z" for c n' z
    using st_inv_members_agree(2) [OF assms(1) that] assms(1) by (auto simp: st_inv_def refs_ok_def)
  have agree: "uc_at t a b \<noteq> None \<longleftrightarrow> cu_at t b a \<noteq> None" for a b using st_inv_members_agree(1) [OF assms(1)] .
  have "uc_at (addToChannel x y t) (nick_key x) (to_lower y) \<noteq> None
    \<and> (uc_at t (nick_key x) (to_lower y) = None \<longrightarrow> modes_of (addToChannel x y t) (to_lower y) (nick_key x) = Some NewUserModes)
    \<and> ((c, m) \<noteq> (to_lower y, nick_key x) \<longrightarrow> modes_of (addToChannel x y t) c m = modes_of t c m)
    \<and> ((c, m) \<noteq> (to_lower y, nick_key x) \<longrightarrow> uc_at (addToChannel x y t) m c = uc_at t m c)
    \<and> channels (addToChannel x y t) = channels t \<and> heapChannel (addToChannel x y t) = heapChannel t" for c m
  proof (cases rule: addToChannel_cases [of x y t])
    case same
    then show ?thesis using assms(2,3) agree [of "nick_key x" "to_lower y"] by auto
  next
    case (added user ch)
    then show ?thesis using old by (auto simp: modes_of_def NewChannelUser_def split: option.splits)
  qed
  then show "uc_at (addToChannel x y t) (nick_key x) (to_lower y) \<noteq> None"
    "uc_at t (nick_key x) (to_lower y) = None \<Longrightarrow> modes_of (addToChannel x y t) (to_lower y) (nick_key x) = Some NewUserModes"
    "(c, m) \<noteq> (to_lower y, nick_key x) \<Longrightarrow> modes_of (addToChannel x y t) c m = modes_of t c m"
    "(c, m) \<noteq> (to_lower y, nick_key x) \<Longrightarrow> uc_at (addToChannel x y t) m c = uc_at t m c"
    "channels (addToChannel x y t) = channels t" "heapChannel (addToChannel x y t) = heapChannel t" by blast+
qed

lemma addToChannel_unknown: "channels t (to_lower y) = None \<Longrightarrow> addToChannel x y t = t"
  by (simp add: addToChannel_def Let_def split: option.splits)

text \<open>
  C5: A JOIN adds the sender.  When the bot itself joins, a channel it did not know is
  added, with the name of the event and no topic or modes.  If the channel is then known, the sender, the bot or another user, is on it, with no
  modes if the sender was not on it before; the JOIN of another user on a channel the bot does not know
  adds nothing.  No other membership and no other channel changes.
\<close>

theorem join_adds_member:
  assumes "reachable s" and "eName e = JOIN" and "rgxHost (eSender e) = Some (n, u, h)"
    and "self_host s = Inr me" and "eSender e = me \<or> nick_key me \<noteq> to_lower n" and "eArgs e = chan # rest"
  shows "\<exists>s'. Update e s = Inr s'
    \<and> (channels s' (to_lower chan) \<noteq> None \<longleftrightarrow> channels s (to_lower chan) \<noteq> None \<or> eSender e = me)
    \<and> (IsOn n chan s' \<longleftrightarrow> channels s' (to_lower chan) \<noteq> None)
    \<and> (IsOn n chan s' \<and> \<not> IsOn n chan s \<longrightarrow> modes_of s' (to_lower chan) (to_lower n) = Some NewUserModes)
    \<and> (eSender e = me \<and> channels s (to_lower chan) = None \<and> chan \<noteq> [] \<longrightarrow>
         (\<exists>q. GetChannel chan s' = Some q \<and> heapChannel s' q = NewChannel chan))
    \<and> ((c, m) \<noteq> (to_lower chan, to_lower n) \<longrightarrow> modes_of s' c m = modes_of s c m \<and> uc_at s' m c = uc_at s m c)
    \<and> (c \<noteq> to_lower chan \<longrightarrow> channels s' c = channels s c)"
proof -
  note p = rgxHost_parts [OF assms(3)]
  obtain t where t: "st_inv t" "Update e s = handle e t" "self_host t = Inr me" "users t (to_lower n) \<noteq> None"
    "cu_at t = cu_at s" "uc_at t = uc_at s" "channels t = channels s" "heapModes t = heapModes s"
    using Update_sender [OF reachable_inv [OF assms(1)] assms(3-5)] by metis
  let ?t = "if eSender e = me then addChannel chan t else t"
  have up: "Update e s = Inr (addToChannel (eSender e) chan ?t)"
    using t(2,3) assms(2,6) by (auto simp: handle_def join_def arg_def)
  have k: "nick_key n = to_lower n" using p by (simp add: nick_key_plain)
  have inv: "st_inv ?t" using t(1) st_inv_addChannel by simp
  have heap: "cu_at ?t = cu_at s" "heapModes ?t = heapModes s" using t(5,8) by (simp_all add: addChannel_known)
  have same: "users ?t = users t" "uc_at ?t = uc_at s" "modes_of ?t = modes_of s"
    using t(6) by (simp_all only: modes_of_def [abs_def] heap) (simp_all add: addChannel_known)
  have known: "channels ?t (to_lower chan) \<noteq> None \<longleftrightarrow> channels s (to_lower chan) \<noteq> None \<or> eSender e = me"
    using t(7) addChannel_known(1) [of chan t] by simp
  have others: "c \<noteq> to_lower chan \<Longrightarrow> channels ?t c = channels s c" using t(7) by (simp add: addChannel_known)
  show ?thesis
  proof (cases "channels ?t (to_lower chan) = None")
    case True
    then have "eSender e \<noteq> me" "channels s (to_lower chan) = None" using known by auto
    moreover have "uc_at s (to_lower n) (to_lower chan) = None"
      using True st_inv_members_agree(3) [OF inv, of "to_lower n" "to_lower chan"] same(2) by (cases "uc_at s (to_lower n) (to_lower chan)") auto
    ultimately show ?thesis using up True same others t(7) k by (simp add: addToChannel_unknown IsOn_def)
  next
    case False
    note a = addToChannel_known [OF inv _ False, of "eSender e", unfolded p(2) same, OF t(4)]
    have "\<exists>q. GetChannel chan (addToChannel (eSender e) chan ?t) = Some q
        \<and> heapChannel (addToChannel (eSender e) chan ?t) q = NewChannel chan"
      if "eSender e = me" "channels s (to_lower chan) = None" "chan \<noteq> []"
      using addChannel_known(7) [of t chan] that t(7) a(5,6) by (auto simp: GetChannel_def)
    moreover have "channels s (to_lower chan) \<noteq> None \<or> eSender e = me" using False known by blast
    ultimately show ?thesis using up a False others k by (simp add: IsOn_def)
  qed
qed

theorem join_adds_member_witness:
  "(\<exists>s'. Update (sample_event ''JOIN'' [''#c'']) joined_state = Inr s' \<and> IsOn ''bob'' ''#c'' s'
     \<and> modes_of s' ''#c'' ''me'' = Some NewUserModes)
   \<and> (\<exists>s'. Update (net_event ''JOIN'' ''me!u@h'' [''#d'']) joined_state = Inr s' \<and> IsOn ''me'' ''#d'' s'
     \<and> (\<exists>q. GetChannel ''#d'' s' = Some q \<and> heapChannel s' q = NewChannel ''#d''))"
proof -
  have "modes_of joined_state ''#c'' ''me'' = Some NewUserModes" "channels joined_state (to_lower ''#c'') \<noteq> None"
    "''me'' \<noteq> to_lower ''bob''"
    using bob_not_me by (simp_all add: modes_of_def cu_at_def joined_state_def sample_keys)
  then have "\<exists>s'. Update (sample_event ''JOIN'' [''#c'']) joined_state = Inr s' \<and> IsOn ''bob'' ''#c'' s'
     \<and> modes_of s' ''#c'' ''me'' = Some NewUserModes"
    using join_adds_member [OF reachable_joined _ _ self_joined disjI2 [OF bob_not_me], of "sample_event ''JOIN'' [''#c'']" "''b''" "''d''" "''#c''" "[]" "''#c''" "''me''"]
      rgxHost_bob by (auto simp: sample_event_def net_event_def NewEvent_def)
  moreover have "to_lower ''#d'' = ''#d''" by code_simp
  then have "channels joined_state (to_lower ''#d'') = None" by (simp add: joined_state_def)
  then have "\<exists>s'. Update (net_event ''JOIN'' ''me!u@h'' [''#d'']) joined_state = Inr s' \<and> IsOn ''me'' ''#d'' s'
     \<and> (\<exists>q. GetChannel ''#d'' s' = Some q \<and> heapChannel s' q = NewChannel ''#d'')"
    using join_adds_member [OF reachable_joined _ _ self_joined, of "net_event ''JOIN'' ''me!u@h'' [''#d'']" "''me''" "''u''" "''h''" "''#d''" "[]"]
      rgxHost_me by (fastforce simp: net_event_def NewEvent_def)
  ultimately show ?thesis by blast
qed

text \<open>
  A user mode of a MODE event changes one user on one channel.  Setting a mode for a user who
  is on the channel succeeds, sets the mode in the membership that both indexes share, and leaves
  the modes of every other membership as they were.
\<close>

theorem mode_user_exact:
  assumes "reachable s" and "modes_of s target (to_lower (Arg um)) = Some m"
  shows "\<exists>s'. mode_user SetMode target um s = Inr s'
    \<and> modes_of s' target (to_lower (Arg um)) = Some (SetMode (st_umodes s) (Mode um) m)
    \<and> ((c, n) \<noteq> (target, to_lower (Arg um)) \<longrightarrow> modes_of s' c n = modes_of s c n)"
proof -
  note inv = reachable_inv [OF assms(1)]
  obtain cu where cu: "cu_at s target (to_lower (Arg um)) = Some cu" "heapModes s (cu_UserModes cu) = Some m"
    using assms(2) by (auto simp: modes_of_def split: option.splits)
  then show ?thesis using st_inv_members_agree(4) [OF inv cu(1), of c n]
    by (auto simp: mode_user_def upd_modes_def the_modes_def modes_of_def split: option.splits)
qed

theorem mode_user_exact_witness:
  "\<exists>s'. mode_user SetMode ''#c'' \<lparr>Mode = CHR ''o'', Arg = ''me''\<rparr> joined_state = Inr s'
     \<and> modes_of s' ''#c'' ''me'' = Some (SetMode (st_umodes joined_state) CHR ''o'' NewUserModes)"
proof -
  have "modes_of joined_state ''#c'' (to_lower (Arg \<lparr>Mode = CHR ''o'', Arg = ''me''\<rparr>)) = Some NewUserModes"
    by (simp add: modes_of_def cu_at_def joined_state_def sample_keys)
  from mode_user_exact [OF reachable_joined this] show ?thesis by (auto simp: sample_keys)
qed

text \<open>
  Events that crash the bot.  In a state the bot can reach, a MODE event that gives a mode to a
  user who is not on the channel and a 353 reply for a channel the bot is not on dereference a nil
  pointer; before the welcome, so does any JOIN.
\<close>

theorem Update_panics:
  "reachable joined_state
   \<and> Update (net_event ''MODE'' [] [''#c'', ''+o'', ''ghost'']) joined_state = Inl NilDereference
   \<and> Update (net_event ''353'' [] [''me'', ''='', ''#d'', ''@bob'']) joined_state = Inl NilDereference
   \<and> Update (net_event ''JOIN'' [] [''#c'']) start_state = Inl NilDereference"
proof (intro conjI)
  show "Update (net_event ''JOIN'' [] [''#c'']) start_state = Inl NilDereference"
    by (simp add: Update_def handle_def net_event_def NewEvent_def join_def self_host_def the_user_def
        start_state_def empty_state_def)
  have n: "nick_key ''bob'' = ''bob''" "to_lower ''#d'' = ''#d''" "Fields ''@bob'' = [''@bob'']" "to_lower ''ghost'' = ''ghost''"
    "trim_space ''+o ghost'' = ''+o ghost''" "split_on CHR '' '' ''+o ghost'' = [''+o'', ''ghost'']"
    by code_simp+
  show "Update (net_event ''353'' [] [''me'', ''='', ''#d'', ''@bob'']) joined_state = Inl NilDereference"
    by (simp add: Update_def handle_def net_event_def NewEvent_def rplNameReply_def arg_def n name_reply_def
        addUser_def new_user_def NewUser_def addToChannel_def joined_state_def start_state_def Let_def
        GetUsersChannelModes_def cu_at_def upd_modes_def the_modes_def)
  have c: "IsChannel NewNetworkInfo ''#c''" by code_simp
  show "Update (net_event ''MODE'' [] [''#c'', ''+o'', ''ghost'']) joined_state = Inl NilDereference"
    by (simp add: Update_def handle_def net_event_def NewEvent_def mode_def arg_def sample_keys IsTargetChan_def c
        joined_state_def start_state_def apply_to_channel_def the_channel_def ChannelModes_Apply_def apply_modes_def n
        channel_moder_def getKind_def parseChannelModeKinds_def set_kinds_apply isUserMode_def GetModeBit_def
        mode_user_def cu_at_def upd_modes_def the_modes_def Let_def)
qed (rule reachable_joined)

end
