(* ===== verification/Access.thy ===== *)
theory Access
  imports FlagBits
begin

text \<open>
  Access levels and flags, \<^verbatim>\<open>src/data/access.go\<close>: a level in a byte and the flags A-Z, a-z as
  bits 0 to 51 of a 64-bit word.
\<close>

record Access =
  Level :: "8 word"
  Flags :: "64 word"

text \<open>The bit of a letter: no bit for any other character.\<close>

definition getFlagBit :: "rune \<Rightarrow> 64 word" where
  "getFlagBit flag =
     (let asc = code flag in
      if 65 \<le> asc \<and> asc \<le> 90 then push_bit (asc - 65) 1
      else if 97 \<le> asc \<and> asc \<le> 122 then push_bit (asc - (65 + (97 - 90 - 1))) 1
      else 0)"

definition getFlagBits :: "string list \<Rightarrow> 64 word" where
  "getFlagBits flags = fold (\<lambda>s bits. fold (\<lambda>f bits. bits OR getFlagBit f) s bits) flags 0"

definition SetFlags :: "string list \<Rightarrow> Access \<Rightarrow> Access" where
  "SetFlags flags a = a\<lparr>Flags := Flags a OR getFlagBits flags\<rparr>"

definition SetAccess :: "8 word \<Rightarrow> string list \<Rightarrow> Access \<Rightarrow> Access" where
  "SetAccess level flags a = SetFlags flags (a\<lparr>Level := level\<rparr>)"

definition zero_access :: Access where
  "zero_access = \<lparr>Level = 0, Flags = 0\<rparr>"

definition NewAccess :: "8 word \<Rightarrow> string list \<Rightarrow> Access" where
  "NewAccess level flags = SetAccess level flags zero_access"

definition SetFlag :: "rune \<Rightarrow> Access \<Rightarrow> Access" where
  "SetFlag flag a = a\<lparr>Flags := Flags a OR getFlagBit flag\<rparr>"

definition HasFlag :: "rune \<Rightarrow> Access \<Rightarrow> bool" where
  "HasFlag flag a \<longleftrightarrow> getFlagBit flag \<noteq> 0 \<and> getFlagBit flag = Flags a AND getFlagBit flag"

definition ClearFlag :: "rune \<Rightarrow> Access \<Rightarrow> Access" where
  "ClearFlag flag a = a\<lparr>Flags := Flags a AND NOT (getFlagBit flag)\<rparr>"

definition ClearFlags :: "string list \<Rightarrow> Access \<Rightarrow> Access" where
  "ClearFlags flags a = fold (\<lambda>s a. fold ClearFlag s a) flags a"

definition Access_HasLevel :: "8 word \<Rightarrow> Access \<Rightarrow> bool" where
  "Access_HasLevel level a \<longleftrightarrow> Level a \<ge> level"

definition Access_HasFlags :: "string list \<Rightarrow> Access \<Rightarrow> bool" where
  "Access_HasFlags flags a \<longleftrightarrow> list_ex (\<lambda>s. list_ex (\<lambda>f. HasFlag f a) s) flags"

definition ClearAllFlags :: "Access \<Rightarrow> Access" where
  "ClearAllFlags a = a\<lparr>Flags := 0\<rparr>"

definition IsZero :: "Access \<Rightarrow> bool" where
  "IsZero a \<longleftrightarrow> Flags a = 0 \<and> Level a = 0"

text \<open>Printing: decimal digits of the level, then the letters of the flags or \<^verbatim>\<open>-ALL-\<close>.\<close>

function itoa :: "nat \<Rightarrow> string" where
  "itoa n = (if n < 10 then [char_of (48 + n)] else itoa (n div 10) @ [char_of (48 + n mod 10)])"
  by pat_completeness auto
termination by (relation "measure id") auto

declare itoa.simps [simp del]

definition allFlagsNum :: "64 word" where
  "allFlagsNum = 0xFFFFFFFFFFFFF"

definition flag_letter :: "nat \<Rightarrow> rune" where
  "flag_letter i = (if i < 26 then char_of (i + 65) else char_of (i - 26 + 97))"

definition getFlagString :: "64 word \<Rightarrow> string" where
  "getFlagString bits =
     (if bits AND allFlagsNum = allFlagsNum then ''-ALL-''
      else map flag_letter (filter (\<lambda>i. push_bit i 1 AND bits = push_bit i 1) [0..<26 * 2]))"

definition Access_String :: "Access option \<Rightarrow> string" where
  "Access_String p =
     (case p of
        None \<Rightarrow> ''none''
      | Some a \<Rightarrow>
          if Level a = 0 \<and> Flags a = 0 then ''none''
          else (if Level a \<noteq> 0 then itoa (unat (Level a)) else [])
             @ (if Flags a \<noteq> 0 then (if Level a \<noteq> 0 then '' '' else []) @ getFlagString (Flags a) else []))"

section \<open>Lemmas\<close>

text \<open>The number of the bit of a letter.\<close>

definition flag_index :: "rune \<Rightarrow> nat option" where
  "flag_index f = (if is_upper f then Some (code f - 65) else if is_lower f then Some (code f - 71) else None)"

lemma getFlagBit_index:
  "getFlagBit f = (case flag_index f of None \<Rightarrow> 0 | Some i \<Rightarrow> 2 ^ i)"
  by (auto simp: getFlagBit_def flag_index_def is_upper_def is_lower_def Let_def)

lemma flag_index_less: "flag_index f = Some i \<Longrightarrow> i < 52"
  by (auto simp: flag_index_def is_upper_def is_lower_def split: if_splits)

lemma flag_index_inj: "flag_index f = Some i \<Longrightarrow> flag_index g = Some i \<Longrightarrow> f = g"
  by (auto simp: flag_index_def is_upper_def is_lower_def code_inject [symmetric] simp del: code_inject split: if_splits)

lemma flag_index_letter: "i < 52 \<Longrightarrow> flag_index (flag_letter i) = Some i"
  by (auto simp: flag_index_def flag_letter_def is_upper_def is_lower_def)

lemma getFlagBit_nonzero_iff: "getFlagBit f \<noteq> 0 \<longleftrightarrow> flag_index f \<noteq> None"
  by (auto simp: getFlagBit_index exp_eq_zero_iff dest!: flag_index_less split: option.splits)

interpretation access_bits: flag_bits getFlagBit
proof unfold_locales
  fix f g
  assume eq: "getFlagBit f = getFlagBit g" and nz: "getFlagBit f \<noteq> 0"
  then obtain i j where ij: "flag_index f = Some i" "flag_index g = Some j"
    using getFlagBit_nonzero_iff by (metis option.exhaust)
  then have "(2 :: 64 word) ^ i = 2 ^ j" "(2 :: 64 word) ^ i \<noteq> 0" using eq nz by (simp_all only: getFlagBit_index option.case) simp
  then have "i = j" by (rule word_exp_inj)
  then show "f = g" using ij flag_index_inj by blast
qed (auto simp: getFlagBit_index split: option.splits)

lemma HasFlag_iff_AND: "HasFlag f a \<longleftrightarrow> getFlagBit f \<noteq> 0 \<and> Flags a AND getFlagBit f = getFlagBit f"
  by (auto simp: HasFlag_def)

lemma HasFlag_iff_bit: "HasFlag f a \<longleftrightarrow> (\<exists>i. flag_index f = Some i \<and> bit (Flags a) i)"
proof (cases "flag_index f")
  case (Some i)
  then show ?thesis
    using access_bits.has_iff_bit [of f i "Flags a"] getFlagBit_nonzero_iff [of f] by (auto simp: HasFlag_def getFlagBit_index)
qed (simp add: HasFlag_def getFlagBit_index)

lemma bit_getFlagBit: "bit (getFlagBit f) i \<longleftrightarrow> flag_index f = Some i"
  by (auto simp: getFlagBit_index bit_exp_iff dest: flag_index_less split: option.splits)

lemma bit_fold_flag: "bit (fold (\<lambda>f bits. bits OR getFlagBit f) s w) i \<longleftrightarrow> bit w i \<or> (\<exists>f \<in> set s. flag_index f = Some i)"
  by (induction s arbitrary: w) (auto simp: bit_or_iff bit_getFlagBit)

lemma bit_getFlagBits: "bit (getFlagBits flags) i \<longleftrightarrow> (\<exists>s \<in> set flags. \<exists>f \<in> set s. flag_index f = Some i)"
proof -
  have "bit (fold (\<lambda>s bits. fold (\<lambda>f bits. bits OR getFlagBit f) s bits) flags w) i
      \<longleftrightarrow> bit w i \<or> (\<exists>s \<in> set flags. \<exists>f \<in> set s. flag_index f = Some i)" for w
    by (induction flags arbitrary: w) (auto simp: bit_fold_flag)
  then show ?thesis by (simp add: getFlagBits_def)
qed

lemma HasFlag_SetFlags:
  "HasFlag g (SetFlags flags a) \<longleftrightarrow> HasFlag g a \<or> (flag_index g \<noteq> None \<and> (\<exists>s \<in> set flags. g \<in> set s))"
  by (auto simp: HasFlag_iff_bit SetFlags_def bit_or_iff bit_getFlagBits dest: flag_index_inj)

lemma HasFlag_ClearFlag: "HasFlag g (ClearFlag f a) \<longleftrightarrow> HasFlag g a \<and> f \<noteq> g"
  using access_bits.clear_has [of "Flags a" f] access_bits.clear_other [of f g "Flags a"]
  by (cases "f = g") (auto simp: HasFlag_iff_AND ClearFlag_def)

lemma HasFlag_ClearFlags: "HasFlag g (ClearFlags flags a) \<longleftrightarrow> HasFlag g a \<and> (\<forall>s \<in> set flags. g \<notin> set s)"
proof -
  have "HasFlag g (fold ClearFlag s a) \<longleftrightarrow> HasFlag g a \<and> g \<notin> set s" for s a
    by (induction s arbitrary: a) (auto simp: HasFlag_ClearFlag)
  then show ?thesis unfolding ClearFlags_def by (induction flags arbitrary: a) auto
qed

lemma flags_and_iff: "getFlagBits flags AND Flags a \<noteq> 0 \<longleftrightarrow> Access_HasFlags flags a"
proof -
  have "v AND w \<noteq> 0 \<longleftrightarrow> (\<exists>i. bit v i \<and> bit w i)" for v w :: "64 word"
    using bit_imp_possible_bit [of v] unfolding bit_eq_iff bit_and_iff by auto
  then show ?thesis by (auto simp: Access_HasFlags_def list_ex_iff HasFlag_iff_bit bit_getFlagBits)
qed

section \<open>Properties\<close>

text \<open>
  The flags of an access behave as a set of letters.  After setting flags an access has exactly
  the flags it had and the letters among the given ones; after clearing flags, exactly the others;
  and the level is never touched by either.
\<close>

theorem access_flags_set_laws:
  "(HasFlag g (SetFlags flags a) \<longleftrightarrow> HasFlag g a \<or> ((is_upper g \<or> is_lower g) \<and> g \<in> set (concat flags)))
   \<and> (HasFlag g (ClearFlags flags a) \<longleftrightarrow> HasFlag g a \<and> g \<notin> set (concat flags))
   \<and> Level (SetFlags flags a) = Level a \<and> Level (ClearFlags flags a) = Level a"
proof -
  have "Level (ClearFlags flags a) = Level a"
  proof -
    have "Level (fold ClearFlag s a) = Level a" for s a
      by (induction s arbitrary: a) (auto simp: ClearFlag_def)
    then show ?thesis unfolding ClearFlags_def by (induction flags arbitrary: a) auto
  qed
  moreover have "Level (SetFlags flags a) = Level a" by (simp add: SetFlags_def)
  ultimately show ?thesis by (auto simp: HasFlag_SetFlags HasFlag_ClearFlags flag_index_def split: if_splits)
qed

text \<open>
  The printed flags name exactly the flags that are set, each once, except that a full set
  prints as \<^verbatim>\<open>-ALL-\<close>.
\<close>

theorem getFlagString_exact:
  "(if w AND allFlagsNum = allFlagsNum then getFlagString w = ''-ALL-''
    else set (getFlagString w) = {f. \<exists>i. flag_index f = Some i \<and> bit w i} \<and> distinct (getFlagString w))"
proof -
  have one: "push_bit i 1 AND w = push_bit i 1 \<longleftrightarrow> bit w i" if "i < 52" for i
  proof
    have b: "bit (push_bit i 1 :: 64 word) i" using that by (simp add: bit_simps)
    assume "push_bit i 1 AND w = push_bit i 1"
    with b show "bit w i" by (metis bit_and_iff)
  qed (rule bit_eqI, use that in \<open>auto simp: bit_simps\<close>)
  have s: "set (map flag_letter (filter (\<lambda>i. push_bit i 1 AND w = push_bit i 1) [0..<26 * 2]))
      = {f. \<exists>i. flag_index f = Some i \<and> bit w i}"
  proof (intro set_eqI iffI)
    fix f assume "f \<in> set (map flag_letter (filter (\<lambda>i. push_bit i 1 AND w = push_bit i 1) [0..<26 * 2]))"
    then obtain i where "f = flag_letter i" "i < 52" "push_bit i 1 AND w = push_bit i 1" by auto
    then show "f \<in> {f. \<exists>i. flag_index f = Some i \<and> bit w i}" using one flag_index_letter by blast
  next
    fix f assume "f \<in> {f. \<exists>i. flag_index f = Some i \<and> bit w i}"
    then obtain i where i: "flag_index f = Some i" "bit w i" "i < 52" using flag_index_less by blast
    then have "f = flag_letter i" "push_bit i 1 AND w = push_bit i 1" using flag_index_inj flag_index_letter one by blast+
    with i(3) show "f \<in> set (map flag_letter (filter (\<lambda>i. push_bit i 1 AND w = push_bit i 1) [0..<26 * 2]))"
      by simp
  qed
  have "inj_on flag_letter {0..<52}" by (metis atLeastLessThan_iff flag_index_letter inj_onI option.inject)
  then have "distinct (map flag_letter (filter (\<lambda>i. push_bit i 1 AND w = push_bit i 1) [0..<26 * 2]))"
    by (auto simp: distinct_map inj_on_def)
  then show ?thesis using s by (auto simp: getFlagString_def)
qed

end
