(* ===== verification/StoredUsers.thy ===== *)
theory StoredUsers
  imports Access Hosts
begin

text \<open>
  Stored users and channels, \<^verbatim>\<open>src/data/stored_user.go\<close>, \<^verbatim>\<open>stored_channel.go\<close> and
  \<^verbatim>\<open>json_storer.go\<close>: an account with password, host masks and access at three levels.

  An \<^verbatim>\<open>Access\<close> of an account is reached only through the account, so the pointers are
  values; the maps hold no nil pointer.  A nil map and an empty one are the same.  The package
  bcrypt, the random source and encoding/json are parameters: \<^verbatim>\<open>gen\<close> is
  GenerateFromPassword (\<^verbatim>\<open>None\<close> on error), \<^verbatim>\<open>cmp\<close> tells if CompareHashAndPassword
  succeeds, \<^verbatim>\<open>rnd\<close> is the sequence of results of Intn.
\<close>

section \<open>JSONStorer\<close>

type_synonym JSONStorer = "string \<rightharpoonup> string"

definition Put :: "string \<Rightarrow> string \<Rightarrow> JSONStorer \<Rightarrow> JSONStorer" where
  "Put key value js = js(key \<mapsto> value)"

definition JS_Get :: "string \<Rightarrow> JSONStorer \<Rightarrow> string \<times> bool" where
  "JS_Get key js = (case js key of None \<Rightarrow> ([], False) | Some v \<Rightarrow> (v, True))"

definition PutJSON :: "('v \<Rightarrow> string option) \<Rightarrow> string \<Rightarrow> 'v \<Rightarrow> JSONStorer \<Rightarrow> bool \<times> JSONStorer" where
  "PutJSON marshal key value js =
     (case marshal value of None \<Rightarrow> (False, js) | Some s \<Rightarrow> (True, js(key \<mapsto> s)))"

definition GetJSON :: "(string \<Rightarrow> 'v option) \<Rightarrow> string \<Rightarrow> JSONStorer \<Rightarrow> bool \<times> 'v option" where
  "GetJSON unmarshal key js =
     (case js key of None \<Rightarrow> (False, None) | Some s \<Rightarrow> (True, unmarshal s))"

section \<open>StoredChannel\<close>

record StoredChannel =
  sc_NetID :: string
  sc_Name :: string
  sc_JSON :: JSONStorer

definition NewStoredChannel :: "string \<Rightarrow> string \<Rightarrow> StoredChannel" where
  "NewStoredChannel netID name = \<lparr>sc_NetID = netID, sc_Name = name, sc_JSON = Map.empty\<rparr>"

definition makeID :: "StoredChannel \<Rightarrow> string" where
  "makeID s = to_lower (sc_Name s @ ''.'' @ sc_NetID s)"

section \<open>StoredUser\<close>

datatype UserError = MissingUnameOrPwd | DuplicateMask | BcryptError

record StoredUser =
  su_Username :: string
  su_Password :: string
  su_Masks :: "string list"
  su_Global :: "Access option"
  su_Network :: "string \<rightharpoonup> Access"
  su_Channel :: "string \<rightharpoonup> (string \<rightharpoonup> Access)"
  su_JSON :: JSONStorer

definition empty_user :: StoredUser where
  "empty_user = \<lparr>su_Username = [], su_Password = [], su_Masks = [], su_Global = None,
     su_Network = Map.empty, su_Channel = Map.empty, su_JSON = Map.empty\<rparr>"

definition AddMask :: "string \<Rightarrow> StoredUser \<Rightarrow> bool \<times> StoredUser" where
  "AddMask m a =
     (if to_lower m \<in> set (su_Masks a) then (False, a)
      else (True, a\<lparr>su_Masks := su_Masks a @ [to_lower m]\<rparr>))"

fun add_masks :: "string list \<Rightarrow> StoredUser \<Rightarrow> StoredUser option" where
  "add_masks [] a = Some a"
| "add_masks (m # ms) a = (case AddMask m a of (ok, a) \<Rightarrow> if \<not> ok then None else add_masks ms a)"

definition SetPassword :: "(string \<Rightarrow> string option) \<Rightarrow> string \<Rightarrow> StoredUser \<Rightarrow> bool \<times> StoredUser" where
  "SetPassword gen password a =
     (case gen password of None \<Rightarrow> (False, a) | Some pwd \<Rightarrow> (True, a\<lparr>su_Password := pwd\<rparr>))"

definition NewStoredUser :: "(string \<Rightarrow> string option) \<Rightarrow> string \<Rightarrow> string \<Rightarrow> string list \<Rightarrow> UserError + StoredUser" where
  "NewStoredUser gen un pw masks =
     (if un = [] \<or> pw = [] then Inl MissingUnameOrPwd
      else (case SetPassword gen pw (empty_user\<lparr>su_Username := to_lower un\<rparr>) of (ok, a) \<Rightarrow>
        if \<not> ok then Inl BcryptError
        else (case add_masks masks a of None \<Rightarrow> Inl DuplicateMask | Some a \<Rightarrow> Inr a)))"

definition createStoredUser :: "string list \<Rightarrow> StoredUser option" where
  "createStoredUser masks = add_masks masks empty_user"

definition VerifyPassword :: "(string \<Rightarrow> string \<Rightarrow> bool) \<Rightarrow> string \<Rightarrow> StoredUser \<Rightarrow> bool" where
  "VerifyPassword cmp password a = cmp (su_Password a) password"

text \<open>One character of a new password from one random number, and the new password.\<close>

definition password_char :: "nat \<Rightarrow> char" where
  "password_char n =
     (let r = 48 + n in
      char_of (if 58 \<le> r \<and> r \<le> 64 then r - (64 - 58 + 1)
               else if 91 \<le> r \<and> r \<le> 96 then r - (96 - 91 + 1) else r))"

definition ResetPassword :: "(string \<Rightarrow> string option) \<Rightarrow> (nat \<Rightarrow> nat) \<Rightarrow> StoredUser \<Rightarrow> string \<times> bool \<times> StoredUser" where
  "ResetPassword gen rnd a =
     (let newpasswd = map (\<lambda>i. password_char (rnd i)) [0..<10] in (newpasswd, SetPassword gen newpasswd a))"

definition DelMask :: "string \<Rightarrow> StoredUser \<Rightarrow> bool \<times> StoredUser" where
  "DelMask m a =
     (let i = index_of (to_lower m) (su_Masks a) in
      if i < length (su_Masks a) then (True, a\<lparr>su_Masks := swap_remove i (su_Masks a)\<rparr>) else (False, a))"

definition ValidateMask :: "string \<Rightarrow> StoredUser \<Rightarrow> bool" where
  "ValidateMask m a \<longleftrightarrow> su_Masks a = [] \<or> list_ex (Host_Match (to_lower m)) (su_Masks a)"

text \<open>
  \<^verbatim>\<open>ensureNetwork\<close> and \<^verbatim>\<open>ensureChannel\<close> create an access that is missing and return it;
  what a caller does to it is written back under the same key.
\<close>

definition ensureNetwork :: "string \<Rightarrow> StoredUser \<Rightarrow> Access \<times> StoredUser" where
  "ensureNetwork network a =
     (case su_Network a (to_lower network) of
        Some access \<Rightarrow> (access, a)
      | None \<Rightarrow> (NewAccess 0 [], a\<lparr>su_Network := (su_Network a)(to_lower network \<mapsto> NewAccess 0 [])\<rparr>))"

definition chans_of :: "StoredUser \<Rightarrow> string \<Rightarrow> (string \<rightharpoonup> Access)" where
  "chans_of a net = (case su_Channel a net of None \<Rightarrow> Map.empty | Some chans \<Rightarrow> chans)"

definition put_channel :: "string \<Rightarrow> string \<Rightarrow> Access \<Rightarrow> StoredUser \<Rightarrow> StoredUser" where
  "put_channel net ch access a =
     a\<lparr>su_Channel := (su_Channel a)(net \<mapsto> (chans_of a net)(ch \<mapsto> access))\<rparr>"

definition ensureChannel :: "string \<Rightarrow> string \<Rightarrow> StoredUser \<Rightarrow> Access \<times> StoredUser" where
  "ensureChannel network channel a =
     (case chans_of a (to_lower network) (to_lower channel) of
        Some access \<Rightarrow> (access, a)
      | None \<Rightarrow> (NewAccess 0 [], put_channel (to_lower network) (to_lower channel) (NewAccess 0 []) a))"

definition on_network :: "string \<Rightarrow> (Access \<Rightarrow> Access) \<Rightarrow> StoredUser \<Rightarrow> StoredUser" where
  "on_network network f a =
     (case ensureNetwork network a of (access, a) \<Rightarrow>
        a\<lparr>su_Network := (su_Network a)(to_lower network \<mapsto> f access)\<rparr>)"

definition on_channel :: "string \<Rightarrow> string \<Rightarrow> (Access \<Rightarrow> Access) \<Rightarrow> StoredUser \<Rightarrow> StoredUser" where
  "on_channel network channel f a =
     (case ensureChannel network channel a of (access, a) \<Rightarrow>
        put_channel (to_lower network) (to_lower channel) (f access) a)"

text \<open>\<^verbatim>\<open>doNetwork\<close> and \<^verbatim>\<open>doChannel\<close>: the callback runs only if there is an access.\<close>

definition doNetwork :: "string \<Rightarrow> (string \<Rightarrow> Access \<Rightarrow> 'r) \<Rightarrow> 'r \<Rightarrow> StoredUser \<Rightarrow> 'r" where
  "doNetwork network do otherwise a =
     (case su_Network a (to_lower network) of None \<Rightarrow> otherwise | Some access \<Rightarrow> do (to_lower network) access)"

definition doChannel :: "string \<Rightarrow> string \<Rightarrow> (string \<Rightarrow> string \<Rightarrow> Access \<Rightarrow> 'r) \<Rightarrow> 'r \<Rightarrow> StoredUser \<Rightarrow> 'r" where
  "doChannel network channel do otherwise a =
     (case su_Channel a (to_lower network) of
        None \<Rightarrow> otherwise
      | Some chanMap \<Rightarrow>
          (case chanMap (to_lower channel) of
             None \<Rightarrow> otherwise
           | Some access \<Rightarrow> do (to_lower network) (to_lower channel) access))"

section \<open>Global access\<close>

definition the_global :: "StoredUser \<Rightarrow> Access" where
  "the_global a = (case su_Global a of None \<Rightarrow> zero_access | Some g \<Rightarrow> g)"

definition GrantGlobalFlags :: "string list \<Rightarrow> StoredUser \<Rightarrow> StoredUser" where
  "GrantGlobalFlags flags a = a\<lparr>su_Global := Some (SetFlags flags (the_global a))\<rparr>"

definition GrantGlobalLevel :: "8 word \<Rightarrow> StoredUser \<Rightarrow> StoredUser" where
  "GrantGlobalLevel level a = a\<lparr>su_Global := Some ((the_global a)\<lparr>Level := level\<rparr>)\<rparr>"

definition GrantGlobal :: "8 word \<Rightarrow> string list \<Rightarrow> StoredUser \<Rightarrow> StoredUser" where
  "GrantGlobal level flags a = GrantGlobalFlags flags (GrantGlobalLevel level a)"

definition RevokeGlobal :: "StoredUser \<Rightarrow> StoredUser" where
  "RevokeGlobal a = a\<lparr>su_Global := None\<rparr>"

definition RevokeGlobalLevel :: "StoredUser \<Rightarrow> StoredUser" where
  "RevokeGlobalLevel a = a\<lparr>su_Global := map_option (\<lambda>g. g\<lparr>Level := 0\<rparr>) (su_Global a)\<rparr>"

definition RevokeGlobalFlags :: "string list \<Rightarrow> StoredUser \<Rightarrow> StoredUser" where
  "RevokeGlobalFlags flags a = a\<lparr>su_Global := map_option (ClearFlags flags) (su_Global a)\<rparr>"

definition GetGlobal :: "StoredUser \<Rightarrow> Access option" where "GetGlobal a = su_Global a"

definition HasGlobalLevel :: "8 word \<Rightarrow> StoredUser \<Rightarrow> bool" where
  "HasGlobalLevel level a = (case su_Global a of None \<Rightarrow> False | Some g \<Rightarrow> Access_HasLevel level g)"

definition HasGlobalFlags :: "string list \<Rightarrow> StoredUser \<Rightarrow> bool" where
  "HasGlobalFlags flags a = (case su_Global a of None \<Rightarrow> False | Some g \<Rightarrow> Access_HasFlags flags g)"

definition HasGlobalFlag :: "rune \<Rightarrow> StoredUser \<Rightarrow> bool" where
  "HasGlobalFlag flag a = (case su_Global a of None \<Rightarrow> False | Some g \<Rightarrow> HasFlag flag g)"

section \<open>Network access\<close>

definition GrantNetwork :: "string \<Rightarrow> 8 word \<Rightarrow> string list \<Rightarrow> StoredUser \<Rightarrow> StoredUser" where
  "GrantNetwork network level flags a = on_network network (SetAccess level flags) a"

definition GrantNetworkFlags :: "string \<Rightarrow> string list \<Rightarrow> StoredUser \<Rightarrow> StoredUser" where
  "GrantNetworkFlags network flags a = on_network network (SetFlags flags) a"

definition GrantNetworkLevel :: "string \<Rightarrow> 8 word \<Rightarrow> StoredUser \<Rightarrow> StoredUser" where
  "GrantNetworkLevel network level a = on_network network (\<lambda>x. x\<lparr>Level := level\<rparr>) a"

definition RevokeNetwork :: "string \<Rightarrow> StoredUser \<Rightarrow> StoredUser" where
  "RevokeNetwork network a =
     doNetwork network (\<lambda>srv _. a\<lparr>su_Network := (su_Network a)(srv := None)\<rparr>) a a"

definition RevokeNetworkLevel :: "string \<Rightarrow> StoredUser \<Rightarrow> StoredUser" where
  "RevokeNetworkLevel network a =
     doNetwork network (\<lambda>srv x. a\<lparr>su_Network := (su_Network a)(srv \<mapsto> x\<lparr>Level := 0\<rparr>)\<rparr>) a a"

definition RevokeNetworkFlags :: "string \<Rightarrow> string list \<Rightarrow> StoredUser \<Rightarrow> StoredUser" where
  "RevokeNetworkFlags network flags a =
     doNetwork network (\<lambda>srv x. a\<lparr>su_Network := (su_Network a)(srv \<mapsto> ClearFlags flags x)\<rparr>) a a"

definition GetNetwork :: "string \<Rightarrow> StoredUser \<Rightarrow> Access option" where
  "GetNetwork network a = doNetwork network (\<lambda>_. Some) None a"

definition HasNetworkLevel :: "string \<Rightarrow> 8 word \<Rightarrow> StoredUser \<Rightarrow> bool" where
  "HasNetworkLevel network level a = doNetwork network (\<lambda>_. Access_HasLevel level) False a"

definition HasNetworkFlags :: "string \<Rightarrow> string list \<Rightarrow> StoredUser \<Rightarrow> bool" where
  "HasNetworkFlags network flags a = doNetwork network (\<lambda>_. Access_HasFlags flags) False a"

definition HasNetworkFlag :: "string \<Rightarrow> rune \<Rightarrow> StoredUser \<Rightarrow> bool" where
  "HasNetworkFlag network flag a = doNetwork network (\<lambda>_. HasFlag flag) False a"

section \<open>Channel access\<close>

definition GrantChannel :: "string \<Rightarrow> string \<Rightarrow> 8 word \<Rightarrow> string list \<Rightarrow> StoredUser \<Rightarrow> StoredUser" where
  "GrantChannel network channel level flags a = on_channel network channel (SetAccess level flags) a"

definition GrantChannelFlags :: "string \<Rightarrow> string \<Rightarrow> string list \<Rightarrow> StoredUser \<Rightarrow> StoredUser" where
  "GrantChannelFlags network channel flags a = on_channel network channel (SetFlags flags) a"

definition GrantChannelLevel :: "string \<Rightarrow> string \<Rightarrow> 8 word \<Rightarrow> StoredUser \<Rightarrow> StoredUser" where
  "GrantChannelLevel network channel level a = on_channel network channel (\<lambda>x. x\<lparr>Level := level\<rparr>) a"

definition RevokeChannel :: "string \<Rightarrow> string \<Rightarrow> StoredUser \<Rightarrow> StoredUser" where
  "RevokeChannel network channel a =
     doChannel network channel
       (\<lambda>srv ch _. a\<lparr>su_Channel := (su_Channel a)(srv \<mapsto> (chans_of a srv)(ch := None))\<rparr>) a a"

definition RevokeChannelLevel :: "string \<Rightarrow> string \<Rightarrow> StoredUser \<Rightarrow> StoredUser" where
  "RevokeChannelLevel network channel a =
     doChannel network channel (\<lambda>srv ch x. put_channel srv ch (x\<lparr>Level := 0\<rparr>) a) a a"

definition RevokeChannelFlags :: "string \<Rightarrow> string \<Rightarrow> string list \<Rightarrow> StoredUser \<Rightarrow> StoredUser" where
  "RevokeChannelFlags network channel flags a =
     doChannel network channel (\<lambda>srv ch x. put_channel srv ch (ClearFlags flags x) a) a a"

definition SU_GetChannel :: "string \<Rightarrow> string \<Rightarrow> StoredUser \<Rightarrow> Access option" where
  "SU_GetChannel network channel a = doChannel network channel (\<lambda>_ _. Some) None a"

definition HasChannelLevel :: "string \<Rightarrow> string \<Rightarrow> 8 word \<Rightarrow> StoredUser \<Rightarrow> bool" where
  "HasChannelLevel network channel level a = doChannel network channel (\<lambda>_ _. Access_HasLevel level) False a"

definition HasChannelFlags :: "string \<Rightarrow> string \<Rightarrow> string list \<Rightarrow> StoredUser \<Rightarrow> bool" where
  "HasChannelFlags network channel flags a = doChannel network channel (\<lambda>_ _. Access_HasFlags flags) False a"

definition HasChannelFlag :: "string \<Rightarrow> string \<Rightarrow> rune \<Rightarrow> StoredUser \<Rightarrow> bool" where
  "HasChannelFlag network channel flag a = doChannel network channel (\<lambda>_ _. HasFlag flag) False a"

section \<open>Checks over the three levels\<close>

text \<open>The closure \<^verbatim>\<open>check\<close> of \<^verbatim>\<open>Has\<close> with the two variables it updates.\<close>

definition has_check :: "8 word \<Rightarrow> 64 word \<Rightarrow> Access option \<Rightarrow> bool \<times> bool \<Rightarrow> bool \<times> bool" where
  "has_check level searchBits access st =
     (case st of (hasLevel, hasFlags) \<Rightarrow>
        (case access of
           None \<Rightarrow> (hasLevel, hasFlags)
         | Some x \<Rightarrow> (hasLevel \<or> Access_HasLevel level x, hasFlags \<or> searchBits AND Flags x \<noteq> 0)))"

definition Has :: "string \<Rightarrow> string \<Rightarrow> 8 word \<Rightarrow> string list \<Rightarrow> StoredUser \<Rightarrow> bool" where
  "Has network channel level flags a =
     (let net = to_lower network; ch = to_lower channel; bits = getFlagBits flags;
          st1 = has_check level bits (su_Global a) (False, False)
      in if fst st1 \<and> snd st1 then True
         else let st2 = has_check level bits (su_Network a net) st1
              in if fst st2 \<and> snd st2 then True
                 else (case su_Channel a net of
                         None \<Rightarrow> False
                       | Some chans \<Rightarrow>
                           let st3 = has_check level bits (chans ch) st2 in fst st3 \<and> snd st3))"

definition SU_HasLevel :: "string \<Rightarrow> string \<Rightarrow> 8 word \<Rightarrow> StoredUser \<Rightarrow> bool" where
  "SU_HasLevel network channel level a =
     (if HasGlobalLevel level a then True
      else if HasNetworkLevel network level a then True
      else HasChannelLevel network channel level a)"

definition flags_check :: "64 word \<Rightarrow> Access option \<Rightarrow> bool" where
  "flags_check searchBits access = (case access of None \<Rightarrow> False | Some x \<Rightarrow> searchBits AND Flags x \<noteq> 0)"

definition SU_HasFlags :: "string \<Rightarrow> string \<Rightarrow> string list \<Rightarrow> StoredUser \<Rightarrow> bool" where
  "SU_HasFlags network channel flags a =
     (let bits = getFlagBits flags; net = to_lower network; ch = to_lower channel in
      if flags_check bits (su_Global a) then True
      else if flags_check bits (su_Network a net) then True
      else (case su_Channel a net of None \<Rightarrow> False | Some chans \<Rightarrow> flags_check bits (chans ch)))"

definition SU_HasFlag :: "string \<Rightarrow> string \<Rightarrow> rune \<Rightarrow> StoredUser \<Rightarrow> bool" where
  "SU_HasFlag network channel flag a =
     (if HasGlobalFlag flag a then True
      else if HasNetworkFlag network flag a then True
      else HasChannelFlag network channel flag a)"

text \<open>\<^verbatim>\<open>String\<close>: the pieces it writes, joined by spaces.\<close>

definition channel_piece :: "string \<Rightarrow> Access \<Rightarrow> string list" where
  "channel_piece channel ch =
     (if Level ch = 0 \<and> Flags ch = 0 then [] else [channel @ ''('' @ Access_String (Some ch) @ '')''])"

definition SU_String :: "(string set \<Rightarrow> string list) \<Rightarrow> string \<Rightarrow> string \<Rightarrow> StoredUser \<Rightarrow> string" where
  "SU_String rng network channel a =
     (let net = to_lower network; ch = to_lower channel;
          g = (case su_Global a of
                 None \<Rightarrow> []
               | Some x \<Rightarrow> if Level x > 0 \<or> Flags x > 0 then [''G('' @ Access_String (Some x) @ '')''] else []);
          s = doNetwork network (\<lambda>_ srv. [''S('' @ Access_String (Some srv) @ '')'']) [] a;
          c = (case su_Channel a net of
                 None \<Rightarrow> []
               | Some chsrv \<Rightarrow>
                   if ch \<noteq> [] then (case chsrv ch of None \<Rightarrow> [] | Some x \<Rightarrow> channel_piece ch x)
                   else concat (map (\<lambda>c. channel_piece c (the (chsrv c))) (rng (dom chsrv))))
      in if g @ s @ c = [] then ''none'' else join '' '' (g @ s @ c))"

section \<open>Lemmas\<close>

text \<open>The accesses that count for a channel of a network.\<close>

definition tiers :: "string \<Rightarrow> string \<Rightarrow> StoredUser \<Rightarrow> Access option list" where
  "tiers network channel a = [GetGlobal a, GetNetwork network a, SU_GetChannel network channel a]"

lemmas su_gets = GetGlobal_def GetNetwork_def SU_GetChannel_def doNetwork_def doChannel_def

lemma in_tiers:
  "Some x \<in> set (tiers network channel a) \<longleftrightarrow>
     GetGlobal a = Some x \<or> GetNetwork network a = Some x \<or> SU_GetChannel network channel a = Some x"
  by (auto simp: tiers_def)

lemma flags_check_iff: "flags_check (getFlagBits flags) p \<longleftrightarrow> (\<exists>x. p = Some x \<and> Access_HasFlags flags x)"
  by (auto simp: flags_check_def flags_and_iff split: option.splits)

lemma SU_HasLevel_tiers:
  "SU_HasLevel network channel level a \<longleftrightarrow> (\<exists>x. Some x \<in> set (tiers network channel a) \<and> Access_HasLevel level x)"
  by (auto simp: SU_HasLevel_def HasGlobalLevel_def HasNetworkLevel_def HasChannelLevel_def tiers_def su_gets
      split: option.splits)

lemma SU_HasFlags_tiers:
  "SU_HasFlags network channel flags a \<longleftrightarrow> (\<exists>x. Some x \<in> set (tiers network channel a) \<and> Access_HasFlags flags x)"
  by (auto simp: SU_HasFlags_def flags_check_iff tiers_def su_gets Let_def split: option.splits)

lemma SU_HasFlag_tiers:
  "SU_HasFlag network channel f a \<longleftrightarrow> (\<exists>x. Some x \<in> set (tiers network channel a) \<and> HasFlag f x)"
  by (auto simp: SU_HasFlag_def HasGlobalFlag_def HasNetworkFlag_def HasChannelFlag_def tiers_def su_gets
      split: option.splits)

lemma has_check_iff:
  "fst (has_check l (getFlagBits fs) p st) \<longleftrightarrow> fst st \<or> (\<exists>x. p = Some x \<and> Access_HasLevel l x)"
  "snd (has_check l (getFlagBits fs) p st) \<longleftrightarrow> snd st \<or> (\<exists>x. p = Some x \<and> Access_HasFlags fs x)"
  by (auto simp: has_check_def flags_and_iff split: option.splits prod.splits)

lemma SU_GetChannel_put:
  "SU_GetChannel n c (put_channel net ch x a)
   = (if to_lower n = net \<and> to_lower c = ch then Some x else SU_GetChannel n c a)"
  by (auto simp: su_gets put_channel_def chans_of_def split: option.splits)

lemma SU_GetChannel_on_channel:
  "SU_GetChannel n c (on_channel net ch f a)
   = (if to_lower n = to_lower net \<and> to_lower c = to_lower ch
      then Some (f (case SU_GetChannel net ch a of None \<Rightarrow> NewAccess 0 [] | Some x \<Rightarrow> x))
      else SU_GetChannel n c a)"
  by (auto simp: on_channel_def ensureChannel_def SU_GetChannel_put chans_of_def split: option.splits)
    (auto simp: su_gets split: option.splits)

lemma on_channel_other [simp]:
  "GetGlobal (on_channel net ch f a) = GetGlobal a" "GetNetwork n (on_channel net ch f a) = GetNetwork n a"
  by (auto simp: on_channel_def ensureChannel_def put_channel_def su_gets split: option.splits)

lemma NewAccess_zero [simp]: "NewAccess 0 [] = zero_access"
  by (simp add: NewAccess_def SetAccess_def SetFlags_def getFlagBits_def zero_access_def)

lemma HasFlag_zero [simp]: "\<not> HasFlag f zero_access"
  by (simp add: HasFlag_def zero_access_def)

section \<open>Properties\<close>

text \<open>
  The combined check is the conjunction of the two checks.  \<^verbatim>\<open>Has\<close> succeeds exactly if some
  level of access (global, network, channel) is high enough and some level has one of the flags,
  that is if \<^verbatim>\<open>HasLevel\<close> and \<^verbatim>\<open>HasFlags\<close> both succeed; and \<^verbatim>\<open>HasFlags\<close> succeeds exactly if
  \<^verbatim>\<open>HasFlag\<close> does for one of the flags.
\<close>

theorem Has_iff:
  "Has network channel level flags a
     = (SU_HasLevel network channel level a \<and> SU_HasFlags network channel flags a)
   \<and> SU_HasFlags network channel flags a = (\<exists>f. f \<in> set (concat flags) \<and> SU_HasFlag network channel f a)
   \<and> \<not> Has network channel level [] a"
proof -
  have h: "Has network channel level flags a
     = (SU_HasLevel network channel level a \<and> SU_HasFlags network channel flags a)" for flags
    by (auto simp: Has_def Let_def has_check_iff SU_HasLevel_tiers SU_HasFlags_tiers in_tiers su_gets
        split: option.splits)
  moreover have "SU_HasFlags network channel flags a = (\<exists>f. f \<in> set (concat flags) \<and> SU_HasFlag network channel f a)" for flags
    by (auto simp: SU_HasFlags_tiers SU_HasFlag_tiers Access_HasFlags_def list_ex_iff)
  ultimately show ?thesis by simp
qed

text \<open>
  Granting on a channel is exact.  Granting a level and flags on a channel gives that channel
  the level and those flags (and keeps the flags it had), whatever the case of the names, and
  changes no other channel, no network access and no global access.
\<close>

theorem GrantChannel_exact:
  "(HasChannelFlag n c f (GrantChannel net ch level flags a)
      \<longleftrightarrow> HasChannelFlag n c f a
          \<or> (to_lower n = to_lower net \<and> to_lower c = to_lower ch \<and> flag_index f \<noteq> None \<and> f \<in> set (concat flags)))
   \<and> map_option Level (SU_GetChannel n c (GrantChannel net ch level flags a))
      = (if to_lower n = to_lower net \<and> to_lower c = to_lower ch then Some level else map_option Level (SU_GetChannel n c a))
   \<and> GetGlobal (GrantChannel net ch level flags a) = GetGlobal a
   \<and> GetNetwork n (GrantChannel net ch level flags a) = GetNetwork n a"
proof -
  have flag: "HasChannelFlag n c f a \<longleftrightarrow> (\<exists>x. SU_GetChannel n c a = Some x \<and> HasFlag f x)" for a
    by (auto simp: HasChannelFlag_def su_gets split: option.splits)
  have key: "SU_GetChannel net ch a = SU_GetChannel n c a" if "to_lower n = to_lower net" "to_lower c = to_lower ch"
    unfolding su_gets that by simp
  have level: "Level (SetAccess level flags x) = level" for x by (simp add: SetAccess_def SetFlags_def)
  have has: "HasFlag f (SetAccess level flags x) \<longleftrightarrow> HasFlag f x \<or> (flag_index f \<noteq> None \<and> (\<exists>s \<in> set flags. f \<in> set s))" for x
    by (simp add: SetAccess_def HasFlag_SetFlags) (simp add: HasFlag_def)
  show ?thesis
    by (auto simp: flag GrantChannel_def SU_GetChannel_on_channel key level has split: option.splits)
qed

text \<open>
  The masks of an account are a set.  A new account has the lower-case masks without
  duplicates; adding a mask reports whether it is new; deleting one that is there removes exactly
  that one; and a host is accepted exactly if there are no masks or it matches one.
\<close>

theorem masks_exact:
  assumes "distinct (su_Masks a)"
  shows "fst (AddMask m a) = (to_lower m \<notin> set (su_Masks a))
    \<and> set (su_Masks (snd (AddMask m a))) = insert (to_lower m) (set (su_Masks a)) \<and> distinct (su_Masks (snd (AddMask m a)))
    \<and> fst (DelMask m a) = (to_lower m \<in> set (su_Masks a))
    \<and> set (su_Masks (snd (DelMask m a))) = set (su_Masks a) - {to_lower m} \<and> distinct (su_Masks (snd (DelMask m a)))
    \<and> ValidateMask h a = (su_Masks a = [] \<or> (\<exists>x \<in> set (su_Masks a). isMatch (to_lower h) x))"
  using set_swap_remove_index [OF assms, of "to_lower m"] assms
  by (auto simp: AddMask_def DelMask_def Let_def index_of_less_iff ValidateMask_def list_ex_iff Host_Match_def)

theorem masks_exact_witness:
  "set (su_Masks (snd (DelMask ''A'' (empty_user\<lparr>su_Masks := [''a'', ''b'', ''c'']\<rparr>)))) = {''b'', ''c''}"
proof -
  have l: "to_lower ''A'' = ''a''" by code_simp
  have "distinct (su_Masks (empty_user\<lparr>su_Masks := [''a'', ''b'', ''c'']\<rparr>))" by simp
  from masks_exact [OF this, of "''A''"] show ?thesis by (auto simp: l)
qed

text \<open>
  A reset password has ten characters, all letters or digits, for every outcome of the random
  source; the letter z never occurs because the upper bound of the random numbers is exclusive.
\<close>

theorem ResetPassword_alphanumeric:
  assumes "\<And>i. rnd i < 74"
  shows "length (fst (ResetPassword gen rnd a)) = 10
    \<and> (\<forall>c \<in> set (fst (ResetPassword gen rnd a)). (is_digit c \<or> is_upper c \<or> is_lower c) \<and> c \<noteq> CHR ''z'')"
proof -
  have "(is_digit c \<or> is_upper c \<or> is_lower c) \<and> code c \<noteq> 122" if "c = password_char n" "n < 74" for c n
    using that by (auto simp: password_char_def Let_def is_digit_def is_upper_def is_lower_def)
  moreover have "code CHR ''z'' = 122" by (simp add: code_def)
  ultimately have "(is_digit c \<or> is_upper c \<or> is_lower c) \<and> c \<noteq> CHR ''z''" if "c = password_char n" "n < 74" for c n
    using that by metis
  then show ?thesis using assms by (fastforce simp: ResetPassword_def Let_def)
qed

theorem ResetPassword_alphanumeric_witness:
  "length (fst (ResetPassword Some (\<lambda>i. 7 * i mod 74) empty_user)) = 10"
  using ResetPassword_alphanumeric [of "\<lambda>i. 7 * i mod 74" Some empty_user, THEN conjunct1] by simp

end
