(* ===== verification/Store.thy ===== *)
theory Store
  imports StoredUsers
begin

text \<open>
  The store of accounts and channels, \<^verbatim>\<open>src/data/store.go\<close>: a key-value database, a cache of
  users and the table of authenticated hosts.

  The database (github.com/cznic/kv) and encoding/gob are parameters, the records \<^verbatim>\<open>kv\<close> and
  \<^verbatim>\<open>gob\<close>; \<^verbatim>\<open>kv_laws\<close> and \<^verbatim>\<open>gob_laws\<close> state what their documentation promises.
  Users are objects that the cache and the table of authenticated hosts share, so they live in a
  heap.  The mutex around the cache is not modelled: operations are atomic.
\<close>

type_synonym uref = nat

record 'd kv =
  kv_get :: "string \<Rightarrow> 'd \<Rightarrow> string + string option"
  kv_set :: "string \<Rightarrow> string \<Rightarrow> 'd \<Rightarrow> string option \<times> 'd"
  kv_delete :: "string \<Rightarrow> 'd \<Rightarrow> string option \<times> 'd"
  kv_entries :: "'d \<Rightarrow> string + (string \<times> string) list"

record gob =
  enc_user :: "StoredUser \<Rightarrow> string option"
  dec_user :: "string \<Rightarrow> StoredUser option"
  enc_channel :: "StoredChannel \<Rightarrow> string option"
  dec_channel :: "string \<Rightarrow> StoredChannel option"

definition kv_laws :: "'d kv \<Rightarrow> bool" where
  "kv_laws K \<longleftrightarrow>
     (\<forall>k v d d' k'. kv_set K k v d = (None, d') \<longrightarrow> kv_get K k' d' = (if k' = k then Inr (Some v) else kv_get K k' d))
     \<and> (\<forall>k d d' k'. kv_delete K k d = (None, d') \<longrightarrow> kv_get K k' d' = (if k' = k then Inr None else kv_get K k' d))"

definition gob_laws :: "gob \<Rightarrow> bool" where
  "gob_laws G \<longleftrightarrow>
     (\<forall>u b. enc_user G u = Some b \<longrightarrow> dec_user G b = Some u)
     \<and> (\<forall>c b. enc_channel G c = Some b \<longrightarrow> dec_channel G b = Some c)"

section \<open>The store\<close>

datatype AuthFailure = AuthErrBadPassword | AuthErrHostNotFound | AuthErrUserNotFound

datatype StoreError = DbErr string | GobErr | AuthError AuthFailure

definition nMaxCache :: nat where "nMaxCache = 1000"

record 'd Store =
  db :: 'd
  heapSU :: "uref \<rightharpoonup> StoredUser"
  nextSU :: uref
  cache :: "string \<rightharpoonup> uref option"
  authed :: "string \<rightharpoonup> uref"
  checkedFirst :: bool

definition NewStore :: "string + 'd \<Rightarrow> StoreError + 'd Store" where
  "NewStore prov =
     (case prov of
        Inl err \<Rightarrow> Inl (DbErr err)
      | Inr d \<Rightarrow> Inr \<lparr>db = d, heapSU = Map.empty, nextSU = 0, cache = Map.empty, authed = Map.empty,
                     checkedFirst = False\<rparr>)"

definition checkCacheLimits :: "'d Store \<Rightarrow> 'd Store" where
  "checkCacheLimits s = (if card (dom (cache s)) + 1 > nMaxCache then s\<lparr>cache := Map.empty\<rparr> else s)"

text \<open>
  \<^verbatim>\<open>SaveUser\<close> drops the error of the database's \<^verbatim>\<open>Set\<close>.  The user is given by its reference; a
  user that a caller made with \<^verbatim>\<open>NewStoredUser\<close> is allocated first.
\<close>

definition alloc_user :: "StoredUser \<Rightarrow> 'd Store \<Rightarrow> uref \<times> 'd Store" where
  "alloc_user u s = (nextSU s, s\<lparr>heapSU := (heapSU s)(nextSU s \<mapsto> u), nextSU := nextSU s + 1\<rparr>)"

definition SaveUser :: "'d kv \<Rightarrow> gob \<Rightarrow> uref \<Rightarrow> 'd Store \<Rightarrow> (StoreError + unit) \<times> 'd Store" where
  "SaveUser K G r s =
     (let ua = the (heapSU s r) in
      case enc_user G ua of
        None \<Rightarrow> (Inl GobErr, s)
      | Some serialized \<Rightarrow>
          (let s = s\<lparr>db := snd (kv_set K (su_Username ua) serialized (db s))\<rparr>;
               s = checkCacheLimits s
           in (Inr (), s\<lparr>cache := (cache s)(su_Username ua \<mapsto> Some r)\<rparr>)))"

text \<open>\<^verbatim>\<open>fetchUser\<close> allocates the decoded user.\<close>

definition fetchUser :: "'d kv \<Rightarrow> gob \<Rightarrow> string \<Rightarrow> 'd Store \<Rightarrow> (StoreError + uref option) \<times> 'd Store" where
  "fetchUser K G username s =
     (case kv_get K (to_lower username) (db s) of
        Inl err \<Rightarrow> (Inl (DbErr err), s)
      | Inr None \<Rightarrow> (Inr None, s)
      | Inr (Some serialized) \<Rightarrow>
          (case dec_user G serialized of
             None \<Rightarrow> (Inl GobErr, s)
           | Some u \<Rightarrow> (case alloc_user u s of (r, s) \<Rightarrow> (Inr (Some r), s))))"

definition FindUser :: "'d kv \<Rightarrow> gob \<Rightarrow> string \<Rightarrow> 'd Store \<Rightarrow> (StoreError + uref option) \<times> 'd Store" where
  "FindUser K G username s =
     (let username = to_lower username in
      case cache s username of
        Some user \<Rightarrow> (Inr user, s)
      | None \<Rightarrow>
          (case fetchUser K G username s of
             (Inl err, s) \<Rightarrow> (Inl err, s)
           | (Inr user, s) \<Rightarrow>
               (let s = checkCacheLimits s in (Inr user, s\<lparr>cache := (cache s)(username \<mapsto> user)\<rparr>))))"

definition RemoveUser :: "'d kv \<Rightarrow> gob \<Rightarrow> string \<Rightarrow> 'd Store \<Rightarrow> (StoreError + bool) \<times> 'd Store" where
  "RemoveUser K G username s =
     (let username = to_lower username in
      case FindUser K G username s of
        (Inl err, s) \<Rightarrow> (Inl err, s)
      | (Inr None, s) \<Rightarrow> (Inr False, s)
      | (Inr (Some _), s) \<Rightarrow>
          (let s = s\<lparr>cache := (cache s)(username := None)\<rparr> in
           case kv_delete K username (db s) of
             (Some err, d) \<Rightarrow> (Inl (DbErr err), s\<lparr>db := d\<rparr>)
           | (None, d) \<Rightarrow> (Inr True, s\<lparr>db := d\<rparr>)))"

definition AuthUser :: "'d kv \<Rightarrow> gob \<Rightarrow> (string \<Rightarrow> string \<Rightarrow> bool) \<Rightarrow> string \<Rightarrow> string \<Rightarrow> string \<Rightarrow> string
    \<Rightarrow> 'd Store \<Rightarrow> (StoreError + uref) \<times> 'd Store" where
  "AuthUser K G cmp network host username password s =
     (let username = to_lower username in
      case authed s (network @ host) of
        Some user \<Rightarrow> (Inr user, s)
      | None \<Rightarrow>
          (case FindUser K G username s of
             (Inl err, s) \<Rightarrow> (Inl err, s)
           | (Inr None, s) \<Rightarrow> (Inl (AuthError AuthErrUserNotFound), s)
           | (Inr (Some r), s) \<Rightarrow>
               (let user = the (heapSU s r) in
                if \<not> ValidateMask host user then (Inl (AuthError AuthErrHostNotFound), s)
                else if \<not> VerifyPassword cmp password user then (Inl (AuthError AuthErrBadPassword), s)
                else (Inr r, s\<lparr>authed := (authed s)(network @ host \<mapsto> r)\<rparr>))))"

definition GetAuthedUser :: "string \<Rightarrow> string \<Rightarrow> 'd Store \<Rightarrow> uref option" where
  "GetAuthedUser network host s = authed s (network @ host)"

definition Logout :: "string \<Rightarrow> string \<Rightarrow> 'd Store \<Rightarrow> 'd Store" where
  "Logout network host s = s\<lparr>authed := (authed s)(network @ host := None)\<rparr>"

definition LogoutByUsername :: "string \<Rightarrow> 'd Store \<Rightarrow> 'd Store" where
  "LogoutByUsername username s =
     s\<lparr>authed := (\<lambda>h. case authed s h of
                       None \<Rightarrow> None
                     | Some r \<Rightarrow> if su_Username (the (heapSU s r)) = to_lower username then None else Some r)\<rparr>"

text \<open>
  The scans of the database.  The first pass of the loops decodes the nil slice that \<^verbatim>\<open>val\<close> holds
  before the first \<^verbatim>\<open>Next\<close>.
\<close>

definition scan :: "'d kv \<Rightarrow> (string \<Rightarrow> 'a option) \<Rightarrow> ('a \<Rightarrow> bool) \<Rightarrow> 'd Store \<Rightarrow> StoreError + 'a list" where
  "scan K dec keep s =
     (case kv_entries K (db s) of
        Inl err \<Rightarrow> Inl (DbErr err)
      | Inr [] \<Rightarrow> Inr []
      | Inr entries \<Rightarrow> Inr (filter keep (List.map_filter dec ([] # map snd entries))))"

definition store_iterate :: "'d kv \<Rightarrow> gob \<Rightarrow> (StoredUser \<Rightarrow> bool) \<Rightarrow> 'd Store \<Rightarrow> StoreError + StoredUser list" where
  "store_iterate K G keep s = scan K (dec_user G) keep s"

definition has_access :: "Access option \<Rightarrow> bool" where
  "has_access p = (case p of None \<Rightarrow> False | Some a \<Rightarrow> \<not> IsZero a)"

definition GlobalUsers :: "'d kv \<Rightarrow> gob \<Rightarrow> 'd Store \<Rightarrow> StoreError + StoredUser list" where
  "GlobalUsers K G s = store_iterate K G (\<lambda>ua. has_access (GetGlobal ua)) s"

definition NetworkUsers :: "'d kv \<Rightarrow> gob \<Rightarrow> string \<Rightarrow> 'd Store \<Rightarrow> StoreError + StoredUser list" where
  "NetworkUsers K G network s = store_iterate K G (\<lambda>ua. has_access (GetNetwork network ua)) s"

definition ChanUsers :: "'d kv \<Rightarrow> gob \<Rightarrow> string \<Rightarrow> string \<Rightarrow> 'd Store \<Rightarrow> StoreError + StoredUser list" where
  "ChanUsers K G network channel s = store_iterate K G (\<lambda>ua. has_access (SU_GetChannel network channel ua)) s"

definition Channels :: "'d kv \<Rightarrow> gob \<Rightarrow> 'd Store \<Rightarrow> StoreError + StoredChannel list" where
  "Channels K G s = scan K (dec_channel G) (\<lambda>_. True) s"

section \<open>Channels and the first user\<close>

definition SaveChannel :: "'d kv \<Rightarrow> gob \<Rightarrow> StoredChannel \<Rightarrow> 'd Store \<Rightarrow> (StoreError + unit) \<times> 'd Store" where
  "SaveChannel K G sc s =
     (case enc_channel G sc of
        None \<Rightarrow> (Inl GobErr, s)
      | Some serialized \<Rightarrow> (Inr (), s\<lparr>db := snd (kv_set K (makeID sc) serialized (db s))\<rparr>))"

definition FindChannel :: "'d kv \<Rightarrow> gob \<Rightarrow> string \<Rightarrow> string \<Rightarrow> 'd Store \<Rightarrow> StoreError + StoredChannel option" where
  "FindChannel K G netID name s =
     (case kv_get K (makeID (NewStoredChannel netID name)) (db s) of
        Inl err \<Rightarrow> Inl (DbErr err)
      | Inr None \<Rightarrow> Inr None
      | Inr (Some serialized) \<Rightarrow> (case dec_channel G serialized of None \<Rightarrow> Inl GobErr | Some c \<Rightarrow> Inr (Some c)))"

definition RemoveChannel :: "'d kv \<Rightarrow> gob \<Rightarrow> string \<Rightarrow> string \<Rightarrow> 'd Store \<Rightarrow> (StoreError + bool) \<times> 'd Store" where
  "RemoveChannel K G netID name s =
     (case FindChannel K G netID name s of
        Inl err \<Rightarrow> (Inl err, s)
      | Inr None \<Rightarrow> (Inr False, s)
      | Inr (Some _) \<Rightarrow>
          (case kv_delete K (makeID (NewStoredChannel netID name)) (db s) of
             (Some err, d) \<Rightarrow> (Inl (DbErr err), s\<lparr>db := d\<rparr>)
           | (None, d) \<Rightarrow> (Inr True, s\<lparr>db := d\<rparr>)))"

text \<open>
  \<^verbatim>\<open>IsFirst\<close>: the update function of the database's \<^verbatim>\<open>Put\<close> writes the key of one zero byte if it
  is absent; \<^verbatim>\<open>Put\<close> is the get and the set it documents.
\<close>

definition IsFirst :: "'d kv \<Rightarrow> 'd Store \<Rightarrow> (StoreError + bool) \<times> 'd Store" where
  "IsFirst K s =
     (if checkedFirst s then (Inr False, s)
      else (case kv_get K [CHR 0x00] (db s) of
              Inl err \<Rightarrow> (Inl (DbErr err), s\<lparr>checkedFirst := True\<rparr>)
            | Inr (Some old) \<Rightarrow> (Inr False, s\<lparr>checkedFirst := True\<rparr>)
            | Inr None \<Rightarrow>
                (case kv_set K [CHR 0x00] [CHR 0x00] (db s) of
                   (Some err, d) \<Rightarrow> (Inl (DbErr err), s\<lparr>db := d, checkedFirst := True\<rparr>)
                 | (None, d) \<Rightarrow> (Inr True, s\<lparr>db := d, checkedFirst := True\<rparr>))))"

section \<open>The invariant\<close>

text \<open>Shared users are allocated, and the cache is bounded.\<close>

definition store_inv :: "'d Store \<Rightarrow> bool" where
  "store_inv s \<longleftrightarrow>
     (\<forall>n r. cache s n = Some (Some r) \<longrightarrow> heapSU s r \<noteq> None)
     \<and> (\<forall>h r. authed s h = Some r \<longrightarrow> heapSU s r \<noteq> None)
     \<and> (\<forall>r \<ge> nextSU s. heapSU s r = None)
     \<and> finite (dom (cache s)) \<and> card (dom (cache s)) \<le> nMaxCache"

lemma checkCacheLimits_inv:
  assumes "store_inv s" "\<And>r. p = Some r \<Longrightarrow> heapSU s r \<noteq> None"
  shows "store_inv ((checkCacheLimits s)\<lparr>cache := (cache (checkCacheLimits s))(n \<mapsto> p)\<rparr>)"
proof (cases "card (dom (cache s)) + 1 > nMaxCache")
  case True
  then show ?thesis using assms by (auto simp: checkCacheLimits_def store_inv_def nMaxCache_def)
next
  case False
  then have "card (insert n (dom (cache s))) \<le> nMaxCache"
    using assms(1) card_insert_le_m1 [of nMaxCache "dom (cache s)" n] by (simp add: store_inv_def nMaxCache_def)
  with False show ?thesis using assms by (auto simp: checkCacheLimits_def store_inv_def)
qed

lemma alloc_user_inv: "store_inv s \<Longrightarrow> alloc_user u s = (r, s') \<Longrightarrow> store_inv s' \<and> heapSU s' r = Some u"
  by (auto simp: alloc_user_def store_inv_def)

lemma fetchUser_inv:
  "store_inv s \<Longrightarrow> fetchUser K G n s = (res, s') \<Longrightarrow>
   store_inv s' \<and> authed s' = authed s \<and> (\<forall>r. res = Inr (Some r) \<longrightarrow> heapSU s' r \<noteq> None)
   \<and> cache s' = cache s"
  by (auto simp: fetchUser_def alloc_user_def store_inv_def split: sum.splits option.splits)

lemma checkCacheLimits_other [simp]:
  "db (checkCacheLimits s) = db s" "heapSU (checkCacheLimits s) = heapSU s"
  "nextSU (checkCacheLimits s) = nextSU s" "authed (checkCacheLimits s) = authed s"
  "checkedFirst (checkCacheLimits s) = checkedFirst s"
  by (simp_all add: checkCacheLimits_def)

lemma FindUser_inv:
  assumes "store_inv s" "FindUser K G n s = (res, s')"
  shows "store_inv s'" "authed s' = authed s" "res = Inr (Some r) \<Longrightarrow> heapSU s' r \<noteq> None"
    "res = Inr p \<Longrightarrow> cache s' (to_lower n) = Some p"
proof -
  have "store_inv s' \<and> authed s' = authed s \<and> (\<forall>r. res = Inr (Some r) \<longrightarrow> heapSU s' r \<noteq> None)
      \<and> (\<forall>p. res = Inr p \<longrightarrow> cache s' (to_lower n) = Some p)"
  proof (cases "cache s (to_lower n)")
    case None
    obtain res' s1 where f: "fetchUser K G (to_lower n) s = (res', s1)" by (cases "fetchUser K G (to_lower n) s")
    note fi = fetchUser_inv [OF assms(1) f]
    show ?thesis
    proof (cases res')
      case (Inr p)
      then have "store_inv ((checkCacheLimits s1)\<lparr>cache := (cache (checkCacheLimits s1))(to_lower n \<mapsto> p)\<rparr>)"
        using fi by (intro checkCacheLimits_inv) auto
      then show ?thesis using assms(2) None f Inr fi by (auto simp: FindUser_def Let_def)
    qed (use assms(2) None f fi in \<open>auto simp: FindUser_def Let_def\<close>)
  next
    case (Some user)
    then show ?thesis using assms by (auto simp: FindUser_def store_inv_def)
  qed
  then show "store_inv s'" "authed s' = authed s" "res = Inr (Some r) \<Longrightarrow> heapSU s' r \<noteq> None"
    "res = Inr p \<Longrightarrow> cache s' (to_lower n) = Some p" by blast+
qed

lemma store_inv_db [simp]: "store_inv (s\<lparr>db := d\<rparr>) = store_inv s"
  by (simp add: store_inv_def)

lemma store_inv_uncache: "store_inv s \<Longrightarrow> store_inv (s\<lparr>cache := (cache s)(n := None)\<rparr>)"
  by (auto simp: store_inv_def card_Diff1_le intro: order_trans [OF card_mono])

lemma RemoveUser_inv:
  assumes "store_inv s" "RemoveUser K G n s = (res, s')"
  shows "store_inv s' \<and> authed s' = authed s"
proof -
  obtain fr s1 where f: "FindUser K G (to_lower n) s = (fr, s1)" by (cases "FindUser K G (to_lower n) s")
  note fi = FindUser_inv(1,2) [OF assms(1) f]
  then have "store_inv (s1\<lparr>cache := (cache s1)(to_lower n := None)\<rparr>)" by (intro store_inv_uncache)
  then show ?thesis using assms(2) f fi
    by (auto simp: RemoveUser_def Let_def split: sum.splits option.splits prod.splits)
qed

lemma AuthUser_inv:
  assumes "store_inv s" "AuthUser K G cmp net host n pw s = (res, s')"
  shows "store_inv s'"
proof (cases "authed s (net @ host)")
  case None
  obtain fr s1 where f: "FindUser K G (to_lower n) s = (fr, s1)" by (cases "FindUser K G (to_lower n) s")
  show ?thesis using assms(2) None f FindUser_inv [OF assms(1) f]
    by (auto simp: AuthUser_def Let_def store_inv_def split: sum.splits option.splits if_splits)
qed (use assms in \<open>auto simp: AuthUser_def\<close>)

lemma SaveUser_inv:
  "store_inv s \<Longrightarrow> heapSU s r \<noteq> None \<Longrightarrow> SaveUser K G r s = (res, s') \<Longrightarrow> store_inv s'"
  using checkCacheLimits_inv [of "s\<lparr>db := d\<rparr>" "Some r" for d]
  by (auto simp: SaveUser_def Let_def split: option.splits)

section \<open>Properties\<close>

text \<open>
  C39: The store keeps its invariant: through finding, saving, removing, authenticating and logging
  out, every user in the cache and in the table of authenticated hosts is allocated, and the cache
  never holds more than \<^verbatim>\<open>nMaxCache\<close> entries.
\<close>

theorem store_invariant:
  assumes "store_inv s"
  shows "store_inv (snd (FindUser K G n s)) \<and> (heapSU s r \<noteq> None \<longrightarrow> store_inv (snd (SaveUser K G r s)))
    \<and> store_inv (snd (RemoveUser K G n s)) \<and> store_inv (snd (AuthUser K G cmp net host n pw s))
    \<and> store_inv (Logout net host s) \<and> store_inv (LogoutByUsername n s)
    \<and> card (dom (cache (snd (FindUser K G n s)))) \<le> nMaxCache"
proof -
  have "store_inv (Logout net host s)" "store_inv (LogoutByUsername n s)"
    using assms by (auto simp: store_inv_def Logout_def LogoutByUsername_def split: option.splits if_splits)
  then show ?thesis
    using FindUser_inv(1) [OF assms] SaveUser_inv [OF assms] RemoveUser_inv [OF assms] AuthUser_inv [OF assms]
    by (metis prod.collapse store_inv_def)
qed

text \<open>
  C6: Authentication is sound.  When a host that is not yet authenticated authenticates, the user
  is the one stored under the given name, the host satisfies its masks, the password verifies, and
  from then on the host is authenticated as that user; no other host's entry changes.  A failed
  attempt authenticates nobody.
\<close>

theorem AuthUser_sound:
  assumes "store_inv s" and "GetAuthedUser net host s = None"
    and "AuthUser K G cmp net host n pw s = (res, s')"
  shows "(case res of
      Inr r \<Rightarrow> (\<exists>u. heapSU s' r = Some u \<and> cache s' (to_lower n) = Some (Some r) \<and> ValidateMask host u
                 \<and> VerifyPassword cmp pw u) \<and> authed s' = (authed s)(net @ host \<mapsto> r)
    | Inl err \<Rightarrow> authed s' = authed s)"
proof -
  obtain fr s1 where f: "FindUser K G (to_lower n) s = (fr, s1)" by (cases "FindUser K G (to_lower n) s")
  note fi = FindUser_inv [OF assms(1) f]
  have none: "authed s (net @ host) = None" using assms(2) by (simp add: GetAuthedUser_def)
  show ?thesis
  proof (cases "\<exists>r. fr = Inr (Some r)")
    case True
    then obtain r where r: "fr = Inr (Some r)" ..
    then obtain u where "heapSU s1 r = Some u" using fi(3) by blast
    then show ?thesis using assms(3) none f r fi(2) fi(4) [OF r]
      by (auto simp: AuthUser_def Let_def split: if_splits)
  next
    case False
    then show ?thesis using assms(3) none f fi(2)
      by (auto simp: AuthUser_def Let_def split: sum.splits option.splits)
  qed
qed

text \<open>
  A host that is authenticated stays authenticated, whatever name and password it sends, and the
  table cannot tell apart a network and host that concatenate to the same string.
\<close>

theorem AuthUser_authed:
  assumes "GetAuthedUser net host s = Some r" and "net' @ host' = net @ host"
  shows "AuthUser K G cmp net' host' n pw s = (Inr r, s) \<and> GetAuthedUser net' host' s = Some r"
  using assms by (simp add: AuthUser_def GetAuthedUser_def)

text \<open>
  Removing an account does not end its sessions: hosts authenticated as the user stay
  authenticated, with the user object they had.
\<close>

theorem RemoveUser_keeps_sessions:
  assumes "store_inv s"
  shows "GetAuthedUser net host (snd (RemoveUser K G n s)) = GetAuthedUser net host s"
  using RemoveUser_inv [OF assms] by (metis GetAuthedUser_def prod.collapse)

text \<open>
  C11: A saved account survives a restart.  A user created with a password and saved can
  authenticate with that password, from a host its masks accept, in a new store over the same
  database, and is the user that was saved.
\<close>

theorem saved_user_authenticates:
  assumes "kv_laws K" and "gob_laws G" and bcrypt: "\<And>p h. gen p = Some h \<Longrightarrow> cmp h p"
    and new: "NewStoredUser gen un pw masks = Inr u" and "ValidateMask host u"
    and r: "heapSU s r = Some u" and enc: "enc_user G u = Some b"
    and set: "fst (kv_set K (to_lower un) b (db s)) = None"
    and restart: "NewStore (Inr (db (snd (SaveUser K G r s)))) = Inr s2"
  shows "\<exists>r' s3. AuthUser K G cmp net host un pw s2 = (Inr r', s3) \<and> heapSU s3 r' = Some u
    \<and> GetAuthedUser net host s3 = Some r'"
proof -
  have masks: "add_masks ms a = Some a' \<Longrightarrow> su_Username a' = su_Username a \<and> su_Password a' = su_Password a" for ms a a'
    by (induction ms arbitrary: a) (auto simp: AddMask_def split: if_splits)
  obtain h where h: "gen pw = Some h" "su_Username u = to_lower un" "su_Password u = h"
    using new by (auto simp: NewStoredUser_def SetPassword_def split: if_splits option.splits dest!: masks)
  obtain d where d: "kv_set K (to_lower un) b (db s) = (None, d)"
    using set by (cases "kv_set K (to_lower un) b (db s)") auto
  then have s2: "s2 = \<lparr>db = d, heapSU = Map.empty, nextSU = 0, cache = Map.empty, authed = Map.empty, checkedFirst = False\<rparr>"
    using restart by (simp add: NewStore_def SaveUser_def r h enc Let_def)
  have "kv_get K (to_lower un) d = Inr (Some b)" using assms(1) d by (simp add: kv_laws_def)
  moreover have "dec_user G b = Some u" using assms(2) enc by (simp add: gob_laws_def)
  moreover have "VerifyPassword cmp pw u" using bcrypt [OF h(1)] h by (simp add: VerifyPassword_def)
  ultimately show ?thesis using assms(5)
    by (simp add: AuthUser_def FindUser_def fetchUser_def alloc_user_def s2 Let_def GetAuthedUser_def)
qed

text \<open>
  Only the first caller is the first.  Once \<^verbatim>\<open>IsFirst\<close> has answered true, it answers false in
  the same store and in any new store over the same database.
\<close>

theorem IsFirst_once:
  assumes "kv_laws K" and "IsFirst K s = (Inr True, s')" and "NewStore (Inr (db s')) = Inr s2"
  shows "fst (IsFirst K s') = Inr False \<and> fst (IsFirst K s2) = Inr False"
proof -
  obtain d where d: "kv_set K [CHR 0x00] [CHR 0x00] (db s) = (None, d)" "s' = s\<lparr>db := d, checkedFirst := True\<rparr>"
    using assms(2) by (auto simp: IsFirst_def split: if_splits sum.splits option.splits prod.splits)
  then have "kv_get K [CHR 0x00] d = Inr (Some [CHR 0x00])" using assms(1) by (simp add: kv_laws_def)
  then show ?thesis using assms(3) d by (auto simp: IsFirst_def NewStore_def)
qed

section \<open>Witnesses\<close>

text \<open>A database in memory and an encoding of one account that meet the laws.\<close>

definition mem_kv :: "(string \<rightharpoonup> string) kv" where
  "mem_kv = \<lparr>kv_get = (\<lambda>k d. Inr (d k)), kv_set = (\<lambda>k v d. (None, d(k \<mapsto> v))),
     kv_delete = (\<lambda>k d. (None, d(k := None))), kv_entries = (\<lambda>d. Inr [])\<rparr>"

definition sample_user :: StoredUser where
  "sample_user = empty_user\<lparr>su_Username := ''ann'', su_Password := ''pw'', su_Masks := [''*!*@h'']\<rparr>"

definition sample_gob :: gob where
  "sample_gob = \<lparr>enc_user = (\<lambda>u. if u = sample_user then Some ''ann'' else None),
     dec_user = (\<lambda>b. if b = ''ann'' then Some sample_user else None),
     enc_channel = (\<lambda>_. None), dec_channel = (\<lambda>_. None)\<rparr>"

definition sample_store :: "(string \<rightharpoonup> string) Store" where
  "sample_store = \<lparr>db = Map.empty, heapSU = [0 \<mapsto> sample_user], nextSU = 1, cache = Map.empty,
     authed = Map.empty, checkedFirst = False\<rparr>"

lemma sample_laws: "kv_laws mem_kv" "gob_laws sample_gob" "store_inv sample_store"
  by (auto simp: kv_laws_def mem_kv_def gob_laws_def sample_gob_def store_inv_def sample_store_def
      split: if_splits)

theorem store_invariant_witness:
  "store_inv sample_store \<and> card (dom (cache (snd (FindUser mem_kv sample_gob ''bob'' sample_store)))) \<le> nMaxCache"
  using store_invariant [OF sample_laws(3), of mem_kv sample_gob "''bob''"] sample_laws(3) by blast

lemma sample_host: "ValidateMask ''n!u@h'' sample_user"
proof -
  have "isMatch (to_lower ''n!u@h'') ''*!*@h''" by code_simp
  then show ?thesis by (simp add: ValidateMask_def sample_user_def Host_Match_def)
qed

theorem saved_user_authenticates_witness:
  "\<exists>s2. NewStore (Inr (db (snd (SaveUser mem_kv sample_gob 0 sample_store)))) = Inr s2
     \<and> (\<exists>r' s3. AuthUser mem_kv sample_gob (\<lambda>h p. h = p) ''net'' ''n!u@h'' ''Ann'' ''pw'' s2 = (Inr r', s3)
          \<and> heapSU s3 r' = Some sample_user)"
proof -
  have l: "to_lower ''Ann'' = ''ann''" "to_lower ''*!*@h'' = ''*!*@h''" by code_simp+
  have new: "NewStoredUser Some ''Ann'' ''pw'' [''*!*@h''] = Inr sample_user"
    by (simp add: NewStoredUser_def SetPassword_def AddMask_def l sample_user_def empty_user_def)
  obtain s2 where s2: "NewStore (Inr (db (snd (SaveUser mem_kv sample_gob 0 sample_store)))) = Inr s2"
    by (simp add: NewStore_def)
  have "\<exists>r' s3. AuthUser mem_kv sample_gob (\<lambda>h p. h = p) ''net'' ''n!u@h'' ''Ann'' ''pw'' s2 = (Inr r', s3)
      \<and> heapSU s3 r' = Some sample_user \<and> GetAuthedUser ''net'' ''n!u@h'' s3 = Some r'"
    by (rule saved_user_authenticates [OF sample_laws(1,2) _ new sample_host _ _ _ s2])
      (simp_all add: sample_store_def sample_gob_def mem_kv_def)
  with s2 show ?thesis by blast
qed

theorem AuthUser_sound_witness:
  "authed (snd (AuthUser mem_kv sample_gob (\<lambda>h p. h = p) ''net'' ''n!u@h'' ''bob'' ''x'' sample_store)) = Map.empty"
proof -
  have l: "to_lower ''bob'' = ''bob''" by code_simp
  have "AuthUser mem_kv sample_gob (\<lambda>h p. h = p) ''net'' ''n!u@h'' ''bob'' ''x'' sample_store
      = (Inl (AuthError AuthErrUserNotFound), sample_store\<lparr>cache := [''bob'' \<mapsto> None]\<rparr>)"
    by (simp add: AuthUser_def FindUser_def fetchUser_def checkCacheLimits_def mem_kv_def sample_store_def l Let_def nMaxCache_def)
  from AuthUser_sound [OF sample_laws(3) _ this] this show ?thesis
    by (simp add: GetAuthedUser_def sample_store_def)
qed

theorem AuthUser_authed_witness:
  "AuthUser mem_kv sample_gob (\<lambda>h p. False) ''neti'' ''rc!u@h'' ''bob'' ''wrong''
     (sample_store\<lparr>authed := [''netirc!u@h'' \<mapsto> 0]\<rparr>) = (Inr 0, sample_store\<lparr>authed := [''netirc!u@h'' \<mapsto> 0]\<rparr>)"
  by (rule AuthUser_authed [where net = "''net''" and host = "''irc!u@h''", THEN conjunct1]) (simp_all add: GetAuthedUser_def)

theorem RemoveUser_keeps_sessions_witness:
  "GetAuthedUser ''net'' ''n!u@h'' (snd (RemoveUser mem_kv sample_gob ''ann'' (sample_store\<lparr>authed := [''netn!u@h'' \<mapsto> 0]\<rparr>))) = Some 0"
proof -
  have "store_inv (sample_store\<lparr>authed := [''netn!u@h'' \<mapsto> 0]\<rparr>)"
    by (auto simp: store_inv_def sample_store_def split: if_splits)
  from RemoveUser_keeps_sessions [OF this, of "''net''" "''n!u@h''"] show ?thesis by (simp add: GetAuthedUser_def)
qed

theorem IsFirst_once_witness:
  "\<exists>s'. IsFirst mem_kv sample_store = (Inr True, s') \<and> fst (IsFirst mem_kv s') = Inr False"
proof -
  obtain s' where s': "IsFirst mem_kv sample_store = (Inr True, s')"
    by (simp add: IsFirst_def mem_kv_def sample_store_def)
  obtain s2 where "NewStore (Inr (db s')) = Inr s2" by (simp add: NewStore_def)
  from IsFirst_once [OF sample_laws(1) s' this] s' show ?thesis by blast
qed

end
