(* ===== verification/Writer.thy ===== *)
theory Writer
  imports IrcEvent
begin

text \<open>
  The writer helper, \<^verbatim>\<open>src/irc/writer.go\<close>: messages are split into lines the protocol can carry.

  The embedded \<^verbatim>\<open>io.Writer\<close> is a parameter \<^verbatim>\<open>wr\<close> that takes the state of what is behind it
  and the bytes, and returns the new state and the error, if any.  A result is an outcome inside an
  option: \<^verbatim>\<open>None\<close> is a call that never returns.  Variadic arguments are strings: \<^verbatim>\<open>fmt.Sprint\<close>
  then concatenates them and \<^verbatim>\<open>fmt.Sprintln\<close> puts spaces between them and a newline after
  them; the result of \<^verbatim>\<open>fmt.Sprintf\<close> is an argument of the model.
\<close>

type_synonym 'w writer = "'w \<Rightarrow> string \<Rightarrow> 'w \<times> string option"
type_synonym 'w sent = "('w \<times> string option) outcome option"

definition IRC_MAX_LENGTH :: nat where "IRC_MAX_LENGTH = 510 - 62"

definition SPLIT_BACKWARD :: nat where "SPLIT_BACKWARD = 20"

definition Sprint :: "string list \<Rightarrow> string" where "Sprint args = concat args"

definition Sprintln :: "string list \<Rightarrow> string" where "Sprintln args = join '' '' args @ [CHR 0x0A]"

section \<open>Splitting\<close>

text \<open>The backward search for a space, from index \<^verbatim>\<open>m\<close> down over at most 20 characters, never at 0.\<close>

definition split_point :: "string \<Rightarrow> nat \<Rightarrow> nat option" where
  "split_point msg m = find (\<lambda>i. msg ! i = CHR '' '') (rev [max 1 (m + 1 - SPLIT_BACKWARD)..<m + 1])"

text \<open>The size of the next piece and the number of characters skipped after it.\<close>

definition next_piece :: "string \<Rightarrow> nat \<Rightarrow> nat \<times> nat" where
  "next_piece msg m =
     (if length msg \<le> m then (length msg, 0)
      else (case split_point msg m of None \<Rightarrow> (m, 0) | Some i \<Rightarrow> (i, 1)))"

partial_function (option) split_loop :: "'w writer \<Rightarrow> string \<Rightarrow> nat \<Rightarrow> string \<Rightarrow> 'w \<Rightarrow> ('w \<times> string option) option" where
  "split_loop wr header m msg w =
     (if msg = [] then Some (w, None)
      else (case next_piece msg m of (sz, skip) \<Rightarrow>
        (case wr w (header @ take sz msg) of
           (w', Some err) \<Rightarrow> Some (w', Some err)
         | (w', None) \<Rightarrow> split_loop wr header m (drop (sz + skip) msg) w')))"

text \<open>A header longer than a line makes \<^verbatim>\<open>msgMax\<close> negative and the search index \<^verbatim>\<open>msg[msgMax]\<close>.\<close>

definition splitSend :: "'w writer \<Rightarrow> string \<Rightarrow> string \<Rightarrow> 'w \<Rightarrow> 'w sent" where
  "splitSend wr header msg w =
     (if length header + length msg \<le> IRC_MAX_LENGTH then Some (Inr (wr w (header @ msg)))
      else if msg = [] then Some (Inr (w, None))
      else if IRC_MAX_LENGTH < length header then Some (Inl IndexOutOfRange)
      else map_option Inr (split_loop wr header (IRC_MAX_LENGTH - length header) msg w))"

section \<open>The helper\<close>

definition Send :: "'w writer \<Rightarrow> string list \<Rightarrow> 'w \<Rightarrow> 'w sent" where
  "Send wr args w = Some (Inr (wr w (Sprint args)))"

definition Sendln :: "'w writer \<Rightarrow> string list \<Rightarrow> 'w \<Rightarrow> 'w sent" where
  "Sendln wr args w = Some (Inr (wr w (butlast (Sprintln args))))"

definition Sendf :: "'w writer \<Rightarrow> string \<Rightarrow> 'w \<Rightarrow> 'w sent" where
  "Sendf wr formatted w = Some (Inr (wr w formatted))"

definition msg_header :: "string \<Rightarrow> string \<Rightarrow> string" where
  "msg_header kind target = kind @ '' '' @ target @ '' :''"

definition Privmsg :: "'w writer \<Rightarrow> string \<Rightarrow> string list \<Rightarrow> 'w \<Rightarrow> 'w sent" where
  "Privmsg wr target args w = splitSend wr (msg_header PRIVMSG target) (Sprint args) w"

definition Privmsgln :: "'w writer \<Rightarrow> string \<Rightarrow> string list \<Rightarrow> 'w \<Rightarrow> 'w sent" where
  "Privmsgln wr target args w = splitSend wr (msg_header PRIVMSG target) (butlast (Sprintln args)) w"

definition Privmsgf :: "'w writer \<Rightarrow> string \<Rightarrow> string \<Rightarrow> 'w \<Rightarrow> 'w sent" where
  "Privmsgf wr target formatted w = splitSend wr (msg_header PRIVMSG target) formatted w"

definition Notice :: "'w writer \<Rightarrow> string \<Rightarrow> string list \<Rightarrow> 'w \<Rightarrow> 'w sent" where
  "Notice wr target args w = splitSend wr (msg_header NOTICE target) (Sprint args) w"

definition Noticeln :: "'w writer \<Rightarrow> string \<Rightarrow> string list \<Rightarrow> 'w \<Rightarrow> 'w sent" where
  "Noticeln wr target args w = splitSend wr (msg_header NOTICE target) (butlast (Sprintln args)) w"

definition Noticef :: "'w writer \<Rightarrow> string \<Rightarrow> string \<Rightarrow> 'w \<Rightarrow> 'w sent" where
  "Noticef wr target formatted w = splitSend wr (msg_header NOTICE target) formatted w"

definition send_ctcp :: "'w writer \<Rightarrow> string \<Rightarrow> string \<Rightarrow> string \<Rightarrow> string \<Rightarrow> 'w \<Rightarrow> 'w sent" where
  "send_ctcp wr kind target tag data w =
     Some (Inr (wr w (msg_header kind target @ CTCPpack tag (Some data))))"

definition CTCP :: "'w writer \<Rightarrow> string \<Rightarrow> string \<Rightarrow> string list \<Rightarrow> 'w \<Rightarrow> 'w sent" where
  "CTCP wr target tag data w = send_ctcp wr PRIVMSG target tag (Sprint data) w"

definition CTCPln :: "'w writer \<Rightarrow> string \<Rightarrow> string \<Rightarrow> string list \<Rightarrow> 'w \<Rightarrow> 'w sent" where
  "CTCPln wr target tag data w = send_ctcp wr PRIVMSG target tag (butlast (Sprintln data)) w"

definition CTCPf :: "'w writer \<Rightarrow> string \<Rightarrow> string \<Rightarrow> string \<Rightarrow> 'w \<Rightarrow> 'w sent" where
  "CTCPf wr target tag formatted w = send_ctcp wr PRIVMSG target tag formatted w"

definition CTCPReply :: "'w writer \<Rightarrow> string \<Rightarrow> string \<Rightarrow> string list \<Rightarrow> 'w \<Rightarrow> 'w sent" where
  "CTCPReply wr target tag data w = send_ctcp wr NOTICE target tag (Sprint data) w"

definition CTCPReplyln :: "'w writer \<Rightarrow> string \<Rightarrow> string \<Rightarrow> string list \<Rightarrow> 'w \<Rightarrow> 'w sent" where
  "CTCPReplyln wr target tag data w = send_ctcp wr NOTICE target tag (butlast (Sprintln data)) w"

definition CTCPReplyf :: "'w writer \<Rightarrow> string \<Rightarrow> string \<Rightarrow> string \<Rightarrow> 'w \<Rightarrow> 'w sent" where
  "CTCPReplyf wr target tag formatted w = send_ctcp wr NOTICE target tag formatted w"

text \<open>Where a notification goes: to the channel of the event, else as a notice to the given target.\<close>

definition notify_header :: "Event \<Rightarrow> string \<Rightarrow> string outcome" where
  "notify_header ev target =
     and_then (IsTargetChan ev) (\<lambda>isChan.
       if isChan then and_then (Target ev) (\<lambda>chan. Inr (msg_header PRIVMSG chan))
       else Inr (msg_header NOTICE target))"

definition send_notify :: "'w writer \<Rightarrow> Event \<Rightarrow> string \<Rightarrow> string \<Rightarrow> 'w \<Rightarrow> 'w sent" where
  "send_notify wr ev target msg w =
     (case notify_header ev target of Inl p \<Rightarrow> Some (Inl p) | Inr header \<Rightarrow> splitSend wr header msg w)"

definition Notify :: "'w writer \<Rightarrow> Event \<Rightarrow> string \<Rightarrow> string list \<Rightarrow> 'w \<Rightarrow> 'w sent" where
  "Notify wr ev target args w = send_notify wr ev target (Sprint args) w"

definition Notifyln :: "'w writer \<Rightarrow> Event \<Rightarrow> string \<Rightarrow> string list \<Rightarrow> 'w \<Rightarrow> 'w sent" where
  "Notifyln wr ev target args w = send_notify wr ev target (butlast (Sprintln args)) w"

definition Notifyf :: "'w writer \<Rightarrow> Event \<Rightarrow> string \<Rightarrow> string \<Rightarrow> 'w \<Rightarrow> 'w sent" where
  "Notifyf wr ev target formatted w = send_notify wr ev target formatted w"

definition Join :: "'w writer \<Rightarrow> string list \<Rightarrow> 'w \<Rightarrow> 'w sent" where
  "Join wr targets w =
     (if targets = [] then Some (Inr (w, None)) else Some (Inr (wr w (JOIN @ '' :'' @ join '','' targets))))"

definition Part :: "'w writer \<Rightarrow> string list \<Rightarrow> 'w \<Rightarrow> 'w sent" where
  "Part wr targets w =
     (if targets = [] then Some (Inr (w, None)) else Some (Inr (wr w (PART @ '' :'' @ join '','' targets))))"

definition Quit :: "'w writer \<Rightarrow> string \<Rightarrow> 'w \<Rightarrow> 'w sent" where
  "Quit wr msg w = Some (Inr (wr w (QUIT @ '' :'' @ msg)))"

section \<open>Lemmas\<close>

text \<open>A list of pieces that gives a message back, some of them followed by a dropped space.\<close>

inductive pieces_of :: "string list \<Rightarrow> string \<Rightarrow> bool" where
  none: "pieces_of [] []"
| whole: "pieces_of ps m \<Longrightarrow> pieces_of (p # ps) (p @ m)"
| space: "pieces_of ps m \<Longrightarrow> pieces_of (p # ps) (p @ CHR '' '' # m)"

lemma find_SomeD: "find P xs = Some x \<Longrightarrow> x \<in> set xs \<and> P x"
  by (induction xs) (auto split: if_splits)

lemma split_point_Some:
  assumes "split_point msg m = Some i"
  shows "0 < i" "i \<le> m" "msg ! i = CHR '' ''"
proof -
  have "i \<in> set (rev [max 1 (m + 1 - SPLIT_BACKWARD)..<m + 1]) \<and> msg ! i = CHR '' ''"
    using assms unfolding split_point_def by (rule find_SomeD)
  then show "0 < i" "i \<le> m" "msg ! i = CHR '' ''" by auto
qed

lemma next_piece_props:
  assumes "next_piece msg m = (sz, skip)" "msg \<noteq> []" "0 < m"
  shows "0 < sz" "sz \<le> m" "sz \<le> length msg" "sz + skip \<le> length msg"
    and "skip = 0 \<or> (skip = 1 \<and> msg ! sz = CHR '' '')"
  using assms split_point_Some [of msg m] by (auto simp: next_piece_def split: if_splits option.splits)

lemma next_piece_rest:
  assumes "next_piece msg m = (sz, skip)" "msg \<noteq> []" "0 < m" "pieces_of ps (drop (sz + skip) msg)"
  shows "pieces_of (take sz msg # ps) msg"
proof (cases "skip = 0")
  case True
  then show ?thesis using whole [OF assms(4), of "take sz msg"] by simp
next
  case False
  note p = next_piece_props [OF assms(1-3)]
  have "sz < length msg" "skip = 1" "msg ! sz = CHR '' ''" using False p by auto
  then have "msg = take sz msg @ CHR '' '' # drop (sz + skip) msg" using id_take_nth_drop [of sz msg] by simp
  then show ?thesis using space [OF assms(4), of "take sz msg"] by simp
qed

text \<open>A writer that records what it is given and never fails.\<close>

definition recorder :: "string list writer" where
  "recorder w bytes = (w @ [bytes], None)"

lemma split_loop_recorder:
  assumes "0 < m"
  shows "\<exists>ps. split_loop recorder header m msg w = Some (w @ map (\<lambda>p. header @ p) ps, None)
    \<and> pieces_of ps msg \<and> (\<forall>p \<in> set ps. length p \<le> m)"
proof (induction "length msg" arbitrary: msg w rule: less_induct)
  case less
  show ?case
  proof (cases "msg = []")
    case True
    then show ?thesis by (auto simp: split_loop.simps intro: pieces_of.none)
  next
    case False
    obtain sz skip where np: "next_piece msg m = (sz, skip)" by (cases "next_piece msg m")
    note p = next_piece_props [OF np False assms]
    have "length (drop (sz + skip) msg) < length msg" using p False by simp
    from less [OF this, of "w @ [header @ take sz msg]"] obtain ps where
      ps: "split_loop recorder header m (drop (sz + skip) msg) (w @ [header @ take sz msg])
          = Some (w @ map (\<lambda>p. header @ p) (take sz msg # ps), None)"
        "pieces_of ps (drop (sz + skip) msg)" "\<forall>p \<in> set ps. length p \<le> m" by auto
    have "split_loop recorder header m msg w = Some (w @ map (\<lambda>p. header @ p) (take sz msg # ps), None)"
      using False np ps(1) by (subst split_loop.simps) (simp add: recorder_def)
    moreover have "\<forall>q \<in> set (take sz msg # ps). length q \<le> m" using p ps(3) by auto
    ultimately show ?thesis using next_piece_rest [OF np False assms ps(2)] by blast
  qed
qed

lemma split_loop_returns:
  assumes "0 < m" shows "\<exists>r. split_loop wr header m msg w = Some r"
proof (induction "length msg" arbitrary: msg w rule: less_induct)
  case less
  show ?case
  proof (cases "msg = []")
    case False
    obtain sz skip where np: "next_piece msg m = (sz, skip)" by (cases "next_piece msg m")
    then have "length (drop (sz + skip) msg) < length msg"
      using next_piece_props [OF np False assms] False by simp
    from less [OF this] False np show ?thesis
      by (subst split_loop.simps) (auto split: prod.splits option.splits)
  qed (simp add: split_loop.simps)
qed

text \<open>With no room for the message the loop writes the header for ever.\<close>

lemma split_loop_stuck_aux:
  assumes "split_loop wr header m msg w = Some r"
  shows "m = 0 \<longrightarrow> (\<forall>w b. snd (wr w b) = None) \<longrightarrow> msg = []"
  using assms
proof (rule split_loop.raw_induct [rotated], intro impI)
  fix loop wr header m msg w r
  assume IH: "\<And>wr header m msg w r. loop wr header m msg w = Some r \<Longrightarrow>
      m = 0 \<longrightarrow> (\<forall>w b. snd ((wr :: 'a writer) w b) = None) \<longrightarrow> msg = []"
    and eq: "(if msg = [] then Some (w, None)
      else (case next_piece msg m of (sz, skip) \<Rightarrow>
        (case (wr :: 'a writer) w (header @ take sz msg) of
           (w', Some err) \<Rightarrow> Some (w', Some err)
         | (w', None) \<Rightarrow> loop wr header m (drop (sz + skip) msg) w'))) = Some r"
    and m: "m = 0" and ok: "\<forall>w b. snd (wr w b) = None"
  show "msg = []"
  proof (rule ccontr)
    assume ne: "msg \<noteq> []"
    have np: "next_piece msg 0 = (0, 0)" using ne by (simp add: next_piece_def split_point_def)
    obtain w' where "wr w header = (w', None)" using ok by (metis prod.collapse)
    then have "loop wr header m msg w' = Some r" using eq ne np m by simp
    then show False using IH m ok ne by blast
  qed
qed

lemma split_loop_stuck:
  assumes "\<And>w b. snd (wr w b) = None" "msg \<noteq> []"
  shows "split_loop wr header 0 msg w = None"
  using split_loop_stuck_aux [of wr header 0 msg w] assms by (cases "split_loop wr header 0 msg w") auto

section \<open>Properties\<close>

text \<open>
  C12: Splitting is correct.  For a header that leaves room on the line, \<^verbatim>\<open>splitSend\<close> returns, and
  what it writes is the header followed by each piece of the message; no line is longer than
  \<^verbatim>\<open>IRC_MAX_LENGTH\<close>, and the pieces give the message back up to one space dropped between some of
  them.
\<close>

theorem splitSend_correct:
  assumes "length header < IRC_MAX_LENGTH"
  shows "\<exists>ps. splitSend recorder header msg w = Some (Inr (w @ map (\<lambda>p. header @ p) ps, None))
    \<and> pieces_of ps msg \<and> list_all (\<lambda>p. length (header @ p) \<le> IRC_MAX_LENGTH) ps"
proof (cases "length header + length msg \<le> IRC_MAX_LENGTH")
  case True
  then show ?thesis using pieces_of.whole [OF pieces_of.none, of msg]
    by (intro exI [of _ "[msg]"]) (simp add: splitSend_def recorder_def)
next
  case False
  have "0 < IRC_MAX_LENGTH - length header" using assms by simp
  from split_loop_recorder [OF this, of header msg w] obtain ps where
    "split_loop recorder header (IRC_MAX_LENGTH - length header) msg w = Some (w @ map (\<lambda>p. header @ p) ps, None)"
    "pieces_of ps msg" "\<forall>p \<in> set ps. length p \<le> IRC_MAX_LENGTH - length header" by blast
  moreover have "msg \<noteq> []" using False assms by auto
  ultimately show ?thesis using False assms by (fastforce simp: splitSend_def list_all_iff)
qed

theorem splitSend_correct_witness:
  "\<exists>ps. Privmsg recorder ''#c'' [''hello '', ''world''] [] = Some (Inr (map (\<lambda>p. ''PRIVMSG #c :'' @ p) ps, None))
     \<and> pieces_of ps ''hello world''"
proof -
  have "length (msg_header PRIVMSG ''#c'') < IRC_MAX_LENGTH" by (simp add: msg_header_def IRC_MAX_LENGTH_def)
  from splitSend_correct [OF this, of "''hello world''" "[]"] show ?thesis
    by (auto simp: Privmsg_def Sprint_def msg_header_def)
qed

text \<open>
  C40: When sending returns.  A header shorter than a line: always, whatever the writer does.  A
  header of exactly a line: never, for a message that is not empty and a writer that does not fail.
  A longer header: it panics.
\<close>

theorem splitSend_returns:
  "(length header < IRC_MAX_LENGTH \<longrightarrow> (\<exists>r. splitSend wr header msg w = Some (Inr r)))
   \<and> (length header = IRC_MAX_LENGTH \<and> msg \<noteq> [] \<and> (\<forall>w b. snd (wr w b) = None) \<longrightarrow> splitSend wr header msg w = None)
   \<and> (length header > IRC_MAX_LENGTH \<and> msg \<noteq> [] \<longrightarrow> splitSend wr header msg w = Some (Inl IndexOutOfRange))"
proof (intro conjI impI)
  assume l: "length header < IRC_MAX_LENGTH"
  then have "0 < IRC_MAX_LENGTH - length header" by simp
  from split_loop_returns [OF this, of wr header msg w] l show "\<exists>r. splitSend wr header msg w = Some (Inr r)"
    by (auto simp: splitSend_def)
next
  assume "length header = IRC_MAX_LENGTH \<and> msg \<noteq> [] \<and> (\<forall>w b. snd (wr w b) = None)"
  then show "splitSend wr header msg w = None" by (simp add: splitSend_def split_loop_stuck)
qed (simp add: splitSend_def)

theorem splitSend_returns_witness:
  "splitSend recorder (replicate 448 CHR ''x'') ''hi'' [] = None"
  using splitSend_returns [of "replicate 448 CHR ''x''" recorder "''hi''" "[]"]
  by (simp add: IRC_MAX_LENGTH_def recorder_def)

end
