(* ===== verification/InetQueue.thy ===== *)
theory InetQueue
  imports Prelude
begin

text \<open>
  The write queue, \<^verbatim>\<open>src/inet/queue.go\<close>: a singly-linked list of nodes with front and back
  pointers.  The nodes live in a heap; the interface \<^verbatim>\<open>fifo\<close> states what a client of a queue relies
  on, and its interpretation shows that the linked list implements it.
\<close>

section \<open>The interface\<close>

text \<open>
  A queue of non-empty items behind an abstraction to lists: adding an empty item does nothing,
  taking from an empty queue gives nothing, and neither operation panics while the invariant holds.
\<close>

locale fifo =
  fixes empty :: 'q and enq :: "string \<Rightarrow> 'q \<Rightarrow> 'q outcome" and deq :: "'q \<Rightarrow> (string \<times> 'q) outcome"
    and items :: "'q \<Rightarrow> string list" and inv :: "'q \<Rightarrow> bool"
  assumes empty_ok: "inv empty \<and> items empty = []"
    and enq_ok: "inv q \<Longrightarrow> \<exists>q'. enq x q = Inr q' \<and> inv q' \<and> items q' = (if x = [] then items q else items q @ [x])"
    and deq_ok: "inv q \<Longrightarrow> \<exists>q'. deq q = Inr (if items q = [] then [] else hd (items q), q')
                   \<and> inv q' \<and> items q' = tl (items q)"
begin

text \<open>A run of enqueues, and of dequeues, over any implementation.\<close>

lemma enq_all:
  "inv q \<Longrightarrow> \<exists>q'. fold_outcome enq xs q = Inr q' \<and> inv q' \<and> items q' = items q @ filter (\<lambda>x. x \<noteq> []) xs"
proof (induction xs arbitrary: q)
  case (Cons x xs)
  from enq_ok [OF Cons.prems, of x] obtain q1 where q1: "enq x q = Inr q1" "inv q1"
    "items q1 = (if x = [] then items q else items q @ [x])" by blast
  from Cons.IH [OF q1(2)] q1 show ?case by auto
qed simp

lemma deq_items_Cons:
  assumes "inv q" "items q = x # xs"
  obtains q' where "deq q = Inr (x, q')" "inv q'" "items q' = xs"
  using deq_ok [OF assms(1)] assms(2) by auto

end

section \<open>The linked list\<close>

record queueNode =
  qn_next :: "nat option"
  qn_data :: string

record Queue =
  q_heap :: "nat \<rightharpoonup> queueNode"
  q_new :: nat
  q_front :: "nat option"
  q_back :: "nat option"
  q_length :: int

definition empty_queue :: Queue where
  "empty_queue = \<lparr>q_heap = Map.empty, q_new = 0, q_front = None, q_back = None, q_length = 0\<rparr>"

definition Enqueue :: "string \<Rightarrow> Queue \<Rightarrow> Queue outcome" where
  "Enqueue bytes q =
     (if bytes = [] then Inr q
      else
        let node = q_new q;
            q = q\<lparr>q_heap := (q_heap q)(node \<mapsto> \<lparr>qn_next = None, qn_data = bytes\<rparr>), q_new := node + 1\<rparr>
        in if q_length q = 0
           then Inr (q\<lparr>q_front := Some node, q_back := Some node, q_length := q_length q + 1\<rparr>)
           else
             and_then (deref (q_back q)) (\<lambda>b.
             and_then (deref (q_heap q b)) (\<lambda>n.
               Inr (q\<lparr>q_heap := (q_heap q)(b \<mapsto> n\<lparr>qn_next := Some node\<rparr>), q_back := Some node,
                      q_length := q_length q + 1\<rparr>))))"

definition Dequeue :: "Queue \<Rightarrow> (string \<times> Queue) outcome" where
  "Dequeue q =
     (if q_length q = 0 then Inr ([], q)
      else
        and_then (deref (q_front q)) (\<lambda>f.
        and_then (deref (q_heap q f)) (\<lambda>n.
          Inr (qn_data n,
               q\<lparr>q_front := qn_next n, q_back := (if q_length q = 1 then None else q_back q),
                 q_length := q_length q - 1\<rparr>))))"

section \<open>Abstraction\<close>

fun path :: "(nat \<rightharpoonup> queueNode) \<Rightarrow> nat option \<Rightarrow> nat list \<Rightarrow> bool" where
  "path h p [] \<longleftrightarrow> p = None"
| "path h p (r # rs) \<longleftrightarrow> p = Some r \<and> (\<exists>n. h r = Some n \<and> path h (qn_next n) rs)"

primrec follow :: "nat \<Rightarrow> (nat \<rightharpoonup> queueNode) \<Rightarrow> nat option \<Rightarrow> string list" where
  "follow 0 h p = []"
| "follow (Suc k) h p =
     (case p of None \<Rightarrow> [] | Some r \<Rightarrow> (case h r of None \<Rightarrow> [] | Some n \<Rightarrow> qn_data n # follow k h (qn_next n)))"

definition queue_items :: "Queue \<Rightarrow> string list" where
  "queue_items q = follow (nat (q_length q)) (q_heap q) (q_front q)"

definition queue_inv :: "Queue \<Rightarrow> bool" where
  "queue_inv q \<longleftrightarrow> (\<exists>rs. path (q_heap q) (q_front q) rs \<and> distinct rs \<and> q_length q = int (length rs)
     \<and> q_back q = (if rs = [] then None else Some (last rs)) \<and> (\<forall>r \<in> set rs. r < q_new q))"

lemma path_follow: "path h p rs \<Longrightarrow> follow (length rs) h p = map (\<lambda>r. qn_data (the (h r))) rs"
  by (induction rs arbitrary: p) auto

lemma path_cong: "path h p rs \<Longrightarrow> (\<And>r. r \<in> set rs \<Longrightarrow> h' r = h r) \<Longrightarrow> path h' p rs"
  by (induction rs arbitrary: p) auto

lemma path_snoc:
  assumes "path h p rs" "rs \<noteq> []" "distinct rs" "new \<notin> set rs" "h (last rs) = Some n"
  shows "path (h(new \<mapsto> \<lparr>qn_next = None, qn_data = x\<rparr>, last rs \<mapsto> n\<lparr>qn_next := Some new\<rparr>)) p (rs @ [new])"
  using assms
proof (induction rs arbitrary: p)
  case (Cons r rs)
  then obtain m where m: "p = Some r" "h r = Some m" "path h (qn_next m) rs" by auto
  show ?case
  proof (cases "rs = []")
    case True
    then show ?thesis using Cons.prems m by auto
  next
    case False
    then have "r \<noteq> last rs" using Cons.prems(3) by (metis distinct.simps(2) last_in_set)
    then show ?thesis using Cons m False by auto
  qed
qed simp

lemma path_last: "path h p rs \<Longrightarrow> rs \<noteq> [] \<Longrightarrow> h (last rs) \<noteq> None"
  by (induction rs arbitrary: p) (auto split: if_splits)

lemma Enqueue_ok:
  assumes "queue_inv q"
  shows "\<exists>q'. Enqueue x q = Inr q' \<and> queue_inv q'
    \<and> queue_items q' = (if x = [] then queue_items q else queue_items q @ [x])"
proof (cases "x = []")
  case False
  obtain rs where rs: "path (q_heap q) (q_front q) rs" "distinct rs" "q_length q = int (length rs)"
    "q_back q = (if rs = [] then None else Some (last rs))" "\<forall>r \<in> set rs. r < q_new q"
    using assms by (auto simp: queue_inv_def)
  have items: "queue_items q = map (\<lambda>r. qn_data (the (q_heap q r))) rs"
    using path_follow [OF rs(1)] rs(3) by (simp add: queue_items_def)
  have new: "q_new q \<notin> set rs" using rs(5) by auto
  show ?thesis
  proof (cases "rs = []")
    case True
    define q' where "q' = q\<lparr>q_heap := (q_heap q)(q_new q \<mapsto> \<lparr>qn_next = None, qn_data = x\<rparr>), q_new := q_new q + 1,
      q_front := Some (q_new q), q_back := Some (q_new q), q_length := 1\<rparr>"
    have "Enqueue x q = Inr q'" using True rs False by (simp add: Enqueue_def Let_def q'_def)
    moreover have "path (q_heap q') (q_front q') [q_new q]" by (simp add: q'_def)
    then have "queue_inv q'" unfolding queue_inv_def by (intro exI [of _ "[q_new q]"]) (simp add: q'_def)
    moreover have "queue_items q' = queue_items q @ [x]" using True items by (simp add: queue_items_def q'_def)
    ultimately show ?thesis using False by auto
  next
    case ne: False
    obtain n where n: "q_heap q (last rs) = Some n" using path_last [OF rs(1) ne] by auto
    have l: "last rs \<noteq> q_new q" using new ne by (metis last_in_set)
    define h' where "h' = (q_heap q)(q_new q \<mapsto> \<lparr>qn_next = None, qn_data = x\<rparr>, last rs \<mapsto> n\<lparr>qn_next := Some (q_new q)\<rparr>)"
    define q' where "q' = q\<lparr>q_heap := h', q_new := q_new q + 1, q_back := Some (q_new q), q_length := q_length q + 1\<rparr>"
    have e: "Enqueue x q = Inr q'" using ne rs False n l by (simp add: Enqueue_def Let_def q'_def h'_def)
    have p: "path h' (q_front q') (rs @ [q_new q])"
      using path_snoc [OF rs(1) ne rs(2) new n] by (simp add: h'_def q'_def)
    have inv: "queue_inv q'" unfolding queue_inv_def
      using p rs new by (intro exI [of _ "rs @ [q_new q]"]) (auto simp: q'_def)
    have "follow (nat (q_length q')) h' (q_front q') = map (\<lambda>r. qn_data (the (h' r))) (rs @ [q_new q])"
      using path_follow [OF p] rs(3) by (simp add: q'_def nat_add_distrib)
    moreover have "qn_data (the (h' r)) = qn_data (the (q_heap q r))" if "r \<in> set rs" for r
      using that n new by (auto simp: h'_def)
    ultimately have "queue_items q' = queue_items q @ [x]"
      using items l by (simp add: queue_items_def q'_def h'_def)
    with e inv False show ?thesis by auto
  qed
qed (use assms in \<open>simp add: Enqueue_def\<close>)

lemma Dequeue_ok:
  assumes "queue_inv q"
  shows "\<exists>q'. Dequeue q = Inr (if queue_items q = [] then [] else hd (queue_items q), q')
    \<and> queue_inv q' \<and> queue_items q' = tl (queue_items q)"
proof -
  obtain rs where rs: "path (q_heap q) (q_front q) rs" "distinct rs" "q_length q = int (length rs)"
    "q_back q = (if rs = [] then None else Some (last rs))" "\<forall>r \<in> set rs. r < q_new q"
    using assms by (auto simp: queue_inv_def)
  show ?thesis
  proof (cases rs)
    case Nil
    then show ?thesis using rs assms by (simp add: Dequeue_def queue_items_def)
  next
    case (Cons r rest)
    then obtain n where n: "q_front q = Some r" "q_heap q r = Some n" "path (q_heap q) (qn_next n) rest" using rs(1) by auto
    define q' where "q' = q\<lparr>q_front := qn_next n, q_back := (if rest = [] then None else q_back q), q_length := int (length rest)\<rparr>"
    have "Dequeue q = Inr (qn_data n, q')" using rs Cons n by (simp add: Dequeue_def q'_def)
    moreover have "queue_inv q'" unfolding queue_inv_def
      using rs Cons n by (intro exI [of _ rest]) (auto simp: q'_def)
    moreover have "queue_items q = qn_data n # queue_items q'"
      using rs(3) Cons n by (simp add: queue_items_def q'_def nat_add_distrib)
    ultimately show ?thesis by auto
  qed
qed

interpretation linked: fifo empty_queue Enqueue Dequeue queue_items queue_inv
  by unfold_locales
    (use Enqueue_ok Dequeue_ok in \<open>auto simp: queue_inv_def queue_items_def empty_queue_def\<close>)

section \<open>Properties\<close>

fun dequeue_n :: "nat \<Rightarrow> Queue \<Rightarrow> (string list \<times> Queue) outcome" where
  "dequeue_n 0 q = Inr ([], q)"
| "dequeue_n (Suc k) q =
     and_then (Dequeue q) (\<lambda>(x, q). and_then (dequeue_n k q) (\<lambda>(xs, q). Inr (x # xs, q)))"

lemma dequeue_n_items:
  "queue_inv q \<Longrightarrow> k \<le> length (queue_items q) \<Longrightarrow>
   \<exists>q'. dequeue_n k q = Inr (take k (queue_items q), q') \<and> queue_inv q' \<and> queue_items q' = drop k (queue_items q)"
proof (induction k arbitrary: q)
  case (Suc k)
  then obtain x xs where xs: "queue_items q = x # xs" by (cases "queue_items q") auto
  with Suc.prems(1) obtain q1 where "Dequeue q = Inr (x, q1)" "queue_inv q1" "queue_items q1 = xs"
    by (rule linked.deq_items_Cons)
  with Suc xs show ?case by force
qed simp

text \<open>
  The linked queue is a first-in first-out queue of the non-empty messages: enqueuing any
  messages on an empty queue and dequeuing until it is empty returns the non-empty ones in order,
  without a nil dereference.
\<close>

theorem queue_fifo:
  "\<exists>q q'. fold_outcome Enqueue xs empty_queue = Inr q
    \<and> dequeue_n (length (filter (\<lambda>x. x \<noteq> []) xs)) q = Inr (filter (\<lambda>x. x \<noteq> []) xs, q')
    \<and> Dequeue q' = Inr ([], q')"
proof -
  obtain q where q: "fold_outcome Enqueue xs empty_queue = Inr q" "queue_inv q"
    "queue_items q = filter (\<lambda>x. x \<noteq> []) xs"
    using linked.enq_all [of empty_queue xs] linked.empty_ok by auto
  obtain q' where q': "dequeue_n (length (filter (\<lambda>x. x \<noteq> []) xs)) q = Inr (filter (\<lambda>x. x \<noteq> []) xs, q')"
    "queue_inv q'" "queue_items q' = []"
    using dequeue_n_items [OF q(2), of "length (filter (\<lambda>x. x \<noteq> []) xs)"] q(3) by auto
  have "q_length q' = 0"
  proof -
    obtain rs where "path (q_heap q') (q_front q') rs" "q_length q' = int (length rs)"
      using q'(2) by (auto simp: queue_inv_def)
    then show ?thesis using q'(3) path_follow by (fastforce simp: queue_items_def)
  qed
  then have "Dequeue q' = Inr ([], q')" by (simp add: Dequeue_def)
  with q q' show ?thesis by blast
qed

end
