(* ===== verification/InetClient.thy ===== *)
theory InetClient
  imports InetQueue
begin

text \<open>
  The connection, \<^verbatim>\<open>src/inet/client.go\<close>: splitting the bytes received into messages, cleaning and
  queueing messages to send, and the flood protection.

  Goroutines and channels: one turn of the pump's \<^verbatim>\<open>select\<close> is a step of a function on the pump's
  state, with the case that was ready as its input; what the siphon sends on its channel is the
  list of messages it hands over.  Times and durations are integers (nanoseconds) within the range
  of \<^verbatim>\<open>int64\<close>; the product of floats in the length penalty is a parameter \<^verbatim>\<open>pen\<close>.  Logging is left out.
\<close>

section \<open>Receiving\<close>

abbreviation (input) CR :: char where "CR \<equiv> CHR 0x0D"
abbreviation (input) LF :: char where "LF \<equiv> CHR 0x0A"

definition bufferSize :: nat where "bufferSize = 16348"

text \<open>
  The loop of \<^verbatim>\<open>findChunks\<close>.  The callback \<^verbatim>\<open>block\<close> changes a state and tells whether to abort.
  The result is \<^verbatim>\<open>start\<close>, whether bytes remain, whether the callback aborted, and the state.
\<close>

function chunk_loop :: "('s \<Rightarrow> string \<Rightarrow> 's \<times> bool) \<Rightarrow> string \<Rightarrow> nat \<Rightarrow> nat \<Rightarrow> 's \<Rightarrow> nat \<times> bool \<times> bool \<times> 's" where
  "chunk_loop block buf start i s =
     (if i < length buf then
        (if buf ! (i - 1) = CR \<and> buf ! i = LF then
           (case block s (take (i + 1 - start) (drop start buf)) of
              (s, stop) \<Rightarrow>
                if stop then (start, False, True, s)
                else if i + 1 = length buf then (start, False, False, s)
                else chunk_loop block buf (i + 1) (i + 2) s)
         else chunk_loop block buf start (i + 1) s)
      else (start, True, False, s))"
  by pat_completeness auto
termination by (relation "measure (\<lambda>(block, buf, start, i, s). length buf - i)") auto

declare chunk_loop.simps [simp del]

definition findChunks :: "string \<Rightarrow> ('s \<Rightarrow> string \<Rightarrow> 's \<times> bool) \<Rightarrow> 's \<Rightarrow> nat \<times> bool \<times> bool \<times> 's" where
  "findChunks buf block s = chunk_loop block buf 0 1 s"

text \<open>
  \<^verbatim>\<open>send\<close> hands over the chunk without its line end; \<^verbatim>\<open>kill\<close> tells whether the reader closed the
  client instead of taking the message with a given number.
\<close>

definition send_chunk :: "(nat \<Rightarrow> bool) \<Rightarrow> string list \<Rightarrow> string \<Rightarrow> string list \<times> bool" where
  "send_chunk kill sent chunk =
     (if kill (length sent) then (sent, True) else (sent @ [take (length chunk - 2) chunk], False))"

text \<open>The bytes left at the front of the buffer, whether to shut down, and the messages sent.\<close>

definition extractMessages :: "(nat \<Rightarrow> bool) \<Rightarrow> string \<Rightarrow> string list \<Rightarrow> string \<times> bool \<times> string list" where
  "extractMessages kill buf sent =
     (case findChunks buf (send_chunk kill) sent of (start, remaining, abort, sent) \<Rightarrow>
        if abort then ([], True, sent)
        else if remaining then (drop start buf, False, sent)
        else ([], False, sent))"

text \<open>
  The loop of \<^verbatim>\<open>siphon\<close> over the results of \<^verbatim>\<open>Read\<close>; a read gives at most as many bytes as the
  buffer has room for.
\<close>

fun siphon_loop :: "(nat \<Rightarrow> bool) \<Rightarrow> string list \<Rightarrow> string \<Rightarrow> string list \<Rightarrow> string \<times> bool \<times> string list" where
  "siphon_loop kill [] rest sent = (rest, False, sent)"
| "siphon_loop kill (bytes # reads) rest sent =
     (let bytes = take (bufferSize - length rest) bytes in
      if bytes = [] then siphon_loop kill reads rest sent
      else (case extractMessages kill (rest @ bytes) sent of (rest, shutdown, sent) \<Rightarrow>
        if shutdown then (rest, True, sent) else siphon_loop kill reads rest sent))"

text \<open>\<^verbatim>\<open>Read\<close>: copies from the message being read, fetching the next one at position 0.\<close>

record Reader =
  readbuf :: string
  pos :: nat

definition Client_Read :: "string option \<Rightarrow> nat \<Rightarrow> Reader \<Rightarrow> (string option \<times> Reader)" where
  "Client_Read next_msg len r =
     (case (if pos r = 0 then next_msg else Some (readbuf r)) of
        None \<Rightarrow> (None, r\<lparr>readbuf := []\<rparr>)
      | Some buf \<Rightarrow>
          (let out = take len (drop (pos r) buf); p = pos r + length out in
           (Some out, if p = length buf then \<lparr>readbuf = [], pos = 0\<rparr> else \<lparr>readbuf = buf, pos = p\<rparr>)))"

section \<open>Sending\<close>

text \<open>What \<^verbatim>\<open>Write\<close> gives to the pump: the bytes without CR, LF and NUL, and a line end.\<close>

definition clean_message :: "string \<Rightarrow> string" where
  "clean_message buf =
     (let buf = replace_all [CR] [] buf;
          buf = replace_all [LF] [] buf;
          buf = replace_all [CHR 0x00] [] buf
      in buf @ [CR, LF])"

text \<open>The message given to the pump, if any, and the result; \<^verbatim>\<open>running\<close> tells if the pump is there to take it.\<close>

definition Client_Write :: "bool \<Rightarrow> string \<Rightarrow> string option \<times> (string + nat)" where
  "Client_Write running buf =
     (if buf = [] then (None, Inr 0)
      else if \<not> running then (None, Inl ''EOF'')
      else (Some (clean_message buf), Inr (length buf)))"

text \<open>Go's division truncates towards zero.\<close>

definition go_div :: "int \<Rightarrow> int \<Rightarrow> int" where
  "go_div a b = sgn a * sgn b * (\<bar>a\<bar> div \<bar>b\<bar>)"

record Throttle =
  lastwrite :: int
  penalty :: int
  th_timeout :: int
  basestep :: int
  scale :: int

definition roundToScale :: "Throttle \<Rightarrow> int \<Rightarrow> int" where
  "roundToScale c x = go_div (x + go_div (scale c) 2) (scale c) * scale c"

definition calcSleepTime :: "(nat \<Rightarrow> int) \<Rightarrow> int \<Rightarrow> nat \<Rightarrow> Throttle \<Rightarrow> int \<times> Throttle" where
  "calcSleepTime pen t msgLen c =
     (let c = (if lastwrite c > penalty c then c\<lparr>penalty := lastwrite c\<rparr> else c);
          applyPenalty = (roundToScale c (penalty c - t) \<ge> th_timeout c);
          c = c\<lparr>penalty := penalty c + (basestep c + roundToScale c (pen msgLen))\<rparr>
      in if applyPenalty then
           (let sleep = roundToScale c (penalty c - t - th_timeout c)
            in ((if sleep > th_timeout c then th_timeout c else sleep), c))
         else (0, c))"

text \<open>
  The pump.  \<^verbatim>\<open>sleeping\<close> is \<^verbatim>\<open>sleeper != nil\<close>; \<^verbatim>\<open>out\<close> is what has been written to the connection.
  An event is a ready case of the \<^verbatim>\<open>select\<close>, with the time and the error that \<^verbatim>\<open>writeMessage\<close>
  returns if it is called; after an error the loop ends.  A connection's \<^verbatim>\<open>Write\<close> takes all bytes
  or reports an error, so the loop of \<^verbatim>\<open>writeMessage\<close> runs once for a message that is not empty.
\<close>

record Pump =
  throttle :: Throttle
  queue :: Queue
  sleeping :: bool
  out :: "string list"
  failed :: "string option"

datatype pump_event = Message string | SleepOver | PingOver

definition ping :: string where "ping = ''PING :ping'' @ [CR, LF]"

definition pong :: string where "pong = ''PONG''"

text \<open>
  A write takes all bytes or fails, as \<^verbatim>\<open>io.Writer\<close> documents, so the loop is run once.  The slice for the log drops the
  line end and panics on a message of one byte, whatever the write returned.
\<close>

definition writeMessage :: "int \<Rightarrow> string option \<Rightarrow> string \<Rightarrow> Pump \<Rightarrow> Pump outcome" where
  "writeMessage now werr msg p =
     (if msg = [] then Inr p
      else if length msg < 2 then Inl SliceBounds
      else (case werr of
        Some err \<Rightarrow> Inr (p\<lparr>failed := Some err\<rparr>)
      | None \<Rightarrow> Inr (p\<lparr>out := out p @ [msg], throttle := (throttle p)\<lparr>lastwrite := now\<rparr>\<rparr>)))"

definition enqueue_msg :: "string \<Rightarrow> Pump \<Rightarrow> Pump outcome" where
  "enqueue_msg msg p = and_then (Enqueue msg (queue p)) (\<lambda>q. Inr (p\<lparr>queue := q\<rparr>))"

definition pump_step :: "(nat \<Rightarrow> int) \<Rightarrow> int \<Rightarrow> string option \<Rightarrow> pump_event \<Rightarrow> Pump \<Rightarrow> Pump outcome" where
  "pump_step pen now werr ev p =
     (if failed p \<noteq> None then Inr p
      else (case ev of
        Message message \<Rightarrow>
          (if message = [] then Inr p
           else if prefix pong message then writeMessage now werr message p
           else if \<not> sleeping p then
             (case calcSleepTime pen now (length message) (throttle p) of (sleepTime, th) \<Rightarrow>
                let p = p\<lparr>throttle := th\<rparr> in
                if sleepTime = 0 then writeMessage now werr message p
                else and_then (enqueue_msg message p) (\<lambda>p. Inr (p\<lparr>sleeping := True\<rparr>)))
           else enqueue_msg message p)
      | SleepOver \<Rightarrow>
          (if \<not> sleeping p then Inr p
           else and_then (Dequeue (queue p)) (\<lambda>(message, q).
             and_then (writeMessage now werr message (p\<lparr>queue := q\<rparr>)) (\<lambda>p.
             if failed p \<noteq> None then Inr p
             else if q_length (queue p) > 0 then
               (case calcSleepTime pen now (length message) (throttle p) of (sleepTime, th) \<Rightarrow>
                  Inr (p\<lparr>throttle := th, sleeping := True\<rparr>))
             else Inr (p\<lparr>sleeping := False\<rparr>))))
      | PingOver \<Rightarrow>
          (if sleeping p then enqueue_msg ping p else writeMessage now werr ping p)))"

section \<open>Errors of closing\<close>

record ClientError =
  ce_Socket :: "string option"
  ce_Pump :: "string option"
  ce_Siphon :: "string option"

definition CheckNeeded :: "ClientError \<Rightarrow> ClientError option" where
  "CheckNeeded c =
     (if ce_Pump c \<noteq> None \<or> ce_Siphon c \<noteq> None \<or> ce_Socket c \<noteq> None then Some c else None)"

definition ClientError_Error :: "ClientError \<Rightarrow> string" where
  "ClientError_Error c =
     join '' || ''
       ((case ce_Socket c of None \<Rightarrow> [] | Some e \<Rightarrow> [''Socket: '' @ e])
        @ (case ce_Pump c of None \<Rightarrow> [] | Some e \<Rightarrow> [''Pump: '' @ e])
        @ (case ce_Siphon c of None \<Rightarrow> [] | Some e \<Rightarrow> [''Siphon: '' @ e]))"

section \<open>Lemmas on receiving\<close>

text \<open>The specification of framing: the messages that end with CR LF, and what is left.\<close>

fun crlf_split :: "string \<Rightarrow> string list \<times> string" where
  "crlf_split (c # d # cs) =
     (if c = CR \<and> d = LF then (case crlf_split cs of (ms, r) \<Rightarrow> ([] # ms, r))
      else (case crlf_split (d # cs) of ([], r) \<Rightarrow> ([], c # r) | (m # ms, r) \<Rightarrow> ((c # m) # ms, r)))"
| "crlf_split s = ([], s)"

lemma crlf_split_none: "crlf_split s = ([], r) \<Longrightarrow> r = s"
proof (induction s arbitrary: r rule: crlf_split.induct)
  case (1 c d cs)
  then show ?case by (auto split: if_splits prod.splits list.splits)
qed auto

lemma crlf_split_append:
  "crlf_split (a @ b) = (case crlf_split a of (ms, r) \<Rightarrow> (case crlf_split (r @ b) of (ms', r') \<Rightarrow> (ms @ ms', r')))"
proof (induction a rule: crlf_split.induct)
  case (1 c d cs)
  show ?case
  proof (cases "c = CR \<and> d = LF")
    case True
    with 1(1) show ?thesis by (auto split: prod.splits)
  next
    case False
    obtain ms r where mr: "crlf_split (d # cs) = (ms, r)" by (cases "crlf_split (d # cs)")
    show ?thesis
    proof (cases ms)
      case Nil
      then have "r = d # cs" using mr crlf_split_none by blast
      then show ?thesis using False mr Nil by (auto split: prod.splits list.splits)
    next
      case (Cons m ms')
      have "crlf_split (d # cs @ b) = (case crlf_split (r @ b) of (ms2, r') \<Rightarrow> (ms @ ms2, r'))"
        using 1(2) [OF False] mr by simp
      then show ?thesis using False mr Cons by (auto split: prod.splits)
    qed
  qed
qed (auto split: prod.splits)

lemma crlf_split_short: "length s \<le> 1 \<Longrightarrow> crlf_split s = ([], s)"
  by (cases s rule: crlf_split.cases) auto

text \<open>The loop computes the specification when every message is taken.\<close>

abbreviation (input) take_all :: "nat \<Rightarrow> bool" where "take_all \<equiv> (\<lambda>_. False)"

definition loop_result :: "string \<Rightarrow> nat \<times> bool \<times> bool \<times> string list \<Rightarrow> string \<times> bool \<times> string list" where
  "loop_result buf r = (case r of (start, remaining, abort, sent) \<Rightarrow> ((if remaining then drop start buf else []), abort, sent))"

lemma chunk_loop_split:
  assumes "start < i" "i \<le> length buf + 1" "start \<le> length buf"
  shows "loop_result buf (chunk_loop (send_chunk take_all) buf start i sent) =
    (let p = take (i - 1 - start) (drop start buf) in
     case crlf_split (drop (i - 1) buf) of
       ([], r) \<Rightarrow> (p @ r, False, sent)
     | (m # ms, r) \<Rightarrow> (r, False, sent @ (p @ m) # ms))"
  using assms
proof (induction "length buf - i" arbitrary: start i sent rule: less_induct)
  case less
  show ?case
  proof (cases "i < length buf")
    case False
    then have "crlf_split (drop (i - 1) buf) = ([], drop (i - 1) buf)" by (intro crlf_split_short) simp
    moreover have "drop start buf = take (i - 1 - start) (drop start buf) @ drop (i - 1) buf"
      using less.prems by (metis append_take_drop_id drop_drop add.commute le_add_diff_inverse2 less_imp_le_nat diff_Suc_1 less_eq_Suc_le One_nat_def Suc_pred' le_diff_conv2 gr_implies_not0 not_less_zero bot_nat_0.not_eq_extremum Suc_leI diff_le_mono)
    ultimately show ?thesis using False
      by (subst chunk_loop.simps) (simp add: loop_result_def Let_def)
  next
    case True
    let ?p = "take (i - 1 - start) (drop start buf)"
    have d: "drop (i - 1) buf = buf ! (i - 1) # buf ! i # drop (i + 1) buf"
      using True less.prems by (metis Cons_nth_drop_Suc Suc_eq_plus1 Suc_pred' less_imp_diff_less gr_implies_not0 bot_nat_0.not_eq_extremum)
    show ?thesis
    proof (cases "buf ! (i - 1) = CR \<and> buf ! i = LF")
      case crlf: True
      have len: "length (take (i + 1 - start) (drop start buf)) = i + 1 - start" using True less.prems by simp
      then have chunk: "take (length (take (i + 1 - start) (drop start buf)) - 2) (take (i + 1 - start) (drop start buf)) = ?p"
        using less.prems by (simp add: min_def)
      show ?thesis
      proof (cases "i + 1 = length buf")
        case fin: True
        then show ?thesis using True crlf chunk d
          by (subst chunk_loop.simps) (simp add: send_chunk_def loop_result_def Let_def)
      next
        case False
        then have IH: "loop_result buf (chunk_loop (send_chunk take_all) buf (i + 1) (i + 2) (sent @ [?p])) =
            (case crlf_split (drop (i + 1) buf) of
              ([], r) \<Rightarrow> (r, False, sent @ [?p]) | (m # ms, r) \<Rightarrow> (r, False, (sent @ [?p]) @ m # ms))"
          using less(1) [of "i + 2" "i + 1" "sent @ [?p]"] True by (simp add: Let_def split: prod.splits list.splits)
        have "chunk_loop (send_chunk take_all) buf start i sent = chunk_loop (send_chunk take_all) buf (i + 1) (i + 2) (sent @ [?p])"
          using True False crlf chunk by (subst chunk_loop.simps) (simp add: send_chunk_def)
        then show ?thesis using IH crlf d by (auto simp: Let_def split: prod.splits list.splits)
      qed
    next
      case no: False
      have p: "take (i - start) (drop start buf) = ?p @ [buf ! (i - 1)]"
        using take_Suc_conv_app_nth [of "i - 1 - start" "drop start buf"] True less.prems by (simp add: Suc_diff_Suc)
      have IH: "loop_result buf (chunk_loop (send_chunk take_all) buf start (i + 1) sent) =
          (case crlf_split (drop i buf) of
             ([], r) \<Rightarrow> (take (i - start) (drop start buf) @ r, False, sent)
           | (m # ms, r) \<Rightarrow> (r, False, sent @ (take (i - start) (drop start buf) @ m) # ms))"
        using less(1) [of "i + 1" start sent] True less.prems by (simp add: Let_def)
      have di: "drop i buf = buf ! i # drop (i + 1) buf" using True by (simp add: Cons_nth_drop_Suc)
      have "chunk_loop (send_chunk take_all) buf start i sent = chunk_loop (send_chunk take_all) buf start (i + 1) sent"
        using True no by (subst chunk_loop.simps) auto
      then show ?thesis using IH no p unfolding d di by (auto simp: Let_def split: prod.splits list.splits)
    qed
  qed
qed

lemma extractMessages_split:
  "extractMessages take_all buf sent = (snd (crlf_split buf), False, sent @ fst (crlf_split buf))"
proof -
  have "loop_result buf (chunk_loop (send_chunk take_all) buf 0 1 sent)
      = (snd (crlf_split buf), False, sent @ fst (crlf_split buf))"
    using chunk_loop_split [of 0 1 buf sent] by (auto simp: Let_def split: prod.splits list.splits)
  then show ?thesis
    by (auto simp: extractMessages_def findChunks_def loop_result_def split: prod.splits if_splits)
qed

text \<open>Reads that always fit the buffer.\<close>

fun fits :: "string list \<Rightarrow> string \<Rightarrow> bool" where
  "fits [] rest = True"
| "fits (bytes # reads) rest =
     (length rest + length bytes \<le> bufferSize \<and> fits reads (snd (crlf_split (rest @ bytes))))"

lemma siphon_loop_split:
  assumes "fits reads rest" "crlf_split rest = ([], rest)"
  shows "siphon_loop take_all reads rest sent
    = (snd (crlf_split (rest @ concat reads)), False, sent @ fst (crlf_split (rest @ concat reads)))"
  using assms
proof (induction reads arbitrary: rest sent)
  case (Cons bytes reads)
  obtain ms r where mr: "crlf_split (rest @ bytes) = (ms, r)" by (cases "crlf_split (rest @ bytes)")
  have whole: "crlf_split ((rest @ bytes) @ concat reads)
      = (ms @ fst (crlf_split (r @ concat reads)), snd (crlf_split (r @ concat reads)))"
    by (subst crlf_split_append) (simp add: mr split: prod.splits)
  have r: "crlf_split r = ([], r)"
  proof -
    have "crlf_split ((rest @ bytes) @ []) = (ms @ fst (crlf_split r), snd (crlf_split r))"
      by (subst crlf_split_append) (simp add: mr split: prod.splits)
    then show ?thesis using mr by (simp add: prod_eq_iff)
  qed
  have fit: "take (bufferSize - length rest) bytes = bytes" "fits reads r"
    using Cons.prems(1) mr by auto
  show ?case
  proof (cases "bytes = []")
    case True
    then have "r = rest" "ms = []" using mr Cons.prems(2) by auto
    then show ?thesis using True Cons.IH [OF fit(2) r] by simp
  next
    case False
    then show ?thesis using fit mr whole Cons.IH [OF fit(2) r]
      by (simp add: Let_def extractMessages_split)
  qed
qed simp

section \<open>Lemmas on sending\<close>

lemma replace_all_drop: "replace_all [a] [] s = filter (\<lambda>c. c \<noteq> a) s"
  by (induction s) (auto simp: prefix_def)

lemma clean_message_filter:
  "clean_message buf = filter (\<lambda>c. c \<noteq> CR \<and> c \<noteq> LF \<and> c \<noteq> CHR 0x00) buf @ [CR, LF]"
  by (simp add: clean_message_def Let_def replace_all_drop)

lemma crlf_split_line: "CR \<notin> set m \<Longrightarrow> crlf_split (m @ CR # LF # s) = (case crlf_split s of (ms, r) \<Rightarrow> (m # ms, r))"
proof (induction m)
  case (Cons c m)
  then show ?case by (cases m) (auto split: prod.splits)
qed simp

lemma go_div_pos: "0 < b \<Longrightarrow> go_div a b = (if a < 0 then - ((- a) div b) else a div b)"
  by (auto simp: go_div_def sgn_if)

lemma go_div_mono:
  assumes "0 < b" "a \<le> a'" shows "go_div a b \<le> go_div a' b"
proof -
  have "- ((- a) div b) \<le> 0" "0 \<le> a' div b" if "a < 0" "0 \<le> a'"
    using that assms(1) by (simp_all add: pos_imp_zdiv_nonneg_iff)
  then have "- ((- a) div b) \<le> a' div b" if "a < 0" "0 \<le> a'" using that by linarith
  then show ?thesis using assms by (auto simp: go_div_pos zdiv_mono1)
qed

lemma roundToScale_mono: "0 < scale c \<Longrightarrow> x \<le> y \<Longrightarrow> roundToScale c x \<le> roundToScale c y"
  by (simp add: roundToScale_def go_div_mono mult_right_mono)

lemma roundToScale_le:
  assumes "0 < scale c" "0 < r" "r \<le> roundToScale c x"
  shows "r \<le> x + go_div (scale c) 2"
proof -
  let ?y = "x + go_div (scale c) 2"
  have y: "0 \<le> ?y"
  proof (rule ccontr)
    assume "\<not> 0 \<le> ?y"
    then have "go_div ?y (scale c) \<le> 0" using assms(1) by (simp add: go_div_pos pos_imp_zdiv_nonneg_iff)
    then have "roundToScale c x \<le> 0" using assms(1) by (simp add: roundToScale_def mult_nonpos_nonneg)
    then show False using assms by simp
  qed
  then have "roundToScale c x = ?y div scale c * scale c" using assms(1) by (simp add: roundToScale_def go_div_pos)
  also have "\<dots> \<le> ?y" using assms(1) by (metis div_mult_mod_eq le_add_same_cancel1 pos_mod_sign)
  finally show ?thesis using assms(3) by simp
qed

lemma roundToScale_nonneg:
  "0 < scale c \<Longrightarrow> 0 \<le> x + go_div (scale c) 2 \<Longrightarrow> 0 \<le> roundToScale c x"
  by (simp add: roundToScale_def go_div_pos [of "scale c"] pos_imp_zdiv_nonneg_iff)

text \<open>The pump over a sequence of events without write errors.\<close>

fun pump_run :: "(nat \<Rightarrow> int) \<Rightarrow> (int \<times> pump_event) list \<Rightarrow> Pump \<Rightarrow> Pump outcome" where
  "pump_run pen [] p = Inr p"
| "pump_run pen ((now, ev) # evs) p = and_then (pump_step pen now None ev p) (pump_run pen evs)"

definition ordinary :: "string \<Rightarrow> bool" where
  "ordinary m \<longleftrightarrow> 2 \<le> length m \<and> \<not> prefix pong m"

definition pump_inv :: "Pump \<Rightarrow> bool" where
  "pump_inv p \<longleftrightarrow> queue_inv (queue p) \<and> (sleeping p \<longleftrightarrow> queue_items (queue p) \<noteq> []) \<and> failed p = None
     \<and> list_all ordinary (queue_items (queue p))"

text \<open>\<^verbatim>\<open>Write\<close> gives the pump messages with a line end only (\<^verbatim>\<open>clean_message\<close>).\<close>

fun sendable :: "pump_event \<Rightarrow> bool" where
  "sendable (Message m) \<longleftrightarrow> (\<exists>buf. buf \<noteq> [] \<and> m = clean_message buf)"
| "sendable _ \<longleftrightarrow> True"

text \<open>What the pump has to send in order, every message that is no PONG and the keep-alives; and the PONGs.\<close>

definition arrivals :: "pump_event \<Rightarrow> string list" where
  "arrivals ev = (case ev of Message m \<Rightarrow> if prefix pong m then [] else [m] | SleepOver \<Rightarrow> [] | PingOver \<Rightarrow> [ping])"

definition pongs :: "pump_event \<Rightarrow> string list" where
  "pongs ev = (case ev of Message m \<Rightarrow> if prefix pong m then [m] else [] | SleepOver \<Rightarrow> [] | PingOver \<Rightarrow> [])"

definition pending :: "Pump \<Rightarrow> string list" where
  "pending p = filter (\<lambda>m. \<not> prefix pong m) (out p) @ queue_items (queue p)"

definition written_pongs :: "Pump \<Rightarrow> string list" where
  "written_pongs p = filter (prefix pong) (out p)"

text \<open>What a step without write error makes of the pump: everything is accounted for, in order.\<close>

definition accounts :: "pump_event \<Rightarrow> Pump \<Rightarrow> Pump \<Rightarrow> bool" where
  "accounts ev p p' \<longleftrightarrow> pump_inv p' \<and> pending p' = pending p @ arrivals ev \<and> written_pongs p' = written_pongs p @ pongs ev"

lemmas account_defs = accounts_def pump_inv_def pending_def written_pongs_def arrivals_def pongs_def

lemma queue_length_items: "queue_inv q \<Longrightarrow> q_length q = int (length (queue_items q))"
  using path_follow by (fastforce simp: queue_inv_def queue_items_def)

lemma enqueue_msg_ok:
  assumes "queue_inv (queue p)" "m \<noteq> []"
  obtains q where "enqueue_msg m p = Inr (p\<lparr>queue := q\<rparr>)" "queue_inv q" "queue_items q = queue_items (queue p) @ [m]"
  using linked.enq_ok [OF assms(1), of m] assms(2) by (auto simp: enqueue_msg_def)

lemma ordinary_ping: "ordinary ping" "ping \<noteq> []" "\<not> prefix pong ping" "2 \<le> length ping"
  by (simp_all add: ordinary_def ping_def pong_def)

lemma sendable_length: "sendable (Message m) \<Longrightarrow> 2 \<le> length m" by (auto simp: clean_message_filter)

lemma pump_message:
  assumes "pump_inv p" "2 \<le> length m"
  shows "\<exists>p'. pump_step pen now None (Message m) p = Inr p' \<and> accounts (Message m) p p'"
proof (cases "prefix pong m")
  case True
  then show ?thesis using assms by (auto simp: pump_step_def account_defs writeMessage_def)
next
  case False
  obtain st th where st: "calcSleepTime pen now (length m) (throttle p) = (st, th)"
    by (cases "calcSleepTime pen now (length m) (throttle p)")
  have inv: "queue_inv (queue p)" "failed p = None" and m: "m \<noteq> []" "ordinary m"
    using assms False by (auto simp: pump_inv_def ordinary_def)
  show ?thesis
  proof (cases "\<not> sleeping p \<and> st = 0")
    case send: True
    then show ?thesis using assms m st False
      by (auto simp: pump_step_def account_defs writeMessage_def Let_def)
  next
    case enq: False
    define p0 where "p0 = (if sleeping p then p else p\<lparr>throttle := th\<rparr>)"
    have "queue_inv (queue p0)" using inv by (simp add: p0_def)
    then obtain q where q: "enqueue_msg m p0 = Inr (p0\<lparr>queue := q\<rparr>)" "queue_inv q" "queue_items q = queue_items (queue p0) @ [m]"
      using enqueue_msg_ok m(1) by blast
    have "pump_step pen now None (Message m) p = Inr (p0\<lparr>queue := q, sleeping := True\<rparr>)"
      using enq m False st q(1) inv by (auto simp: pump_step_def p0_def Let_def)
    then show ?thesis using assms q m False by (auto simp: account_defs p0_def)
  qed
qed

text \<open>A sleep that is over sends the first message that waits.\<close>

lemma pump_sleep:
  assumes "pump_inv p"
  shows "\<exists>p'. pump_step pen now None SleepOver p = Inr p' \<and> accounts SleepOver p p' \<and> queue_items (queue p') = tl (queue_items (queue p))"
proof (cases "sleeping p")
  case True
  then obtain x xs where xs: "queue_items (queue p) = x # xs" "queue_inv (queue p)" "ordinary x" "list_all ordinary xs"
    using assms by (cases "queue_items (queue p)") (auto simp: pump_inv_def)
  obtain q where q: "Dequeue (queue p) = Inr (x, q)" "queue_inv q" "queue_items q = xs"
    using xs(1,2) by (metis linked.deq_items_Cons)
  have x: "x \<noteq> []" "\<not> prefix pong x" "2 \<le> length x" using xs(3) by (auto simp: ordinary_def)
  obtain st th where st: "calcSleepTime pen now (length x) ((throttle p)\<lparr>lastwrite := now\<rparr>) = (st, th)"
    by (cases "calcSleepTime pen now (length x) ((throttle p)\<lparr>lastwrite := now\<rparr>)")
  have l: "q_length q > 0 \<longleftrightarrow> xs \<noteq> []" using queue_length_items [OF q(2)] q(3) by simp
  show ?thesis
    using True assms q x st l xs
    by (cases "xs = []") (auto simp: pump_step_def account_defs writeMessage_def Let_def)
qed (use assms in \<open>auto simp: pump_step_def account_defs\<close>)

lemma pump_ping:
  assumes "pump_inv p"
  shows "\<exists>p'. pump_step pen now None PingOver p = Inr p' \<and> accounts PingOver p p'"
proof (cases "sleeping p")
  case True
  have "queue_inv (queue p)" using assms by (simp add: pump_inv_def)
  then obtain q where "enqueue_msg ping p = Inr (p\<lparr>queue := q\<rparr>)" "queue_inv q" "queue_items q = queue_items (queue p) @ [ping]"
    using enqueue_msg_ok ordinary_ping by blast
  then show ?thesis using True assms ordinary_ping by (auto simp: pump_step_def account_defs)
qed (use assms ordinary_ping in \<open>auto simp: pump_step_def account_defs writeMessage_def\<close>)

lemma pump_step_ok:
  assumes "pump_inv p" "sendable ev"
  shows "\<exists>p'. pump_step pen now None ev p = Inr p' \<and> accounts ev p p'"
  using pump_message [OF assms(1)] pump_sleep [OF assms(1)] pump_ping [OF assms(1)] assms(2) sendable_length by (cases ev) blast+

lemma pump_drains:
  assumes "pump_inv p" "length (queue_items (queue p)) \<le> k"
  shows "\<exists>p'. pump_run pen (replicate k (now, SleepOver)) p = Inr p' \<and> queue_items (queue p') = [] \<and> pending p' = pending p"
  using assms
proof (induction k arbitrary: p)
  case (Suc k)
  from pump_sleep [OF Suc.prems(1), of pen now] obtain p1 where p1: "pump_step pen now None SleepOver p = Inr p1" "pump_inv p1"
    "pending p1 = pending p" "queue_items (queue p1) = tl (queue_items (queue p))" by (auto simp: accounts_def arrivals_def)
  then show ?case using Suc.IH [OF p1(2)] Suc.prems(2) by auto
qed simp

section \<open>Properties\<close>

text \<open>
  C13: Framing does not depend on how the bytes arrive.  For any sequence of reads that fit the
  buffer, the messages handed over are the CR LF terminated lines of the whole stream, in order,
  and what is left in the buffer is what follows the last line end.
\<close>

theorem siphon_framing:
  assumes "fits reads []"
  shows "siphon_loop (\<lambda>_. False) reads [] [] = (snd (crlf_split (concat reads)), False, fst (crlf_split (concat reads)))"
  using siphon_loop_split [OF assms, of "[]"] by simp

theorem siphon_framing_witness:
  "siphon_loop (\<lambda>_. False) [''PI'', ''NG'' @ [CR], [LF] @ ''x''] [] [] = (''x'', False, [''PING''])"
proof -
  have "fits [''PI'', ''NG'' @ [CR], [LF] @ ''x''] []" by (simp add: bufferSize_def)
  from siphon_framing [OF this] show ?thesis by simp
qed

text \<open>
  A write is one line.  Whatever bytes a caller writes, the pump gets them without CR, LF and
  NUL and with one line end, so the server sees exactly one message; a message cannot smuggle in a
  second command.
\<close>

theorem Write_one_line:
  assumes "buf \<noteq> []"
  shows "Client_Write True buf = (Some (clean_message buf), Inr (length buf))
    \<and> crlf_split (clean_message buf) = ([filter (\<lambda>c. c \<noteq> CHR 0x0D \<and> c \<noteq> CHR 0x0A \<and> c \<noteq> CHR 0x00) buf], [])"
proof -
  have "crlf_split (clean_message buf)
      = ([filter (\<lambda>c. c \<noteq> CR \<and> c \<noteq> LF \<and> c \<noteq> CHR 0x00) buf], [])"
    unfolding clean_message_filter by (subst crlf_split_line) auto
  then show ?thesis using assms by (simp add: Client_Write_def)
qed

theorem Write_one_line_witness:
  "crlf_split (clean_message (''PRIVMSG a :b'' @ [CR, LF] @ ''QUIT'')) = ([''PRIVMSG a :bQUIT''], [])"
  using Write_one_line [of "''PRIVMSG a :b'' @ [CR, LF] @ ''QUIT''"] by simp

text \<open>
  The flood protection never sleeps a negative time and never longer than the timeout, for a
  positive scale and penalties that are not negative, whatever the clock says.
\<close>

theorem calcSleepTime_bounds:
  assumes "0 < scale c" and "0 \<le> th_timeout c" and "0 \<le> basestep c" and "\<And>n. 0 \<le> pen n"
  shows "0 \<le> fst (calcSleepTime pen t n c) \<and> fst (calcSleepTime pen t n c) \<le> th_timeout c"
proof -
  define c1 where "c1 = (if lastwrite c > penalty c then c\<lparr>penalty := lastwrite c\<rparr> else c)"
  define P where "P = penalty c1 + (basestep c + roundToScale c (pen n))"
  have r: "roundToScale c1 = roundToScale c" "roundToScale (c1\<lparr>penalty := x\<rparr>) = roundToScale c" for x
    by (simp_all add: fun_eq_iff roundToScale_def c1_def)
  have f: "th_timeout c1 = th_timeout c" "basestep c1 = basestep c" by (simp_all add: c1_def)
  have half: "0 \<le> go_div (scale c) 2" using assms(1) by (simp add: go_div_pos)
  have grow: "penalty c1 \<le> P" using assms roundToScale_nonneg [of c "pen n"] half by (simp add: P_def)
  have eq: "fst (calcSleepTime pen t n c) =
     (if th_timeout c \<le> roundToScale c (penalty c1 - t) then min (roundToScale c (P - t - th_timeout c)) (th_timeout c) else 0)"
    by (simp add: calcSleepTime_def Let_def c1_def [symmetric] r f P_def min_def)
  have "0 \<le> roundToScale c (P - t - th_timeout c)" if ap: "th_timeout c \<le> roundToScale c (penalty c1 - t)"
  proof (cases "th_timeout c = 0")
    case True
    then show ?thesis using ap grow roundToScale_mono [OF assms(1), of "penalty c1 - t" "P - t"] by simp
  next
    case False
    then have "th_timeout c \<le> penalty c1 - t + go_div (scale c) 2"
      using roundToScale_le [OF assms(1) _ ap] assms(2) by simp
    then show ?thesis using grow by (intro roundToScale_nonneg [OF assms(1)]) simp
  qed
  then show ?thesis using eq assms(2) by simp
qed

theorem calcSleepTime_bounds_witness:
  "0 \<le> fst (calcSleepTime (\<lambda>n. int n) 5 100 \<lparr>lastwrite = 40, penalty = 0, th_timeout = 10, basestep = 2, scale = 3\<rparr>)"
  using calcSleepTime_bounds [of "\<lparr>lastwrite = 40, penalty = 0, th_timeout = 10, basestep = 2, scale = 3\<rparr>" "\<lambda>n. int n"] by simp

text \<open>
  C14: The pump keeps the order and loses nothing.  For any sequence of messages from \<^verbatim>\<open>Write\<close>, elapsed sleeps and
  keep-alives, at any times, as long as no write to the connection fails, it never panics; what it has written and what it
  still queues are, in order, exactly the messages and keep-alives it was given, PONGs aside; every PONG it
  was given is written already, in order, so PONGs overtake what is queued; it sleeps exactly while messages wait; and
  after as many sleeps as messages wait all of them are written.
\<close>

theorem pump_order:
  assumes "pump_inv p" and "list_all (\<lambda>(now, ev). sendable ev) evs"
  shows "\<exists>p'. pump_run pen evs p = Inr p' \<and> pump_inv p'
    \<and> pending p' = pending p @ concat (map (\<lambda>(now, ev). arrivals ev) evs)
    \<and> written_pongs p' = written_pongs p @ concat (map (\<lambda>(now, ev). pongs ev) evs)
    \<and> (sleeping p' \<longleftrightarrow> queue_items (queue p') \<noteq> [])
    \<and> (\<exists>p''. pump_run pen (replicate (length (queue_items (queue p'))) (now', SleepOver)) p' = Inr p''
         \<and> filter (\<lambda>m. \<not> prefix pong m) (out p'') = pending p')"
  using assms
proof (induction evs arbitrary: p)
  case Nil
  from pump_drains [OF Nil(1) order_refl, of pen now'] Nil(1) show ?case by (auto simp: pump_inv_def pending_def)
next
  case (Cons e evs)
  obtain now ev where e: "e = (now, ev)" by (cases e)
  from pump_step_ok [OF Cons.prems(1), of ev pen now] Cons.prems(2) e obtain p1 where
    p1: "pump_step pen now None ev p = Inr p1" "accounts ev p p1" by auto
  from Cons.IH [of p1] p1 Cons.prems(2) show ?case by (auto simp: e accounts_def)
qed

theorem pump_order_witness:
  "\<exists>p'. pump_run (\<lambda>_. 0) [(0, Message (clean_message ''A'')), (1, Message (clean_message ''PONG x'')), (2, Message (clean_message ''B'')), (3, SleepOver)]
       \<lparr>throttle = \<lparr>lastwrite = 9, penalty = 9, th_timeout = 0, basestep = 2, scale = 1\<rparr>, queue = empty_queue,
        sleeping = False, out = [], failed = None\<rparr> = Inr p' \<and> pending p' = [clean_message ''A'', clean_message ''B'']
     \<and> written_pongs p' = [clean_message ''PONG x'']"
proof -
  define p where "p = \<lparr>throttle = \<lparr>lastwrite = 9, penalty = 9, th_timeout = 0, basestep = 2, scale = 1\<rparr>, queue = empty_queue,
        sleeping = False, out = [], failed = None\<rparr>"
  define evs where "evs = [(0 :: int, Message (clean_message ''A'')), (1, Message (clean_message ''PONG x'')), (2, Message (clean_message ''B'')), (3, SleepOver)]"
  have "pump_inv p" "pending p = []" "written_pongs p = []"
    using linked.empty_ok by (simp_all add: p_def pump_inv_def pending_def written_pongs_def)
  moreover have "list_all (\<lambda>(now, ev). sendable ev) evs" by (auto simp: evs_def)
  ultimately obtain p' where r: "pump_run (\<lambda>_. 0) evs p = Inr p'" "pending p' = concat (map (\<lambda>(now, ev). arrivals ev) evs)"
    "written_pongs p' = concat (map (\<lambda>(now, ev). pongs ev) evs)" using pump_order [of p evs "\<lambda>_. 0"] by auto
  have "\<not> prefix pong (clean_message ''A'')" "prefix pong (clean_message ''PONG x'')" "\<not> prefix pong (clean_message ''B'')"
    by (simp_all add: pong_def clean_message_filter)
  then have "pending p' = [clean_message ''A'', clean_message ''B''] \<and> written_pongs p' = [clean_message ''PONG x'']"
    by (simp add: r(2,3) evs_def arrivals_def pongs_def)
  with r(1) show ?thesis unfolding evs_def p_def by blast
qed

end
