(* ===== verification/Dispatch.thy ===== *)
theory Dispatch
  imports IrcEvent "HOL-Library.AList"
begin

text \<open>
  The event dispatcher, \<^verbatim>\<open>src/dispatch/dispatch_core.go\<close>,
  \<^verbatim>\<open>src/dispatch/dispatcher.go\<close> and \<^verbatim>\<open>src/dispatch/handlers.go\<close>: the filter of
  active channels, the table of handlers, the choice of the one method of a handler that gets an
  event, and the goroutines that run the handlers.

  A handler is the code of an extension.  The dispatcher looks at it in two ways, by type
  assertions and by calls; so a handler is its list of implemented interfaces, and what a called
  method does is a parameter \<^verbatim>\<open>body\<close> that says whether it panics.  Goroutines are the pending
  tasks of a machine whose steps interleave dispatching, running handlers and changing tables in
  any order.  An event table is an association list; Go iterates over a map in any order, and here
  the tasks it starts run in any order.  Loggers and locks are not modelled.
\<close>

section \<open>The core: active channels and the waiter\<close>

text \<open>A nil slice of channels is \<^verbatim>\<open>None\<close>; the wait group is its counter.\<close>

record DispatchCore =
  dchans :: "string list option"
  waiter :: int

definition core_channels :: "string list \<Rightarrow> DispatchCore \<Rightarrow> DispatchCore" where
  "core_channels cs d = d\<lparr>dchans := (if cs = [] then None else Some (map to_lower cs))\<rparr>"

definition NewDispatchCore :: "string list \<Rightarrow> DispatchCore" where
  "NewDispatchCore cs = core_channels cs \<lparr>dchans = None, waiter = 0\<rparr>"

definition SetChannels :: "string list \<Rightarrow> DispatchCore \<Rightarrow> DispatchCore" where
  "SetChannels cs d = core_channels cs d"

definition DC_Channels :: "DispatchCore \<Rightarrow> string list option" where
  "DC_Channels d = (case dchans d of None \<Rightarrow> None | Some cs \<Rightarrow> Some cs)"

definition add_channel :: "string \<Rightarrow> string list \<Rightarrow> string list" where
  "add_channel c cs = (let addchan = to_lower c in if addchan \<in> set cs then cs else cs @ [addchan])"

definition AddChannels :: "string list \<Rightarrow> DispatchCore \<Rightarrow> DispatchCore" where
  "AddChannels new d =
     (if new = [] then d
      else d\<lparr>dchans := Some (fold add_channel new (case dchans d of None \<Rightarrow> [] | Some cs \<Rightarrow> cs))\<rparr>)"

text \<open>
  The inner loop of \<^verbatim>\<open>RemoveChannels\<close> over the index \<^verbatim>\<open>j\<close>: a match is swapped with the last
  channel and cut off, and the loop goes on at \<^verbatim>\<open>j + 1\<close>.  \<^verbatim>\<open>None\<close> is the early return that
  sets the slice to nil.
\<close>

function remove_scan :: "string \<Rightarrow> nat \<Rightarrow> string list \<Rightarrow> string list option" where
  "remove_scan c j cs =
     (if j < length cs then
        if cs ! j = c then (if length cs = 1 then None else remove_scan c (Suc j) (swap_remove j cs))
        else remove_scan c (Suc j) cs
      else Some cs)"
  by pat_completeness auto
termination by (relation "measure (\<lambda>(c, j, cs). length cs - j)") auto

declare remove_scan.simps [simp del]

fun remove_loop :: "string list \<Rightarrow> string list \<Rightarrow> string list option" where
  "remove_loop [] cs = Some cs"
| "remove_loop (r # rs) cs =
     (case remove_scan (to_lower r) 0 cs of None \<Rightarrow> None | Some cs' \<Rightarrow> remove_loop rs cs')"

definition RemoveChannels :: "string list \<Rightarrow> DispatchCore \<Rightarrow> DispatchCore" where
  "RemoveChannels rs d =
     (if rs = [] then d
      else (case dchans d of
              None \<Rightarrow> d
            | Some cs \<Rightarrow> if cs = [] then d else d\<lparr>dchans := remove_loop rs cs\<rparr>))"

definition hasChannel :: "DispatchCore \<Rightarrow> string \<Rightarrow> bool" where
  "hasChannel d channel = (case dchans d of None \<Rightarrow> True | Some cs \<Rightarrow> to_lower channel \<in> set cs)"

definition CheckTarget :: "DispatchCore \<Rightarrow> Event \<Rightarrow> (bool \<times> bool) outcome" where
  "CheckTarget d ev =
     and_then (IsTargetChan ev) (\<lambda>isChan.
       if isChan then and_then (Target ev) (\<lambda>t. Inr (True, hasChannel d (to_lower t)))
       else Inr (False, False))"

definition shouldDispatch :: "DispatchCore \<Rightarrow> bool \<Rightarrow> Event \<Rightarrow> bool outcome" where
  "shouldDispatch d channelMsg ev =
     and_then (CheckTarget d ev) (\<lambda>(isChan, hasChan).
       Inr (channelMsg = isChan \<and> (\<not> channelMsg \<or> hasChan)))"

text \<open>The counter of a \<^verbatim>\<open>sync.WaitGroup\<close> panics below zero; \<^verbatim>\<open>Wait\<close> returns at zero.\<close>

definition HandlerStarted :: "DispatchCore \<Rightarrow> DispatchCore" where
  "HandlerStarted d = d\<lparr>waiter := waiter d + 1\<rparr>"

definition HandlerFinished :: "DispatchCore \<Rightarrow> DispatchCore outcome" where
  "HandlerFinished d =
     (if waiter d - 1 < 0 then Inl NegativeWaitGroup else Inr (d\<lparr>waiter := waiter d - 1\<rparr>))"

definition WaitForHandlers_returns :: "DispatchCore \<Rightarrow> bool" where
  "WaitForHandlers_returns d \<longleftrightarrow> waiter d = 0"

section \<open>Handlers\<close>

datatype iface =
    EventHandler | PrivmsgHandler | PrivmsgUserHandler | PrivmsgChannelHandler
  | NoticeHandler | NoticeUserHandler | NoticeChannelHandler
  | CTCPHandler | CTCPChannelHandler | CTCPReplyHandler

record Handler =
  h_name :: string
  h_implements :: "iface list"

text \<open>The method called, with the arguments beside the writer and the event.\<close>

datatype call =
    HandleRaw | call_Privmsg | call_PrivmsgUser | call_PrivmsgChannel
  | call_Notice | call_NoticeUser | call_NoticeChannel
  | call_CTCP string string | call_CTCPChannel string string | call_CTCPReply string string

text \<open>The type assertion \<^verbatim>\<open>handler.(I)\<close>.\<close>

definition implements :: "Handler \<Rightarrow> iface \<Rightarrow> bool" where
  "implements h i \<longleftrightarrow> i \<in> set (h_implements h)"

text \<open>The condition \<^verbatim>\<open>ok && d.shouldDispatch(..)\<close>, which evaluates the second part only after the first.\<close>

definition offered :: "DispatchCore \<Rightarrow> Handler \<Rightarrow> iface \<Rightarrow> bool \<Rightarrow> Event \<Rightarrow> bool outcome" where
  "offered d h i channelMsg ev = (if implements h i then shouldDispatch d channelMsg ev else Inr False)"

text \<open>Each dispatch function returns the call it makes, \<^verbatim>\<open>None\<close> for \<^verbatim>\<open>handled = false\<close>.\<close>

definition dispatchPrivmsg :: "DispatchCore \<Rightarrow> Handler \<Rightarrow> Event \<Rightarrow> call option outcome" where
  "dispatchPrivmsg d h ev =
     and_then (offered d h PrivmsgChannelHandler True ev) (\<lambda>ok.
       if ok then Inr (Some call_PrivmsgChannel)
       else and_then (offered d h PrivmsgUserHandler False ev) (\<lambda>ok.
         if ok then Inr (Some call_PrivmsgUser)
         else if implements h PrivmsgHandler then Inr (Some call_Privmsg) else Inr None))"

definition dispatchNotice :: "DispatchCore \<Rightarrow> Handler \<Rightarrow> Event \<Rightarrow> call option outcome" where
  "dispatchNotice d h ev =
     and_then (offered d h NoticeChannelHandler True ev) (\<lambda>ok.
       if ok then Inr (Some call_NoticeChannel)
       else and_then (offered d h NoticeUserHandler False ev) (\<lambda>ok.
         if ok then Inr (Some call_NoticeUser)
         else if implements h NoticeHandler then Inr (Some call_Notice) else Inr None))"

definition dispatchCTCP :: "DispatchCore \<Rightarrow> Handler \<Rightarrow> Event \<Rightarrow> call option outcome" where
  "dispatchCTCP d h ev =
     and_then (and_then (Message ev) CTCPunpackString) (\<lambda>(tag, data).
       and_then (offered d h CTCPChannelHandler True ev) (\<lambda>ok.
         if ok then Inr (Some (call_CTCPChannel tag data))
         else if implements h CTCPHandler then Inr (Some (call_CTCP tag data)) else Inr None))"

definition dispatchCTCPReply :: "DispatchCore \<Rightarrow> Handler \<Rightarrow> Event \<Rightarrow> call option outcome" where
  "dispatchCTCPReply d h ev =
     and_then (and_then (Message ev) CTCPunpackString) (\<lambda>(tag, data).
       if implements h CTCPReplyHandler then Inr (Some (call_CTCPReply tag data)) else Inr None)"

text \<open>The body of \<^verbatim>\<open>resolveHandler\<close> up to the call.\<close>

definition special_call :: "DispatchCore \<Rightarrow> Handler \<Rightarrow> Event \<Rightarrow> call option outcome" where
  "special_call d h ev =
     (if eName ev = PRIVMSG \<or> eName ev = NOTICE then
        and_then (if 2 \<le> length (eArgs ev) then and_then (Message ev) IsCTCPString else Inr False) (\<lambda>ctcp.
          if ctcp then (if eName ev = PRIVMSG then dispatchCTCP d h ev else dispatchCTCPReply d h ev)
          else (if eName ev = PRIVMSG then dispatchPrivmsg d h ev else dispatchNotice d h ev))
      else Inr None)"

definition resolve_call :: "DispatchCore \<Rightarrow> Handler \<Rightarrow> Event \<Rightarrow> call option outcome" where
  "resolve_call d h ev =
     and_then (special_call d h ev) (\<lambda>c.
       case c of
         Some c \<Rightarrow> Inr (Some c)
       | None \<Rightarrow> if implements h EventHandler then Inr (Some HandleRaw) else Inr None)"

text \<open>
  The whole goroutine: the call, if any, and the panic it ends with, in the dispatcher or in the
  handler.  \<^verbatim>\<open>HandlerFinished\<close> is deferred and runs in either case, and then
  \<^verbatim>\<open>PanicHandler\<close> recovers.
\<close>

type_synonym body = "Handler \<Rightarrow> call \<Rightarrow> Event \<Rightarrow> go_panic option"

record Result =
  r_handler :: Handler
  r_event :: Event
  r_call :: "call option"
  r_panic :: "go_panic option"

definition resolveHandler :: "body \<Rightarrow> Handler \<Rightarrow> Event \<Rightarrow> DispatchCore \<Rightarrow> (Result \<times> DispatchCore) outcome" where
  "resolveHandler body h ev d =
     and_then (HandlerFinished d) (\<lambda>d'.
       Inr ((case resolve_call d h ev of
               Inl p \<Rightarrow> \<lparr>r_handler = h, r_event = ev, r_call = None, r_panic = Some p\<rparr>
             | Inr None \<Rightarrow> \<lparr>r_handler = h, r_event = ev, r_call = None, r_panic = None\<rparr>
             | Inr (Some c) \<Rightarrow> \<lparr>r_handler = h, r_event = ev, r_call = Some c, r_panic = body h c ev\<rparr>), d'))"

section \<open>The dispatcher\<close>

type_synonym eventTable = "(int \<times> Handler) list"

record Dispatcher =
  core :: DispatchCore
  events :: "(string \<times> eventTable) list"

definition NewDispatcher :: "DispatchCore \<Rightarrow> Dispatcher" where
  "NewDispatcher c = \<lparr>core = c, events = []\<rparr>"

text \<open>
  The loop \<^verbatim>\<open>for _, has := ev[id]; has; id = rand.Int()\<close> reads \<^verbatim>\<open>has\<close> once.  The random source
  is the sequence \<^verbatim>\<open>rnd\<close> of the numbers it is going to give, and \<^verbatim>\<open>None\<close> is a call that does not return.
\<close>

partial_function (option) reroll :: "(nat \<Rightarrow> int) \<Rightarrow> bool \<Rightarrow> nat \<Rightarrow> int option" where
  "reroll rnd has k = (if has then reroll rnd has (Suc k) else Some (rnd k))"

definition Dispatcher_Register :: "(nat \<Rightarrow> int) \<Rightarrow> string \<Rightarrow> Handler \<Rightarrow> Dispatcher \<Rightarrow> (int \<times> Dispatcher) option" where
  "Dispatcher_Register rnd event h d =
     (let event = to_upper event in
      case map_of (events d) event of
        None \<Rightarrow> Some (rnd 0, d\<lparr>events := AList.update event [(rnd 0, h)] (events d)\<rparr>)
      | Some ev \<Rightarrow>
          (case reroll rnd (map_of ev (rnd 0) \<noteq> None) 0 of
             None \<Rightarrow> None
           | Some i \<Rightarrow> Some (i, d\<lparr>events := AList.update event (AList.update i h ev) (events d)\<rparr>)))"

definition Dispatcher_Unregister :: "string \<Rightarrow> int \<Rightarrow> Dispatcher \<Rightarrow> bool \<times> Dispatcher" where
  "Dispatcher_Unregister event i d =
     (let event = to_upper event in
      case map_of (events d) event of
        None \<Rightarrow> (False, d)
      | Some ev \<Rightarrow>
          (case map_of ev i of
             None \<Rightarrow> (False, d)
           | Some _ \<Rightarrow> (True, d\<lparr>events := AList.update event (AList.delete i ev) (events d)\<rparr>)))"

type_synonym task = "Handler \<times> Event"

text \<open>Starting the goroutines of a table: whether there is one, the tasks, and the counted-up core.\<close>

definition dispatchHelper :: "string \<Rightarrow> Event \<Rightarrow> Dispatcher \<Rightarrow> bool \<times> task list \<times> Dispatcher" where
  "dispatchHelper event ev d =
     (case map_of (events d) event of
        None \<Rightarrow> (False, [], d)
      | Some table \<Rightarrow>
          (True, map (\<lambda>(i, h). (h, ev)) table, d\<lparr>core := fold (\<lambda>_. HandlerStarted) table (core d)\<rparr>))"

definition Dispatcher_Dispatch :: "Event \<Rightarrow> Dispatcher \<Rightarrow> bool \<times> task list \<times> Dispatcher" where
  "Dispatcher_Dispatch ev d =
     (let event = to_upper (eName ev);
          (handled, ts, d) = dispatchHelper event ev d;
          (_, ts', d) = dispatchHelper ''RAW'' ev d
      in (handled, ts @ ts', d))"

section \<open>The machine of goroutines\<close>

text \<open>
  The dispatcher, the tasks that are started and not finished, and two histories: all tasks ever
  started and the results of the finished ones.
\<close>

record Machine =
  disp :: Dispatcher
  tasks :: "task list"
  started :: "task list"
  results :: "Result list"

definition initial_machine :: "string list \<Rightarrow> Machine" where
  "initial_machine cs = \<lparr>disp = NewDispatcher (NewDispatchCore cs), tasks = [], started = [], results = []\<rparr>"

definition remove_nth :: "nat \<Rightarrow> 'a list \<Rightarrow> 'a list" where
  "remove_nth i xs = take i xs @ drop (Suc i) xs"

text \<open>The waiter is shared by reference: every operation works on the core as it is at that moment.\<close>

inductive machine_step :: "body \<Rightarrow> Machine \<Rightarrow> Machine \<Rightarrow> bool" for body where
  step_dispatch: "Dispatcher_Dispatch ev (disp m) = (handled, ts, d) \<Longrightarrow>
     machine_step body m (m\<lparr>disp := d, tasks := tasks m @ ts, started := started m @ ts\<rparr>)"
| step_run: "i < length (tasks m) \<Longrightarrow> tasks m ! i = (h, ev) \<Longrightarrow>
     resolveHandler body h ev (core (disp m)) = Inr (r, c) \<Longrightarrow>
     machine_step body m
       (m\<lparr>disp := (disp m)\<lparr>core := c\<rparr>, tasks := remove_nth i (tasks m), results := results m @ [r]\<rparr>)"
| step_register: "Dispatcher_Register rnd event h (disp m) = Some (i, d) \<Longrightarrow> machine_step body m (m\<lparr>disp := d\<rparr>)"
| step_unregister: "Dispatcher_Unregister event i (disp m) = (ok, d) \<Longrightarrow> machine_step body m (m\<lparr>disp := d\<rparr>)"
| step_set: "machine_step body m (m\<lparr>disp := (disp m)\<lparr>core := SetChannels cs (core (disp m))\<rparr>\<rparr>)"
| step_add: "machine_step body m (m\<lparr>disp := (disp m)\<lparr>core := AddChannels cs (core (disp m))\<rparr>\<rparr>)"
| step_remove: "machine_step body m (m\<lparr>disp := (disp m)\<lparr>core := RemoveChannels cs (core (disp m))\<rparr>\<rparr>)"

inductive machine_reach :: "body \<Rightarrow> string list \<Rightarrow> Machine \<Rightarrow> bool" for body cs where
  reach_init: "machine_reach body cs (initial_machine cs)"
| reach_step: "machine_reach body cs m \<Longrightarrow> machine_step body m m' \<Longrightarrow> machine_reach body cs m'"

section \<open>The wait group\<close>

text \<open>What the users of a wait group rely on: starting counts up, and finishing a started task succeeds.\<close>

locale wait_group =
  fixes start :: "'s \<Rightarrow> 's" and finish :: "'s \<Rightarrow> 's outcome" and pending :: "'s \<Rightarrow> int"
  assumes pending_start: "pending (start s) = pending s + 1"
    and finish_ok: "0 < pending s \<Longrightarrow> \<exists>s'. finish s = Inr s'"
    and pending_finish: "finish s = Inr s' \<Longrightarrow> pending s' = pending s - 1"
begin

lemma pending_start_all: "pending (fold (\<lambda>_. start) xs s) = pending s + int (length xs)"
  by (induction xs arbitrary: s) (simp_all add: pending_start)

lemma finish_all:
  "int (length xs) \<le> pending s \<Longrightarrow>
   \<exists>s'. fold_outcome (\<lambda>_. finish) xs s = Inr s' \<and> pending s' = pending s - int (length xs)"
proof (induction xs arbitrary: s)
  case (Cons x xs)
  then obtain s1 where s1: "finish s = Inr s1" using finish_ok [of s] by auto
  note p1 = pending_finish [OF s1]
  with Cons.prems have "int (length xs) \<le> pending s1" by simp
  from Cons.IH [OF this] s1 p1 show ?case by auto
qed simp

lemma balanced:
  assumes "0 \<le> pending s"
  shows "\<exists>s'. fold_outcome (\<lambda>_. finish) xs (fold (\<lambda>_. start) xs s) = Inr s' \<and> pending s' = pending s"
  using finish_all [of xs "fold (\<lambda>_. start) xs s"] assms by (auto simp: pending_start_all)

end

interpretation wg: wait_group HandlerStarted HandlerFinished waiter
  by unfold_locales (auto simp: HandlerStarted_def HandlerFinished_def split: if_splits)

section \<open>Active channels\<close>

lemma fold_add_channel:
  "set (fold add_channel new cs) = set cs \<union> to_lower ` set new"
  "distinct cs \<Longrightarrow> distinct (fold add_channel new cs)"
  by (induction new arbitrary: cs) (auto simp: add_channel_def Let_def)

lemma fold_add_channel_not_Nil: "new \<noteq> [] \<Longrightarrow> fold add_channel new cs \<noteq> []"
  using fold_add_channel(1) [of new cs] by (cases new) auto

lemma remove_scan_notin:
  "(\<And>i. j \<le> i \<Longrightarrow> i < length cs \<Longrightarrow> cs ! i \<noteq> c) \<Longrightarrow> remove_scan c j cs = Some cs"
  by (induction c j cs rule: remove_scan.induct) (simp add: remove_scan.simps)

lemma remove_scan_distinct:
  assumes "distinct cs"
  shows "remove_scan c 0 cs =
    (if c \<in> set cs then if length cs = 1 then None else Some (swap_remove (index_of c cs) cs) else Some cs)"
proof (cases "c \<in> set cs")
  case False
  then have "remove_scan c 0 cs = Some cs" by (intro remove_scan_notin) (auto dest: nth_mem)
  with False show ?thesis by simp
next
  case True
  let ?k = "index_of c cs"
  have k: "?k < length cs" "cs ! ?k = c" using True by (simp_all add: index_of_less_iff nth_index_of)
  have before: "remove_scan c j cs = remove_scan c ?k cs" if "j \<le> ?k" for j
    using that
  proof (induction rule: inc_induct)
    case (step n)
    then have "cs ! n \<noteq> c" using k assms by (auto simp: nth_eq_iff_index_eq)
    with step k show ?case by (subst remove_scan.simps) simp
  qed simp
  show ?thesis
  proof (cases "length cs = 1")
    case True
    then show ?thesis using before [of 0] k \<open>c \<in> set cs\<close> by (simp add: remove_scan.simps [of c ?k])
  next
    case False
    have "c \<notin> set (swap_remove ?k cs)" using set_swap_remove_index [OF assms \<open>c \<in> set cs\<close>] by simp
    then have "remove_scan c (Suc ?k) (swap_remove ?k cs) = Some (swap_remove ?k cs)"
      by (intro remove_scan_notin) (metis nth_mem)
    then show ?thesis using before [of 0] k False \<open>c \<in> set cs\<close> by (simp add: remove_scan.simps [of c ?k])
  qed
qed

lemma remove_loop_distinct:
  assumes "distinct cs" "cs \<noteq> []"
  shows "case remove_loop rs cs of
      None \<Rightarrow> set cs \<subseteq> to_lower ` set rs
    | Some cs' \<Rightarrow> cs' \<noteq> [] \<and> distinct cs' \<and> set cs' = set cs - to_lower ` set rs"
  using assms
proof (induction rs arbitrary: cs)
  case (Cons r rs)
  let ?c = "to_lower r"
  show ?case
  proof (cases "?c \<in> set cs")
    case False
    then show ?thesis using Cons.IH [OF Cons.prems] Cons.prems
      by (auto simp: remove_scan_distinct split: option.splits)
  next
    case True
    note sr = set_swap_remove_index [OF Cons.prems(1) True]
    show ?thesis
    proof (cases "length cs = 1")
      case one: True
      then have "set cs = {?c}" using True by (cases cs) auto
      with one True Cons.prems show ?thesis by (simp add: remove_scan_distinct)
    next
      case False
      then have "swap_remove (index_of ?c cs) cs \<noteq> []"
        using Cons.prems(2) by (cases cs; cases "tl cs") (auto simp flip: length_greater_0_conv)
      from Cons.IH [OF sr(2) this] show ?thesis using True False Cons.prems sr(1)
        by (auto simp: remove_scan_distinct split: option.splits)
    qed
  qed
qed simp

lemma remove_loop_cases:
  assumes "distinct cs" "cs \<noteq> []"
  obtains "remove_loop rs cs = None" "set cs \<subseteq> to_lower ` set rs"
  | cs' where "remove_loop rs cs = Some cs'" "set cs' = set cs - to_lower ` set rs" "\<not> set cs \<subseteq> to_lower ` set rs"
proof -
  have "set cs - to_lower ` set rs \<noteq> {}" if "cs' \<noteq> []" "set cs' = set cs - to_lower ` set rs" for cs'
    using that by (metis set_empty)
  with remove_loop_distinct [OF assms, of rs] that show ?thesis by (auto split: option.splits)
qed

text \<open>
  The channel filter is a set of lower-case names.  Adding channels to a filter adds exactly
  them; removing channels from a filter without duplicates removes exactly them; a filter that
  becomes empty this way is not empty but off, so that every channel is active again.
\<close>

theorem channel_filter_laws:
  assumes "dchans d = Some cs" "cs \<noteq> []" "distinct cs"
  shows "(hasChannel (AddChannels new d) c \<longleftrightarrow> hasChannel d c \<or> to_lower c \<in> set (map to_lower new))
    \<and> (hasChannel (RemoveChannels old d) c \<longleftrightarrow>
           set cs \<subseteq> to_lower ` set old \<or> hasChannel d c \<and> to_lower c \<notin> set (map to_lower old))
    \<and> (DC_Channels (RemoveChannels old d) = None \<longleftrightarrow> set cs \<subseteq> to_lower ` set old)"
proof (intro conjI)
  show "hasChannel (AddChannels new d) c \<longleftrightarrow> hasChannel d c \<or> to_lower c \<in> set (map to_lower new)"
    using assms by (auto simp: hasChannel_def AddChannels_def fold_add_channel)
  show "hasChannel (RemoveChannels old d) c \<longleftrightarrow>
          set cs \<subseteq> to_lower ` set old \<or> hasChannel d c \<and> to_lower c \<notin> set (map to_lower old)"
    using assms by (cases rule: remove_loop_cases [OF assms(3,2), of old])
      (auto simp: hasChannel_def RemoveChannels_def)
  show "DC_Channels (RemoveChannels old d) = None \<longleftrightarrow> set cs \<subseteq> to_lower ` set old"
    using assms by (cases rule: remove_loop_cases [OF assms(3,2), of old])
      (auto simp: DC_Channels_def RemoveChannels_def)
qed

lemma lower_examples:
  "to_lower ''#A'' = ''#a''" "to_lower ''#a'' = ''#a''" "to_lower ''#b'' = ''#b''" "to_lower ''#c'' = ''#c''"
  by code_simp+

theorem channel_filter_laws_witness:
  "hasChannel (RemoveChannels [''#A''] (NewDispatchCore [''#a''])) ''#b''
   \<and> \<not> hasChannel (AddChannels [''#c''] (NewDispatchCore [''#a''])) ''#b''"
  using channel_filter_laws [of "NewDispatchCore [''#a'']" "[''#a'']" "[''#c'']" "''#b''" "[''#A'']"] lower_examples
  by (simp add: NewDispatchCore_def core_channels_def hasChannel_def [of "\<lparr>dchans = _, waiter = _\<rparr>"])

text \<open>\<^verbatim>\<open>SetChannels\<close> keeps duplicates, and then a removal leaves a copy behind.\<close>

lemma RemoveChannels_keeps_duplicate:
  "DC_Channels (RemoveChannels [''#a''] (SetChannels [''#a'', ''#a''] d)) = Some [''#a'']"
  by (simp add: DC_Channels_def RemoveChannels_def SetChannels_def core_channels_def lower_examples
      remove_scan.simps swap_remove_def)

section \<open>The choice of the call\<close>

text \<open>What each call promises its handler, and the calls from the most specific to the least.\<close>

definition target_channel :: "DispatchCore \<Rightarrow> Event \<Rightarrow> bool" where
  "target_channel d ev =
     (case (eArgs ev, eNetworkInfo ev) of (t # _, Some ni) \<Rightarrow> IsChannel ni t \<and> hasChannel d t | _ \<Rightarrow> False)"

definition target_user :: "Event \<Rightarrow> bool" where
  "target_user ev = (case (eArgs ev, eNetworkInfo ev) of (t # _, Some ni) \<Rightarrow> \<not> IsChannel ni t | _ \<Rightarrow> False)"

definition ctcp_message :: "Event \<Rightarrow> bool" where
  "ctcp_message ev =
     (case eArgs ev of _ # m # _ \<Rightarrow> m \<noteq> [] \<and> hd m = ctcpDelim \<and> last m = ctcpDelim | _ \<Rightarrow> False)"

fun applies :: "DispatchCore \<Rightarrow> Event \<Rightarrow> call \<Rightarrow> bool" where
  "applies d ev HandleRaw = True"
| "applies d ev call_Privmsg = (eName ev = PRIVMSG \<and> \<not> ctcp_message ev)"
| "applies d ev call_PrivmsgUser = (eName ev = PRIVMSG \<and> \<not> ctcp_message ev \<and> target_user ev)"
| "applies d ev call_PrivmsgChannel = (eName ev = PRIVMSG \<and> \<not> ctcp_message ev \<and> target_channel d ev)"
| "applies d ev call_Notice = (eName ev = NOTICE \<and> \<not> ctcp_message ev)"
| "applies d ev call_NoticeUser = (eName ev = NOTICE \<and> \<not> ctcp_message ev \<and> target_user ev)"
| "applies d ev call_NoticeChannel = (eName ev = NOTICE \<and> \<not> ctcp_message ev \<and> target_channel d ev)"
| "applies d ev (call_CTCP tag data) =
     (eName ev = PRIVMSG \<and> ctcp_message ev \<and> CTCPunpackString (eArgs ev ! 1) = Inr (tag, data))"
| "applies d ev (call_CTCPChannel tag data) =
     (eName ev = PRIVMSG \<and> ctcp_message ev \<and> CTCPunpackString (eArgs ev ! 1) = Inr (tag, data) \<and> target_channel d ev)"
| "applies d ev (call_CTCPReply tag data) =
     (eName ev = NOTICE \<and> ctcp_message ev \<and> CTCPunpackString (eArgs ev ! 1) = Inr (tag, data))"

fun iface_of :: "call \<Rightarrow> iface" where
  "iface_of HandleRaw = EventHandler"
| "iface_of call_Privmsg = PrivmsgHandler"
| "iface_of call_PrivmsgUser = PrivmsgUserHandler"
| "iface_of call_PrivmsgChannel = PrivmsgChannelHandler"
| "iface_of call_Notice = NoticeHandler"
| "iface_of call_NoticeUser = NoticeUserHandler"
| "iface_of call_NoticeChannel = NoticeChannelHandler"
| "iface_of (call_CTCP tag data) = CTCPHandler"
| "iface_of (call_CTCPChannel tag data) = CTCPChannelHandler"
| "iface_of (call_CTCPReply tag data) = CTCPReplyHandler"

definition preference :: "Event \<Rightarrow> call list" where
  "preference ev =
     (case eArgs ev of
        _ # m # _ \<Rightarrow>
          (case CTCPunpackString m of
             Inr (tag, data) \<Rightarrow> [call_CTCPChannel tag data, call_CTCP tag data, call_CTCPReply tag data]
           | Inl _ \<Rightarrow> [])
      | _ \<Rightarrow> []) @
     [call_PrivmsgChannel, call_PrivmsgUser, call_Privmsg, call_NoticeChannel, call_NoticeUser, call_Notice, HandleRaw]"

text \<open>
  Events of the two message kinds that a handler can be given without a panic: target and message
  are there, the message is not empty nor a single delimiter, and the network is known.
\<close>

definition message_ok :: "Event \<Rightarrow> bool" where
  "message_ok ev =
     ((eName ev = PRIVMSG \<or> eName ev = NOTICE) \<longrightarrow>
        (case eArgs ev of _ # m # _ \<Rightarrow> m \<noteq> [] \<and> m \<noteq> [ctcpDelim] | _ \<Rightarrow> False) \<and> eNetworkInfo ev \<noteq> None)"

lemma hasChannel_lower [simp]: "hasChannel d (to_lower c) = hasChannel d c"
  by (simp add: hasChannel_def split: option.splits)

lemma IsTargetChan_ok:
  assumes "eArgs ev = t # r" "eNetworkInfo ev = Some ni"
  shows "IsTargetChan ev = Inr (IsChannel ni t)"
  using assms by (simp add: IsTargetChan_def IsChannel_def)

lemma shouldDispatch_ok:
  assumes "eArgs ev = t # r" "eNetworkInfo ev = Some ni"
  shows "shouldDispatch d True ev = Inr (target_channel d ev)"
    and "shouldDispatch d False ev = Inr (target_user ev)"
  using assms
  by (simp_all add: shouldDispatch_def CheckTarget_def IsTargetChan_ok Target_def target_channel_def target_user_def)

lemma offered_ok:
  assumes "eArgs ev = t # r" "eNetworkInfo ev = Some ni"
  shows "offered d h i True ev = Inr (implements h i \<and> target_channel d ev)"
    and "offered d h i False ev = Inr (implements h i \<and> target_user ev)"
  using shouldDispatch_ok [OF assms] by (simp_all add: offered_def)

lemma ctcp_message_ok:
  assumes "eArgs ev = t # m # r" "m \<noteq> []"
  shows "IsCTCPString m = Inr (ctcp_message ev)"
proof -
  have "index_at m 0 = Inr (hd m)" "index_at m (length m - 1) = Inr (last m)"
    using assms(2) by (simp_all add: index_at_def hd_conv_nth last_conv_nth)
  then show ?thesis using assms by (auto simp: IsCTCPString_def ctcp_message_def)
qed

lemma unpack_ok:
  assumes "m \<noteq> []" "m \<noteq> [ctcpDelim]" "hd m = ctcpDelim"
  obtains tag data where "CTCPunpackString m = Inr (tag, data)"
proof -
  have "2 \<le> length m" using assms by (cases m; cases "tl m") auto
  then obtain p where "CTCPunpackString m = Inr p"
    by (cases "ctcpUnpack (ctcpLowLevelUnescape (butlast (tl m)))") (simp add: CTCPunpackString_def CTCPunpack_def Let_def)
  with that show ?thesis by (cases p) auto
qed

text \<open>
  A handler gets at most one call for an event, and the right one: the first in the order
  of preference among the methods it implements and whose promise the event keeps (channel methods
  only for an active channel, user methods only for messages to the bot, CTCP methods with the
  unpacked tag and data), and the raw method only if none of them applies.
\<close>

theorem resolve_call_preferred:
  assumes "message_ok ev"
  shows "resolve_call d h ev = Inr (find (\<lambda>c. implements h (iface_of c) \<and> applies d ev c) (preference ev))"
proof (cases "eName ev = PRIVMSG \<or> eName ev = NOTICE")
  case False
  then show ?thesis
    by (auto simp: resolve_call_def special_call_def preference_def split: list.splits sum.splits)
next
  case True
  with assms obtain t m r ni where ev: "eArgs ev = t # m # r" "eNetworkInfo ev = Some ni" "m \<noteq> []" "m \<noteq> [ctcpDelim]"
    by (auto simp: message_ok_def split: list.splits)
  note ok = offered_ok [OF ev(1,2)] ctcp_message_ok [OF ev(1,3)]
  show ?thesis
  proof (cases "ctcp_message ev")
    case ctcp: True
    then have "hd m = ctcpDelim" using ev(1) by (simp add: ctcp_message_def)
    then obtain tag data where "CTCPunpackString m = Inr (tag, data)" by (rule unpack_ok [OF ev(3,4)])
    with True ctcp ev ok show ?thesis
      by (auto simp: resolve_call_def special_call_def dispatchCTCP_def dispatchCTCPReply_def Message_def preference_def)
  next
    case False
    with True ev ok show ?thesis
      by (auto simp: resolve_call_def special_call_def dispatchPrivmsg_def dispatchNotice_def Message_def
          preference_def split: sum.splits)
  qed
qed

definition sample_message :: "string \<Rightarrow> string \<Rightarrow> Event" where
  "sample_message target text = NewEvent 0 ''net'' (Some NewNetworkInfo) PRIVMSG ''n!u@h'' [target, text]"

definition sample_handler :: Handler where
  "sample_handler = \<lparr>h_name = ''h'', h_implements = [EventHandler, PrivmsgChannelHandler]\<rparr>"

theorem resolve_call_preferred_witness:
  "resolve_call (NewDispatchCore [''#a'']) sample_handler (sample_message ''#a'' ''hi'') = Inr (Some call_PrivmsgChannel)
   \<and> resolve_call (NewDispatchCore [''#a'']) sample_handler (sample_message ''#b'' ''hi'') = Inr (Some HandleRaw)"
proof -
  have ok: "message_ok (sample_message ''#a'' ''hi'')" "message_ok (sample_message ''#b'' ''hi'')" by code_simp+
  have "find (\<lambda>c. implements sample_handler (iface_of c) \<and> applies (NewDispatchCore [''#a'']) (sample_message ''#a'' ''hi'') c)
          (preference (sample_message ''#a'' ''hi'')) = Some call_PrivmsgChannel"
    "find (\<lambda>c. implements sample_handler (iface_of c) \<and> applies (NewDispatchCore [''#a'']) (sample_message ''#b'' ''hi'') c)
          (preference (sample_message ''#b'' ''hi'')) = Some HandleRaw"
    by code_simp+
  then show ?thesis
    using resolve_call_preferred [OF ok(1), of "NewDispatchCore [''#a'']" sample_handler]
      resolve_call_preferred [OF ok(2), of "NewDispatchCore [''#a'']" sample_handler] by simp
qed

section \<open>Every started handler runs once\<close>

definition table_of :: "Dispatcher \<Rightarrow> string \<Rightarrow> eventTable" where
  "table_of d event = (case map_of (events d) event of None \<Rightarrow> [] | Some table \<Rightarrow> table)"

lemma dispatchHelper_eq:
  "dispatchHelper event ev d =
     (map_of (events d) event \<noteq> None, map (\<lambda>(i, h). (h, ev)) (table_of d event),
      d\<lparr>core := fold (\<lambda>_. HandlerStarted) (table_of d event) (core d)\<rparr>)"
  by (simp add: dispatchHelper_def table_of_def split: option.splits)

lemma Dispatch_eq:
  "Dispatcher_Dispatch ev d =
     (map_of (events d) (to_upper (eName ev)) \<noteq> None,
      map (\<lambda>(i, h). (h, ev)) (table_of d (to_upper (eName ev)) @ table_of d ''RAW''),
      d\<lparr>core := fold (\<lambda>_. HandlerStarted) (table_of d (to_upper (eName ev)) @ table_of d ''RAW'') (core d)\<rparr>)"
  by (simp add: Dispatcher_Dispatch_def dispatchHelper_eq table_of_def Let_def)

definition machine_inv :: "Machine \<Rightarrow> bool" where
  "machine_inv m \<longleftrightarrow>
     waiter (core (disp m)) = int (length (tasks m))
     \<and> mset (started m) = mset (tasks m) + mset (map (\<lambda>r. (r_handler r, r_event r)) (results m))"

lemma mset_remove_nth: "i < length xs \<Longrightarrow> add_mset (xs ! i) (mset (remove_nth i xs)) = mset xs"
  by (subst (3) id_take_nth_drop [of i xs]) (simp_all add: remove_nth_def)

lemma length_remove_nth: "i < length xs \<Longrightarrow> length (remove_nth i xs) = length xs - 1"
  by (simp add: remove_nth_def)

lemma resolveHandler_result:
  assumes "resolveHandler body h ev d = Inr (r, d')"
  shows "r_handler r = h" "r_event r = ev" "waiter d' = waiter d - 1"
  using assms wg.pending_finish
  by (auto simp: resolveHandler_def split: sum.splits option.splits)

lemma waiter_channel_ops [simp]:
  "waiter (SetChannels cs d) = waiter d" "waiter (AddChannels cs d) = waiter d"
  "waiter (RemoveChannels cs d) = waiter d"
  by (simp_all add: SetChannels_def core_channels_def AddChannels_def RemoveChannels_def split: option.splits)

lemma core_Register: "Dispatcher_Register rnd event h d = Some (i, d') \<Longrightarrow> core d' = core d"
  by (auto simp: Dispatcher_Register_def Let_def split: option.splits)

lemma core_Unregister: "Dispatcher_Unregister event i d = (ok, d') \<Longrightarrow> core d' = core d"
  by (auto simp: Dispatcher_Unregister_def Let_def split: option.splits)

lemma machine_step_inv: "machine_step body m m' \<Longrightarrow> machine_inv m \<Longrightarrow> machine_inv m'"
proof (induction rule: machine_step.induct)
  case (step_dispatch ev m handled ts d)
  then have "ts = map (\<lambda>(i, h). (h, ev)) (table_of (disp m) (to_upper (eName ev)) @ table_of (disp m) ''RAW'')"
    "waiter (core d) = waiter (core (disp m)) + int (length ts)"
    by (auto simp: Dispatch_eq wg.pending_start_all)
  with step_dispatch(2) show ?case by (simp add: machine_inv_def)
next
  case (step_run i m h ev r c)
  note r = resolveHandler_result [OF step_run(3)]
  have "mset (tasks m) = add_mset (h, ev) (mset (remove_nth i (tasks m)))"
    using mset_remove_nth [OF step_run(1)] step_run(2) by simp
  with step_run(1,4) r show ?case by (auto simp: machine_inv_def length_remove_nth)
qed (auto simp: machine_inv_def dest: core_Register core_Unregister)

lemma machine_reach_inv: "machine_reach body cs m \<Longrightarrow> machine_inv m"
proof (induction rule: machine_reach.induct)
  case reach_init
  show ?case by (simp add: machine_inv_def initial_machine_def NewDispatcher_def NewDispatchCore_def core_channels_def)
qed (rule machine_step_inv)

lemma machine_run_first:
  assumes "machine_inv m" "tasks m = tk # rest"
  obtains m' where "machine_step body m m'" "tasks m' = rest" "started m' = started m"
proof -
  obtain h ev where tk: "tk = (h, ev)" by (cases tk)
  have "0 < waiter (core (disp m))" using assms by (simp add: machine_inv_def)
  then obtain c where "HandlerFinished (core (disp m)) = Inr c" using wg.finish_ok by blast
  then obtain r where "resolveHandler body h ev (core (disp m)) = Inr (r, c)" by (auto simp: resolveHandler_def)
  then have "machine_step body m
      (m\<lparr>disp := (disp m)\<lparr>core := c\<rparr>, tasks := remove_nth 0 (tasks m), results := results m @ [r]\<rparr>)"
    using assms(2) tk by (intro step_run) simp_all
  then show ?thesis by (rule that) (use assms(2) in \<open>simp_all add: remove_nth_def\<close>)
qed

lemma machine_drains:
  assumes "machine_inv m"
  shows "\<exists>m'. (machine_step body)\<^sup>*\<^sup>* m m' \<and> tasks m' = [] \<and> started m' = started m"
  using assms
proof (induction "tasks m" arbitrary: m)
  case (Cons tk rest)
  then obtain m1 where m1: "machine_step body m m1" "tasks m1 = rest" "started m1 = started m"
    by (metis machine_run_first)
  with Cons machine_step_inv obtain m' where "(machine_step body)\<^sup>*\<^sup>* m1 m'" "tasks m' = []" "started m' = started m1"
    by metis
  with m1 show ?case by (metis converse_rtranclp_into_rtranclp)
qed auto

lemma machine_steps_inv: "(machine_step body)\<^sup>*\<^sup>* m m' \<Longrightarrow> machine_inv m \<Longrightarrow> machine_inv m'"
  by (induction rule: rtranclp_induct) (auto intro: machine_step_inv)

text \<open>
  C19: However dispatching, running handlers and changing the tables interleave, and whatever the
  handlers do short of not returning: an event starts exactly the handlers registered for its
  name and the raw handlers; every started handler is either pending or finished, exactly
  once; the waiter counts the pending ones, so that waiting returns when none is left; a pending
  handler can always finish, panic or not, and all of them together.
\<close>

theorem handlers_run_once:
  assumes "machine_reach body cs m"
  shows "fst (snd (Dispatcher_Dispatch ev (disp m))) =
           map (\<lambda>(i, h). (h, ev)) (table_of (disp m) (to_upper (eName ev)) @ table_of (disp m) ''RAW'')
    \<and> mset (started m) = mset (tasks m) + mset (map (\<lambda>r. (r_handler r, r_event r)) (results m))
    \<and> (WaitForHandlers_returns (core (disp m)) \<longleftrightarrow> tasks m = [])
    \<and> (\<exists>m'. (machine_step body)\<^sup>*\<^sup>* m m' \<and> WaitForHandlers_returns (core (disp m'))
         \<and> mset (map (\<lambda>r. (r_handler r, r_event r)) (results m')) = mset (started m))"
proof -
  have inv: "machine_inv m" using assms by (rule machine_reach_inv)
  obtain m' where m': "(machine_step body)\<^sup>*\<^sup>* m m'" "tasks m' = []" "started m' = started m"
    using machine_drains [OF inv] by blast
  have "machine_inv m'" using m'(1) inv by (rule machine_steps_inv)
  with m' have "WaitForHandlers_returns (core (disp m'))"
    "mset (map (\<lambda>r. (r_handler r, r_event r)) (results m')) = mset (started m)"
    by (simp_all add: machine_inv_def WaitForHandlers_returns_def)
  with inv m'(1) show ?thesis by (auto simp: Dispatch_eq machine_inv_def WaitForHandlers_returns_def)
qed

definition sample_machine :: Machine where
  "sample_machine = (case Dispatcher_Dispatch (sample_message ''#a'' ''hi'')
       \<lparr>core = NewDispatchCore [], events = [(''PRIVMSG'', [(7, sample_handler)])]\<rparr> of
     (_, ts, d) \<Rightarrow> \<lparr>disp = d, tasks = ts, started = ts, results = []\<rparr>)"

lemma sample_machine_reach: "machine_reach body [] sample_machine"
proof -
  let ?d = "\<lparr>core = NewDispatchCore [], events = [(''PRIVMSG'', [(7, sample_handler)])]\<rparr>"
  let ?m = "(initial_machine [])\<lparr>disp := ?d\<rparr>"
  have "to_upper ''PRIVMSG'' = ''PRIVMSG''" by code_simp
  then have "Dispatcher_Register (\<lambda>_. 7) ''PRIVMSG'' sample_handler (disp (initial_machine [])) = Some (7, ?d)"
    by (simp add: Dispatcher_Register_def initial_machine_def NewDispatcher_def)
  from step_register [OF this] have m: "machine_reach body [] ?m" by (blast intro: reach_init reach_step)
  obtain x ts d where d: "Dispatcher_Dispatch (sample_message ''#a'' ''hi'') ?d = (x, ts, d)" by (metis prod_cases3)
  have "machine_step body ?m (?m\<lparr>disp := d, tasks := tasks ?m @ ts, started := started ?m @ ts\<rparr>)"
    using d by (intro step_dispatch [where handled = x]) simp
  then have "machine_step body ?m sample_machine" using d by (simp add: sample_machine_def initial_machine_def)
  with m show ?thesis by (rule reach_step)
qed

theorem handlers_run_once_witness:
  "\<exists>m'. (machine_step (\<lambda>_ _ _. Some NilDereference))\<^sup>*\<^sup>* sample_machine m'
     \<and> map (\<lambda>r. (r_handler r, r_event r)) (results m') = [(sample_handler, sample_message ''#a'' ''hi'')]"
proof -
  have "to_upper ''PRIVMSG'' = ''PRIVMSG''" by code_simp
  then have "started sample_machine = [(sample_handler, sample_message ''#a'' ''hi'')]"
    by (simp add: sample_machine_def Dispatch_eq table_of_def sample_message_def NewEvent_def)
  then show ?thesis
    using handlers_run_once [OF sample_machine_reach, where body = "\<lambda>_ _ _. Some NilDereference",
        THEN conjunct2, THEN conjunct2, THEN conjunct2]
    unfolding mset_map [symmetric] by (auto simp del: mset_map)
qed

section \<open>Registration\<close>

lemma reroll_False: "reroll rnd False k = Some (rnd k)"
  by (simp add: reroll.simps)

lemma reroll_True: "reroll rnd True k = None"
proof -
  have "reroll rnd has k = Some y \<Longrightarrow> \<not> has" for has y
    by (rule reroll.raw_induct [where P = "\<lambda>_ has _ _. \<not> has"]) (auto split: if_splits)
  then show ?thesis by (cases "reroll rnd True k") auto
qed

lemma Register_cases:
  "Dispatcher_Register rnd event h d =
     (if rnd 0 \<in> fst ` set (table_of d (to_upper event)) then None
      else Some (rnd 0, d\<lparr>events := AList.update (to_upper event)
                            (AList.update (rnd 0) h (table_of d (to_upper event))) (events d)\<rparr>))"
proof (cases "map_of (events d) (to_upper event)")
  case None
  then show ?thesis by (simp add: Dispatcher_Register_def table_of_def)
next
  case (Some t)
  have "map_of t (rnd 0) \<noteq> None \<longleftrightarrow> rnd 0 \<in> fst ` set t" by (simp add: map_of_eq_None_iff)
  with Some show ?thesis
    by (cases "rnd 0 \<in> fst ` set t") (simp_all add: Dispatcher_Register_def table_of_def reroll_False reroll_True)
qed

lemma table_of_update: "table_of (d\<lparr>events := AList.update ev t (events d)\<rparr>) ev' = (if ev' = ev then t else table_of d ev')"
  by (simp add: table_of_def update_conv')

text \<open>
  Registration returns unless the first random identifier is taken for this event, and
  then never.  A returned identifier is new; it adds the handler under that event only,
  whatever the case of the event name; unregistering it succeeds once and takes exactly it away.
\<close>

theorem register_unregister:
  "case Dispatcher_Register rnd event h d of
     None \<Rightarrow> rnd 0 \<in> fst ` set (table_of d (to_upper event))
   | Some (i, d') \<Rightarrow>
       i \<notin> fst ` set (table_of d (to_upper event))
       \<and> (\<forall>ev. map_of (table_of d' ev) =
            (if ev = to_upper event then (map_of (table_of d ev))(i \<mapsto> h) else map_of (table_of d ev)))
       \<and> (case Dispatcher_Unregister event i d' of
            (ok, d'') \<Rightarrow> ok \<and> (\<forall>ev. map_of (table_of d'' ev) = map_of (table_of d ev))
              \<and> \<not> fst (Dispatcher_Unregister event i d''))"
proof (cases "rnd 0 \<in> fst ` set (table_of d (to_upper event))")
  case True
  then show ?thesis by (simp add: Register_cases)
next
  case False
  let ?e = "to_upper event" and ?i = "rnd 0"
  let ?t = "AList.update ?i h (table_of d ?e)"
  let ?d = "d\<lparr>events := AList.update ?e ?t (events d)\<rparr>"
  let ?d2 = "d\<lparr>events := AList.update ?e (AList.delete ?i ?t) (AList.update ?e ?t (events d))\<rparr>"
  have un: "Dispatcher_Unregister event ?i ?d = (True, ?d2)" "\<not> fst (Dispatcher_Unregister event ?i ?d2)"
    by (simp_all add: Dispatcher_Unregister_def Let_def update_conv' delete_conv')
  have none: "map_of (table_of d ?e) ?i = None" using False by (simp add: map_of_eq_None_iff)
  have "map_of (table_of ?d2 ev) = map_of (table_of d ev)" for ev
    using none table_of_update [of ?e "AList.delete ?i ?t" ?d ev]
    by (auto simp: table_of_update delete_conv' update_conv' fun_eq_iff)
  with False un show ?thesis by (simp add: Register_cases table_of_update update_conv')
qed

end
