(* ===== verification/Cmd.thy ===== *)
theory Cmd
  imports Access "HOL-Library.Sublist"
begin

text \<open>
  Declarations of commands, \<^verbatim>\<open>src/dispatch/cmd/cmd.go\<close>: the record of a command, the bits of an
  argument's type and the parser of the declared argument list.

  A command is given by a pointer, and the parser writes into it, also when it fails half-way;
  so it returns the changed command beside the error.  A nil handler is \<^verbatim>\<open>None\<close>.
\<close>

section \<open>Errors of the package\<close>

text \<open>Each message of the package with what is formatted into it.\<close>

datatype CmdError =
    DuplicateCmd string | CmdRequired | ExtRequired | DescRequired | HandlerRequired
  | StoreDisabled | StateDisabled | NotAuthed
  | InsuffLevel "8 word" | InsuffGlobalLevel "8 word" | InsuffServerLevel "8 word" | InsuffChannelLevel "8 word"
  | InsuffFlags string | InsuffGlobalFlags string | InsuffServerFlags string | InsuffChannelFlags string
  | UserNotRegistered string | UserNotAuthed string | UserNotFound string
  | MissingUsername | UnexpectedArgument | NArguments string int string | ArgumentNotChannel string
  | ArgumentForm string | ArgumentOrderReq string | ArgumentOrderOpt string | ArgumentDupName string
  | ArgumentDupVargs string | ArgumentOrderChan string | ArgumentDupChan string
  | HandlerError string

section \<open>Arguments\<close>

type_synonym argType = int

definition REQUIRED :: argType where "REQUIRED = 1"
definition OPTIONAL :: argType where "OPTIONAL = 2"
definition VARIADIC :: argType where "VARIADIC = 4"
definition CHANNEL :: argType where "CHANNEL = 8"
definition NICKARG :: argType where "NICKARG = 16"
definition USERARG :: argType where "USERARG = 32"
definition TYPEMASK :: argType where "TYPEMASK = REQUIRED OR OPTIONAL OR VARIADIC OR CHANNEL"
definition USERMASK :: argType where "USERMASK = NICKARG OR USERARG"

lemmas arg_bits = REQUIRED_def OPTIONAL_def VARIADIC_def CHANNEL_def NICKARG_def USERARG_def TYPEMASK_def USERMASK_def

text \<open>The test \<^verbatim>\<open>bit & t != 0\<close>.\<close>

definition has_bit :: "argType \<Rightarrow> argType \<Rightarrow> bool" where
  "has_bit b t \<longleftrightarrow> b AND t \<noteq> 0"

record argument =
  a_Original :: string
  a_Name :: string
  a_Type :: argType

definition zero_argument :: argument where
  "zero_argument = \<lparr>a_Original = [], a_Name = [], a_Type = 0\<rparr>"

definition strip_char :: "char \<Rightarrow> bool" where
  "strip_char c \<longleftrightarrow> c \<in> set ''#~*[].''"

text \<open>
  \<^verbatim>\<open>rgxArgs\<close>, the alternatives \<^verbatim>\<open>[x]\<close>, \<^verbatim>\<open>x\<close> or \<^verbatim>\<open>x...\<close>, and \<^verbatim>\<open>#w\<close>, where \<^verbatim>\<open>x\<close> is a word
  with an optional flag and \<^verbatim>\<open>w\<close> a word of letters and digits.
\<close>

definition word_ok :: "string \<Rightarrow> bool" where
  "word_ok s \<longleftrightarrow> s \<noteq> [] \<and> list_all (\<lambda>c. is_lower c \<or> is_upper c \<or> is_digit c) s"

definition flagged_ok :: "string \<Rightarrow> bool" where
  "flagged_ok s \<longleftrightarrow>
     (case s of [] \<Rightarrow> False | c # r \<Rightarrow> if c = CHR ''~'' \<or> c = CHR ''*'' then word_ok r else word_ok s)"

definition rgxArgs :: "string \<Rightarrow> bool" where
  "rgxArgs s \<longleftrightarrow>
     (case s of
        [] \<Rightarrow> False
      | c # r \<Rightarrow>
          if c = CHR ''['' then r \<noteq> [] \<and> last r = CHR '']'' \<and> flagged_ok (butlast r)
          else if c = CHR ''#'' then word_ok r
          else flagged_ok s \<or> (suffix ''...'' s \<and> flagged_ok (take (length s - 3) s)))"

section \<open>Commands\<close>

record 'h Cmd =
  c_Cmd :: string
  c_Extension :: string
  c_Description :: string
  c_Msgtype :: int
  c_Msgscope :: int
  c_Args :: "string list"
  c_RequireAuth :: bool
  c_ReqLevel :: "8 word"
  c_ReqFlags :: string
  c_Handler :: "'h option"
  c_args :: "argument list"
  c_reqArgs :: int
  c_optArgs :: int

definition MkCmd :: "string \<Rightarrow> string \<Rightarrow> string \<Rightarrow> 'h option \<Rightarrow> int \<Rightarrow> int \<Rightarrow> string list \<Rightarrow> 'h Cmd" where
  "MkCmd ext desc cmd handler msgtype msgscope args =
     \<lparr>c_Cmd = cmd, c_Extension = ext, c_Description = desc, c_Msgtype = msgtype, c_Msgscope = msgscope,
      c_Args = args, c_RequireAuth = False, c_ReqLevel = 0, c_ReqFlags = [], c_Handler = handler,
      c_args = [], c_reqArgs = 0, c_optArgs = 0\<rparr>"

definition MkAuthCmd :: "string \<Rightarrow> string \<Rightarrow> string \<Rightarrow> 'h option \<Rightarrow> int \<Rightarrow> int \<Rightarrow> 8 word \<Rightarrow> string \<Rightarrow> string list \<Rightarrow> 'h Cmd" where
  "MkAuthCmd ext desc cmd handler msgtype msgscope reqLevel reqFlags args =
     (MkCmd ext desc cmd handler msgtype msgscope args)
       \<lparr>c_RequireAuth := True, c_ReqLevel := reqLevel, c_ReqFlags := reqFlags\<rparr>"

section \<open>Parsing the declared arguments\<close>

text \<open>The four flags of the loop and the two counters of the command.\<close>

record parse_state =
  ps_chanArg :: bool
  ps_required :: bool
  ps_optional :: bool
  ps_variadic :: bool
  ps_reqArgs :: int
  ps_optArgs :: int

text \<open>
  The two switches of the loop body.  The pattern guarantees the characters they look at.
\<close>

definition modifier :: "string \<Rightarrow> char" where
  "modifier arg = (if arg ! 0 = CHR ''['' then arg ! 1 else arg ! 0)"

definition modifier_switch :: "string \<Rightarrow> argument \<Rightarrow> parse_state \<Rightarrow> CmdError + argument \<times> parse_state" where
  "modifier_switch arg meta ps =
     (if modifier arg = CHR ''#'' then
        if ps_chanArg ps then Inl (ArgumentDupChan arg)
        else if ps_required ps \<or> ps_optional ps \<or> ps_variadic ps then Inl (ArgumentOrderChan arg)
        else Inr (meta\<lparr>a_Type := CHANNEL\<rparr>, ps\<lparr>ps_chanArg := True\<rparr>)
      else if modifier arg = CHR ''~'' then Inr (meta\<lparr>a_Type := NICKARG\<rparr>, ps)
      else if modifier arg = CHR ''*'' then Inr (meta\<lparr>a_Type := USERARG\<rparr>, ps)
      else Inr (meta, ps))"

definition last_switch :: "string \<Rightarrow> argument \<Rightarrow> parse_state \<Rightarrow> CmdError + argument \<times> parse_state" where
  "last_switch arg meta ps =
     (if last arg = CHR '']'' then
        if ps_variadic ps then Inl (ArgumentOrderOpt arg)
        else Inr (meta\<lparr>a_Type := a_Type meta OR OPTIONAL\<rparr>,
                  ps\<lparr>ps_optional := True, ps_optArgs := ps_optArgs ps + 1\<rparr>)
      else if last arg = CHR ''.'' then
        if ps_variadic ps then Inl (ArgumentDupVargs arg)
        else Inr (meta\<lparr>a_Type := a_Type meta OR VARIADIC\<rparr>, ps\<lparr>ps_variadic := True\<rparr>)
      else
        if ps_optional ps then Inl (ArgumentOrderReq arg)
        else Inr (meta\<lparr>a_Type := a_Type meta OR REQUIRED\<rparr>,
                  ps\<lparr>ps_required := True, ps_reqArgs := ps_reqArgs ps + 1\<rparr>))"

text \<open>One pass of the loop: the error, if any, what is written into the argument, and the flags.\<close>

definition parse_one :: "argument list \<Rightarrow> string \<Rightarrow> parse_state \<Rightarrow> CmdError option \<times> argument \<times> parse_state" where
  "parse_one before orig ps =
     (let arg = to_lower orig in
      if \<not> rgxArgs arg then (Some (ArgumentForm arg), zero_argument, ps)
      else
        let meta = \<lparr>a_Original = arg, a_Name = trim strip_char orig, a_Type = 0\<rparr> in
        if a_Name meta \<in> set (map a_Name before) then (Some (ArgumentDupName (a_Name meta)), meta, ps)
        else
          (case modifier_switch arg meta ps of
             Inl err \<Rightarrow> (Some err, meta, ps)
           | Inr (meta, ps) \<Rightarrow>
               (case last_switch arg meta ps of
                  Inl err \<Rightarrow> (Some err, meta, ps)
                | Inr (meta, ps) \<Rightarrow> (None, meta, ps))))"

fun parse_loop :: "argument list \<Rightarrow> string list \<Rightarrow> parse_state \<Rightarrow> CmdError option \<times> argument list \<times> parse_state" where
  "parse_loop before [] ps = (None, before, ps)"
| "parse_loop before (arg # rest) ps =
     (case parse_one before arg ps of
        (Some err, meta, ps) \<Rightarrow> (Some err, before @ [meta] @ replicate (length rest) zero_argument, ps)
      | (None, meta, ps) \<Rightarrow> parse_loop (before @ [meta]) rest ps)"

definition parseArgs :: "'h Cmd \<Rightarrow> CmdError option \<times> 'h Cmd" where
  "parseArgs c =
     (if c_Args c = [] then (None, c)
      else
        (case parse_loop [] (c_Args c)
                \<lparr>ps_chanArg = False, ps_required = False, ps_optional = False, ps_variadic = False,
                 ps_reqArgs = c_reqArgs c, ps_optArgs = c_optArgs c\<rparr> of
           (err, as, ps) \<Rightarrow>
             (err, c\<lparr>c_args := as, c_reqArgs := ps_reqArgs ps, c_optArgs := ps_optArgs ps\<rparr>)))"

section \<open>The declarations that are accepted\<close>

text \<open>A reference description of the accepted argument lists, from the characters of each argument.\<close>

datatype kind = ChanArg | ReqArg | OptArg | VarArg

definition kind_of :: "string \<Rightarrow> kind" where
  "kind_of arg =
     (if hd arg = CHR ''#'' then ChanArg else if last arg = CHR '']'' then OptArg
      else if last arg = CHR ''.'' then VarArg else ReqArg)"

definition order_ok :: "kind list \<Rightarrow> bool" where
  "order_ok ks \<longleftrightarrow>
     ChanArg \<notin> set (tl ks) \<and> \<not> subseq [OptArg, ReqArg] ks \<and> \<not> subseq [VarArg, OptArg] ks
     \<and> \<not> subseq [VarArg, VarArg] ks"

definition type_of :: "string \<Rightarrow> argType" where
  "type_of arg =
     (if modifier arg = CHR ''#'' then CHANNEL else if modifier arg = CHR ''~'' then NICKARG
      else if modifier arg = CHR ''*'' then USERARG else 0) OR
     (case kind_of arg of ChanArg \<Rightarrow> REQUIRED | ReqArg \<Rightarrow> REQUIRED | OptArg \<Rightarrow> OPTIONAL | VarArg \<Rightarrow> VARIADIC)"

definition meta_of :: "string \<Rightarrow> argument" where
  "meta_of orig = \<lparr>a_Original = to_lower orig, a_Name = trim strip_char orig, a_Type = type_of (to_lower orig)\<rparr>"

lemma subseq_pair_snoc:
  "subseq [a, b] (xs @ [k]) \<longleftrightarrow> subseq [a, b] xs \<or> a \<in> set xs \<and> k = b"
proof (induction xs)
  case (Cons x xs)
  then show ?case by (auto simp: subseq_singleton_left)
qed simp

lemma order_ok_snoc:
  "order_ok (ks @ [k]) \<longleftrightarrow> order_ok ks \<and>
     (case k of
        ChanArg \<Rightarrow> ks = []
      | ReqArg \<Rightarrow> OptArg \<notin> set ks
      | OptArg \<Rightarrow> VarArg \<notin> set ks
      | VarArg \<Rightarrow> VarArg \<notin> set ks)"
  by (cases ks; cases k) (auto simp: order_ok_def subseq_pair_snoc simp flip: append_Cons)

lemma order_ok_prefix: "order_ok (ks @ ls) \<Longrightarrow> order_ok ks"
  by (induction ls rule: rev_induct) (auto simp: order_ok_snoc simp flip: append_assoc)

lemma word_ok_last: "word_ok s \<Longrightarrow> last s \<noteq> CHR '']'' \<and> last s \<noteq> CHR ''.''"
  by (cases s rule: rev_cases) (auto simp: word_ok_def is_lower_def is_upper_def is_digit_def code_def)

lemma word_ok_hd: "word_ok s \<Longrightarrow> s \<noteq> [] \<and> hd s \<noteq> CHR ''#''"
  by (cases s) (auto simp: word_ok_def is_lower_def is_upper_def is_digit_def code_def)

lemma flagged_ok_hd: "flagged_ok s \<Longrightarrow> s \<noteq> [] \<and> hd s \<noteq> CHR ''#''"
  by (cases s) (auto simp: flagged_ok_def split: if_splits dest: word_ok_hd)

lemma rgxArgs_facts:
  assumes "rgxArgs arg"
  shows "arg \<noteq> []" "modifier arg = CHR ''#'' \<longleftrightarrow> hd arg = CHR ''#''"
    "hd arg = CHR ''#'' \<Longrightarrow> last arg \<noteq> CHR '']'' \<and> last arg \<noteq> CHR ''.''"
proof -
  obtain c r where arg: "arg = c # r" using assms by (cases arg) (auto simp: rgxArgs_def)
  show "arg \<noteq> []" using arg by simp
  show "modifier arg = CHR ''#'' \<longleftrightarrow> hd arg = CHR ''#''"
  proof (cases "c = CHR ''[''")
    case True
    with assms arg have "r \<noteq> []" "flagged_ok (butlast r)" by (auto simp: rgxArgs_def)
    then have "hd r \<noteq> CHR ''#''" using flagged_ok_hd [of "butlast r"] by (cases r) (auto split: if_splits)
    with True arg \<open>r \<noteq> []\<close> show ?thesis by (auto simp: modifier_def hd_conv_nth)
  qed (use arg in \<open>simp add: modifier_def\<close>)
  assume "hd arg = CHR ''#''"
  with assms arg have "word_ok r" by (simp add: rgxArgs_def)
  with word_ok_last [OF this] arg show "last arg \<noteq> CHR '']'' \<and> last arg \<noteq> CHR ''.''" by (auto simp: word_ok_def)
qed

definition tracks :: "parse_state \<Rightarrow> kind list \<Rightarrow> bool" where
  "tracks ps ks \<longleftrightarrow>
     ps_chanArg ps = (ChanArg \<in> set ks) \<and> ps_required ps = (ChanArg \<in> set ks \<or> ReqArg \<in> set ks)
     \<and> ps_optional ps = (OptArg \<in> set ks) \<and> ps_variadic ps = (VarArg \<in> set ks)"

definition count_kind :: "kind \<Rightarrow> kind list \<Rightarrow> int" where
  "count_kind k ks = int (length (filter ((=) k) ks))"

lemma count_kind_snoc [simp]: "count_kind k (ks @ [l]) = count_kind k ks + (if k = l then 1 else 0)"
  by (simp add: count_kind_def)

lemma count_kind_Nil [simp]: "count_kind k [] = 0"
  by (simp add: count_kind_def)

lemma tracks_no_kind: "tracks ps ks \<Longrightarrow> ks = [] \<longleftrightarrow>
    \<not> ps_chanArg ps \<and> \<not> ps_required ps \<and> \<not> ps_optional ps \<and> \<not> ps_variadic ps"
  by (cases ks) (auto simp: tracks_def, metis kind.exhaust)

lemma parse_one_cases:
  assumes "tracks ps ks" "order_ok ks" and k_def: "k = kind_of (to_lower orig)"
  shows "if rgxArgs (to_lower orig) \<and> a_Name (meta_of orig) \<notin> set (map a_Name before) \<and> order_ok (ks @ [k])
    then \<exists>ps'. parse_one before orig ps = (None, meta_of orig, ps') \<and> tracks ps' (ks @ [k])
       \<and> ps_reqArgs ps' = ps_reqArgs ps + count_kind ReqArg [k] + count_kind ChanArg [k]
       \<and> ps_optArgs ps' = ps_optArgs ps + count_kind OptArg [k]
    else fst (parse_one before orig ps) \<noteq> None"
proof (cases "rgxArgs (to_lower orig) \<and> a_Name (meta_of orig) \<notin> set (map a_Name before)")
  case False
  then show ?thesis by (auto simp: parse_one_def meta_of_def Let_def)
next
  case True
  then have rgx: "rgxArgs (to_lower orig)" by simp
  note facts = rgxArgs_facts [OF rgx]
  note empty = tracks_no_kind [OF assms(1)]
  show ?thesis
  proof (cases k)
    case ChanArg
    with True assms(1,2) facts empty show ?thesis
      by (auto simp: k_def kind_of_def parse_one_def modifier_switch_def last_switch_def meta_of_def
          type_of_def order_ok_snoc tracks_def count_kind_def Let_def split: if_splits)
  qed (use True assms(1,2) facts in
      \<open>auto simp: k_def kind_of_def parse_one_def modifier_switch_def last_switch_def meta_of_def
          type_of_def order_ok_snoc tracks_def count_kind_def Let_def split: if_splits\<close>)
qed

definition kinds_of :: "string list \<Rightarrow> kind list" where
  "kinds_of args = map (\<lambda>a. kind_of (to_lower a)) args"

definition names_of :: "string list \<Rightarrow> string list" where
  "names_of args = map (trim strip_char) args"

definition declarable :: "string list \<Rightarrow> bool" where
  "declarable args \<longleftrightarrow>
     list_all (\<lambda>a. rgxArgs (to_lower a)) args \<and> distinct (names_of args) \<and> order_ok (kinds_of args)"

lemma kinds_names_simps [simp]:
  "kinds_of [] = []" "kinds_of (xs @ ys) = kinds_of xs @ kinds_of ys" "kinds_of [a] = [kind_of (to_lower a)]"
  "names_of [] = []" "names_of (xs @ ys) = names_of xs @ names_of ys" "names_of [a] = [trim strip_char a]"
  by (simp_all add: kinds_of_def names_of_def)

lemma names_of_meta: "map a_Name (map meta_of args) = names_of args"
  by (simp add: names_of_def meta_of_def)

lemma declarable_snoc:
  "declarable (xs @ [a]) \<longleftrightarrow> declarable xs \<and> rgxArgs (to_lower a) \<and> trim strip_char a \<notin> set (names_of xs)
     \<and> order_ok (kinds_of xs @ [kind_of (to_lower a)])"
  by (auto simp: declarable_def intro: order_ok_prefix)

lemma declarable_prefix: "declarable (xs @ ys) \<Longrightarrow> declarable xs"
  by (auto simp: declarable_def intro: order_ok_prefix)

lemma parse_one_declarable:
  assumes "tracks ps (kinds_of done)" "declarable done"
  shows "if declarable (done @ [a])
    then \<exists>ps'. parse_one (map meta_of done) a ps = (None, meta_of a, ps') \<and> tracks ps' (kinds_of (done @ [a]))
       \<and> ps_reqArgs ps' = ps_reqArgs ps + count_kind ReqArg (kinds_of [a]) + count_kind ChanArg (kinds_of [a])
       \<and> ps_optArgs ps' = ps_optArgs ps + count_kind OptArg (kinds_of [a])
    else fst (parse_one (map meta_of done) a ps) \<noteq> None"
proof -
  have name: "a_Name (meta_of a) = trim strip_char a" by (simp add: meta_of_def)
  have "order_ok (kinds_of done)" using assms(2) by (simp add: declarable_def)
  from parse_one_cases [OF assms(1) this refl, of a "map meta_of done"]
  show ?thesis using assms(2) name unfolding names_of_meta declarable_snoc by simp
qed

lemma parse_loop_cases:
  assumes "tracks ps (kinds_of done)" "declarable done"
  shows "if declarable (done @ args)
    then \<exists>ps'. parse_loop (map meta_of done) args ps = (None, map meta_of (done @ args), ps')
       \<and> ps_reqArgs ps' = ps_reqArgs ps + count_kind ReqArg (kinds_of args) + count_kind ChanArg (kinds_of args)
       \<and> ps_optArgs ps' = ps_optArgs ps + count_kind OptArg (kinds_of args)
    else fst (parse_loop (map meta_of done) args ps) \<noteq> None"
  using assms
proof (induction args arbitrary: "done" ps)
  case (Cons a args)
  note one = parse_one_declarable [OF Cons.prems, of a]
  show ?case
  proof (cases "declarable (done @ [a])")
    case False
    then have "fst (parse_loop (map meta_of done) (a # args) ps) \<noteq> None"
      using one by (auto split: prod.splits option.splits)
    moreover have "\<not> declarable (done @ a # args)" using False declarable_prefix [of "done @ [a]" args] by auto
    ultimately show ?thesis by simp
  next
    case True
    then obtain ps1 where ps1: "parse_one (map meta_of done) a ps = (None, meta_of a, ps1)"
      "tracks ps1 (kinds_of (done @ [a]))"
      "ps_reqArgs ps1 = ps_reqArgs ps + count_kind ReqArg (kinds_of [a]) + count_kind ChanArg (kinds_of [a])"
      "ps_optArgs ps1 = ps_optArgs ps + count_kind OptArg (kinds_of [a])"
      using one by auto
    have "count_kind k (kinds_of (a # args)) = count_kind k (kinds_of [a]) + count_kind k (kinds_of args)" for k
      by (simp add: count_kind_def kinds_of_def)
    with Cons.IH [OF ps1(2) True] ps1 show ?thesis by (auto split: if_splits)
  qed
qed simp


text \<open>The documentation asks for required arguments before variadic ones; the parser does not.\<close>

lemma required_after_variadic: "declarable [''all...'', ''needed'']"
  by code_simp

end
