(* ===== verification/Cmds.thy ===== *)
theory Cmds
  imports Cmd Dispatch State Store
begin

text \<open>
  The command dispatcher, \<^verbatim>\<open>src/dispatch/cmd/cmds.go\<close> and \<^verbatim>\<open>src/dispatch/cmd/event.go\<close>: the
  registry of commands, the path of a message to a handler through prefix, scope, access and
  argument checks, and the event a handler gets.

  The locker of the interface \<^verbatim>\<open>data.Locker\<close> is the bot: the record \<^verbatim>\<open>World\<close> holds the state of
  the network, the store and the number of read locks on each (\<^verbatim>\<open>OpenState\<close> and its siblings of
  \<^verbatim>\<open>src/bot/bot.go\<close>).  Commands are shared by pointer and live in a heap.  A handler is code of
  an extension and a parameter: \<^verbatim>\<open>methods\<close> is what reflection finds in its type, \<^verbatim>\<open>invoke\<close> is what
  a call does.  Error messages are sent as values of \<^typ>\<open>CmdError\<close>.
\<close>

section \<open>The world\<close>

record 'd World =
  w_known :: bool
  w_state :: "State option"
  w_store :: "'d Store option"
  w_stateLocks :: int
  w_storeLocks :: int

text \<open>Locking returns whether there is something to look at.\<close>

definition OpenState :: "'d World \<Rightarrow> State option \<times> 'd World" where
  "OpenState w = (if w_known w then (w_state w, w\<lparr>w_stateLocks := w_stateLocks w + 1\<rparr>) else (None, w))"

definition CloseState :: "'d World \<Rightarrow> 'd World" where
  "CloseState w = (if w_known w then w\<lparr>w_stateLocks := w_stateLocks w - 1\<rparr> else w)"

definition OpenReadStore :: "'d World \<Rightarrow> 'd Store option \<times> 'd World" where
  "OpenReadStore w = (w_store w, w\<lparr>w_storeLocks := w_storeLocks w + 1\<rparr>)"

definition CloseReadStore :: "'d World \<Rightarrow> 'd World" where
  "CloseReadStore w = w\<lparr>w_storeLocks := w_storeLocks w - 1\<rparr>"

section \<open>Events of commands\<close>

text \<open>
  \<^verbatim>\<open>ce_State\<close> and \<^verbatim>\<open>ce_Store\<close> tell if the embedded pointers are not nil; what they point to is in
  the world.  \<^verbatim>\<open>ce_closed\<close> is the \<^verbatim>\<open>sync.Once\<close> of \<^verbatim>\<open>Close\<close>.
\<close>

record CmdEvent =
  ce_event :: Event
  ce_State :: bool
  ce_Store :: bool
  ce_User :: "ref option"
  ce_StoredUser :: "uref option"
  ce_UserChannelModes :: "ref option"
  ce_Channel :: "ref option"
  ce_TargetChannel :: "ref option"
  ce_TargetUsers :: "string \<rightharpoonup> ref"
  ce_TargetStoredUser :: "string \<rightharpoonup> uref"
  ce_TargetVarUsers :: "ref option list"
  ce_TargetVarStoredUser :: "uref option list"
  ce_args :: "string \<rightharpoonup> string"
  ce_closed :: bool

definition new_event :: "Event \<Rightarrow> CmdEvent" where
  "new_event ev =
     \<lparr>ce_event = ev, ce_State = False, ce_Store = False, ce_User = None, ce_StoredUser = None,
      ce_UserChannelModes = None, ce_Channel = None, ce_TargetChannel = None,
      ce_TargetUsers = Map.empty, ce_TargetStoredUser = Map.empty, ce_TargetVarUsers = [],
      ce_TargetVarStoredUser = [], ce_args = Map.empty, ce_closed = False\<rparr>"

definition CE_GetArg :: "string \<Rightarrow> CmdEvent \<Rightarrow> string" where
  "CE_GetArg ag ev = (case ce_args ev ag of None \<Rightarrow> [] | Some s \<Rightarrow> s)"

definition SplitArg :: "string \<Rightarrow> CmdEvent \<Rightarrow> string list" where
  "SplitArg ag ev =
     (case ce_args ev ag of None \<Rightarrow> [] | Some str \<Rightarrow> if str \<noteq> [] then Fields str else [])"

definition FindUserByNick :: "string \<Rightarrow> CmdEvent \<Rightarrow> 'd World \<Rightarrow> CmdError + ref" where
  "FindUserByNick n ev w =
     (case (ce_State ev, w_state w) of
        (True, Some s) \<Rightarrow> (case GetUser n s of None \<Rightarrow> Inl (UserNotFound n) | Some u \<Rightarrow> Inr u)
      | _ \<Rightarrow> Inl StateDisabled)"

text \<open>
  A lookup in the store may fill its cache.  A failed read of the database gives a nil user, which
  is reported as a user that is not registered.
\<close>

definition FindAccessByUser :: "'d kv \<Rightarrow> gob \<Rightarrow> string \<Rightarrow> string \<Rightarrow> CmdEvent \<Rightarrow> 'd World
    \<Rightarrow> ((CmdError + uref \<times> ref option) \<times> 'd World) outcome" where
  "FindAccessByUser K G server nickOrUser ev w =
     (case (ce_Store ev, w_store w) of
        (True, Some store) \<Rightarrow>
          and_then (index_at nickOrUser 0) (\<lambda>first.
            if first = CHR ''*'' then
              if length nickOrUser = 1 then Inr (Inl MissingUsername, w)
              else (case FindUser K G (tl nickOrUser) store of
                      (Inr (Some a), store) \<Rightarrow> Inr (Inr (a, None), w\<lparr>w_store := Some store\<rparr>)
                    | (_, store) \<Rightarrow> Inr (Inl (UserNotRegistered (tl nickOrUser)), w\<lparr>w_store := Some store\<rparr>))
            else
              (case (ce_State ev, w_state w) of
                 (True, Some s) \<Rightarrow>
                   (case GetUser nickOrUser s of
                      None \<Rightarrow> Inr (Inl (UserNotFound nickOrUser), w)
                    | Some u \<Rightarrow>
                        and_then (the_user (Some u) s) (\<lambda>user.
                          case GetAuthedUser server (User_Host user) store of
                            None \<Rightarrow> Inr (Inl (UserNotAuthed nickOrUser), w)
                          | Some a \<Rightarrow> Inr (Inr (a, Some u), w)))
               | _ \<Rightarrow> Inr (Inl StateDisabled, w)))
      | _ \<Rightarrow> Inr (Inl StoreDisabled, w))"

definition CE_Close :: "CmdEvent \<Rightarrow> 'd World \<Rightarrow> CmdEvent \<times> 'd World" where
  "CE_Close ev w =
     (if ce_closed ev then (ev, w)
      else (ev\<lparr>ce_User := None, ce_StoredUser := None, ce_UserChannelModes := None, ce_Channel := None,
               ce_State := False, ce_Store := False, ce_closed := True\<rparr>,
            CloseReadStore (CloseState w)))"

section \<open>The registry\<close>

type_synonym cref = nat

record 'h Registry =
  heapCmd :: "cref \<rightharpoonup> 'h Cmd"
  globalCmdRegistry :: "string \<rightharpoonup> cref"

record Cmds =
  cmds_core :: DispatchCore
  cmds_prefix :: rune
  commands :: "string \<rightharpoonup> cref"

definition GLOBAL :: string where "GLOBAL = ''GLOBAL''"

definition NewCmds :: "rune \<Rightarrow> DispatchCore \<Rightarrow> Cmds" where
  "NewCmds pre c = \<lparr>cmds_core = c, cmds_prefix = pre, commands = Map.empty\<rparr>"

definition GetPrefix :: "Cmds \<Rightarrow> rune" where "GetPrefix c = cmds_prefix c"

definition makeIdentifier :: "string \<Rightarrow> string \<Rightarrow> string" where
  "makeIdentifier server cmd = server @ '':'' @ cmd"

text \<open>What \<^verbatim>\<open>EachCmd\<close> hands to its callback, in the order of the map, up to the one that stops it.\<close>

fun until_true :: "('a \<Rightarrow> bool) \<Rightarrow> 'a list \<Rightarrow> 'a list" where
  "until_true p [] = []"
| "until_true p (x # xs) = (if p x then [x] else x # until_true p xs)"

definition EachCmd :: "(string set \<Rightarrow> string list) \<Rightarrow> ('h Cmd \<Rightarrow> bool) \<Rightarrow> 'h Registry \<Rightarrow> 'h Cmd list" where
  "EachCmd rng fn reg =
     until_true fn (map (\<lambda>k. the (heapCmd reg (the (globalCmdRegistry reg k)))) (rng (dom (globalCmdRegistry reg))))"

definition Cmds_Register :: "string \<Rightarrow> cref \<Rightarrow> 'h Registry \<Rightarrow> Cmds \<Rightarrow> CmdError option \<times> 'h Registry \<times> Cmds" where
  "Cmds_Register server r reg c =
     (let cmd = the (heapCmd reg r);
          regName = makeIdentifier server (c_Cmd cmd);
          globalRegName = makeIdentifier GLOBAL (c_Cmd cmd) in
      if globalCmdRegistry reg regName \<noteq> None then (Some (DuplicateCmd regName), reg, c)
      else if globalCmdRegistry reg globalRegName \<noteq> None then (Some (DuplicateCmd globalRegName), reg, c)
      else if c_Cmd cmd = [] then (Some CmdRequired, reg, c)
      else if c_Extension cmd = [] then (Some ExtRequired, reg, c)
      else if c_Description cmd = [] then (Some DescRequired, reg, c)
      else if c_Handler cmd = None then (Some HandlerRequired, reg, c)
      else
        (case parseArgs cmd of
           (err, cmd') \<Rightarrow>
             (let reg = reg\<lparr>heapCmd := (heapCmd reg)(r \<mapsto> cmd')\<rparr> in
              case err of
                Some e \<Rightarrow> (Some e, reg, c)
              | None \<Rightarrow>
                  (None, reg\<lparr>globalCmdRegistry := (globalCmdRegistry reg)(regName \<mapsto> r)\<rparr>,
                   c\<lparr>commands := (commands c)(c_Cmd cmd \<mapsto> r)\<rparr>))))"

definition Cmds_Unregister :: "string \<Rightarrow> string \<Rightarrow> 'h Registry \<Rightarrow> Cmds \<Rightarrow> bool \<times> 'h Registry \<times> Cmds" where
  "Cmds_Unregister server cmd reg c =
     (let globalCmd = makeIdentifier server cmd in
      (globalCmdRegistry reg globalCmd \<noteq> None \<or> commands c cmd \<noteq> None,
       reg\<lparr>globalCmdRegistry := (globalCmdRegistry reg)(globalCmd := None)\<rparr>,
       c\<lparr>commands := (commands c)(cmd := None)\<rparr>))"

section \<open>Access\<close>

definition filterAccess :: "'d Store option \<Rightarrow> 'h Cmd \<Rightarrow> string \<Rightarrow> string \<Rightarrow> Event \<Rightarrow> CmdError + uref" where
  "filterAccess store command server channel ev =
     (case store of
        None \<Rightarrow> Inl StoreDisabled
      | Some store \<Rightarrow>
          (case GetAuthedUser server (eSender ev) store of
             None \<Rightarrow> Inl NotAuthed
           | Some a \<Rightarrow>
               (let access = the (heapSU store a) in
                if c_ReqLevel command \<noteq> 0 \<and> \<not> SU_HasLevel server channel (c_ReqLevel command) access
                then Inl (InsuffLevel (c_ReqLevel command))
                else if c_ReqFlags command \<noteq> [] \<and> \<not> SU_HasFlags server channel [c_ReqFlags command] access
                then Inl (InsuffFlags (c_ReqFlags command))
                else Inr a)))"

section \<open>Arguments\<close>

definition int_index :: "'a list \<Rightarrow> int \<Rightarrow> 'a outcome" where
  "int_index xs j = (if 0 \<le> j then index_at xs (nat j) else Inl IndexOutOfRange)"

definition int_slice :: "'a list \<Rightarrow> int \<Rightarrow> 'a list outcome" where
  "int_slice xs j = (if 0 \<le> j then slice_from xs (nat j) else Inl SliceBounds)"

text \<open>The result of \<^verbatim>\<open>parseChanArg\<close>: an error or whether an argument was consumed.\<close>

definition parseChanArg :: "'h Cmd \<Rightarrow> CmdEvent \<Rightarrow> State \<Rightarrow> int \<Rightarrow> string list \<Rightarrow> string \<Rightarrow> bool
    \<Rightarrow> ((CmdError + bool) \<times> CmdEvent) outcome" where
  "parseChanArg command ev state index msgArgs channel isChan =
     and_then
       (if index < int (length msgArgs) then
          and_then (int_index msgArgs index) (\<lambda>a.
            if a = [] then Inr (Some False)
            else and_then (deref (eNetworkInfo (ce_event ev))) (\<lambda>ni. Inr (Some (IsChannel ni a))))
        else if \<not> isChan then Inr None else Inr (Some False))
       (\<lambda>isFirstChan.
          case isFirstChan of
            None \<Rightarrow> Inr (Inl (NArguments ''at least'' (c_reqArgs command) (Prelude.join '' '' (c_Args command))), ev)
          | Some isFirst \<Rightarrow>
              and_then (int_index (c_args command) index) (\<lambda>ag.
                let name = a_Name ag in
                if isChan \<and> \<not> isFirst then
                  Inr (Inr False, ev\<lparr>ce_args := (ce_args ev)(name \<mapsto> channel),
                                     ce_Channel := GetChannel channel state,
                                     ce_TargetChannel := GetChannel channel state\<rparr>)
                else and_then (int_index msgArgs index) (\<lambda>a.
                  if isFirst then
                    Inr (Inr True, ev\<lparr>ce_args := (ce_args ev)(name \<mapsto> a),
                                      ce_TargetChannel := GetChannel a state\<rparr>)
                  else Inr (Inl (ArgumentNotChannel a), ev))))"

text \<open>The closure \<^verbatim>\<open>addData\<close> of \<^verbatim>\<open>parseUserArg\<close>, and the loop over the users.\<close>

definition addData :: "bool \<Rightarrow> string \<Rightarrow> nat \<Rightarrow> uref option \<Rightarrow> ref option \<Rightarrow> CmdEvent \<Rightarrow> CmdEvent" where
  "addData vargs name index access user ev =
     (let ev = (case access of
                  None \<Rightarrow> ev
                | Some a \<Rightarrow>
                    if vargs then ev\<lparr>ce_TargetVarStoredUser := (ce_TargetVarStoredUser ev)[index := Some a]\<rparr>
                    else ev\<lparr>ce_TargetStoredUser := (ce_TargetStoredUser ev)(name \<mapsto> a)\<rparr>)
      in (case user of
            None \<Rightarrow> ev
          | Some u \<Rightarrow>
              if vargs then ev\<lparr>ce_TargetVarUsers := (ce_TargetVarUsers ev)[index := Some u]\<rparr>
              else ev\<lparr>ce_TargetUsers := (ce_TargetUsers ev)(name \<mapsto> u)\<rparr>))"

fun find_accesses :: "'d kv \<Rightarrow> gob \<Rightarrow> string \<Rightarrow> bool \<Rightarrow> string \<Rightarrow> nat \<Rightarrow> string list \<Rightarrow> CmdEvent \<Rightarrow> 'd World
    \<Rightarrow> (CmdError option \<times> CmdEvent \<times> 'd World) outcome" where
  "find_accesses K G srv vargs name i [] ev w = Inr (None, ev, w)"
| "find_accesses K G srv vargs name i (u # us) ev w =
     and_then (FindAccessByUser K G srv u ev w) (\<lambda>(r, w).
       case r of
         Inl err \<Rightarrow> Inr (Some err, ev, w)
       | Inr (access, user) \<Rightarrow>
           find_accesses K G srv vargs name (Suc i) us (addData vargs name i (Some access) user ev) w)"

fun find_nicks :: "bool \<Rightarrow> string \<Rightarrow> nat \<Rightarrow> string list \<Rightarrow> CmdEvent \<Rightarrow> 'd World \<Rightarrow> CmdError option \<times> CmdEvent" where
  "find_nicks vargs name i [] ev w = (None, ev)"
| "find_nicks vargs name i (u # us) ev w =
     (case FindUserByNick u ev w of
        Inl err \<Rightarrow> (Some err, ev)
      | Inr user \<Rightarrow> find_nicks vargs name (Suc i) us (addData vargs name i None (Some user) ev) w)"

definition parseUserArg :: "'d kv \<Rightarrow> gob \<Rightarrow> string \<Rightarrow> string \<Rightarrow> argType \<Rightarrow> string list \<Rightarrow> CmdEvent \<Rightarrow> 'd World
    \<Rightarrow> (CmdError option \<times> CmdEvent \<times> 'd World) outcome" where
  "parseUserArg K G srv name t us ev w =
     (let vargs = has_bit VARIADIC t;
          ev = (if vargs then ev\<lparr>ce_TargetVarUsers := replicate (length us) None\<rparr> else ev) in
      if t AND USERMASK = USERARG then
        find_accesses K G srv vargs name 0 us
          (if vargs then ev\<lparr>ce_TargetVarStoredUser := replicate (length us) None\<rparr> else ev) w
      else if t AND USERMASK = NICKARG then
        (case find_nicks vargs name 0 us ev w of (err, ev) \<Rightarrow> Inr (err, ev, w))
      else Inr (None, ev, w))"

text \<open>
  The switch in the loop of \<^verbatim>\<open>filterArgs\<close>: \<^verbatim>\<open>Inl\<close> is a return of the whole function, \<^verbatim>\<open>Inr\<close> goes on
  with the index \<^verbatim>\<open>j\<close>.
\<close>

definition filter_switch :: "'h Cmd \<Rightarrow> string \<Rightarrow> bool \<Rightarrow> string list \<Rightarrow> State option \<Rightarrow> argument \<Rightarrow> int \<Rightarrow> CmdEvent
    \<Rightarrow> ((CmdError option + int) \<times> CmdEvent) outcome" where
  "filter_switch command channel isChan msgArgs state ag j ev =
     (let t = a_Type ag in
      if has_bit CHANNEL t then
        (case state of
           None \<Rightarrow> Inr (Inl (Some StateDisabled), ev)
         | Some s \<Rightarrow>
             and_then (parseChanArg command ev s j msgArgs channel isChan) (\<lambda>(r, ev).
               case r of
                 Inl err \<Rightarrow> Inr (Inl (Some err), ev)
               | Inr consumed \<Rightarrow> Inr (Inr (if consumed then j else j - 1), ev)))
      else if has_bit REQUIRED t then
        if int (length msgArgs) \<le> j then
          and_then (index_at (c_args command) 0) (\<lambda>first.
            Inr (Inl (Some (NArguments ''at least''
                   (c_reqArgs command - (if has_bit CHANNEL (a_Type first) \<and> isChan then 1 else 0))
                   (Prelude.join '' '' (c_Args command)))), ev))
        else and_then (int_index msgArgs j) (\<lambda>a. Inr (Inr j, ev\<lparr>ce_args := (ce_args ev)(a_Name ag \<mapsto> a)\<rparr>))
      else if has_bit OPTIONAL t then
        if int (length msgArgs) \<le> j then Inr (Inl None, ev)
        else and_then (int_index msgArgs j) (\<lambda>a. Inr (Inr j, ev\<lparr>ce_args := (ce_args ev)(a_Name ag \<mapsto> a)\<rparr>))
      else if has_bit VARIADIC t then
        if int (length msgArgs) \<le> j then Inr (Inl None, ev)
        else and_then (int_slice msgArgs j) (\<lambda>as.
          Inr (Inr j, ev\<lparr>ce_args := (ce_args ev)(a_Name ag \<mapsto> Prelude.join '' '' as)\<rparr>))
      else Inr (Inr j, ev))"

definition filter_users :: "'d kv \<Rightarrow> gob \<Rightarrow> string \<Rightarrow> string list \<Rightarrow> argument \<Rightarrow> int \<Rightarrow> CmdEvent \<Rightarrow> 'd World
    \<Rightarrow> (CmdError option \<times> CmdEvent \<times> 'd World) outcome" where
  "filter_users K G server msgArgs ag j ev w =
     (if has_bit NICKARG (a_Type ag) \<or> has_bit USERARG (a_Type ag) then
        and_then (if has_bit VARIADIC (a_Type ag) then int_slice msgArgs j
                  else and_then (int_index msgArgs j) (\<lambda>a. Inr [a]))
          (\<lambda>us. parseUserArg K G server (a_Name ag) (a_Type ag) us ev w)
      else Inr (None, ev, w))"

fun filter_loop :: "'d kv \<Rightarrow> gob \<Rightarrow> string \<Rightarrow> 'h Cmd \<Rightarrow> string \<Rightarrow> bool \<Rightarrow> string list \<Rightarrow> State option
    \<Rightarrow> argument list \<Rightarrow> int \<Rightarrow> CmdEvent \<Rightarrow> 'd World \<Rightarrow> ((CmdError option + int) \<times> CmdEvent \<times> 'd World) outcome" where
  "filter_loop K G server command channel isChan msgArgs state [] j ev w = Inr (Inr j, ev, w)"
| "filter_loop K G server command channel isChan msgArgs state (ag # args) j ev w =
     and_then (filter_switch command channel isChan msgArgs state ag j ev) (\<lambda>(r, ev).
       case r of
         Inl err \<Rightarrow> Inr (Inl err, ev, w)
       | Inr j \<Rightarrow>
           and_then (filter_users K G server msgArgs ag j ev w) (\<lambda>(err, ev, w).
             case err of
               Some e \<Rightarrow> Inr (Inl (Some e), ev, w)
             | None \<Rightarrow>
                 if has_bit VARIADIC (a_Type ag) then Inr (Inr (int (length msgArgs)), ev, w)
                 else filter_loop K G server command channel isChan msgArgs state args (j + 1) ev w))"

definition filterArgs :: "'d kv \<Rightarrow> gob \<Rightarrow> string \<Rightarrow> 'h Cmd \<Rightarrow> string \<Rightarrow> bool \<Rightarrow> string list \<Rightarrow> State option
    \<Rightarrow> CmdEvent \<Rightarrow> 'd World \<Rightarrow> (CmdError option \<times> CmdEvent \<times> 'd World) outcome" where
  "filterArgs K G server command channel isChan msgArgs state ev w =
     and_then (filter_loop K G server command channel isChan msgArgs state (c_args command) 0
                 (ev\<lparr>ce_args := Map.empty\<rparr>) w) (\<lambda>(r, ev, w).
       case r of
         Inl err \<Rightarrow> Inr (err, ev, w)
       | Inr j \<Rightarrow>
           if j < int (length msgArgs) then
             Inr (Some (if j = 0 then UnexpectedArgument
                        else NArguments ''at most'' (c_reqArgs command + c_optArgs command) (Prelude.join '' '' (c_Args command))),
                  ev, w)
           else Inr (None, ev, w))"

section \<open>Dispatching\<close>

definition PRIVATE :: int where "PRIVATE = 1"
definition PUBLIC :: int where "PUBLIC = 2"
definition ALL_SCOPES :: int where "ALL_SCOPES = 3"
definition MSG_PRIVMSG :: int where "MSG_PRIVMSG = 1"
definition MSG_NOTICE :: int where "MSG_NOTICE = 2"

text \<open>
  The first half of \<^verbatim>\<open>Dispatch\<close>, up to the command: the name without its prefix, the channel (empty
  for a private message), whether there is one, and the words after the name.
\<close>

definition msgtype_of :: "Event \<Rightarrow> int" where
  "msgtype_of ev = (if eName ev = PRIVMSG then MSG_PRIVMSG else if eName ev = NOTICE then MSG_NOTICE else 0)"

definition prefix_missing :: "rune \<Rightarrow> rune \<Rightarrow> rune \<Rightarrow> bool" where
  "prefix_missing overridePrefix pre firstChar \<longleftrightarrow>
     (overridePrefix = CHR 0x00 \<or> firstChar \<noteq> overridePrefix)
     \<and> (overridePrefix \<noteq> CHR 0x00 \<or> firstChar \<noteq> pre)"

definition command_name :: "rune \<Rightarrow> Event \<Rightarrow> Cmds \<Rightarrow> (string \<times> string \<times> bool \<times> string list) option outcome" where
  "command_name overridePrefix ev c =
     (if msgtype_of ev = 0 then Inr None
      else and_then (index_at (eArgs ev) 1) (\<lambda>text.
        case Fields text of
          [] \<Rightarrow> Inr None
        | w # ws \<Rightarrow>
            (let cmd = to_lower w in
             and_then (CheckTarget (cmds_core c) ev) (\<lambda>(isChan, hasChan).
               if isChan then
                 and_then (index_at cmd 0) (\<lambda>firstChar.
                   if \<not> hasChan \<or> prefix_missing overridePrefix (cmds_prefix c) firstChar then Inr None
                   else and_then (Target ev) (\<lambda>ch. Inr (Some (tl cmd, ch, True, ws))))
               else Inr (Some (cmd, [], False, ws))))))"

text \<open>What \<^verbatim>\<open>Dispatch\<close> did: nothing, sent an error to the sender, or started the handler of a command.\<close>

datatype dispatched = Ignored | Refused string CmdError | Started string cref CmdEvent

text \<open>\<^verbatim>\<open>cmdEv.Close(); writer.Notice(nick, err.Error()); return err\<close>.\<close>

definition refuse :: "Event \<Rightarrow> CmdError \<Rightarrow> CmdEvent \<Rightarrow> 'd World \<Rightarrow> Cmds \<Rightarrow> dispatched \<times> 'd World \<times> Cmds" where
  "refuse ev err cev w c = (case CE_Close cev w of (_, w) \<Rightarrow> (Refused (Nick (eSender ev)) err, w, c))"

text \<open>The second half: open the databases, check access and arguments, fill in the event, start.\<close>

definition check_and_start :: "'d kv \<Rightarrow> gob \<Rightarrow> string \<Rightarrow> Event \<Rightarrow> string \<Rightarrow> string \<Rightarrow> bool \<Rightarrow> string list \<Rightarrow> cref
    \<Rightarrow> 'h Registry \<Rightarrow> 'd World \<Rightarrow> Cmds \<Rightarrow> (dispatched \<times> 'd World \<times> Cmds) outcome" where
  "check_and_start K G networkID ev cmd ch isChan msgArgs r reg w c =
     (let command = the (heapCmd reg r);
          (state, w) = OpenState w;
          (store, w) = OpenReadStore w;
          cev = (new_event ev)\<lparr>ce_State := \<not> Option.is_none state, ce_Store := \<not> Option.is_none store\<rparr> in
      case (if c_RequireAuth command then map_sum id Some (filterAccess store command networkID ch ev) else Inr None) of
        Inl err \<Rightarrow> Inr (refuse ev err cev w c)
      | Inr access \<Rightarrow>
          and_then (filterArgs K G networkID command ch isChan msgArgs state (cev\<lparr>ce_StoredUser := access\<rparr>) w)
            (\<lambda>(err, cev, w).
               case err of
                 Some e \<Rightarrow> Inr (refuse ev e cev w c)
               | None \<Rightarrow>
                   (let cev = (case state of
                         None \<Rightarrow> cev
                       | Some s \<Rightarrow>
                           let cev = cev\<lparr>ce_User := GetUser (eSender ev) s\<rparr> in
                           if isChan then
                             cev\<lparr>ce_Channel := (case ce_Channel cev of None \<Rightarrow> GetChannel ch s | Some x \<Rightarrow> Some x),
                                 ce_UserChannelModes := GetUsersChannelModes (eSender ev) ch s\<rparr>
                           else cev)
                    in Inr (Started cmd r cev, w, c\<lparr>cmds_core := HandlerStarted (cmds_core c)\<rparr>))))"

definition Cmds_Dispatch :: "'d kv \<Rightarrow> gob \<Rightarrow> string \<Rightarrow> rune \<Rightarrow> Event \<Rightarrow> 'h Registry \<Rightarrow> 'd World \<Rightarrow> Cmds
    \<Rightarrow> (dispatched \<times> 'd World \<times> Cmds) outcome" where
  "Cmds_Dispatch K G networkID overridePrefix ev reg w c =
     and_then (command_name overridePrefix ev c) (\<lambda>found.
       case found of
         None \<Rightarrow> Inr (Ignored, w, c)
       | Some (cmd, ch, isChan, msgArgs) \<Rightarrow>
           (case commands c cmd of
              None \<Rightarrow> Inr (Ignored, w, c)
            | Some r \<Rightarrow>
                (let command = the (heapCmd reg r) in
                 if msgtype_of ev AND c_Msgtype command = 0
                    \<or> (if isChan then PUBLIC else PRIVATE) AND c_Msgscope command = 0
                 then Inr (Ignored, w, c)
                 else check_and_start K G networkID ev cmd ch isChan msgArgs r reg w c)))"

section \<open>Running a handler\<close>

text \<open>What reflection tells of a method: the numbers of parameters and results and whether their types fit.\<close>

record signature =
  numIn :: nat
  numOut :: nat
  assignable :: bool

definition cmdNameDispatch :: "(string \<Rightarrow> signature option) \<Rightarrow> string \<Rightarrow> string option outcome" where
  "cmdNameDispatch methods cmd =
     (if cmd = [] then Inl SliceBounds
      else
        let methodName = to_upper (take 1 cmd) @ drop 1 cmd in
        case methods methodName of
          None \<Rightarrow> Inr None
        | Some fn \<Rightarrow>
            Inr (if numIn fn = 3 \<and> numOut fn = 1 \<and> assignable fn then Some methodName else None))"

datatype handlerMethod = Named string | CmdMethod string

type_synonym ('e, 'd) invocation = "handlerMethod \<Rightarrow> CmdEvent \<Rightarrow> 'd World \<Rightarrow> 'e option outcome \<times> CmdEvent \<times> 'd World"

text \<open>
  The goroutine of a started command: the call, the notice of its error, and the deferred \<^verbatim>\<open>Close\<close>,
  \<^verbatim>\<open>HandlerFinished\<close> and \<^verbatim>\<open>PanicHandler\<close>, which run also after a panic.
\<close>

definition run_command :: "(string \<Rightarrow> signature option) \<Rightarrow> ('e, 'd) invocation \<Rightarrow> string \<Rightarrow> CmdEvent \<Rightarrow> 'd World \<Rightarrow> DispatchCore
    \<Rightarrow> ('e option \<times> 'd World \<times> DispatchCore) outcome" where
  "run_command methods invoke cmd cev w d =
     (case (case cmdNameDispatch methods cmd of
              Inl p \<Rightarrow> (Inl p, cev, w)
            | Inr None \<Rightarrow> invoke (CmdMethod cmd) cev w
            | Inr (Some m) \<Rightarrow> invoke (Named m) cev w) of
        (res, cev, w) \<Rightarrow>
          (case CE_Close cev w of (_, w) \<Rightarrow>
             and_then (HandlerFinished d) (\<lambda>d. Inr (case res of Inl _ \<Rightarrow> None | Inr err \<Rightarrow> err, w, d))))"

section \<open>Errors for extensions\<close>

definition MakeLevelError :: "8 word \<Rightarrow> CmdError" where "MakeLevelError l = InsuffLevel l"
definition MakeGlobalLevelError :: "8 word \<Rightarrow> CmdError" where "MakeGlobalLevelError l = InsuffGlobalLevel l"
definition MakeServerLevelError :: "8 word \<Rightarrow> CmdError" where "MakeServerLevelError l = InsuffServerLevel l"
definition MakeChannelLevelError :: "8 word \<Rightarrow> CmdError" where "MakeChannelLevelError l = InsuffChannelLevel l"
definition MakeFlagsError :: "string \<Rightarrow> CmdError" where "MakeFlagsError f = InsuffFlags f"
definition MakeGlobalFlagsError :: "string \<Rightarrow> CmdError" where "MakeGlobalFlagsError f = InsuffGlobalFlags f"
definition MakeServerFlagsError :: "string \<Rightarrow> CmdError" where "MakeServerFlagsError f = InsuffServerFlags f"
definition MakeChannelFlagsError :: "string \<Rightarrow> CmdError" where "MakeChannelFlagsError f = InsuffChannelFlags f"
definition MakeUserNotAuthedError :: "string \<Rightarrow> CmdError" where "MakeUserNotAuthedError u = UserNotAuthed u"
definition MakeUserNotFoundError :: "string \<Rightarrow> CmdError" where "MakeUserNotFoundError u = UserNotFound u"
definition MakeUserNotRegisteredError :: "string \<Rightarrow> CmdError" where "MakeUserNotRegisteredError u = UserNotRegistered u"

end
