(* ===== verification/CmdsProps.thy ===== *)
theory CmdsProps
  imports Cmds StateProps
begin

text \<open>
  Properties of the command dispatcher: who gets to run a command, how the words of a message
  are bound to the declared arguments, that locks are released and panics do not occur, and what
  the registry keeps apart.
\<close>

section \<open>Access\<close>

lemma filterAccess_Inr:
  "filterAccess store command server channel ev = Inr a \<longleftrightarrow>
     (\<exists>s. store = Some s \<and> GetAuthedUser server (eSender ev) s = Some a
       \<and> (c_ReqLevel command = 0 \<or> SU_HasLevel server channel (c_ReqLevel command) (the (heapSU s a)))
       \<and> (c_ReqFlags command = [] \<or> SU_HasFlags server channel [c_ReqFlags command] (the (heapSU s a))))"
  by (auto simp: filterAccess_def Let_def split: option.splits)

section \<open>What argument checks leave alone\<close>

text \<open>
  The checks of the arguments write only the target and argument fields of the event, and in the
  world only the cache of the store.
\<close>

definition unframed :: "CmdEvent \<Rightarrow> CmdEvent" where
  "unframed ev = ev\<lparr>ce_Channel := None, ce_TargetChannel := None, ce_TargetUsers := Map.empty,
     ce_TargetStoredUser := Map.empty, ce_TargetVarUsers := [], ce_TargetVarStoredUser := [], ce_args := Map.empty\<rparr>"

definition same_world :: "'d World \<Rightarrow> 'd World \<Rightarrow> bool" where
  "same_world w w' \<longleftrightarrow>
     w_known w' = w_known w \<and> w_state w' = w_state w \<and> w_stateLocks w' = w_stateLocks w
     \<and> w_storeLocks w' = w_storeLocks w \<and> map_option authed (w_store w') = map_option authed (w_store w)"

lemma same_world_refl [simp]: "same_world w w"
  by (simp add: same_world_def)

lemma same_world_trans: "same_world w w' \<Longrightarrow> same_world w' w'' \<Longrightarrow> same_world w w''"
  by (simp add: same_world_def)

lemma FindUser_authed: "FindUser K G n s = (res, s') \<Longrightarrow> authed s' = authed s"
  by (auto simp: FindUser_def fetchUser_def alloc_user_def Let_def split: option.splits sum.splits)

lemma FindAccessByUser_world: "FindAccessByUser K G srv u ev w = Inr (r, w') \<Longrightarrow> same_world w w'"
  by (auto simp: FindAccessByUser_def same_world_def Let_def dest!: FindUser_authed
      split: option.splits bool.splits if_splits prod.splits sum.splits)

lemma unframed_addData [simp]: "unframed (addData vargs name i a u ev) = unframed ev"
  by (simp add: addData_def unframed_def Let_def split: option.splits)

lemma find_accesses_frame:
  "find_accesses K G srv vargs name i us ev w = Inr (err, ev', w') \<Longrightarrow> unframed ev' = unframed ev \<and> same_world w w'"
proof (induction us arbitrary: i ev w)
  case (Cons u us)
  then obtain r w1 where r: "FindAccessByUser K G srv u ev w = Inr (r, w1)" by auto
  note w1 = FindAccessByUser_world [OF r]
  show ?case
  proof (cases r)
    case (Inl e)
    with Cons.prems r w1 show ?thesis by simp
  next
    case (Inr x)
    with Cons.prems r Cons.IH w1 show ?thesis by (cases x) (fastforce intro: same_world_trans)
  qed
qed simp

lemma find_nicks_frame: "find_nicks vargs name i us ev w = (err, ev') \<Longrightarrow> unframed ev' = unframed ev"
proof (induction us arbitrary: i ev)
  case (Cons u us)
  then show ?case by (cases "FindUserByNick u ev w") (auto dest: Cons.IH)
qed simp

lemma unframed_updates [simp]:
  "unframed (ev\<lparr>ce_Channel := x1\<rparr>) = unframed ev" "unframed (ev\<lparr>ce_TargetChannel := x2\<rparr>) = unframed ev"
  "unframed (ev\<lparr>ce_TargetVarUsers := x3\<rparr>) = unframed ev"
  "unframed (ev\<lparr>ce_TargetVarStoredUser := x4\<rparr>) = unframed ev" "unframed (ev\<lparr>ce_args := x5\<rparr>) = unframed ev"
  by (simp_all add: unframed_def)

lemma parseUserArg_frame:
  "parseUserArg K G srv name t us ev w = Inr (err, ev', w') \<Longrightarrow> unframed ev' = unframed ev \<and> same_world w w'"
  by (auto simp: parseUserArg_def Let_def dest!: find_accesses_frame find_nicks_frame split: if_splits prod.splits)

lemma parseChanArg_frame:
  "parseChanArg command ev s j as ch isChan = Inr (r, ev') \<Longrightarrow> unframed ev' = unframed ev"
  by (auto simp: parseChanArg_def Let_def split: if_splits option.splits)

lemma filter_switch_frame:
  "filter_switch command ch isChan as state ag j ev = Inr (r, ev') \<Longrightarrow> unframed ev' = unframed ev"
  by (auto simp: filter_switch_def Let_def dest!: parseChanArg_frame split: if_splits option.splits sum.splits)

lemma filter_users_frame:
  "filter_users K G server as ag j ev w = Inr (err, ev', w') \<Longrightarrow> unframed ev' = unframed ev \<and> same_world w w'"
  by (auto simp: filter_users_def dest!: parseUserArg_frame split: if_splits)

lemma filter_loop_frame:
  "filter_loop K G server command ch isChan as state args j ev w = Inr (r, ev', w') \<Longrightarrow>
   unframed ev' = unframed ev \<and> same_world w w'"
proof (induction args arbitrary: j ev w)
  case (Cons ag args)
  then obtain r1 ev1 where s: "filter_switch command ch isChan as state ag j ev = Inr (r1, ev1)" by auto
  note f1 = filter_switch_frame [OF s]
  show ?case
  proof (cases r1)
    case (Inl e)
    with Cons.prems s f1 show ?thesis by simp
  next
    case (Inr j1)
    with Cons.prems s obtain err ev2 w2 where u: "filter_users K G server as ag j1 ev1 w = Inr (err, ev2, w2)" by auto
    note f2 = filter_users_frame [OF u]
    show ?thesis
    proof (cases "err = None \<and> \<not> has_bit VARIADIC (a_Type ag)")
      case True
      with Cons.prems s Inr u have "filter_loop K G server command ch isChan as state args (j1 + 1) ev2 w2 = Inr (r, ev', w')"
        by simp
      from Cons.IH [OF this] f1 f2 show ?thesis by (auto intro: same_world_trans)
    next
      case False
      with Cons.prems s Inr u f1 f2 show ?thesis by (auto split: option.splits)
    qed
  qed
qed simp

lemma filterArgs_frame:
  "filterArgs K G server command ch isChan as state ev w = Inr (err, ev', w') \<Longrightarrow>
   unframed ev' = unframed ev \<and> same_world w w'"
  by (auto simp: filterArgs_def dest!: filter_loop_frame split: sum.splits if_splits)

lemma unframed_fields:
  assumes "unframed ev' = unframed ev"
  shows "ce_event ev' = ce_event ev" "ce_State ev' = ce_State ev" "ce_Store ev' = ce_Store ev"
    "ce_StoredUser ev' = ce_StoredUser ev" "ce_closed ev' = ce_closed ev"
  using arg_cong [OF assms, of ce_event] arg_cong [OF assms, of ce_State] arg_cong [OF assms, of ce_Store]
    arg_cong [OF assms, of ce_StoredUser] arg_cong [OF assms, of ce_closed]
  by (simp_all add: unframed_def)

section \<open>Who runs a command\<close>

lemma Fields_nonempty: "w \<in> set (Fields s) \<Longrightarrow> w \<noteq> []"
proof (induction s rule: Fields.induct)
  case (1 s)
  have eq: "Fields s = (case dropWhile is_space s of [] \<Rightarrow> []
      | c # cs \<Rightarrow> takeWhile (Not \<circ> is_space) (c # cs) # Fields (dropWhile (Not \<circ> is_space) (c # cs)))"
    by (rule Fields.simps)
  show ?case
  proof (cases "dropWhile is_space s")
    case (Cons c cs)
    then have "\<not> is_space c" by (metis dropWhile_eq_Cons_conv)
    with 1 Cons eq show ?thesis by auto
  next
    case Nil
    from 1(2) eq [unfolded Nil] show ?thesis by simp
  qed
qed

lemma CheckTarget_Inr:
  "CheckTarget d ev = Inr (isChan, hasChan) \<Longrightarrow>
   IsTargetChan ev = Inr isChan \<and> (hasChan \<longrightarrow> isChan \<and> hasChannel d (eArgs ev ! 0))"
  by (auto simp: CheckTarget_def Target_def index_at_eq_Inr split: if_splits)

lemma command_name_Some:
  assumes "command_name op ev c = Inr (Some (cmd, ch, isChan, ws))"
  shows "IsTargetChan ev = Inr isChan"
    and "\<exists>tx w. index_at (eArgs ev) 1 = Inr tx \<and> Fields tx = w # ws
      \<and> (if isChan then hasChannel (cmds_core c) ch \<and> ch = eArgs ev ! 0 \<and> tl (to_lower w) = cmd
            \<and> (hd (to_lower w) = (if op = CHR 0x00 then cmds_prefix c else op))
         else ch = [] \<and> cmd = to_lower w)"
proof -
  obtain tx w isC hasC where x: "index_at (eArgs ev) 1 = Inr tx" "Fields tx = w # ws"
    "CheckTarget (cmds_core c) ev = Inr (isC, hasC)"
    using assms by (auto simp: command_name_def Let_def split: if_splits list.splits)
  have "isC = isChan" using assms x
    by (auto simp: command_name_def Let_def split: if_splits)
  note ct = CheckTarget_Inr [OF x(3) [unfolded this]]
  show "IsTargetChan ev = Inr isChan" using ct by simp
  show "\<exists>tx w. index_at (eArgs ev) 1 = Inr tx \<and> Fields tx = w # ws
      \<and> (if isChan then hasChannel (cmds_core c) ch \<and> ch = eArgs ev ! 0 \<and> tl (to_lower w) = cmd
            \<and> (hd (to_lower w) = (if op = CHR 0x00 then cmds_prefix c else op))
         else ch = [] \<and> cmd = to_lower w)"
    using assms x ct \<open>isC = isChan\<close>
    by (auto simp: command_name_def Let_def Target_def index_at_eq_Inr prefix_missing_def hd_conv_nth
        split: if_splits)
qed

lemma check_and_start_Started:
  assumes "check_and_start K G net ev cmd ch isChan as r reg w c = Inr (Started cmd' r' cev, w', c')"
  shows "cmd' = cmd" "r' = r" "c' = c\<lparr>cmds_core := HandlerStarted (cmds_core c)\<rparr>" "\<not> ce_closed cev"
    and "same_world (snd (OpenReadStore (snd (OpenState w)))) w'"
    and "if c_RequireAuth (the (heapCmd reg r))
         then \<exists>a. ce_StoredUser cev = Some a \<and> filterAccess (w_store w) (the (heapCmd reg r)) net ch ev = Inr a
         else ce_StoredUser cev = None"
proof -
  let ?cmd = "the (heapCmd reg r)"
  obtain state w1 where o1: "OpenState w = (state, w1)" by (cases "OpenState w")
  obtain store w2 where o2: "OpenReadStore w1 = (store, w2)" by (cases "OpenReadStore w1")
  let ?cev = "(new_event ev)\<lparr>ce_State := \<not> Option.is_none state, ce_Store := \<not> Option.is_none store\<rparr>"
  have st: "store = w_store w" using o1 o2 by (auto simp: OpenState_def OpenReadStore_def split: if_splits)
  obtain access err cev1 w3 where a: "(if c_RequireAuth ?cmd then map_sum id Some (filterAccess store ?cmd net ch ev) else Inr None) = Inr access"
    and f: "filterArgs K G net ?cmd ch isChan as state (?cev\<lparr>ce_StoredUser := access\<rparr>) w2 = Inr (err, cev1, w3)"
    using assms o1 o2 by (auto simp: check_and_start_def refuse_def Let_def split: sum.splits prod.splits)
  have none: "err = None" using assms o1 o2 a f
    by (auto simp: check_and_start_def refuse_def Let_def split: option.splits prod.splits)
  note fr = filterArgs_frame [OF f]
  note ff = unframed_fields [OF conjunct1 [OF fr]]
  have res: "cmd' = cmd \<and> r' = r \<and> c' = c\<lparr>cmds_core := HandlerStarted (cmds_core c)\<rparr> \<and> w' = w3
      \<and> ce_closed cev = ce_closed cev1 \<and> ce_StoredUser cev = ce_StoredUser cev1"
    using assms o1 o2 a f none by (auto simp: check_and_start_def Let_def split: option.splits if_splits)
  show "cmd' = cmd" "r' = r" "c' = c\<lparr>cmds_core := HandlerStarted (cmds_core c)\<rparr>" using res by simp_all
  show "\<not> ce_closed cev" using res ff by (simp add: new_event_def)
  show "same_world (snd (OpenReadStore (snd (OpenState w)))) w'" using res fr o1 o2 by simp
  show "if c_RequireAuth ?cmd then \<exists>a. ce_StoredUser cev = Some a \<and> filterAccess (w_store w) ?cmd net ch ev = Inr a
         else ce_StoredUser cev = None"
    using res ff a st by (cases "filterAccess store ?cmd net ch ev") (auto simp: new_event_def split: if_splits)
qed

text \<open>
  C16: A handler runs only for those allowed: the command is registered under the name sent, the
  kind of message and its scope are among the declared ones, a channel message comes from
  an active channel and carries the prefix, and a command that requires authentication runs only
  for a sender who is authenticated and has the required level and one of the required flags, as
  the account handed to the handler.
\<close>

theorem commands_gated:
  assumes "Cmds_Dispatch K G net op ev reg w c = Inr (Started cmd r cev, w', c')"
    and "heapCmd reg r = Some command"
  shows "commands c cmd = Some r \<and> msgtype_of ev AND c_Msgtype command \<noteq> 0
    \<and> (case IsTargetChan ev of
         Inr True \<Rightarrow> PUBLIC AND c_Msgscope command \<noteq> 0 \<and> hasChannel (cmds_core c) (eArgs ev ! 0)
           \<and> to_lower (hd (Fields (eArgs ev ! 1))) = (if op = CHR 0x00 then cmds_prefix c else op) # cmd
       | Inr False \<Rightarrow> PRIVATE AND c_Msgscope command \<noteq> 0 \<and> to_lower (hd (Fields (eArgs ev ! 1))) = cmd
       | Inl _ \<Rightarrow> False)
    \<and> (c_RequireAuth command \<longrightarrow>
         (\<exists>s a ch. w_store w = Some s \<and> GetAuthedUser net (eSender ev) s = Some a \<and> ce_StoredUser cev = Some a
            \<and> ch = (if IsTargetChan ev = Inr True then eArgs ev ! 0 else [])
            \<and> (c_ReqLevel command = 0 \<or> SU_HasLevel net ch (c_ReqLevel command) (the (heapSU s a)))
            \<and> (c_ReqFlags command = [] \<or> SU_HasFlags net ch [c_ReqFlags command] (the (heapSU s a)))))"
proof -
  obtain cmd1 ch isChan ws r1 where n: "command_name op ev c = Inr (Some (cmd1, ch, isChan, ws))"
    and l: "commands c cmd1 = Some r1"
    using assms(1) by (auto simp: Cmds_Dispatch_def split: option.splits prod.splits)
  have s: "msgtype_of ev AND c_Msgtype (the (heapCmd reg r1)) \<noteq> 0"
      "(if isChan then PUBLIC else PRIVATE) AND c_Msgscope (the (heapCmd reg r1)) \<noteq> 0"
      "check_and_start K G net ev cmd1 ch isChan ws r1 reg w c = Inr (Started cmd r cev, w', c')"
    using assms(1) n l by (auto simp: Cmds_Dispatch_def Let_def split: if_splits)
  note st = check_and_start_Started [OF s(3)]
  have eq: "cmd1 = cmd" "r1 = r" "the (heapCmd reg r1) = command" using st(1,2) assms(2) by simp_all
  note tg = command_name_Some(1) [OF n]
  obtain tx w1 where tx: "index_at (eArgs ev) 1 = Inr tx" "Fields tx = w1 # ws"
    "if isChan then hasChannel (cmds_core c) ch \<and> ch = eArgs ev ! 0 \<and> tl (to_lower w1) = cmd1
        \<and> (hd (to_lower w1) = (if op = CHR 0x00 then cmds_prefix c else op))
     else ch = [] \<and> cmd1 = to_lower w1"
    using command_name_Some(2) [OF n] by blast
  then have "eArgs ev ! 1 = tx" by (simp add: index_at_eq_Inr)
  moreover obtain p s where "to_lower w1 = p # s"
    using tx(2) Fields_nonempty [of w1 tx] by (cases "to_lower w1") auto
  moreover have "ch = (if IsTargetChan ev = Inr True then eArgs ev ! 0 else [])" using tg tx(3) by (simp split: if_splits)
  ultimately show ?thesis
    using l s(1,2) st(6) tg tx eq
    by (cases isChan) (auto simp: filterAccess_Inr split: if_splits)
qed

section \<open>Locks\<close>

text \<open>
  What the handlers of commands rely on: closing an event gives back one hold on the world,
  however often and by whomever it is closed.
\<close>

locale once_closer =
  fixes close :: "'e \<Rightarrow> 'w \<Rightarrow> 'e \<times> 'w" and closed :: "'e \<Rightarrow> bool" and held :: "'w \<Rightarrow> int"
  assumes close_closed: "closed e \<Longrightarrow> close e w = (e, w)"
    and close_open: "\<not> closed e \<Longrightarrow> close e w = (e', w') \<Longrightarrow> closed e' \<and> held w' = held w - 1"
begin

definition holds :: "'e \<Rightarrow> 'w \<Rightarrow> int" where
  "holds e w = held w - (if closed e then 0 else 1)"

lemma holds_close: "close e w = (e', w') \<Longrightarrow> holds e' w' = holds e w \<and> closed e'"
  using close_open [of e w e' w'] close_closed [of e w] by (cases "closed e") (auto simp: holds_def)

lemma close_twice: "close e w = (e', w') \<Longrightarrow> close e' w' = (e', w')"
  using holds_close close_closed by blast

lemma closed_after_run:
  assumes "holds e1 w1 = holds e w" "close e1 w1 = (e2, w2)"
  shows "held w2 = holds e w"
  using holds_close [OF assms(2)] assms(1) by (auto simp: holds_def)

end

interpretation store_hold: once_closer CE_Close ce_closed w_storeLocks
  by unfold_locales (auto simp: CE_Close_def CloseState_def CloseReadStore_def split: if_splits)

text \<open>On a known network the state is locked and unlocked with the store.\<close>

lemma CE_Close_states:
  "CE_Close ev w = (ev', w') \<Longrightarrow>
   w_known w' = w_known w \<and> w_state w' = w_state w \<and> w_store w' = w_store w \<and>
   w_stateLocks w' = w_stateLocks w + (if w_known w then w_storeLocks w' - w_storeLocks w else 0)"
  by (auto simp: CE_Close_def CloseState_def CloseReadStore_def split: if_splits)

text \<open>A handler that uses the locks only through \<^verbatim>\<open>Close\<close>.\<close>

definition lock_ok :: "('e, 'd) invocation \<Rightarrow> bool" where
  "lock_ok invoke \<longleftrightarrow>
     (\<forall>m e x r e' x'. invoke m e x = (r, e', x') \<longrightarrow>
        w_known x' = w_known x
        \<and> w_storeLocks x' - (if ce_closed e' then 0 else 1) = w_storeLocks x - (if ce_closed e then 0 else 1)
        \<and> w_stateLocks x' = w_stateLocks x + (if w_known x then w_storeLocks x' - w_storeLocks x else 0))"

lemma lock_okD:
  assumes "lock_ok invoke" "invoke m e x = (r, e', x')"
  shows "w_known x' = w_known x" "store_hold.holds e' x' = store_hold.holds e x"
    "w_stateLocks x' = w_stateLocks x + (if w_known x then w_storeLocks x' - w_storeLocks x else 0)"
  using assms unfolding lock_ok_def store_hold.holds_def by blast+

lemma run_command_locks:
  assumes "run_command methods invoke cmd e w d = Inr (err, w2, d2)" "lock_ok invoke"
  shows "w_storeLocks w2 = w_storeLocks w - (if ce_closed e then 0 else 1)
    \<and> w_stateLocks w2 = w_stateLocks w + (if w_known w then w_storeLocks w2 - w_storeLocks w else 0)"
proof -
  obtain r e1 w1 e2 where *: "(case cmdNameDispatch methods cmd of
       Inl p \<Rightarrow> (Inl p, e, w) | Inr None \<Rightarrow> invoke (CmdMethod cmd) e w | Inr (Some m) \<Rightarrow> invoke (Named m) e w) = (r, e1, w1)"
    and c: "CE_Close e1 w1 = (e2, w2)"
    using assms(1) by (auto simp: run_command_def split: prod.splits)
  have h: "w_known w1 = w_known w \<and> store_hold.holds e1 w1 = store_hold.holds e w
      \<and> w_stateLocks w1 = w_stateLocks w + (if w_known w then w_storeLocks w1 - w_storeLocks w else 0)"
    using * lock_okD [OF assms(2)]
    by (cases "cmdNameDispatch methods cmd") (auto split: option.splits)
  then have "w_storeLocks w2 = store_hold.holds e w" using c store_hold.closed_after_run by blast
  with h CE_Close_states [OF c] show ?thesis by (auto simp: store_hold.holds_def)
qed

lemma check_and_start_refused:
  assumes "check_and_start K G net ev cmd ch isChan as r reg w c = Inr (res, w', c')" "\<And>n r e. res \<noteq> Started n r e"
  shows "w_storeLocks w' = w_storeLocks w \<and> w_stateLocks w' = w_stateLocks w"
proof -
  let ?cmd = "the (heapCmd reg r)"
  obtain state w1 where o1: "OpenState w = (state, w1)" by (cases "OpenState w")
  obtain store w2 where o2: "OpenReadStore w1 = (store, w2)" by (cases "OpenReadStore w1")
  have opened: "w_storeLocks w2 = w_storeLocks w + 1" "w_stateLocks w2 = w_stateLocks w + (if w_known w then 1 else 0)"
    "w_known w2 = w_known w"
    using o1 o2 by (auto simp: OpenState_def OpenReadStore_def split: if_splits)
  have "\<exists>e err cev. \<not> ce_closed cev \<and> same_world w2 e \<and> (res, w', c') = refuse ev err cev e c"
  proof (cases "if c_RequireAuth ?cmd then map_sum id Some (filterAccess store ?cmd net ch ev) else Inr None")
    case (Inl err)
    with assms(1) o1 o2 show ?thesis
      by (intro exI [of _ w2] exI [of _ err] exI [of _ "(new_event ev)\<lparr>ce_State := \<not> Option.is_none state, ce_Store := \<not> Option.is_none store\<rparr>"])
        (auto simp: check_and_start_def Let_def new_event_def)
  next
    case (Inr access)
    let ?cev = "(new_event ev)\<lparr>ce_State := \<not> Option.is_none state, ce_Store := \<not> Option.is_none store, ce_StoredUser := access\<rparr>"
    obtain err cev1 w3 where f: "filterArgs K G net ?cmd ch isChan as state ?cev w2 = Inr (err, cev1, w3)"
      using assms(1) o1 o2 Inr by (auto simp: check_and_start_def Let_def)
    note fr = filterArgs_frame [OF f]
    obtain e where "err = Some e" using assms o1 o2 Inr f
      by (cases err) (auto simp: check_and_start_def Let_def)
    with assms(1) o1 o2 Inr f fr unframed_fields(5) [OF conjunct1 [OF fr]] show ?thesis
      by (intro exI [of _ w3] exI [of _ e] exI [of _ cev1]) (auto simp: check_and_start_def Let_def new_event_def)
  qed
  then obtain e err cev where *: "\<not> ce_closed cev" "same_world w2 e" "(res, w', c') = refuse ev err cev e c" by blast
  then show ?thesis using opened
    by (auto simp: refuse_def CE_Close_def CloseState_def CloseReadStore_def same_world_def split: if_splits)
qed

text \<open>
  C17: Every read lock that dispatching a message takes is given back: at once when the message is
  not for a command or is refused, and when its goroutine ends if a handler was
  started, also when the handler panics, and also when it has closed the event itself.
\<close>

theorem locks_released:
  assumes "Cmds_Dispatch K G net op ev reg w c = Inr (res, w1, c1)" and "lock_ok invoke"
  shows "(case res of
      Started cmd r cev \<Rightarrow>
        (case run_command methods invoke cmd cev w1 (cmds_core c1) of
           Inr (err, w2, d) \<Rightarrow> w_storeLocks w2 = w_storeLocks w \<and> w_stateLocks w2 = w_stateLocks w
         | Inl p \<Rightarrow> waiter (cmds_core c) < 0)
    | _ \<Rightarrow> w_storeLocks w1 = w_storeLocks w \<and> w_stateLocks w1 = w_stateLocks w)"
proof (cases "\<exists>cmd ch isChan ws r. command_name op ev c = Inr (Some (cmd, ch, isChan, ws)) \<and> commands c cmd = Some r
     \<and> check_and_start K G net ev cmd ch isChan ws r reg w c = Inr (res, w1, c1)")
  case False
  then have "res = Ignored \<and> w1 = w" using assms(1)
    by (auto simp: Cmds_Dispatch_def Let_def split: option.splits prod.splits if_splits)
  then show ?thesis by simp
next
  case True
  then obtain cmd ch isChan ws r where s: "check_and_start K G net ev cmd ch isChan ws r reg w c = Inr (res, w1, c1)" by blast
  show ?thesis
  proof (cases res)
    case (Started cmd' r' cev)
    note st = check_and_start_Started [OF s [unfolded Started]]
    have opened: "w_storeLocks w1 = w_storeLocks w + 1" "w_stateLocks w1 = w_stateLocks w + (if w_known w then 1 else 0)"
      "w_known w1 = w_known w"
      using st(5) by (auto simp: OpenState_def OpenReadStore_def same_world_def split: if_splits)
    show ?thesis
    proof (cases "run_command methods invoke cmd' cev w1 (cmds_core c1)")
      case (Inl p)
      then have "waiter (cmds_core c1) - 1 < 0"
        by (auto simp: run_command_def HandlerFinished_def split: prod.splits if_splits)
      then show ?thesis using Inl Started st(3) by (simp add: HandlerStarted_def)
    next
      case (Inr x)
      then obtain err w2 d where x: "run_command methods invoke cmd' cev w1 (cmds_core c1) = Inr (err, w2, d)" by (cases x) auto
      from run_command_locks [OF this assms(2)] opened st(4) Started x show ?thesis by auto
    qed
  qed (use check_and_start_refused [OF s] in auto)
qed

section \<open>The registry\<close>

lemma Register_ok:
  assumes "Cmds_Register server r reg c = (None, reg', c')"
  shows "globalCmdRegistry reg (makeIdentifier server (c_Cmd (the (heapCmd reg r)))) = None"
    "globalCmdRegistry reg (makeIdentifier GLOBAL (c_Cmd (the (heapCmd reg r)))) = None"
    "reg' = reg\<lparr>heapCmd := (heapCmd reg)(r \<mapsto> snd (parseArgs (the (heapCmd reg r)))),
        globalCmdRegistry := (globalCmdRegistry reg)(makeIdentifier server (c_Cmd (the (heapCmd reg r))) \<mapsto> r)\<rparr>"
    "c' = c\<lparr>commands := (commands c)(c_Cmd (the (heapCmd reg r)) \<mapsto> r)\<rparr>"
    "fst (parseArgs (the (heapCmd reg r))) = None" "c_Cmd (the (heapCmd reg r)) \<noteq> []"
  using assms by (auto simp: Cmds_Register_def Let_def split: if_splits option.splits prod.splits)

text \<open>
  Within one server, or globally, the name of a command is unique: after a registration the
  command is found under its name, a second one of that name for the same server is refused
  and leaves everything as it was, and after a global registration so is one for any server.
  A command that is unregistered is gone from both tables.
\<close>

theorem registration_unique:
  assumes "Cmds_Register server r reg c = (None, reg', c')" and "heapCmd reg r = Some command"
    and "c_Cmd (the (heapCmd reg' r2)) = c_Cmd command" and "server2 = server \<or> server = GLOBAL"
  shows "commands c' (c_Cmd command) = Some r
    \<and> (\<exists>n. Cmds_Register server2 r2 reg' c2 = (Some (DuplicateCmd n), reg', c2))
    \<and> (case Cmds_Unregister server (c_Cmd command) reg' c' of
         (found, reg'', c'') \<Rightarrow> found \<and> commands c'' = (commands c)(c_Cmd command := None)
           \<and> globalCmdRegistry reg'' = globalCmdRegistry reg)"
proof -
  note ok = Register_ok [OF assms(1)]
  have g: "globalCmdRegistry reg' (makeIdentifier server (c_Cmd command)) = Some r" using ok(3) assms(2) by simp
  with assms(3,4) have "\<exists>n. Cmds_Register server2 r2 reg' c2 = (Some (DuplicateCmd n), reg', c2)"
    by (auto simp: Cmds_Register_def Let_def)
  moreover have "(globalCmdRegistry reg)(makeIdentifier server (c_Cmd command) := None) = globalCmdRegistry reg"
    using ok(1) assms(2) by auto
  ultimately show ?thesis using ok(3,4) assms(2) by (auto simp: Cmds_Unregister_def Let_def)
qed

text \<open>Names are looked up in lower case but registered as they are, so an upper-case name is never found.\<close>

lemma command_name_lower:
  assumes "command_name op ev c = Inr (Some (cmd, ch, isChan, ws))" shows "to_lower cmd = cmd"
proof -
  obtain w where "cmd = tl (to_lower w) \<or> cmd = to_lower w" using command_name_Some(2) [OF assms] by (auto split: if_splits)
  moreover have "to_lower (tl (to_lower w)) = tl (to_lower w)" by (cases w) (simp_all add: to_lower_def comp_def)
  ultimately show ?thesis by auto
qed

section \<open>A sample command\<close>

definition simple_cmd :: "unit Cmd" where
  "simple_cmd = MkAuthCmd ''ext'' ''says'' ''say'' (Some ()) 1 3 0 ''G'' []"

definition sample_registry :: "unit Registry" where
  "sample_registry = \<lparr>heapCmd = [0 \<mapsto> simple_cmd], globalCmdRegistry = [''GLOBAL:say'' \<mapsto> 0]\<rparr>"

definition sample_cmds :: Cmds where
  "sample_cmds = \<lparr>cmds_core = NewDispatchCore [], cmds_prefix = CHR ''.'', commands = [''say'' \<mapsto> 0]\<rparr>"

definition sample_world :: "(string \<rightharpoonup> string) World" where
  "sample_world = \<lparr>w_known = True, w_state = Some joined_state,
     w_store = Some (sample_store\<lparr>heapSU := [0 \<mapsto> GrantGlobalFlags [''G''] sample_user], authed := [''netme!u@h'' \<mapsto> 0]\<rparr>),
     w_stateLocks = 0, w_storeLocks = 0\<rparr>"

definition said :: "string \<Rightarrow> Event" where
  "said tx = NewEvent 0 ''net'' (Some NewNetworkInfo) PRIVMSG ''me!u@h'' [''#c'', tx]"

lemma sample_started:
  "\<exists>cev w' c'. Cmds_Dispatch mem_kv sample_gob ''net'' CHR 0x00 (said ''.say'') sample_registry sample_world sample_cmds
     = Inr (Started ''say'' 0 cev, w', c')"
proof -
  have "command_name CHR 0x00 (said ''.say'') sample_cmds = Inr (Some (''say'', ''#c'', True, []))"
    "filterAccess (w_store sample_world) simple_cmd ''net'' ''#c'' (said ''.say'') = Inr 0"
    "msgtype_of (said ''.say'') AND c_Msgtype simple_cmd \<noteq> 0" "PUBLIC AND c_Msgscope simple_cmd \<noteq> 0"
    "c_args simple_cmd = []"
    by code_simp+
  then show ?thesis
    by (simp add: Cmds_Dispatch_def check_and_start_def sample_cmds_def sample_registry_def OpenState_def OpenReadStore_def
        sample_world_def filterArgs_def Let_def)
qed

theorem commands_gated_witness:
  "\<exists>cev w' c'. Cmds_Dispatch mem_kv sample_gob ''net'' CHR 0x00 (said ''.say'') sample_registry sample_world sample_cmds
     = Inr (Started ''say'' 0 cev, w', c') \<and> ce_StoredUser cev = Some 0
     \<and> SU_HasFlags ''net'' ''#c'' [''G''] (GrantGlobalFlags [''G''] sample_user)"
proof -
  obtain cev w' c' where s: "Cmds_Dispatch mem_kv sample_gob ''net'' CHR 0x00 (said ''.say'') sample_registry sample_world sample_cmds
     = Inr (Started ''say'' 0 cev, w', c')"
    using sample_started by blast
  have c: "heapCmd sample_registry 0 = Some simple_cmd" by (simp add: sample_registry_def)
  have "c_RequireAuth simple_cmd" "c_ReqFlags simple_cmd = ''G''" "IsTargetChan (said ''.say'') = Inr True"
    "eArgs (said ''.say'') ! 0 = ''#c''"
    by code_simp+
  with commands_gated [OF s c] s show ?thesis by (auto simp: sample_world_def GetAuthedUser_def said_def NewEvent_def)
qed

theorem locks_released_witness:
  "\<exists>cev w1 c1. Cmds_Dispatch mem_kv sample_gob ''net'' CHR 0x00 (said ''.say'') sample_registry sample_world sample_cmds
     = Inr (Started ''say'' 0 cev, w1, c1)
     \<and> (\<exists>err w2 d. run_command (\<lambda>_. None) (\<lambda>m e x. (Inl NilDereference :: CmdError option outcome, CE_Close e x)) ''say'' cev w1 (cmds_core c1) = Inr (err, w2, d)
          \<and> w_storeLocks w2 = 0 \<and> w_stateLocks w2 = 0)"
proof -
  obtain cev w1 c1 where s: "Cmds_Dispatch mem_kv sample_gob ''net'' CHR 0x00 (said ''.say'') sample_registry sample_world sample_cmds
     = Inr (Started ''say'' 0 cev, w1, c1)"
    using sample_started by blast
  have l: "lock_ok (\<lambda>m e x. (Inl NilDereference :: CmdError option outcome, CE_Close e x))"
    by (auto simp: lock_ok_def CE_Close_def CloseState_def CloseReadStore_def split: if_splits)
  have "\<not> waiter (cmds_core sample_cmds) < 0" by code_simp
  with locks_released [OF s l, where methods = "\<lambda>_. None"] s show ?thesis
    by (cases "run_command (\<lambda>_. None) (\<lambda>m e x. (Inl NilDereference :: CmdError option outcome, CE_Close e x)) ''say'' cev w1 (cmds_core c1)")
      (auto simp: sample_world_def)
qed

theorem registration_unique_witness:
  "\<exists>reg' c' n. Cmds_Register GLOBAL 0 (sample_registry\<lparr>globalCmdRegistry := Map.empty\<rparr>) sample_cmds = (None, reg', c')
     \<and> Cmds_Register ''net'' 0 reg' c' = (Some (DuplicateCmd n), reg', c')"
proof -
  have p: "fst (parseArgs simple_cmd) = None" "c_Cmd simple_cmd = ''say''" "c_Extension simple_cmd \<noteq> []"
    "c_Description simple_cmd \<noteq> []" "c_Handler simple_cmd \<noteq> None" by code_simp+
  then obtain reg' c' where r: "Cmds_Register GLOBAL 0 (sample_registry\<lparr>globalCmdRegistry := Map.empty\<rparr>) sample_cmds = (None, reg', c')"
    by (cases "parseArgs simple_cmd") (auto simp: Cmds_Register_def sample_registry_def Let_def)
  have "c_Cmd (snd (parseArgs simple_cmd)) = ''say''" by code_simp
  then have "c_Cmd (the (heapCmd reg' 0)) = ''say''" using Register_ok(3) [OF r] by (simp add: sample_registry_def)
  then show ?thesis using registration_unique [OF r, of simple_cmd 0 "''net''" c'] r p(2)
    by (auto simp: sample_registry_def)
qed

end
