(* ===== verification/CmdsArgs.thy ===== *)
theory CmdsArgs
  imports CmdsProps
begin

text \<open>
  How the words of a message are bound to the declared arguments of a command, against a
  reference description: the words are taken in order, a channel argument is filled with
  the channel of the message if the first word names none, and a variadic argument takes the rest.
\<close>

section \<open>The reference\<close>

fun fits :: "kind list \<Rightarrow> string list \<Rightarrow> bool" where
  "fits [] ws = (ws = [])"
| "fits (k # ks) ws =
     (case k of
        VarArg \<Rightarrow> True
      | OptArg \<Rightarrow> ws = [] \<or> fits ks (tl ws)
      | _ \<Rightarrow> ws \<noteq> [] \<and> fits ks (tl ws))"

fun bind_words :: "kind list \<Rightarrow> string list \<Rightarrow> string list \<Rightarrow> (string \<rightharpoonup> string)" where
  "bind_words (k # ks) (n # ns) (w # ws) =
     (if k = VarArg then [n \<mapsto> Prelude.join '' '' (w # ws)] else (bind_words ks ns ws)(n \<mapsto> w))"
| "bind_words _ _ _ = Map.empty"

definition names_channel :: "NetworkInfo \<Rightarrow> string list \<Rightarrow> bool" where
  "names_channel ni ws \<longleftrightarrow> ws \<noteq> [] \<and> IsChannel ni (hd ws)"

definition words_for :: "NetworkInfo \<Rightarrow> kind list \<Rightarrow> bool \<Rightarrow> string \<Rightarrow> string list \<Rightarrow> string list" where
  "words_for ni ks isChan channel ws =
     (if ks \<noteq> [] \<and> hd ks = ChanArg \<and> isChan \<and> \<not> names_channel ni ws then channel # ws else ws)"

definition channel_ok :: "NetworkInfo \<Rightarrow> kind list \<Rightarrow> bool \<Rightarrow> string list \<Rightarrow> bool" where
  "channel_ok ni ks isChan ws \<longleftrightarrow> (ks \<noteq> [] \<and> hd ks = ChanArg \<longrightarrow> isChan \<or> names_channel ni ws)"

text \<open>Arguments without a user or nick flag.\<close>

definition plain :: "string \<Rightarrow> bool" where
  "plain a \<longleftrightarrow> modifier (to_lower a) \<noteq> CHR ''~'' \<and> modifier (to_lower a) \<noteq> CHR ''*''"

section \<open>Bits of parsed arguments\<close>

lemma type_bits:
  assumes "rgxArgs ag"
  shows "has_bit CHANNEL (type_of ag) \<longleftrightarrow> kind_of ag = ChanArg"
    "has_bit REQUIRED (type_of ag) \<longleftrightarrow> kind_of ag = ChanArg \<or> kind_of ag = ReqArg"
    "has_bit OPTIONAL (type_of ag) \<longleftrightarrow> kind_of ag = OptArg"
    "has_bit VARIADIC (type_of ag) \<longleftrightarrow> kind_of ag = VarArg"
    "has_bit NICKARG (type_of ag) \<longleftrightarrow> modifier ag = CHR ''~''"
    "has_bit USERARG (type_of ag) \<longleftrightarrow> modifier ag = CHR ''*''"
  using rgxArgs_facts(2) [OF assms]
  by (cases "kind_of ag"; auto simp: type_of_def has_bit_def arg_bits kind_of_def split: if_splits)+

lemma bind_words_dom: "dom (bind_words ks ns ws) \<subseteq> set ns"
  by (induction ks ns ws rule: bind_words.induct) auto

lemma meta_bits:
  assumes "rgxArgs (to_lower a)"
  shows "has_bit CHANNEL (a_Type (meta_of a)) \<longleftrightarrow> kind_of (to_lower a) = ChanArg"
    "has_bit REQUIRED (a_Type (meta_of a)) \<longleftrightarrow> kind_of (to_lower a) = ChanArg \<or> kind_of (to_lower a) = ReqArg"
    "has_bit OPTIONAL (a_Type (meta_of a)) \<longleftrightarrow> kind_of (to_lower a) = OptArg"
    "has_bit VARIADIC (a_Type (meta_of a)) \<longleftrightarrow> kind_of (to_lower a) = VarArg"
    "has_bit NICKARG (a_Type (meta_of a)) \<or> has_bit USERARG (a_Type (meta_of a)) \<longleftrightarrow> \<not> plain a"
    "a_Name (meta_of a) = trim strip_char a"
  using type_bits [OF assms] by (auto simp: meta_of_def plain_def)

section \<open>User lookups do not touch the bound words\<close>

lemma addData_args [simp]: "ce_args (addData vargs name i a u ev) = ce_args ev"
  by (simp add: addData_def Let_def split: option.splits)

lemma find_accesses_args:
  "find_accesses K G srv vargs name i us ev w = Inr (err, ev', w') \<Longrightarrow> ce_args ev' = ce_args ev"
proof (induction us arbitrary: i ev w)
  case (Cons u us)
  then show ?case by (auto split: sum.splits)
qed simp

lemma find_nicks_args: "find_nicks vargs name i us ev w = (err, ev') \<Longrightarrow> ce_args ev' = ce_args ev"
proof (induction us arbitrary: i ev)
  case (Cons u us)
  then show ?case by (cases "FindUserByNick u ev w") (auto dest: Cons.IH)
qed simp

lemma parseUserArg_args: "parseUserArg K G server name t us ev w = Inr (err, ev', w') \<Longrightarrow> ce_args ev' = ce_args ev"
  by (auto simp: parseUserArg_def Let_def dest!: find_accesses_args find_nicks_args split: if_splits prod.splits)

lemma filter_users_args: "filter_users K G server as ag j ev w = Inr (err, ev', w') \<Longrightarrow> ce_args ev' = ce_args ev"
  by (auto simp: filter_users_def dest!: parseUserArg_args split: if_splits)

section \<open>The loop binds positionally\<close>

text \<open>The end of the loop that is a success.\<close>

definition finished :: "nat \<Rightarrow> (CmdError option + int) \<Rightarrow> bool" where
  "finished n r = (case r of Inl err \<Rightarrow> err = None | Inr j \<Rightarrow> int n \<le> j)"

lemma filter_switch_word:
  assumes "rgxArgs (to_lower a)" "kind_of (to_lower a) \<noteq> ChanArg" "j < length as" "c_args command \<noteq> []"
  shows "filter_switch command ch isChan as state (meta_of a) (int j) ev =
    Inr (Inr (int j), ev\<lparr>ce_args := (ce_args ev)(trim strip_char a \<mapsto>
      (if kind_of (to_lower a) = VarArg then Prelude.join '' '' (drop j as) else as ! j))\<rparr>)"
  using assms(2-) meta_bits [OF assms(1)]
  by (cases "kind_of (to_lower a)") (auto simp: filter_switch_def Let_def int_index_def int_slice_def index_at_def slice_from_def)

lemma filter_switch_none:
  assumes "rgxArgs (to_lower a)" "kind_of (to_lower a) \<noteq> ChanArg" "length as \<le> j" "c_args command \<noteq> []"
  shows "\<exists>err. filter_switch command ch isChan as state (meta_of a) (int j) ev = Inr (Inl err, ev)
    \<and> (err = None \<longleftrightarrow> kind_of (to_lower a) \<noteq> ReqArg)"
  using assms(2-) meta_bits [OF assms(1)]
  by (cases "kind_of (to_lower a)"; cases "c_args command") (auto simp: filter_switch_def Let_def)

lemma filter_loop_binds:
  assumes "filter_loop K G server command ch isChan as state (map meta_of args) (int j) ev w = Inr (r, ev', w')"
    and "list_all (\<lambda>a. rgxArgs (to_lower a)) args" "ChanArg \<notin> set (kinds_of args)" "distinct (names_of args)"
    and "j \<le> length as" "c_args command \<noteq> []"
  shows "(finished (length as) r \<longrightarrow> fits (kinds_of args) (drop j as)
           \<and> ce_args ev' = ce_args ev ++ bind_words (kinds_of args) (names_of args) (drop j as))
    \<and> (list_all plain args \<longrightarrow> finished (length as) r = fits (kinds_of args) (drop j as))"
  using assms
proof (induction args arbitrary: j ev w)
  case Nil
  then show ?case by (auto simp: finished_def)
next
  case (Cons a args)
  let ?k = "kind_of (to_lower a)" and ?n = "trim strip_char a"
  have a: "rgxArgs (to_lower a)" "?k \<noteq> ChanArg" using Cons.prems(2,3) by (auto simp: kinds_of_def)
  have ks: "kinds_of (a # args) = ?k # kinds_of args" "names_of (a # args) = ?n # names_of args"
    by (simp_all add: kinds_of_def names_of_def)
  show ?case
  proof (cases "j < length as")
    case False
    with filter_switch_none [OF a, of as j command ch isChan state ev] Cons.prems(1,5,6)
    have "finished (length as) r \<longleftrightarrow> ?k \<noteq> ReqArg" "ev' = ev" by (auto simp: finished_def)
    then show ?thesis using False Cons.prems(5) a(2) ks by (cases ?k) auto
  next
    case True
    let ?ev = "ev\<lparr>ce_args := (ce_args ev)(?n \<mapsto> (if ?k = VarArg then Prelude.join '' '' (drop j as) else as ! j))\<rparr>"
    have d: "drop j as = as ! j # drop (Suc j) as" using True by (rule Cons_nth_drop_Suc [symmetric])
    obtain err ev1 w1 where u: "filter_users K G server as (meta_of a) (int j) ?ev w = Inr (err, ev1, w1)"
      using Cons.prems(1) filter_switch_word [OF a True Cons.prems(6), of ch isChan state ev] by auto
    note args1 = filter_users_args [OF u]
    have plain: "plain a \<Longrightarrow> err = None" using u meta_bits(5) [OF a(1)] by (simp add: filter_users_def)
    show ?thesis
    proof (cases "err = None \<and> ?k \<noteq> VarArg")
      case False
      with Cons.prems(1) filter_switch_word [OF a True Cons.prems(6), of ch isChan state ev] u meta_bits(4) [OF a(1)]
      have "r = (case err of None \<Rightarrow> Inr (int (length as)) | Some e \<Rightarrow> Inl (Some e))" "ev' = ev1"
        by (auto split: option.splits)
      then show ?thesis using False args1 ks d plain by (auto simp: finished_def split: option.splits)
    next
      case rec: True
      with Cons.prems(1) filter_switch_word [OF a True Cons.prems(6), of ch isChan state ev] u meta_bits(4) [OF a(1)]
      have "filter_loop K G server command ch isChan as state (map meta_of args) (int (Suc j)) ev1 w1 = Inr (r, ev', w')"
        by (simp add: add.commute)
      from Cons.IH [OF this] Cons.prems(2-6) True ks
      have IH: "(finished (length as) r \<longrightarrow> fits (kinds_of args) (drop (Suc j) as)
           \<and> ce_args ev' = ce_args ev1 ++ bind_words (kinds_of args) (names_of args) (drop (Suc j) as))
        \<and> (list_all plain args \<longrightarrow> finished (length as) r = fits (kinds_of args) (drop (Suc j) as))"
        by simp
      have "?n \<notin> dom (bind_words (kinds_of args) (names_of args) (drop (Suc j) as))"
        using bind_words_dom Cons.prems(4) ks by fastforce
      then have "ce_args ev1 ++ bind_words (kinds_of args) (names_of args) (drop (Suc j) as)
          = ce_args ev ++ bind_words (kinds_of (a # args)) (names_of (a # args)) (drop j as)"
        unfolding ks d using rec args1 by (simp add: map_add_upd_left del: fun_upd_apply)
      moreover have "fits (kinds_of (a # args)) (drop j as) = fits (kinds_of args) (drop (Suc j) as)"
        unfolding ks d using rec a(2) by (cases ?k) auto
      ultimately show ?thesis using IH by simp
    qed
  qed
qed

section \<open>The channel argument\<close>

lemma filter_switch_channel:
  assumes "rgxArgs (to_lower a)" "kind_of (to_lower a) = ChanArg"
    and "c_args command = meta_of a # args" "eNetworkInfo (ce_event ev) = Some ni" "list_all (\<lambda>x. x \<noteq> []) as"
  obtains (word) ev1 where "names_channel ni as" "ce_args ev1 = (ce_args ev)(trim strip_char a \<mapsto> hd as)"
      "filter_switch command ch isChan as (Some s) (meta_of a) 0 ev = Inr (Inr 0, ev1)"
  | (given) ev1 where "\<not> names_channel ni as" isChan "ce_args ev1 = (ce_args ev)(trim strip_char a \<mapsto> ch)"
      "filter_switch command ch isChan as (Some s) (meta_of a) 0 ev = Inr (Inr (- 1), ev1)"
  | (bad) err where "\<not> names_channel ni as" "\<not> isChan"
      "filter_switch command ch isChan as (Some s) (meta_of a) 0 ev = Inr (Inl (Some err), ev)"
proof -
  note bits = meta_bits [OF assms(1)]
  have p: "filter_switch command ch isChan as (Some s) (meta_of a) 0 ev =
      and_then (parseChanArg command ev s 0 as ch isChan) (\<lambda>(r, ev).
        case r of Inl err \<Rightarrow> Inr (Inl (Some err), ev) | Inr consumed \<Rightarrow> Inr (Inr (if consumed then 0 else 0 - 1), ev))"
    using bits assms(2) by (simp add: filter_switch_def)
  show ?thesis
  proof (cases "names_channel ni as")
    case True
    then obtain x xs where as: "as = x # xs" "IsChannel ni x" by (cases as) (auto simp: names_channel_def)
    with True assms bits p show ?thesis
      by (intro word) (auto simp: parseChanArg_def int_index_def Let_def)
  next
    case False
    show ?thesis
    proof (cases isChan)
      case chan: True
      let ?ev = "ev\<lparr>ce_args := (ce_args ev)(trim strip_char a \<mapsto> ch), ce_Channel := GetChannel ch s,
          ce_TargetChannel := GetChannel ch s\<rparr>"
      have "parseChanArg command ev s 0 as ch isChan = Inr (Inr False, ?ev)"
        using False chan assms(3-5) bits(6)
        by (cases as) (simp_all add: parseChanArg_def int_index_def Let_def names_channel_def)
      with False chan p show ?thesis by (intro given [of ?ev]) simp_all
    next
      case priv: False
      show ?thesis
      proof (cases as)
        case Nil
        with False priv assms bits p show ?thesis by (intro bad) (auto simp: parseChanArg_def)
      next
        case (Cons x xs)
        with False priv assms bits p show ?thesis
          by (intro bad) (auto simp: parseChanArg_def int_index_def Let_def names_channel_def)
      qed
    qed
  qed
qed

section \<open>The whole check\<close>

text \<open>A command as registration leaves it.\<close>

definition registered :: "'h Cmd \<Rightarrow> bool" where
  "registered command \<longleftrightarrow> declarable (c_Args command) \<and> c_args command = map meta_of (c_Args command)"

definition bound :: "'h Cmd \<Rightarrow> NetworkInfo \<Rightarrow> bool \<Rightarrow> string \<Rightarrow> string list \<Rightarrow> (string \<rightharpoonup> string) option" where
  "bound command ni isChan channel as =
     (let ks = kinds_of (c_Args command); ws = words_for ni ks isChan channel as in
      if channel_ok ni ks isChan as \<and> fits ks ws then Some (bind_words ks (names_of (c_Args command)) ws) else None)"

lemma filterArgs_result:
  assumes "filterArgs K G server command ch isChan as state ev w = Inr (err, ev', w')"
  obtains r where "filter_loop K G server command ch isChan as state (c_args command) 0
      (ev\<lparr>ce_args := Map.empty\<rparr>) w = Inr (r, ev', w')" "err = None \<longleftrightarrow> finished (length as) r"
  using assms by (auto simp: filterArgs_def finished_def split: sum.splits if_splits)

lemma declarable_Cons:
  assumes "declarable (a # args)"
  shows "rgxArgs (to_lower a)" "list_all (\<lambda>a. rgxArgs (to_lower a)) args" "ChanArg \<notin> set (kinds_of args)"
    "distinct (names_of args)" "trim strip_char a \<notin> set (names_of args)"
  using assms by (auto simp: declarable_def order_ok_def kinds_of_def names_of_def)

lemma binds_after_channel:
  assumes "declarable (a # args)" "c_args command \<noteq> []" "j \<le> length as"
    and "filter_loop K G server command ch isChan as state (map meta_of args) (int j) ev1 w = Inr (r, ev', w')"
    and "ce_args ev1 = [trim strip_char a \<mapsto> x]" "kind_of (to_lower a) = ChanArg"
  shows "(finished (length as) r \<longrightarrow> fits (kinds_of (a # args)) (x # drop j as)
       \<and> ce_args ev' = bind_words (kinds_of (a # args)) (names_of (a # args)) (x # drop j as))
    \<and> (list_all plain args \<longrightarrow> finished (length as) r = fits (kinds_of (a # args)) (x # drop j as))"
proof -
  note d = declarable_Cons [OF assms(1)]
  have "trim strip_char a \<notin> dom (bind_words (kinds_of args) (names_of args) (drop j as))"
    using bind_words_dom d(5) by fastforce
  then have "[trim strip_char a \<mapsto> x] ++ bind_words (kinds_of args) (names_of args) (drop j as)
      = (bind_words (kinds_of args) (names_of args) (drop j as))(trim strip_char a \<mapsto> x)"
    by (simp add: map_add_upd_left)
  with filter_loop_binds [OF assms(4) d(2,3,4) assms(3,2)] assms(5,6)
  show ?thesis by (auto simp: kinds_of_def names_of_def)
qed

text \<open>The goal for one result of the loop.\<close>

definition positional :: "'h Cmd \<Rightarrow> NetworkInfo \<Rightarrow> bool \<Rightarrow> string \<Rightarrow> string list \<Rightarrow> bool \<Rightarrow> CmdEvent \<Rightarrow> bool" where
  "positional command ni isChan ch as success ev' \<longleftrightarrow>
     (success \<longrightarrow> bound command ni isChan ch as = Some (ce_args ev'))
     \<and> (list_all plain (c_Args command) \<longrightarrow> success = (bound command ni isChan ch as \<noteq> None))"

lemma positional_channel:
  assumes "registered command" "c_Args command = a # args" and chan: "kind_of (to_lower a) = ChanArg"
    and loop: "filter_loop K G server command ch isChan as (Some s) (c_args command) 0 (ev\<lparr>ce_args := Map.empty\<rparr>) w
          = Inr (r, ev', w')"
    and "eNetworkInfo (ce_event ev) = Some ni" "list_all (\<lambda>x. x \<noteq> []) as"
  shows "positional command ni isChan ch as (finished (length as) r) ev'"
proof -
  have decl: "declarable (a # args)" and ca: "c_args command = meta_of a # map meta_of args"
    using assms(1,2) by (auto simp: registered_def)
  note d = declarable_Cons [OF decl]
  note bits = meta_bits [OF d(1)]
  have pa: "plain a" using chan rgxArgs_facts(2) [OF d(1)] by (auto simp: plain_def kind_of_def split: if_splits)
  have K: "kinds_of (c_Args command) = ChanArg # kinds_of args" "kinds_of (a # args) = ChanArg # kinds_of args"
    using assms(2) chan by (simp_all add: kinds_of_def)
  have rest: "filter_loop K G server command ch isChan as (Some s) (map meta_of args) (j + 1) ev1 w = Inr (r, ev', w')"
    if "filter_switch command ch isChan as (Some s) (meta_of a) 0 (ev\<lparr>ce_args := Map.empty\<rparr>) = Inr (Inr j, ev1)" for j ev1
    using loop that bits chan pa unfolding ca by (simp add: filter_users_def)
  have ni: "eNetworkInfo (ce_event (ev\<lparr>ce_args := Map.empty\<rparr>)) = Some ni" using assms(5) by simp
  show ?thesis
  proof (cases rule: filter_switch_channel [OF d(1) chan ca ni assms(6), of ch isChan s, case_names word given bad])
    case (word ev1)
    then obtain x xs where as: "as = x # xs" by (cases as) (auto simp: names_channel_def)
    have l: "filter_loop K G server command ch isChan as (Some s) (map meta_of args) (int 1) ev1 w = Inr (r, ev', w')"
      using rest [OF word(3)] by simp
    show ?thesis using binds_after_channel [OF decl _ _ l _ chan, of x] ca as word(1,2) K assms(2) pa
      by (simp add: positional_def bound_def words_for_def channel_ok_def Let_def)
  next
    case (given ev1)
    have l: "filter_loop K G server command ch isChan as (Some s) (map meta_of args) (int 0) ev1 w = Inr (r, ev', w')"
      using rest [OF given(4)] by simp
    show ?thesis using binds_after_channel [OF decl _ _ l _ chan, of ch] ca given(1-3) K assms(2) pa
      by (simp add: positional_def bound_def words_for_def channel_ok_def Let_def)
  next
    case (bad e)
    then have "r = Inl (Some e)" using loop unfolding ca by simp
    with bad(1,2) K show ?thesis by (simp add: positional_def bound_def channel_ok_def finished_def Let_def)
  qed
qed

lemma positional_others:
  assumes "registered command" and "ChanArg \<notin> set (kinds_of (c_Args command))"
    and loop: "filter_loop K G server command ch isChan as (Some s) (c_args command) 0 (ev\<lparr>ce_args := Map.empty\<rparr>) w
          = Inr (r, ev', w')"
  shows "positional command ni isChan ch as (finished (length as) r) ev'"
proof -
  have decl: "declarable (c_Args command)" "c_args command = map meta_of (c_Args command)"
    using assms(1) by (auto simp: registered_def)
  have hd: "\<not> (kinds_of (c_Args command) \<noteq> [] \<and> hd (kinds_of (c_Args command)) = ChanArg)"
    using assms(2) by (cases "kinds_of (c_Args command)") auto
  show ?thesis
  proof (cases "c_Args command")
    case Nil
    then show ?thesis using loop decl(2)
      by (auto simp: positional_def bound_def words_for_def channel_ok_def finished_def Let_def)
  next
    case (Cons a args)
    then have "c_args command \<noteq> []" using decl(2) by simp
    with filter_loop_binds [of K G server command ch isChan as "Some s" "c_Args command" 0 "ev\<lparr>ce_args := Map.empty\<rparr>" w r ev' w']
      loop decl assms(2)
    have "(finished (length as) r \<longrightarrow> fits (kinds_of (c_Args command)) as
        \<and> ce_args ev' = bind_words (kinds_of (c_Args command)) (names_of (c_Args command)) as)
      \<and> (list_all plain (c_Args command) \<longrightarrow> finished (length as) r = fits (kinds_of (c_Args command)) as)"
      by (simp add: declarable_def)
    then show ?thesis using hd by (auto simp: positional_def bound_def words_for_def channel_ok_def Let_def)
  qed
qed

text \<open>
  C23: The words of a message are bound to the declared arguments by position.  The check of the
  arguments succeeds only if the words fit the declaration (enough for the required ones, not more
  than there are arguments unless the last is variadic, and a channel where one is declared), and
  then each argument has its word; without user lookups this is exactly when it succeeds.
\<close>

theorem filterArgs_positional:
  assumes "registered command" and "filterArgs K G server command ch isChan as (Some s) ev w = Inr (err, ev', w')"
    and "eNetworkInfo (ce_event ev) = Some ni" and "list_all (\<lambda>x. x \<noteq> []) as"
  shows "(err = None \<longrightarrow> bound command ni isChan ch as = Some (ce_args ev'))
    \<and> (list_all plain (c_Args command) \<longrightarrow> (err = None \<longleftrightarrow> bound command ni isChan ch as \<noteq> None))"
proof -
  obtain r where r: "filter_loop K G server command ch isChan as (Some s) (c_args command) 0
      (ev\<lparr>ce_args := Map.empty\<rparr>) w = Inr (r, ev', w')" "err = None \<longleftrightarrow> finished (length as) r"
    using assms(2) by (rule filterArgs_result)
  have "positional command ni isChan ch as (finished (length as) r) ev'"
  proof (cases "ChanArg \<in> set (kinds_of (c_Args command))")
    case True
    then obtain a args where a: "c_Args command = a # args" by (cases "c_Args command") auto
    with True assms(1) have "kind_of (to_lower a) = ChanArg"
      by (auto simp: registered_def kinds_of_def dest: declarable_Cons(3))
    from positional_channel [OF assms(1) a this r(1) assms(3,4)] show ?thesis .
  qed (rule positional_others [OF assms(1) _ r(1)])
  then show ?thesis using r(2) by (simp add: positional_def)
qed

section \<open>Dispatching does not panic\<close>

definition world_ok :: "'d World \<Rightarrow> bool" where
  "world_ok w \<longleftrightarrow> (case w_state w of None \<Rightarrow> True | Some s \<Rightarrow> st_inv s)"

lemma world_ok_same: "same_world w w' \<Longrightarrow> world_ok w \<Longrightarrow> world_ok w'"
  by (simp add: world_ok_def same_world_def)

lemma GetUser_allocated: "st_inv s \<Longrightarrow> GetUser n s = Some r \<Longrightarrow> \<exists>u. the_user (Some r) s = Inr u"
  by (fastforce simp: st_inv_def GetUser_def the_user_def split: option.splits dest: users_okD)

lemma FindAccessByUser_total:
  assumes "world_ok w" "u \<noteq> []"
  shows "\<exists>r w'. FindAccessByUser K G srv u ev w = Inr (r, w')"
proof -
  have "\<exists>x. the_user (Some p) s = Inr x" if "w_state w = Some s" "GetUser u s = Some p" for s p
    using GetUser_allocated [of s u p] assms(1) that by (simp add: world_ok_def)
  with assms(2) show ?thesis
    by (cases u) (fastforce simp: FindAccessByUser_def split: option.splits bool.splits prod.splits sum.splits)+
qed

lemma find_accesses_total:
  "world_ok w \<Longrightarrow> list_all (\<lambda>u. u \<noteq> []) us \<Longrightarrow> \<exists>x. find_accesses K G srv vargs name i us ev w = Inr x"
proof (induction us arbitrary: i ev w)
  case (Cons u us)
  then obtain r w1 where r: "FindAccessByUser K G srv u ev w = Inr (r, w1)"
    using FindAccessByUser_total [of w u K G srv ev] by auto
  have "world_ok w1" using world_ok_same [OF FindAccessByUser_world [OF r] Cons.prems(1)] .
  with Cons r show ?case by (auto split: sum.splits)
qed simp

lemma filter_users_total:
  assumes "world_ok w" "list_all (\<lambda>u. u \<noteq> []) as" "j < length as"
  shows "\<exists>x. filter_users K G server as ag (int j) ev w = Inr x"
proof -
  have ne: "list_all (\<lambda>u. u \<noteq> []) (drop j as)" "as ! j \<noteq> []"
    using assms(2,3) by (auto simp: list_all_iff dest: in_set_dropD)
  have "\<exists>x. parseUserArg K G server n t us ev w = Inr x" if "list_all (\<lambda>u. u \<noteq> []) us" for n t us
    using find_accesses_total [OF assms(1) that] by (auto simp: parseUserArg_def Let_def split: prod.splits)
  with ne assms(3) show ?thesis
    by (auto simp: filter_users_def int_slice_def slice_from_def int_index_def index_at_def)
qed

lemma filter_loop_total:
  assumes "world_ok w" "list_all (\<lambda>u. u \<noteq> []) as" "j \<le> length as" "c_args command \<noteq> []"
    and "list_all (\<lambda>a. rgxArgs (to_lower a)) args" "ChanArg \<notin> set (kinds_of args)"
  shows "\<exists>x. filter_loop K G server command ch isChan as state (map meta_of args) (int j) ev w = Inr x"
  using assms
proof (induction args arbitrary: j ev w)
  case (Cons a args)
  have a: "rgxArgs (to_lower a)" "kind_of (to_lower a) \<noteq> ChanArg" "ChanArg \<notin> set (kinds_of args)"
    "list_all (\<lambda>a. rgxArgs (to_lower a)) args"
    using Cons.prems(5,6) by (auto simp: kinds_of_def)
  show ?case
  proof (cases "j < length as")
    case False
    with filter_switch_none [OF a(1,2), of as j command ch isChan state ev] Cons.prems(4) show ?thesis by auto
  next
    case True
    note sw = filter_switch_word [OF a(1,2) True Cons.prems(4), of ch isChan state ev]
    obtain err ev1 w1 where u: "filter_users K G server as (meta_of a) (int j)
        (ev\<lparr>ce_args := (ce_args ev)(trim strip_char a \<mapsto>
          (if kind_of (to_lower a) = VarArg then Prelude.join '' '' (drop j as) else as ! j))\<rparr>) w = Inr (err, ev1, w1)"
      using filter_users_total [OF Cons.prems(1,2) True] by (metis prod_cases3)
    have "world_ok w1" using world_ok_same filter_users_frame [OF u] Cons.prems(1) by blast
    from Cons.IH [OF this Cons.prems(2) _ Cons.prems(4) a(4,3), of "Suc j" ev1] True sw u
    show ?thesis by (auto simp: add.commute split: option.splits)
  qed
qed simp

lemma filterArgs_total:
  assumes "registered command" "world_ok w" "list_all (\<lambda>u. u \<noteq> []) as" "eNetworkInfo (ce_event ev) = Some ni"
  shows "\<exists>x. filterArgs K G server command ch isChan as state ev w = Inr x"
proof -
  have decl: "declarable (c_Args command)" "c_args command = map meta_of (c_Args command)"
    using assms(1) by (auto simp: registered_def)
  have "\<exists>x. filter_loop K G server command ch isChan as state (c_args command) 0 (ev\<lparr>ce_args := Map.empty\<rparr>) w = Inr x"
  proof (cases "c_Args command")
    case Nil
    then show ?thesis using decl(2) by simp
  next
    case (Cons a args)
    note d = declarable_Cons [OF decl(1) [unfolded Cons]]
    have ca: "c_args command = meta_of a # map meta_of args" using decl(2) Cons by simp
    show ?thesis
    proof (cases "kind_of (to_lower a) = ChanArg")
      case False
      then have "ChanArg \<notin> set (kinds_of (c_Args command))" using d(3) Cons by (auto simp: kinds_of_def)
      with filter_loop_total [OF assms(2,3), of 0 command "c_Args command"] decl Cons
      show ?thesis by (simp add: declarable_def)
    next
      case True
      have pa: "plain a" using True rgxArgs_facts(2) [OF d(1)] by (auto simp: plain_def kind_of_def split: if_splits)
      note bits = meta_bits [OF d(1)]
      have rest: "j \<le> length as \<Longrightarrow> \<exists>x. filter_loop K G server command ch isChan as state (map meta_of args) (int j) ev1 w = Inr x" for j ev1
        using filter_loop_total [OF assms(2,3) _ _ d(2,3), of j command] ca by simp
      have ni: "eNetworkInfo (ce_event (ev\<lparr>ce_args := Map.empty\<rparr>)) = Some ni" using assms(4) by simp
      show ?thesis
      proof (cases state)
        case None
        then show ?thesis using ca bits True by (simp add: filter_switch_def)
      next
        case (Some s)
        show ?thesis
        proof (cases rule: filter_switch_channel [OF d(1) True ca ni assms(3), of ch isChan s, case_names word given bad])
          case (word ev1)
          then have "1 \<le> length as" by (cases as) (auto simp: names_channel_def)
          with word(3) rest [of 1 ev1] bits True pa Some show ?thesis by (simp add: ca filter_users_def)
        next
          case (given ev1)
          with rest [of 0 ev1] bits True pa Some show ?thesis by (simp add: ca filter_users_def)
        qed (use Some in \<open>simp add: ca\<close>)
      qed
    qed
  qed
  then show ?thesis by (auto simp: filterArgs_def split: sum.splits)
qed

definition registry_ok :: "'h Registry \<Rightarrow> Cmds \<Rightarrow> bool" where
  "registry_ok reg c \<longleftrightarrow> (\<forall>n r. commands c n = Some r \<longrightarrow> registered (the (heapCmd reg r)))"

lemma command_name_total:
  assumes "eNetworkInfo ev = Some ni" "2 \<le> length (eArgs ev)"
  shows "\<exists>x. command_name op ev c = Inr x"
proof -
  obtain t m rest where ev: "eArgs ev = t # m # rest" using assms(2) by (cases "eArgs ev"; cases "tl (eArgs ev)") auto
  have "\<exists>y. index_at (to_lower w) 0 = Inr y" if "Fields m = w # ws" for w ws
    using Fields_nonempty [of w m] that by (cases w) (auto simp: to_lower_def)
  with ev assms(1) show ?thesis
    by (auto simp: command_name_def CheckTarget_def IsTargetChan_ok Target_def Let_def split: list.splits)
qed

lemma check_and_start_total:
  assumes "registered (the (heapCmd reg r))" "world_ok w" "list_all (\<lambda>u. u \<noteq> []) as" "eNetworkInfo ev = Some ni"
  shows "\<exists>x. check_and_start K G net ev cmd ch isChan as r reg w c = Inr x"
proof -
  obtain state w1 where o1: "OpenState w = (state, w1)" by (cases "OpenState w")
  obtain store w2 where o2: "OpenReadStore w1 = (store, w2)" by (cases "OpenReadStore w1")
  have "world_ok w2" using o1 o2 assms(2) by (auto simp: world_ok_def OpenState_def OpenReadStore_def split: if_splits)
  note total = filterArgs_total [OF assms(1) this assms(3)]
  show ?thesis
  proof (cases "if c_RequireAuth (the (heapCmd reg r)) then map_sum id Some (filterAccess store (the (heapCmd reg r)) net ch ev)
      else Inr None")
    case (Inl e)
    then show ?thesis using o1 o2 by (simp add: check_and_start_def refuse_def split: prod.splits)
  next
    case (Inr a)
    let ?cev = "(new_event ev)\<lparr>ce_State := \<not> Option.is_none state, ce_Store := \<not> Option.is_none store, ce_StoredUser := a\<rparr>"
    have "eNetworkInfo (ce_event ?cev) = Some ni" using assms(4) by (simp add: new_event_def)
    then obtain err cev w3 where "filterArgs K G net (the (heapCmd reg r)) ch isChan as state ?cev w2 = Inr (err, cev, w3)"
      using total by (metis prod_cases3)
    with Inr o1 o2 show ?thesis by (cases err) (simp_all add: check_and_start_def refuse_def Let_def split: prod.splits)
  qed
qed

text \<open>
  With registered commands and a consistent state, dispatching a message to the
  commands panics exactly when the message is a PRIVMSG or NOTICE with fewer than two arguments.
  The parser makes such events, of a message with an empty text, and nothing recovers the
  goroutine that dispatches.
\<close>

theorem Dispatch_panics_iff:
  assumes "registry_ok reg c" and "world_ok w" and "eNetworkInfo ev = Some ni"
  shows "(\<exists>p. Cmds_Dispatch K G net op ev reg w c = Inl p) \<longleftrightarrow> msgtype_of ev \<noteq> 0 \<and> length (eArgs ev) < 2"
proof (cases "msgtype_of ev = 0 \<or> 2 \<le> length (eArgs ev)")
  case False
  then have "index_at (eArgs ev) 1 = Inl IndexOutOfRange" by (simp add: index_at_def)
  with False show ?thesis by (simp add: Cmds_Dispatch_def command_name_def)
next
  case True
  then obtain x where x: "command_name op ev c = Inr x"
    using command_name_total [OF assms(3)] by (fastforce simp: command_name_def)
  have "\<exists>y. Cmds_Dispatch K G net op ev reg w c = Inr y"
  proof (cases x)
    case None
    then show ?thesis using x by (simp add: Cmds_Dispatch_def)
  next
    case (Some q)
    obtain cmd ch isChan ws where q: "q = (cmd, ch, isChan, ws)" by (cases q)
    obtain tx w1 where "Fields tx = w1 # ws" using command_name_Some(2) [of op ev c cmd ch isChan ws] x Some q by blast
    then have ne: "list_all (\<lambda>u. u \<noteq> []) ws" using Fields_nonempty [of _ tx] by (auto simp: list_all_iff)
    have "\<exists>y. check_and_start K G net ev cmd ch isChan ws r reg w c = Inr y" if "commands c cmd = Some r" for r
      using check_and_start_total [OF _ assms(2) ne assms(3)] assms(1) that unfolding registry_ok_def by blast
    then show ?thesis using x Some q by (auto simp: Cmds_Dispatch_def Let_def split: option.splits)
  qed
  then show ?thesis using True by auto
qed

section \<open>A sample command\<close>

definition sample_cmd :: "unit Cmd" where
  "sample_cmd = snd (parseArgs (MkAuthCmd ''ext'' ''says'' ''say'' (Some ()) 1 3 0 ''G'' [''#chan'', ''word'', ''rest...'']))"

lemma sample_cmd_args: "c_Args sample_cmd = [''#chan'', ''word'', ''rest...'']"
  by code_simp

lemma sample_cmd_registered: "registered sample_cmd"
proof -
  have "declarable [''#chan'', ''word'', ''rest...'']" by code_simp
  moreover have "c_args sample_cmd = map meta_of [''#chan'', ''word'', ''rest...'']" by code_simp
  ultimately show ?thesis by (simp add: registered_def sample_cmd_args)
qed

lemma sample_world_ok: "world_ok sample_world"
  using reachable_inv [OF reachable_joined] by (simp add: world_ok_def sample_world_def)

theorem filterArgs_positional_witness:
  "\<exists>ev' w'. filterArgs mem_kv sample_gob ''net'' sample_cmd ''#c'' True [''hi'', ''to'', ''you''] (Some joined_state)
       (new_event (said ''x'')) sample_world = Inr (None, ev', w')
     \<and> ce_args ev' ''chan'' = Some ''#c'' \<and> ce_args ev' ''word'' = Some ''hi'' \<and> ce_args ev' ''rest'' = Some ''to you''"
proof -
  let ?as = "[''hi'', ''to'', ''you'']"
  have ni: "eNetworkInfo (ce_event (new_event (said ''x''))) = Some NewNetworkInfo"
    by (simp add: new_event_def said_def NewEvent_def)
  have ne: "list_all (\<lambda>x. x \<noteq> []) ?as" and pl: "list_all plain (c_Args sample_cmd)"
    unfolding sample_cmd_args by code_simp+
  obtain err ev' w' where f: "filterArgs mem_kv sample_gob ''net'' sample_cmd ''#c'' True ?as (Some joined_state)
       (new_event (said ''x'')) sample_world = Inr (err, ev', w')"
    using filterArgs_total [OF sample_cmd_registered sample_world_ok ne ni] by (metis prod_cases3)
  have b: "map_option (\<lambda>m. (m ''chan'', m ''word'', m ''rest'')) (bound sample_cmd NewNetworkInfo True ''#c'' ?as)
      = Some (Some ''#c'', Some ''hi'', Some ''to you'')"
    by code_simp
  show ?thesis using filterArgs_positional [OF sample_cmd_registered f ni ne] pl b f by fastforce
qed

theorem Dispatch_panics_iff_witness:
  "\<exists>e p. Parse 0 '':n!u@h PRIVMSG #c :'' = Inr e
    \<and> Cmds_Dispatch mem_kv sample_gob ''net'' CHR 0x00 (e\<lparr>eNetworkInfo := Some NewNetworkInfo\<rparr>)
        sample_registry sample_world sample_cmds = Inl p"
proof -
  let ?e = "NewEvent 0 [] None PRIVMSG ''n!u@h'' [''#c'']"
  have "map_sum id (\<lambda>e. (eName e, eSender e, eArgs e)) (Parse 0 '':n!u@h PRIVMSG #c :'') = Inr (PRIVMSG, ''n!u@h'', [''#c''])"
    by code_simp
  then obtain e where e: "Parse 0 '':n!u@h PRIVMSG #c :'' = Inr e" "eName e = PRIVMSG" "eArgs e = [''#c'']"
    by (cases "Parse 0 '':n!u@h PRIVMSG #c :''") auto
  have "registry_ok sample_registry sample_cmds"
    by (auto simp: registry_ok_def sample_registry_def sample_cmds_def registered_def simple_cmd_def
        MkAuthCmd_def MkCmd_def declarable_def order_ok_def)
  from Dispatch_panics_iff [OF this sample_world_ok, of "e\<lparr>eNetworkInfo := Some NewNetworkInfo\<rparr>" NewNetworkInfo
      mem_kv sample_gob "''net''" "CHR 0x00"] e
  show ?thesis by (simp add: msgtype_of_def MSG_PRIVMSG_def)
qed

end
