(* ===== verification/Config.thy ===== *)
theory Config
  imports Complex_Main Prelude "HOL-Library.AList"
begin

text \<open>
  The configuration, \<^verbatim>\<open>src/config/map_helpers.go\<close>, \<^verbatim>\<open>config.go\<close>, \<^verbatim>\<open>network.go\<close>, \<^verbatim>\<open>ext.go\<close> and
  \<^verbatim>\<open>config_file.go\<close>: a tree of maps with values of any type, read through typed getters that
  fall back from a network to the global values.

  A value is its dynamic type with its content.  \<^verbatim>\<open>map[string]interface{}\<close> and the named type
  \<^verbatim>\<open>mp\<close> are different dynamic types, which type assertions tell apart.  Maps are association
  lists in the order Go iterates over them.  A context holds pointers to maps of the tree and is
  modelled by the path to them, which is right until the tree is replaced.  An int64 and a uint are
  words; a float64 is the rational it stands for.  Locks are not modelled.
\<close>

section \<open>Values\<close>

record ConfChannel =
  cc_Name :: string
  cc_Password :: string
  cc_Prefix :: string

datatype mapkind = GoMap | MpMap

datatype val =
    VStr string
  | VBool bool
  | VInt "64 word"
  | VUint "64 word"
  | VFloat rat
  | VArr "val list"
  | VStrArr "string list"
  | VChans "ConfChannel list"
  | VMapArr "(string \<times> val) list list"
  | VMap mapkind "(string \<times> val) list"
  | VOther

type_synonym vmap = "(string \<times> val) list"

section \<open>Helpers on maps\<close>

definition intfToMp :: "val \<Rightarrow> vmap option" where
  "intfToMp v = (case v of VMap GoMap m \<Rightarrow> Some m | _ \<Rightarrow> None)"

text \<open>The methods of \<^verbatim>\<open>mp\<close> accept a nil receiver, \<^verbatim>\<open>None\<close>.\<close>

definition mp_get :: "vmap option \<Rightarrow> string \<Rightarrow> vmap option" where
  "mp_get m name =
     (case m of
        None \<Rightarrow> None
      | Some m \<Rightarrow> (case map_of m name of Some (VMap _ v) \<Rightarrow> Some v | _ \<Rightarrow> None))"

definition getArr :: "vmap option \<Rightarrow> string \<Rightarrow> vmap list option" where
  "getArr m name =
     (case m of
        None \<Rightarrow> None
      | Some m \<Rightarrow> (case map_of m name of Some (VMapArr v) \<Rightarrow> Some v | _ \<Rightarrow> None))"

text \<open>
  \<^verbatim>\<open>ensure\<close> followed by a change of the map it returns: \<^verbatim>\<open>ensure_upd\<close> applies \<^verbatim>\<open>f\<close> to the map under
  \<^verbatim>\<open>name\<close>, made empty if it is missing, and is \<^verbatim>\<open>None\<close> (the nil map) if there is something else.
\<close>

definition ensure_upd :: "string \<Rightarrow> (vmap \<Rightarrow> vmap option) \<Rightarrow> vmap \<Rightarrow> vmap option" where
  "ensure_upd name f m =
     (case map_of m name of
        Some (VMap k v) \<Rightarrow> map_option (\<lambda>v'. AList.update name (VMap k v') m) (f v)
      | Some _ \<Rightarrow> None
      | None \<Rightarrow> map_option (\<lambda>v'. AList.update name (VMap GoMap v') m) (f []))"

text \<open>\<^verbatim>\<open>copyMap\<close> into an empty map: children become plain maps, everything else is copied as it is.\<close>

fun copy_val :: "val \<Rightarrow> val" where
  "copy_val (VMap k m) = VMap GoMap (map (\<lambda>(n, v). (n, copy_val v)) m)"
| "copy_val (VMapArr ms) = VMapArr (map (map (\<lambda>(n, v). (n, copy_val v))) ms)"
| "copy_val v = v"

definition copyMap :: "vmap \<Rightarrow> vmap" where
  "copyMap src = map (\<lambda>(n, v). (n, copy_val v)) src"

section \<open>Typed getters\<close>

text \<open>The interface \<^verbatim>\<open>mapGetter\<close>: a map and the map to fall back to, if any.\<close>

record getter =
  g_get :: vmap
  g_parent :: "vmap option"

definition get_val :: "getter \<Rightarrow> string \<Rightarrow> bool \<Rightarrow> val option" where
  "get_val g key fallback =
     (case map_of (g_get g) key of
        Some v \<Rightarrow> Some v
      | None \<Rightarrow> if fallback then (case g_parent g of None \<Rightarrow> None | Some p \<Rightarrow> map_of p key) else None)"

definition getStr :: "getter \<Rightarrow> string \<Rightarrow> bool \<Rightarrow> string \<times> bool" where
  "getStr g key fallback = (case get_val g key fallback of Some (VStr s) \<Rightarrow> (s, True) | _ \<Rightarrow> ([], False))"

definition getBool :: "getter \<Rightarrow> string \<Rightarrow> bool \<Rightarrow> bool \<times> bool" where
  "getBool g key fallback = (case get_val g key fallback of Some (VBool b) \<Rightarrow> (b, True) | _ \<Rightarrow> (False, False))"

text \<open>The conversion \<^verbatim>\<open>uint(v)\<close> of an int64 keeps the bits.\<close>

definition getUint :: "getter \<Rightarrow> string \<Rightarrow> bool \<Rightarrow> 64 word \<times> bool" where
  "getUint g key fallback =
     (case get_val g key fallback of Some (VInt v) \<Rightarrow> (v, True) | Some (VUint v) \<Rightarrow> (v, True) | _ \<Rightarrow> (0, False))"

definition getFloat64 :: "getter \<Rightarrow> string \<Rightarrow> bool \<Rightarrow> rat \<times> bool" where
  "getFloat64 g key fallback = (case get_val g key fallback of Some (VFloat f) \<Rightarrow> (f, True) | _ \<Rightarrow> (0, False))"

definition strings_in :: "val list \<Rightarrow> string list" where
  "strings_in vs = List.map_filter (\<lambda>v. case v of VStr s \<Rightarrow> Some s | _ \<Rightarrow> None) vs"

definition getStrArr :: "getter \<Rightarrow> string \<Rightarrow> bool \<Rightarrow> string list \<times> bool" where
  "getStrArr g key fallback =
     (case get_val g key fallback of
        Some (VArr vs) \<Rightarrow> if vs = [] then ([], False) else (strings_in vs, True)
      | Some (VStrArr ss) \<Rightarrow> if ss = [] then ([], False) else (ss, True)
      | _ \<Rightarrow> ([], False))"

section \<open>The configuration\<close>

datatype ConfErr =
    FileError string
  | InvalidConfigFile string
  | NoNetworks
  | NetworkNotMap string
  | NoServer string
  | NickRequired string
  | UsernameRequired string
  | RealnameRequired string
  | WrongType string string string

record Config =
  cf_values :: vmap
  cf_errors :: "ConfErr list"
  cf_filename :: string

definition clear :: "Config \<Rightarrow> Config" where
  "clear c = c\<lparr>cf_values := [], cf_errors := [], cf_filename := []\<rparr>"

definition NewConfig :: Config where
  "NewConfig = clear \<lparr>cf_values = [], cf_errors = [], cf_filename = []\<rparr>"

definition Config_Clear :: "Config \<Rightarrow> Config" where "Config_Clear c = clear c"

definition Config_Clone :: "Config \<Rightarrow> Config" where
  "Config_Clone c = NewConfig\<lparr>cf_values := copyMap (cf_values c)\<rparr>"

definition Config_Replace :: "Config \<Rightarrow> Config \<Rightarrow> Config" where
  "Config_Replace newConfig c = c\<lparr>cf_values := copyMap (cf_values newConfig)\<rparr>"

definition get_str_or :: "string \<Rightarrow> string \<Rightarrow> Config \<Rightarrow> string \<times> bool" where
  "get_str_or key dflt c = (case map_of (cf_values c) key of Some (VStr s) \<Rightarrow> (s, True) | _ \<Rightarrow> (dflt, False))"

definition set_value :: "string \<Rightarrow> val \<Rightarrow> Config \<Rightarrow> Config" where
  "set_value key v c = c\<lparr>cf_values := AList.update key v (cf_values c)\<rparr>"

definition StoreFile :: "Config \<Rightarrow> string \<times> bool" where "StoreFile c = get_str_or ''storefile'' ''./store.db'' c"
definition SetStoreFile :: "string \<Rightarrow> Config \<Rightarrow> Config" where "SetStoreFile v c = set_value ''storefile'' (VStr v) c"
definition LogFile :: "Config \<Rightarrow> string \<times> bool" where "LogFile c = get_str_or ''logfile'' [] c"
definition SetLogFile :: "string \<Rightarrow> Config \<Rightarrow> Config" where "SetLogFile v c = set_value ''logfile'' (VStr v) c"
definition LogLevel :: "Config \<Rightarrow> string \<times> bool" where "LogLevel c = get_str_or ''loglevel'' ''info'' c"
definition SetLogLevel :: "string \<Rightarrow> Config \<Rightarrow> Config" where "SetLogLevel v c = set_value ''loglevel'' (VStr v) c"

definition NoCoreCmds :: "Config \<Rightarrow> bool \<times> bool" where
  "NoCoreCmds c = (case map_of (cf_values c) ''nocorecmds'' of Some (VBool b) \<Rightarrow> (b, True) | _ \<Rightarrow> (False, False))"

definition SetNoCoreCmds :: "bool \<Rightarrow> Config \<Rightarrow> Config" where
  "SetNoCoreCmds v c = set_value ''nocorecmds'' (VBool v) c"

definition Filename :: "Config \<Rightarrow> string" where
  "Filename c = (if cf_filename c \<noteq> [] then cf_filename c else ''config.toml'')"

definition DisplayErrors :: "Config \<Rightarrow> ConfErr list" where "DisplayErrors c = cf_errors c"

section \<open>Network contexts\<close>

text \<open>The global context, which has no parent, or the context of one network.\<close>

datatype NetCTX = GlobalNet | NetOf string

definition Network :: "string \<Rightarrow> Config \<Rightarrow> NetCTX option" where
  "Network name c =
     (if name = [] then Some GlobalNet
      else (case mp_get (mp_get (Some (cf_values c)) ''networks'') name of None \<Rightarrow> None | Some _ \<Rightarrow> Some (NetOf name)))"

definition Networks :: "Config \<Rightarrow> string list" where
  "Networks c = (case mp_get (Some (cf_values c)) ''networks'' of None \<Rightarrow> [] | Some nets \<Rightarrow> map fst nets)"

definition NewNetwork :: "string \<Rightarrow> Config \<Rightarrow> NetCTX option \<times> Config" where
  "NewNetwork name c =
     (let vals = (case mp_get (Some (cf_values c)) ''networks'' of
                    None \<Rightarrow> AList.update ''networks'' (VMap GoMap []) (cf_values c) | Some _ \<Rightarrow> cf_values c);
          nets = the (mp_get (Some vals) ''networks'') in
      case mp_get (Some nets) name of
        Some _ \<Rightarrow> (None, c\<lparr>cf_values := vals\<rparr>)
      | None \<Rightarrow>
          (Some (NetOf name),
           c\<lparr>cf_values := the (ensure_upd ''networks'' (\<lambda>ns. Some (AList.update name (VMap GoMap []) ns)) vals)\<rparr>))"

definition net_map :: "NetCTX \<Rightarrow> Config \<Rightarrow> vmap" where
  "net_map n c =
     (case n of
        GlobalNet \<Rightarrow> cf_values c
      | NetOf name \<Rightarrow> (case mp_get (mp_get (Some (cf_values c)) ''networks'') name of None \<Rightarrow> [] | Some m \<Rightarrow> m))"

definition net_getter :: "NetCTX \<Rightarrow> Config \<Rightarrow> getter" where
  "net_getter n c =
     \<lparr>g_get = net_map n c, g_parent = (case n of GlobalNet \<Rightarrow> None | NetOf _ \<Rightarrow> Some (cf_values c))\<rparr>"

definition net_set :: "NetCTX \<Rightarrow> string \<Rightarrow> val \<Rightarrow> Config \<Rightarrow> Config" where
  "net_set n key v c =
     (case n of
        GlobalNet \<Rightarrow> set_value key v c
      | NetOf name \<Rightarrow>
          (case ensure_upd ''networks'' (ensure_upd name (\<lambda>m. Some (AList.update key v m))) (cf_values c) of
             None \<Rightarrow> c
           | Some vals \<Rightarrow> c\<lparr>cf_values := vals\<rparr>))"

definition Net_Nick where "Net_Nick n c = getStr (net_getter n c) ''nick'' True"
definition Net_SetNick where "Net_SetNick v n c = net_set n ''nick'' (VStr v) c"
definition Net_Altnick where "Net_Altnick n c = getStr (net_getter n c) ''altnick'' True"
definition Net_SetAltnick where "Net_SetAltnick v n c = net_set n ''altnick'' (VStr v) c"
definition Net_Username where "Net_Username n c = getStr (net_getter n c) ''username'' True"
definition Net_SetUsername where "Net_SetUsername v n c = net_set n ''username'' (VStr v) c"
definition Net_Realname where "Net_Realname n c = getStr (net_getter n c) ''realname'' True"
definition Net_SetRealname where "Net_SetRealname v n c = net_set n ''realname'' (VStr v) c"
definition Net_Password where "Net_Password n c = getStr (net_getter n c) ''password'' True"
definition Net_SetPassword where "Net_SetPassword v n c = net_set n ''password'' (VStr v) c"
definition Net_SSL where "Net_SSL n c = getBool (net_getter n c) ''ssl'' True"
definition Net_SetSSL where "Net_SetSSL v n c = net_set n ''ssl'' (VBool v) c"
definition Net_SSLCert where "Net_SSLCert n c = getStr (net_getter n c) ''sslcert'' True"
definition Net_SetSSLCert where "Net_SetSSLCert v n c = net_set n ''sslcert'' (VStr v) c"
definition Net_NoVerifyCert where "Net_NoVerifyCert n c = getBool (net_getter n c) ''noverifycert'' True"
definition Net_SetNoVerifyCert where "Net_SetNoVerifyCert v n c = net_set n ''noverifycert'' (VBool v) c"
definition Net_NoState where "Net_NoState n c = getBool (net_getter n c) ''nostate'' True"
definition Net_SetNoState where "Net_SetNoState v n c = net_set n ''nostate'' (VBool v) c"
definition Net_NoStore where "Net_NoStore n c = getBool (net_getter n c) ''nostore'' True"
definition Net_SetNoStore where "Net_SetNoStore v n c = net_set n ''nostore'' (VBool v) c"
definition Net_NoAutoJoin where "Net_NoAutoJoin n c = getBool (net_getter n c) ''noautojoin'' True"
definition Net_SetNoAutoJoin where "Net_SetNoAutoJoin v n c = net_set n ''noautojoin'' (VBool v) c"
definition Net_NoReconnect where "Net_NoReconnect n c = getBool (net_getter n c) ''noreconnect'' True"
definition Net_SetNoReconnect where "Net_SetNoReconnect v n c = net_set n ''noreconnect'' (VBool v) c"

text \<open>Getters with a default.\<close>

definition or_default :: "'a \<Rightarrow> 'a \<times> bool \<Rightarrow> 'a \<times> bool" where
  "or_default dflt r = (if snd r then r else (dflt, False))"

definition Net_JoinDelay where "Net_JoinDelay n c = or_default 5 (getUint (net_getter n c) ''joindelay'' True)"
definition Net_SetJoinDelay where "Net_SetJoinDelay v n c = net_set n ''joindelay'' (VUint v) c"
definition Net_FloodLenPenalty where
  "Net_FloodLenPenalty n c = or_default 120 (getUint (net_getter n c) ''floodlenpenalty'' True)"
definition Net_SetFloodLenPenalty where "Net_SetFloodLenPenalty v n c = net_set n ''floodlenpenalty'' (VUint v) c"
definition Net_FloodTimeout where
  "Net_FloodTimeout n c = or_default 10 (getFloat64 (net_getter n c) ''floodtimeout'' True)"
definition Net_SetFloodTimeout where "Net_SetFloodTimeout v n c = net_set n ''floodtimeout'' (VFloat v) c"
definition Net_FloodStep where "Net_FloodStep n c = or_default 2 (getFloat64 (net_getter n c) ''floodstep'' True)"
definition Net_SetFloodStep where "Net_SetFloodStep v n c = net_set n ''floodstep'' (VFloat v) c"
definition Net_KeepAlive where "Net_KeepAlive n c = or_default 60 (getFloat64 (net_getter n c) ''keepalive'' True)"
definition Net_SetKeepAlive where "Net_SetKeepAlive v n c = net_set n ''keepalive'' (VFloat v) c"
definition Net_ReconnectTimeout where
  "Net_ReconnectTimeout n c = or_default 20 (getUint (net_getter n c) ''reconnecttimeout'' True)"
definition Net_SetReconnectTimeout where
  "Net_SetReconnectTimeout v n c = net_set n ''reconnecttimeout'' (VUint v) c"

definition Net_Prefix :: "NetCTX \<Rightarrow> Config \<Rightarrow> rune \<times> bool" where
  "Net_Prefix n c =
     (case getStr (net_getter n c) ''prefix'' True of (p # _, True) \<Rightarrow> (p, True) | _ \<Rightarrow> (CHR ''.'', False))"

definition Net_SetPrefix where "Net_SetPrefix v n c = net_set n ''prefix'' (VStr [v]) c"

definition Net_Servers where "Net_Servers n c = getStrArr (net_getter n c) ''servers'' False"
definition Net_SetServers where "Net_SetServers v n c = net_set n ''servers'' (VStrArr v) c"

definition str_field :: "vmap \<Rightarrow> string \<Rightarrow> string" where
  "str_field m key = (case map_of m key of Some (VStr s) \<Rightarrow> s | _ \<Rightarrow> [])"

text \<open>Reading the nil map of a missing parent gives nothing.\<close>

definition Net_Channels :: "NetCTX \<Rightarrow> Config \<Rightarrow> ConfChannel list \<times> bool" where
  "Net_Channels n c =
     (case get_val (net_getter n c) ''channels'' True of
        Some (VMapArr arr) \<Rightarrow>
          (map (\<lambda>ch. \<lparr>cc_Name = str_field ch ''name'', cc_Password = str_field ch ''password'',
                      cc_Prefix = str_field ch ''prefix''\<rparr>) arr, True)
      | Some (VChans arr) \<Rightarrow> (arr, True)
      | _ \<Rightarrow> ([], False))"

definition Net_SetChannels where "Net_SetChannels v n c = net_set n ''channels'' (VChans v) c"

section \<open>Extension contexts\<close>

text \<open>
  The context of all extensions, or of one extension with whether there was a global one to fall
  back to when it was made.
\<close>

datatype ExtCTX = GlobalExt | ExtOf string bool

definition Ext :: "string \<Rightarrow> Config \<Rightarrow> ExtCTX option" where
  "Ext name c =
     (case mp_get (mp_get (Some (cf_values c)) ''exts'') name of
        None \<Rightarrow> None
      | Some _ \<Rightarrow> Some (ExtOf name (mp_get (Some (cf_values c)) ''ext'' \<noteq> None)))"

definition ExtGlobal :: "Config \<Rightarrow> ExtCTX \<times> Config" where
  "ExtGlobal c =
     (case mp_get (Some (cf_values c)) ''ext'' of
        Some _ \<Rightarrow> (GlobalExt, c)
      | None \<Rightarrow> (GlobalExt, set_value ''ext'' (VMap GoMap []) c))"

definition Exts :: "Config \<Rightarrow> string list" where
  "Exts c = (case mp_get (Some (cf_values c)) ''exts'' of None \<Rightarrow> [] | Some es \<Rightarrow> map fst es)"

text \<open>Both maps that \<^verbatim>\<open>NewExt\<close> makes have the dynamic type \<^verbatim>\<open>mp\<close>.\<close>

definition NewExt :: "string \<Rightarrow> Config \<Rightarrow> ExtCTX option \<times> Config" where
  "NewExt name c =
     (let vals = (case mp_get (Some (cf_values c)) ''exts'' of
                    None \<Rightarrow> AList.update ''exts'' (VMap MpMap []) (cf_values c) | Some _ \<Rightarrow> cf_values c);
          exts = the (mp_get (Some vals) ''exts'') in
      case mp_get (Some exts) name of
        Some _ \<Rightarrow> (None, c\<lparr>cf_values := vals\<rparr>)
      | None \<Rightarrow>
          (Some (ExtOf name (mp_get (Some vals) ''ext'' \<noteq> None)),
           c\<lparr>cf_values := the (ensure_upd ''exts'' (\<lambda>es. Some (AList.update name (VMap MpMap []) es)) vals)\<rparr>))"

definition ext_map :: "ExtCTX \<Rightarrow> Config \<Rightarrow> vmap" where
  "ext_map e c =
     (case (case e of
              GlobalExt \<Rightarrow> mp_get (Some (cf_values c)) ''ext''
            | ExtOf name _ \<Rightarrow> mp_get (mp_get (Some (cf_values c)) ''exts'') name) of
        None \<Rightarrow> [] | Some m \<Rightarrow> m)"

definition ext_parent :: "ExtCTX \<Rightarrow> Config \<Rightarrow> vmap option" where
  "ext_parent e c = (case e of ExtOf _ True \<Rightarrow> mp_get (Some (cf_values c)) ''ext'' | _ \<Rightarrow> None)"

definition ext_getter :: "ExtCTX \<Rightarrow> Config \<Rightarrow> getter" where
  "ext_getter e c = \<lparr>g_get = ext_map e c, g_parent = ext_parent e c\<rparr>"

text \<open>A change of the map of a context; \<^verbatim>\<open>None\<close> is a write to a nil map.\<close>

definition ext_change :: "ExtCTX \<Rightarrow> (vmap \<Rightarrow> vmap option) \<Rightarrow> Config \<Rightarrow> Config outcome" where
  "ext_change e f c =
     (case (case e of
              GlobalExt \<Rightarrow> ensure_upd ''ext'' f (cf_values c)
            | ExtOf name _ \<Rightarrow> ensure_upd ''exts'' (ensure_upd name f) (cf_values c)) of
        None \<Rightarrow> Inl NilMapWrite
      | Some vals \<Rightarrow> Inr (c\<lparr>cf_values := vals\<rparr>))"

definition ext_set :: "ExtCTX \<Rightarrow> string \<Rightarrow> val \<Rightarrow> Config \<Rightarrow> Config outcome" where
  "ext_set e key v c = ext_change e (\<lambda>m. Some (AList.update key v m)) c"

definition Ext_UseJson where "Ext_UseJson e c = getBool (ext_getter e c) ''usejson'' True"
definition Ext_SetUseJson where "Ext_SetUseJson v e c = ext_set e ''usejson'' (VBool v) c"
definition Ext_NoReconnect where "Ext_NoReconnect e c = getBool (ext_getter e c) ''noreconnect'' True"
definition Ext_SetNoReconnect where "Ext_SetNoReconnect v e c = ext_set e ''noreconnect'' (VBool v) c"
definition Ext_ReconnectTimeout where
  "Ext_ReconnectTimeout e c = or_default 20 (getUint (ext_getter e c) ''reconnecttimeout'' True)"
definition Ext_SetReconnectTimeout where
  "Ext_SetReconnectTimeout v e c = ext_set e ''reconnecttimeout'' (VUint v) c"
definition Ext_ExecDir where "Ext_ExecDir e c = getStr (ext_getter e c) ''execdir'' False"
definition Ext_SetExecDir where "Ext_SetExecDir v e c = ext_set e ''execdir'' (VStr v) c"
definition Ext_Listen where "Ext_Listen e c = getStr (ext_getter e c) ''listen'' False"
definition Ext_SetListen where "Ext_SetListen v e c = ext_set e ''listen'' (VStr v) c"
definition Ext_Exec where "Ext_Exec e c = getStr (ext_getter e c) ''exec'' False"
definition Ext_SetExec where "Ext_SetExec v e c = ext_set e ''exec'' (VStr v) c"
definition Ext_Server where "Ext_Server e c = getStr (ext_getter e c) ''server'' False"
definition Ext_SetServer where "Ext_SetServer v e c = ext_set e ''server'' (VStr v) c"
definition Ext_SSL where "Ext_SSL e c = getBool (ext_getter e c) ''ssl'' False"
definition Ext_SetSSL where "Ext_SetSSL v e c = ext_set e ''ssl'' (VBool v) c"
definition Ext_SSLCert where "Ext_SSLCert e c = getStr (ext_getter e c) ''sslcert'' False"
definition Ext_SetSSLCert where "Ext_SetSSLCert v e c = ext_set e ''sslcert'' (VStr v) c"
definition Ext_NoVerifyCert where "Ext_NoVerifyCert e c = getBool (ext_getter e c) ''noverifycert'' False"
definition Ext_SetNoVerifyCert where "Ext_SetNoVerifyCert v e c = ext_set e ''noverifycert'' (VBool v) c"
definition Ext_Unix where "Ext_Unix e c = getStr (ext_getter e c) ''unix'' False"
definition Ext_SetUnix where "Ext_SetUnix v e c = ext_set e ''unix'' (VStr v) c"

definition copyArr :: "val \<Rightarrow> string list" where
  "copyArr v = (case v of VArr vs \<Rightarrow> strings_in vs | VStrArr ss \<Rightarrow> ss | _ \<Rightarrow> [])"

definition active_in :: "vmap option \<Rightarrow> string \<Rightarrow> string list" where
  "active_in m network =
     (case mp_get m ''active'' of
        None \<Rightarrow> []
      | Some actives \<Rightarrow> (case map_of actives network of None \<Rightarrow> [] | Some v \<Rightarrow> copyArr v))"

definition Ext_Active :: "string \<Rightarrow> ExtCTX \<Rightarrow> Config \<Rightarrow> string list \<times> bool" where
  "Ext_Active network e c =
     (let arr = active_in (Some (ext_map e c)) network; parr = active_in (ext_parent e c) network in
      if arr \<noteq> [] then (arr, True) else if parr \<noteq> [] then (parr, True) else ([], False))"

definition Ext_SetActive :: "string \<Rightarrow> string list \<Rightarrow> ExtCTX \<Rightarrow> Config \<Rightarrow> Config outcome" where
  "Ext_SetActive network value e c =
     ext_change e (\<lambda>m.
       case map_of m ''active'' of
         Some (VMap k acts) \<Rightarrow> Some (AList.update ''active'' (VMap k (AList.update network (VStrArr value) acts)) m)
       | _ \<Rightarrow> Some (AList.update ''active'' (VMap GoMap [(network, VStrArr value)]) m)) c"

section \<open>Configuration of extensions\<close>

definition string_entries :: "vmap \<Rightarrow> (string \<rightharpoonup> string)" where
  "string_entries m key = (case map_of m key of Some (VStr s) \<Rightarrow> Some s | _ \<Rightarrow> None)"

definition overlay :: "vmap option \<Rightarrow> (string \<rightharpoonup> string) \<Rightarrow> (string \<rightharpoonup> string)" where
  "overlay m ret = (case m of None \<Rightarrow> ret | Some m \<Rightarrow> ret ++ string_entries m)"

definition Ext_Config :: "string \<Rightarrow> string \<Rightarrow> Config \<Rightarrow> (string \<rightharpoonup> string)" where
  "Ext_Config network channel c =
     (let cfg = mp_get (Some (ext_map GlobalExt c)) ''config'';
          net = mp_get (mp_get cfg ''networks'') network;
          ch = mp_get (mp_get cfg ''channels'') channel;
          netch = mp_get (mp_get net ''channels'') channel;
          ret = overlay cfg Map.empty;
          ret = (if network \<noteq> [] \<and> channel = [] then overlay net ret else ret);
          ret = (if channel \<noteq> [] \<and> network = [] then overlay ch ret else ret)
      in if network \<noteq> [] \<and> channel \<noteq> [] then overlay netch ret else ret)"

text \<open>\<^verbatim>\<open>str, found = val.(string)\<close>, executed if the map is there and has the key.\<close>

definition lookup_str :: "vmap option \<Rightarrow> string \<Rightarrow> string \<times> bool \<Rightarrow> string \<times> bool" where
  "lookup_str m key r =
     (case m of
        None \<Rightarrow> r
      | Some m \<Rightarrow> (case map_of m key of None \<Rightarrow> r | Some (VStr s) \<Rightarrow> (s, True) | Some _ \<Rightarrow> ([], False)))"

definition ConfigVal :: "string \<Rightarrow> string \<Rightarrow> string \<Rightarrow> Config \<Rightarrow> string \<times> bool" where
  "ConfigVal network channel key c =
     (let cfg = mp_get (Some (ext_map GlobalExt c)) ''config'' in
      if cfg = None then ([], False)
      else
        let r = lookup_str cfg key ([], False);
            r = (if network \<noteq> [] \<and> channel = [] then lookup_str (mp_get (mp_get cfg ''networks'') network) key r else r);
            r = (if channel \<noteq> [] \<and> network = [] then lookup_str (mp_get (mp_get cfg ''channels'') channel) key r else r)
        in if network \<noteq> [] \<and> channel \<noteq> []
           then lookup_str (mp_get (mp_get (mp_get (mp_get cfg ''networks'') network) ''channels'') channel) key r else r)"

definition SetConfig :: "string \<Rightarrow> string \<Rightarrow> string \<Rightarrow> string \<Rightarrow> Config \<Rightarrow> Config outcome" where
  "SetConfig network channel key value c =
     (let put = (\<lambda>m. Some (AList.update key (VStr value) m));
          path = (if network = [] \<and> channel = [] then put
                  else if channel = [] then ensure_upd ''networks'' (ensure_upd network put)
                  else if network = [] then ensure_upd ''channels'' (ensure_upd channel put)
                  else ensure_upd ''networks'' (ensure_upd network (ensure_upd ''channels'' (ensure_upd channel put))))
      in ext_change GlobalExt (ensure_upd ''config'' path) c)"

section \<open>Files\<close>

text \<open>
  Opening and reading a file and the TOML decoder are parameters: \<^verbatim>\<open>open\<close> gives the content or an
  error, \<^verbatim>\<open>decode\<close> what it has filled in and the error it ended with; \<^verbatim>\<open>encode\<close> is the TOML encoder.
\<close>

definition FromReader :: "(string \<Rightarrow> vmap \<times> string option) \<Rightarrow> string \<Rightarrow> Config \<Rightarrow> Config" where
  "FromReader decode content c =
     (case decode content of
        (vals, err) \<Rightarrow>
          (clear c)\<lparr>cf_values := vals, cf_errors := (case err of None \<Rightarrow> [] | Some e \<Rightarrow> [InvalidConfigFile e])\<rparr>)"

definition FromString :: "(string \<Rightarrow> vmap \<times> string option) \<Rightarrow> string \<Rightarrow> Config \<Rightarrow> Config" where
  "FromString decode config c = FromReader decode config c"

definition fromFile :: "(string \<Rightarrow> vmap \<times> string option) \<Rightarrow> (string \<Rightarrow> string + string) \<Rightarrow> string \<Rightarrow> Config \<Rightarrow> Config" where
  "fromFile decode fopen fname c =
     (let fname = (if fname = [] then ''config.toml'' else fname) in
      case fopen fname of
        Inl err \<Rightarrow> c\<lparr>cf_errors := cf_errors c @ [FileError err]\<rparr>
      | Inr content \<Rightarrow> (FromReader decode content c)\<lparr>cf_filename := fname\<rparr>)"

text \<open>\<^verbatim>\<open>FromFile\<close> opens with the operating system, the parameter \<^verbatim>\<open>os_open\<close>.\<close>

definition FromFile :: "(string \<Rightarrow> vmap \<times> string option) \<Rightarrow> (string \<Rightarrow> string + string) \<Rightarrow> string \<Rightarrow> Config \<Rightarrow> Config" where
  "FromFile decode os_open fname c = fromFile decode (\<lambda>name. os_open name) fname c"

definition ToWriter :: "(vmap \<Rightarrow> string + string) \<Rightarrow> Config \<Rightarrow> string + string" where
  "ToWriter encode c = encode (cf_values c)"

text \<open>\<^verbatim>\<open>toFile\<close>: the name of the file it writes and what it writes.\<close>

definition toFile :: "(vmap \<Rightarrow> string + string) \<Rightarrow> (string \<Rightarrow> string option) \<Rightarrow> string \<Rightarrow> Config
    \<Rightarrow> string + string \<times> string" where
  "toFile encode create fname c =
     (let fname = (if fname = [] then Filename c else fname) in
      case create fname of
        Some err \<Rightarrow> Inl err
      | None \<Rightarrow> (case ToWriter encode c of Inl err \<Rightarrow> Inl err | Inr out \<Rightarrow> Inr (fname, out)))"

text \<open>The callback of \<^verbatim>\<open>ToFile\<close> creates the file named by the outer argument, not by its own.\<close>

definition ToFile :: "(vmap \<Rightarrow> string + string) \<Rightarrow> (string \<Rightarrow> string option) \<Rightarrow> string \<Rightarrow> Config
    \<Rightarrow> string + string \<times> string" where
  "ToFile encode create fname c =
     map_sum id (\<lambda>(_, out). (fname, out)) (toFile encode (\<lambda>_. create fname) fname c)"

end
