(* ===== verification/Validation.thy ===== *)
theory Validation
  imports Config Access
begin

text \<open>
  Validation of a configuration, \<^verbatim>\<open>src/config/validation.go\<close>: the tables of expected types, the
  checks of every part of the tree and of the required values.  An error carries the
  context, the key and the expected type; the printed Go type and value are left out.
\<close>

record validatorRules =
  r_stringVals :: "string list"
  r_stringSliceVals :: "string list"
  r_boolVals :: "string list"
  r_floatVals :: "string list"
  r_uintVals :: "string list"
  r_mapVals :: "string list"
  r_mapArrVals :: "string list"

definition no_rules :: validatorRules where
  "no_rules = \<lparr>r_stringVals = [], r_stringSliceVals = [], r_boolVals = [], r_floatVals = [], r_uintVals = [],
     r_mapVals = [], r_mapArrVals = []\<rparr>"

definition globalValidator :: validatorRules where
  "globalValidator = no_rules\<lparr>r_stringVals := [''storefile'', ''loglevel'', ''logfile''],
     r_mapVals := [''ext'', ''exts'', ''networks''], r_boolVals := [''nocorecmds'']\<rparr>"

definition networkValidator :: validatorRules where
  "networkValidator = no_rules\<lparr>
     r_stringVals := [''nick'', ''altnick'', ''username'', ''realname'', ''password'', ''sslcert'', ''prefix''],
     r_stringSliceVals := [''servers''],
     r_boolVals := [''ssl'', ''nostate'', ''nostore'', ''noautojoin'', ''noreconnect'', ''noverifycert''],
     r_floatVals := [''floodtimeout'', ''floodstep'', ''keepalive''],
     r_uintVals := [''reconnecttimeout'', ''floodlenpenalty'', ''joindelay''],
     r_mapArrVals := [''channels'']\<rparr>"

definition channelValidator :: validatorRules where
  "channelValidator = no_rules\<lparr>r_stringVals := [''name'', ''prefix'', ''password'']\<rparr>"

definition extCommonValidator :: validatorRules where
  "extCommonValidator = no_rules\<lparr>r_boolVals := [''usejson'', ''noreconnect''],
     r_uintVals := [''reconnecttimeout''], r_mapVals := [''active'']\<rparr>"

definition extGlobalValidator :: validatorRules where
  "extGlobalValidator = no_rules\<lparr>r_stringVals := [''execdir'', ''listen''], r_mapVals := [''config'']\<rparr>"

definition extNormalValidator :: validatorRules where
  "extNormalValidator = no_rules\<lparr>r_stringVals := [''server'', ''exec'', ''sslcert'', ''unix''],
     r_boolVals := [''ssl'', ''noreconnect'', ''noverifycert'']\<rparr>"

section \<open>Types of the values under given keys\<close>

text \<open>One of the loops: the errors of the keys that are there with another type.\<close>

definition check_keys :: "string \<Rightarrow> string \<Rightarrow> (val \<Rightarrow> bool) \<Rightarrow> string list \<Rightarrow> vmap \<Rightarrow> ConfErr list" where
  "check_keys name kind ok keys m =
     List.map_filter (\<lambda>key. case map_of m key of
                              None \<Rightarrow> None
                            | Some v \<Rightarrow> if ok v then None else Some (WrongType name key kind)) keys"

definition is_VStr :: "val \<Rightarrow> bool" where "is_VStr v = (case v of VStr _ \<Rightarrow> True | _ \<Rightarrow> False)"
definition is_VBool :: "val \<Rightarrow> bool" where "is_VBool v = (case v of VBool _ \<Rightarrow> True | _ \<Rightarrow> False)"
definition is_VFloat :: "val \<Rightarrow> bool" where "is_VFloat v = (case v of VFloat _ \<Rightarrow> True | _ \<Rightarrow> False)"
definition is_VInt :: "val \<Rightarrow> bool" where "is_VInt v = (case v of VInt _ \<Rightarrow> True | _ \<Rightarrow> False)"
definition is_GoMap :: "val \<Rightarrow> bool" where "is_GoMap v = (case v of VMap GoMap _ \<Rightarrow> True | _ \<Rightarrow> False)"
definition is_VMapArr :: "val \<Rightarrow> bool" where "is_VMapArr v = (case v of VMapArr _ \<Rightarrow> True | _ \<Rightarrow> False)"

lemmas is_val_defs = is_VStr_def is_VBool_def is_VFloat_def is_VInt_def is_GoMap_def is_VMapArr_def

definition check_items :: "(nat \<Rightarrow> ConfErr) \<Rightarrow> val list \<Rightarrow> ConfErr list" where
  "check_items err vs =
     List.map_filter (\<lambda>(i, v). if is_VStr v then None else Some (err (Suc i))) (enumerate 0 vs)"

definition check_slice :: "string \<Rightarrow> string \<Rightarrow> vmap \<Rightarrow> ConfErr list" where
  "check_slice name key m =
     (case map_of m key of
        None \<Rightarrow> []
      | Some (VArr vs) \<Rightarrow> check_items (\<lambda>i. WrongType name (key @ '' '' @ itoa i) ''string'') vs
      | Some (VStrArr _) \<Rightarrow> []
      | Some _ \<Rightarrow> [WrongType name key ''array''])"

definition validateMap :: "validatorRules \<Rightarrow> string \<Rightarrow> vmap \<Rightarrow> ConfErr list" where
  "validateMap v name m =
     check_keys name ''string'' is_VStr (r_stringVals v) m
     @ concat (map (\<lambda>key. check_slice name key m) (r_stringSliceVals v))
     @ check_keys name ''bool'' is_VBool (r_boolVals v) m
     @ check_keys name ''float64'' is_VFloat (r_floatVals v) m
     @ check_keys name ''int'' is_VInt (r_uintVals v) m
     @ check_keys name ''map'' is_GoMap (r_mapVals v) m
     @ check_keys name ''map array'' is_VMapArr (r_mapArrVals v) m"

section \<open>Extensions\<close>

text \<open>The loop returns at the first network whose value is no array.\<close>

fun validateActive :: "string \<Rightarrow> vmap \<Rightarrow> ConfErr list" where
  "validateActive ext [] = []"
| "validateActive ext ((net, v) # m) =
     (case v of
        VArr acts \<Rightarrow>
          check_items (\<lambda>i. WrongType (ext @ '' active '' @ net) (''channel '' @ itoa i) ''string'') acts
          @ validateActive ext m
      | _ \<Rightarrow> [WrongType (ext @ '' active'') net ''array''])"

definition check_strings :: "string \<Rightarrow> vmap \<Rightarrow> ConfErr list" where
  "check_strings ctx m = concat (map (\<lambda>(key, v). if is_VStr v then [] else [WrongType ctx key ''string'']) m)"

definition validateExtChanConfig :: "string \<Rightarrow> vmap \<Rightarrow> ConfErr list" where
  "validateExtChanConfig net m =
     (let ctx = (\<lambda>ch. if net \<noteq> [] then ''ext config '' @ net @ ch else ''ext config'' @ ch) in
      concat (map (\<lambda>(key, v).
        case v of
          VMap GoMap vs \<Rightarrow> check_strings (ctx ('' '' @ key)) vs
        | _ \<Rightarrow> [WrongType (ctx []) key ''map'']) m))"

definition net_entry :: "string \<Rightarrow> string \<times> val \<Rightarrow> ConfErr list" where
  "net_entry net kv =
     (case kv of (key, v) \<Rightarrow>
        if key = ''channels'' then
          (case v of VMap GoMap chs \<Rightarrow> validateExtChanConfig net chs
                   | _ \<Rightarrow> [WrongType (''ext config '' @ net) key ''map''])
        else if is_VStr v then [] else [WrongType (''ext config '' @ net) key ''string''])"

definition validateExtNetConfig :: "vmap \<Rightarrow> ConfErr list" where
  "validateExtNetConfig m =
     concat (map (\<lambda>(key, v).
       case v of
         VMap GoMap vs \<Rightarrow> concat (map (net_entry key) vs)
       | _ \<Rightarrow> [WrongType ''ext config'' key ''map'']) m)"

definition ext_entry :: "string \<times> val \<Rightarrow> ConfErr list" where
  "ext_entry kv =
     (case kv of (key, v) \<Rightarrow>
        let special = (key = ''networks'' \<or> key = ''channels'') in
        case v of
          VMap GoMap m \<Rightarrow>
            if key = ''networks'' then validateExtNetConfig m
            else if key = ''channels'' then validateExtChanConfig [] m
            else [WrongType ''ext config'' key ''string'']
        | VStr _ \<Rightarrow> if special then [WrongType ''ext config'' key ''map''] else []
        | _ \<Rightarrow> [WrongType ''ext config'' key (if special then ''map'' else ''string'')])"

definition validateExtConfig :: "vmap \<Rightarrow> ConfErr list" where
  "validateExtConfig m = concat (map ext_entry m)"

section \<open>The whole configuration\<close>

definition net_types :: "string \<times> val \<Rightarrow> ConfErr list" where
  "net_types kv =
     (case kv of (name, v) \<Rightarrow>
        case intfToMp v of
          None \<Rightarrow> [WrongType ''global networks'' name ''map'']
        | Some net \<Rightarrow>
            validateMap networkValidator name net
            @ (case getArr (Some net) ''channels'' of
                 None \<Rightarrow> []
               | Some chans \<Rightarrow> concat (map (validateMap channelValidator (name @ '' channels'')) chans)))"

definition opt_errs :: "('a \<Rightarrow> ConfErr list) \<Rightarrow> 'a option \<Rightarrow> ConfErr list" where
  "opt_errs f p = (case p of None \<Rightarrow> [] | Some x \<Rightarrow> f x)"

definition one_ext_types :: "string \<times> val \<Rightarrow> ConfErr list" where
  "one_ext_types kv =
     (case kv of (name, v) \<Rightarrow>
        case intfToMp v of
          None \<Rightarrow> [WrongType ''exts'' name ''map'']
        | Some ext \<Rightarrow>
            validateMap extCommonValidator name ext @ validateMap extNormalValidator name ext
            @ opt_errs (validateActive name) (mp_get (Some ext) ''active''))"

definition validateTypes :: "Config \<Rightarrow> ConfErr list" where
  "validateTypes c =
     (let vs = Some (cf_values c) in
      validateMap globalValidator ''global'' (cf_values c)
      @ validateMap networkValidator ''global'' (cf_values c)
      @ opt_errs (\<lambda>nets. concat (map net_types nets)) (mp_get vs ''networks'')
      @ opt_errs (\<lambda>ext. validateMap extCommonValidator ''ext'' ext @ validateMap extGlobalValidator ''ext'' ext
            @ opt_errs (validateActive ''ext'') (mp_get (Some ext) ''active'')
            @ opt_errs validateExtConfig (mp_get (Some ext) ''config'')) (mp_get vs ''ext'')
      @ opt_errs (\<lambda>exts. concat (map one_ext_types exts)) (mp_get vs ''exts''))"

definition blank :: "'a list \<times> bool \<Rightarrow> bool" where
  "blank r \<longleftrightarrow> \<not> snd r \<or> fst r = []"

text \<open>A network of the empty name is read through the global context.\<close>

definition net_required :: "Config \<Rightarrow> string \<times> val \<Rightarrow> ConfErr list" where
  "net_required c kv =
     (case kv of (name, v) \<Rightarrow>
        case intfToMp v of
          None \<Rightarrow> [NetworkNotMap name]
        | Some _ \<Rightarrow>
            (let ctx = the (Network name c) in
             (if blank (Net_Servers ctx c) then [NoServer name] else [])
             @ (if blank (Net_Nick ctx c) then [NickRequired name] else [])
             @ (if blank (Net_Username ctx c) then [UsernameRequired name] else [])
             @ (if blank (Net_Realname ctx c) then [RealnameRequired name] else [])))"

definition validateRequired :: "Config \<Rightarrow> ConfErr list" where
  "validateRequired c =
     (case mp_get (Some (cf_values c)) ''networks'' of
        None \<Rightarrow> [NoNetworks]
      | Some nets \<Rightarrow> concat (map (net_required c) nets))"

definition Validate :: "Config \<Rightarrow> bool \<times> Config" where
  "Validate c =
     (let ers = validateTypes c in
      if ers \<noteq> [] then (False, c\<lparr>cf_errors := ers\<rparr>)
      else let ers = validateRequired c in
        if ers \<noteq> [] then (False, c\<lparr>cf_errors := ers\<rparr>) else (True, c))"

definition Config_Errors :: "Config \<Rightarrow> ConfErr list" where "Config_Errors c = cf_errors c"

definition addError :: "ConfErr \<Rightarrow> Config \<Rightarrow> Config" where
  "addError e c = c\<lparr>cf_errors := cf_errors c @ [e]\<rparr>"

end
