(* ===== verification/ConfigProps.thy ===== *)
theory ConfigProps
  imports Validation
begin

text \<open>
  Properties of the configuration: what validation guarantees about types and required values, the
  round-trip laws of the contexts, that a clone reads like the original, and where the setters
  disagree with validation.
\<close>

section \<open>Validation\<close>

lemma map_filter_Nil_iff: "List.map_filter f xs = [] \<longleftrightarrow> (\<forall>x \<in> set xs. f x = None)"
  by (induction xs) (auto simp: List.map_filter_def)

lemma check_keys_Nil:
  "check_keys name kind ok keys m = [] \<longleftrightarrow> (\<forall>key \<in> set keys. \<forall>v. map_of m key = Some v \<longrightarrow> ok v)"
  by (auto simp: check_keys_def map_filter_Nil_iff split: option.splits if_splits)

lemma check_items_Nil: "check_items err vs = [] \<longleftrightarrow> list_all is_VStr vs"
proof -
  have "List.map_filter (\<lambda>(i, v). if is_VStr v then None else Some (err (Suc i))) (enumerate n vs) = [] \<longleftrightarrow> list_all is_VStr vs" for n
    by (induction vs arbitrary: n) (auto simp: List.map_filter_def)
  then show ?thesis by (simp add: check_items_def)
qed

definition is_strings :: "val \<Rightarrow> bool" where
  "is_strings v = (case v of VArr vs \<Rightarrow> list_all is_VStr vs | VStrArr _ \<Rightarrow> True | _ \<Rightarrow> False)"

lemma check_slice_Nil: "check_slice name key m = [] \<longleftrightarrow> (\<forall>v. map_of m key = Some v \<longrightarrow> is_strings v)"
  by (auto simp: check_slice_def is_strings_def check_items_Nil split: option.splits val.splits)

text \<open>A partial map whose values have the types the rules ask for.\<close>

definition well_typed :: "validatorRules \<Rightarrow> (string \<rightharpoonup> val) \<Rightarrow> bool" where
  "well_typed r m \<longleftrightarrow>
     (\<forall>key v. m key = Some v \<longrightarrow>
        (key \<in> set (r_stringVals r) \<longrightarrow> is_VStr v) \<and> (key \<in> set (r_stringSliceVals r) \<longrightarrow> is_strings v)
        \<and> (key \<in> set (r_boolVals r) \<longrightarrow> is_VBool v) \<and> (key \<in> set (r_floatVals r) \<longrightarrow> is_VFloat v)
        \<and> (key \<in> set (r_uintVals r) \<longrightarrow> is_VInt v) \<and> (key \<in> set (r_mapVals r) \<longrightarrow> is_GoMap v)
        \<and> (key \<in> set (r_mapArrVals r) \<longrightarrow> is_VMapArr v))"

lemma validateMap_Nil: "validateMap r name m = [] \<longleftrightarrow> well_typed r (map_of m)"
  unfolding validateMap_def well_typed_def append_is_Nil_conv check_keys_Nil concat_eq_Nil_conv
  by (auto simp: check_slice_Nil)

lemma get_val_well_typed:
  assumes "well_typed r (map_of (g_get g))" "case g_parent g of None \<Rightarrow> True | Some p \<Rightarrow> well_typed r (map_of p)"
  shows "well_typed r (\<lambda>key. get_val g key fb)"
  using assms unfolding well_typed_def get_val_def by (cases "g_parent g") (force split: option.splits if_splits)+

lemma opt_errs_Nil: "opt_errs f p = [] \<longleftrightarrow> (\<forall>x. p = Some x \<longrightarrow> f x = [])"
  by (auto simp: opt_errs_def split: option.splits)

lemma Validate_True:
  "Validate c = (True, c') \<longleftrightarrow> c' = c \<and> validateTypes c = [] \<and> validateRequired c = []"
  by (auto simp: Validate_def Let_def)

lemma validated_network:
  assumes "validateTypes c = []" "mp_get (Some (cf_values c)) ''networks'' = Some nets" "map_of nets name = Some v"
  obtains net where "v = VMap GoMap net" "well_typed networkValidator (map_of net)"
    "well_typed networkValidator (map_of (cf_values c))"
proof -
  have g: "validateMap networkValidator ''global'' (cf_values c) = []" "net_types (name, v) = []"
    using assms by (auto simp: validateTypes_def Let_def opt_errs_Nil dest: map_of_SomeD)
  then obtain net where "intfToMp v = Some net" "validateMap networkValidator name net = []"
    by (auto simp: net_types_def split: option.splits)
  with g that show ?thesis
    by (auto simp: validateMap_Nil intfToMp_def split: val.splits mapkind.splits)
qed


definition sample_config :: Config where
  "sample_config = NewConfig\<lparr>cf_values := [(''nick'', VStr ''bot''),
     (''networks'', VMap GoMap [(''net'', VMap GoMap [(''servers'', VArr [VStr ''irc:6667'']),
        (''username'', VStr ''u''), (''realname'', VStr ''r''), (''joindelay'', VInt 3)])])]\<rparr>"

lemma sample_config_valid: "Validate sample_config = (True, sample_config)"
proof -
  have "validateTypes sample_config = []" "validateRequired sample_config = []" by code_simp+
  then show ?thesis by (simp add: Validate_True)
qed


text \<open>A map of networks that is there but empty passes, though at least one network is asked for.\<close>

lemma empty_networks_valid: "Validate (NewConfig\<lparr>cf_values := [(''networks'', VMap GoMap [])]\<rparr>) =
    (True, NewConfig\<lparr>cf_values := [(''networks'', VMap GoMap [])]\<rparr>)"
proof -
  have "validateTypes (NewConfig\<lparr>cf_values := [(''networks'', VMap GoMap [])]\<rparr>) = []"
    "validateRequired (NewConfig\<lparr>cf_values := [(''networks'', VMap GoMap [])]\<rparr>) = []" by code_simp+
  then show ?thesis by (simp add: Validate_True)
qed

section \<open>Setting and getting\<close>

lemma mp_get_update [simp]:
  "mp_get (Some (AList.update k (VMap kd v) m)) k' = (if k' = k then Some v else mp_get (Some m) k')"
  by (simp add: mp_get_def update_conv')

lemma mp_get_Some: "mp_get (Some m) name = Some v \<longleftrightarrow> (\<exists>kd. map_of m name = Some (VMap kd v))"
  by (cases "map_of m name"; cases "the (map_of m name)") (auto simp: mp_get_def)

lemma ensure_upd_map: "mp_get (Some m) name = Some v \<Longrightarrow> f v = Some v' \<Longrightarrow>
    \<exists>kd. ensure_upd name f m = Some (AList.update name (VMap kd v') m)"
  by (auto simp: mp_get_Some ensure_upd_def)

lemma ensure_upd_Some:
  assumes "ensure_upd name f m = Some m'"
  obtains (there) kd v v' where "mp_get (Some m) name = Some v" "f v = Some v'" "m' = AList.update name (VMap kd v') m"
  | (made) kd v' where "map_of m name = None" "f [] = Some v'" "m' = AList.update name (VMap kd v') m"
proof (cases "map_of m name")
  case None
  with assms made show ?thesis by (auto simp: ensure_upd_def)
next
  case (Some x)
  with assms there show ?thesis by (cases x) (auto simp: ensure_upd_def mp_get_Some)
qed

text \<open>
  What is set on a network is what is read: after a set the key has the value on that network,
  and no other key of it, no other network and no global value (except the map of networks itself)
  has changed.
\<close>

theorem net_set_get:
  assumes "Network name c = Some (NetOf name)"
  shows "get_val (net_getter (NetOf name) (net_set (NetOf name) key v c)) key fb = Some v
    \<and> (key' \<noteq> key \<and> key' \<noteq> ''networks'' \<longrightarrow>
         get_val (net_getter (NetOf name) (net_set (NetOf name) key v c)) key' fb = get_val (net_getter (NetOf name) c) key' fb)
    \<and> (name' \<noteq> name \<and> key' \<noteq> ''networks'' \<longrightarrow>
         get_val (net_getter (NetOf name') (net_set (NetOf name) key v c)) key' fb = get_val (net_getter (NetOf name') c) key' fb)"
proof -
  obtain nets net where n: "mp_get (Some (cf_values c)) ''networks'' = Some nets" "mp_get (Some nets) name = Some net"
    using assms that by (cases "mp_get (Some (cf_values c)) ''networks''"; cases "mp_get (mp_get (Some (cf_values c)) ''networks'') name")
      (simp_all add: Network_def mp_get_def [of None] split: if_splits)
  let ?net = "AList.update key v net" and ?set = "\<lambda>m. Some (AList.update key v m)"
  obtain kd where 1: "ensure_upd name ?set nets = Some (AList.update name (VMap kd ?net) nets)"
    using ensure_upd_map [OF n(2), of ?set ?net] by auto
  obtain kd2 where 2: "ensure_upd ''networks'' (ensure_upd name ?set) (cf_values c)
      = Some (AList.update ''networks'' (VMap kd2 (AList.update name (VMap kd ?net) nets)) (cf_values c))"
    using ensure_upd_map [OF n(1), of "ensure_upd name ?set", OF 1] by auto
  let ?c = "c\<lparr>cf_values := AList.update ''networks'' (VMap kd2 (AList.update name (VMap kd ?net) nets)) (cf_values c)\<rparr>"
  have c: "net_set (NetOf name) key v c = ?c" using 2 by (simp add: net_set_def)
  have m: "net_map (NetOf name) c = net" "net_map (NetOf name) ?c = ?net"
    "name' \<noteq> name \<Longrightarrow> net_map (NetOf name') ?c = net_map (NetOf name') c"
    using n by (simp_all add: net_map_def)
  have g: "k \<noteq> ''networks'' \<Longrightarrow> map_of (cf_values ?c) k = map_of (cf_values c) k" for k by (simp add: update_conv')
  have get: "get_val (net_getter (NetOf k) x) key fb = (case map_of (net_map (NetOf k) x) key of Some v \<Rightarrow> Some v
      | None \<Rightarrow> if fb then map_of (cf_values x) key else None)" for k x key
    by (simp add: get_val_def net_getter_def split: option.splits)
  have "map_of ?net key = Some v" "key' \<noteq> key \<Longrightarrow> map_of ?net key' = map_of net key'" by (simp_all add: update_conv')
  then show ?thesis unfolding c get m(1,2) using m(3) g [of key'] by (auto split: option.split)
qed

theorem net_set_get_witness:
  "get_val (net_getter (NetOf ''net'') (net_set (NetOf ''net'') ''nick'' (VStr ''x'') sample_config)) ''nick'' True = Some (VStr ''x'')"
proof -
  have "Network ''net'' sample_config = Some (NetOf ''net'')" by code_simp
  from net_set_get [OF this] show ?thesis by blast
qed

section \<open>Configuration of extensions\<close>

text \<open>The map at the end of a path, and \<^verbatim>\<open>ensure\<close> along a path.\<close>

fun get_path :: "string list \<Rightarrow> vmap option \<Rightarrow> vmap option" where
  "get_path [] m = m"
| "get_path (n # ns) m = get_path ns (mp_get m n)"

fun upd_path :: "string list \<Rightarrow> (vmap \<Rightarrow> vmap option) \<Rightarrow> vmap \<Rightarrow> vmap option" where
  "upd_path [] f = f"
| "upd_path (n # ns) f = ensure_upd n (upd_path ns f)"

lemma mp_get_None [simp]: "mp_get None n = None" by (simp add: mp_get_def)

lemma mp_get_Nil [simp]: "mp_get (Some []) n = None" by (simp add: mp_get_def)

lemma get_path_None [simp]: "get_path ns None = None" by (induction ns) simp_all

lemma get_path_append: "get_path (a @ b) m = get_path b (get_path a m)" by (induction a arbitrary: m) simp_all

lemma upd_path_append: "upd_path (a @ b) f = upd_path a (upd_path b f)" by (induction a) simp_all

lemma get_path_Nil: "get_path ns (Some []) = (if ns = [] then Some [] else None)"
  by (cases ns) simp_all

lemma upd_path_get:
  assumes "upd_path ns f m = Some m'"
  shows "\<exists>v v'. f v = Some v' \<and> get_path ns (Some m') = Some v' \<and>
    (get_path ns (Some m) = Some v \<or> get_path ns (Some m) = None \<and> v = [])"
  using assms
proof (induction ns arbitrary: m m')
  case (Cons n ns)
  from Cons.prems have "ensure_upd n (upd_path ns f) m = Some m'" by simp
  then show ?case
  proof (cases rule: ensure_upd_Some)
    case (there kd v v')
    with Cons.IH [of v v'] show ?thesis by simp
  next
    case (made kd v')
    then have "mp_get (Some m) n = None" by (simp add: mp_get_def)
    with made Cons.IH [of "[]" v'] show ?thesis by (auto simp: get_path_Nil split: if_splits)
  qed
qed simp

definition config_path :: "string \<Rightarrow> string \<Rightarrow> string list" where
  "config_path network channel =
     (if network = [] then [] else [''networks'', network]) @ (if channel = [] then [] else [''channels'', channel])"

lemma SetConfig_path: "SetConfig network channel key value c =
    (case upd_path ([''ext'', ''config''] @ config_path network channel) (\<lambda>m. Some (AList.update key (VStr value) m)) (cf_values c) of
       None \<Rightarrow> Inl NilMapWrite | Some vals \<Rightarrow> Inr (c\<lparr>cf_values := vals\<rparr>))"
  by (simp add: SetConfig_def ext_change_def config_path_def)

lemma lookup_str_None [simp]: "lookup_str None key r = r" by (simp add: lookup_str_def)

lemma ConfigVal_path: "ConfigVal network channel key c =
    (let cfg = get_path [''ext'', ''config''] (Some (cf_values c)); r = lookup_str cfg key ([], False) in
     if config_path network channel = [] then r
     else lookup_str (get_path (config_path network channel) cfg) key r)"
proof -
  have "mp_get (Some (ext_map GlobalExt c)) ''config'' = get_path [''ext'', ''config''] (Some (cf_values c))"
    by (cases "mp_get (Some (cf_values c)) ''ext''") (simp_all add: ext_map_def)
  then show ?thesis
    by (cases "get_path [''ext'', ''config''] (Some (cf_values c))") (simp_all add: ConfigVal_def config_path_def)
qed

lemma lookup_str_put [simp]: "lookup_str (Some (AList.update key (VStr v) m)) key r = (v, True)"
  by (simp add: lookup_str_def update_conv')

lemma lookup_str_other: "key' \<noteq> key \<Longrightarrow> lookup_str (Some (AList.update key v m)) key' r = lookup_str (Some m) key' r"
  by (simp add: lookup_str_def update_conv')

lemma lookup_str_ensure:
  "ensure_upd n f m = Some m' \<Longrightarrow> lookup_str (Some m') key ([], False) = lookup_str (Some m) key ([], False)"
  by (erule ensure_upd_Some) (auto simp: lookup_str_def update_conv' mp_get_Some)

lemma lookup_str_Nil [simp]: "lookup_str (Some []) key r = r" by (simp add: lookup_str_def)

text \<open>
  What \<^verbatim>\<open>SetConfig\<close> stores for a network and a channel, either of which may be empty, is what
  \<^verbatim>\<open>ConfigVal\<close> gives for them, whatever is configured at the levels above, and the value of no
  other key for them changes.
\<close>

theorem SetConfig_ConfigVal:
  assumes "SetConfig network channel key value c = Inr c'"
  shows "ConfigVal network channel key c' = (value, True)
    \<and> (key' \<noteq> key \<longrightarrow> ConfigVal network channel key' c' = ConfigVal network channel key' c)"
proof -
  let ?put = "\<lambda>m. Some (AList.update key (VStr value) m)" and ?p = "config_path network channel"
  let ?cfg = "\<lambda>c. get_path [''ext'', ''config''] (Some (cf_values c))"
  have up: "upd_path [''ext'', ''config''] (upd_path ?p ?put) (cf_values c) = Some (cf_values c')"
    using assms unfolding SetConfig_path upd_path_append by (auto split: option.splits)
  from upd_path_get [OF this] obtain v v' where v: "upd_path ?p ?put v = Some v'" "?cfg c' = Some v'"
    "?cfg c = Some v \<or> ?cfg c = None \<and> v = []" by blast
  from upd_path_get [OF v(1)] obtain w where w: "get_path ?p (Some v') = Some (AList.update key (VStr value) w)"
    "get_path ?p (Some v) = Some w \<or> get_path ?p (Some v) = None \<and> w = []" by auto
  have old: "lookup_str (?cfg c) k r = lookup_str (Some v) k r" for k r using v(3) by auto
  have oldp: "lookup_str (get_path ?p (?cfg c)) k r = lookup_str (Some w) k r" if "?p \<noteq> []" for k r
    using v(3) w(2) that by (auto simp: get_path_Nil)
  show ?thesis
  proof (cases ?p)
    case Nil
    with v(1) old show ?thesis by (auto simp: ConfigVal_path v(2) lookup_str_other simp del: get_path.simps)
  next
    case (Cons n ns)
    then have "lookup_str (Some v') k ([], False) = lookup_str (Some v) k ([], False)" for k
      using v(1) by (auto intro: lookup_str_ensure)
    with Cons w(1) old oldp show ?thesis
      by (simp add: ConfigVal_path v(2) lookup_str_other Let_def del: get_path.simps)
  qed
qed

theorem SetConfig_ConfigVal_witness:
  "(case SetConfig ''net'' ''#c'' ''k'' ''v'' sample_config of Inr c' \<Rightarrow> ConfigVal ''net'' ''#c'' ''k'' c' | Inl _ \<Rightarrow> ([], False))
    = (''v'', True)"
proof (cases "SetConfig ''net'' ''#c'' ''k'' ''v'' sample_config")
  case (Inl e)
  have "case_sum (\<lambda>_. False) (\<lambda>_. True) (SetConfig ''net'' ''#c'' ''k'' ''v'' sample_config)" by code_simp
  with Inl show ?thesis by simp
next
  case (Inr c')
  from SetConfig_ConfigVal [OF this] Inr show ?thesis by simp
qed

section \<open>Copies\<close>

lemma map_of_copyMap [simp]: "map_of (copyMap m) key = map_option copy_val (map_of m key)"
  by (simp add: copyMap_def map_of_map)

lemma copy_val_map: "copy_val (VMap k m) = VMap GoMap (copyMap m)" by (simp add: copyMap_def)

lemma copy_val_arr: "copy_val (VMapArr ms) = VMapArr (map copyMap ms)"
  by (simp add: copyMap_def cong: map_cong)

lemma mp_get_copyMap: "mp_get (map_option copyMap m) name = map_option copyMap (mp_get m name)"
proof (cases m)
  case (Some m)
  then show ?thesis
    by (cases "map_of m name"; cases "the (map_of m name)") (simp_all add: mp_get_def copy_val_map del: copy_val.simps(1))
qed simp

lemma Clone_values: "cf_values (Config_Clone c) = copyMap (cf_values c)"
  by (simp add: Config_Clone_def)

lemma Clone_mp_get: "mp_get (Some (cf_values (Config_Clone c))) name = map_option copyMap (mp_get (Some (cf_values c)) name)"
  using mp_get_copyMap [of "Some (cf_values c)"] by (simp add: Clone_values)

lemma Clone_net_map: "net_map n (Config_Clone c) = copyMap (net_map n c)"
proof (cases n)
  case (NetOf name)
  then show ?thesis
    by (cases "mp_get (mp_get (Some (cf_values c)) ''networks'') name")
      (simp_all add: net_map_def Clone_mp_get mp_get_copyMap copyMap_def)
qed (simp add: net_map_def Clone_values)

lemma Clone_get_val: "get_val (net_getter n (Config_Clone c)) key fb = map_option copy_val (get_val (net_getter n c) key fb)"
  by (cases n) (auto simp: get_val_def net_getter_def Clone_net_map Clone_values split: option.splits)

lemma str_field_copyMap [simp]: "str_field (copyMap m) key = str_field m key"
  by (cases "map_of m key"; cases "the (map_of m key)") (simp_all add: str_field_def)

lemma copy_val_scalar:
  "(case copy_val v of VStr s \<Rightarrow> (s, True) | _ \<Rightarrow> ([], False)) = (case v of VStr s \<Rightarrow> (s, True) | _ \<Rightarrow> ([], False))"
  "(case copy_val v of VBool b \<Rightarrow> (b, True) | _ \<Rightarrow> (False, False)) = (case v of VBool b \<Rightarrow> (b, True) | _ \<Rightarrow> (False, False))"
  "(case copy_val v of VInt i \<Rightarrow> (i, True) | VUint i \<Rightarrow> (i, True) | _ \<Rightarrow> (0, False))
    = (case v of VInt i \<Rightarrow> (i, True) | VUint i \<Rightarrow> (i, True) | _ \<Rightarrow> (0, False))"
  "(case copy_val v of VFloat f \<Rightarrow> (f, True) | _ \<Rightarrow> (0, False)) = (case v of VFloat f \<Rightarrow> (f, True) | _ \<Rightarrow> (0, False))"
  "(case copy_val v of VArr vs \<Rightarrow> if vs = [] then ([], False) else (strings_in vs, True)
      | VStrArr ss \<Rightarrow> if ss = [] then ([], False) else (ss, True) | _ \<Rightarrow> ([], False))
    = (case v of VArr vs \<Rightarrow> if vs = [] then ([], False) else (strings_in vs, True)
      | VStrArr ss \<Rightarrow> if ss = [] then ([], False) else (ss, True) | _ \<Rightarrow> ([], False))"
  by (cases v; simp)+

text \<open>
  A clone of a configuration reads like the original: every typed getter of every network
  context, with or without the fallback to the global values, gives the same value, and so do
  \<^verbatim>\<open>Channels\<close> and \<^verbatim>\<open>Networks\<close>; the clone carries neither the errors nor the filename.
\<close>

theorem Clone_reads:
  "getStr (net_getter n (Config_Clone c)) key fb = getStr (net_getter n c) key fb
   \<and> getBool (net_getter n (Config_Clone c)) key fb = getBool (net_getter n c) key fb
   \<and> getUint (net_getter n (Config_Clone c)) key fb = getUint (net_getter n c) key fb
   \<and> getFloat64 (net_getter n (Config_Clone c)) key fb = getFloat64 (net_getter n c) key fb
   \<and> getStrArr (net_getter n (Config_Clone c)) key fb = getStrArr (net_getter n c) key fb
   \<and> Net_Channels n (Config_Clone c) = Net_Channels n c
   \<and> Networks (Config_Clone c) = Networks c
   \<and> Filename (Config_Clone c) = ''config.toml'' \<and> DisplayErrors (Config_Clone c) = []"
proof (intro conjI)
  note defs = getStr_def getBool_def getUint_def getFloat64_def getStrArr_def Clone_get_val
  show "getStr (net_getter n (Config_Clone c)) key fb = getStr (net_getter n c) key fb"
    by (cases "get_val (net_getter n c) key fb") (simp_all add: defs copy_val_scalar)
  show "getBool (net_getter n (Config_Clone c)) key fb = getBool (net_getter n c) key fb"
    by (cases "get_val (net_getter n c) key fb") (simp_all add: defs copy_val_scalar)
  show "getUint (net_getter n (Config_Clone c)) key fb = getUint (net_getter n c) key fb"
    by (cases "get_val (net_getter n c) key fb") (simp_all add: defs copy_val_scalar)
  show "getFloat64 (net_getter n (Config_Clone c)) key fb = getFloat64 (net_getter n c) key fb"
    by (cases "get_val (net_getter n c) key fb") (simp_all add: defs copy_val_scalar)
  show "getStrArr (net_getter n (Config_Clone c)) key fb = getStrArr (net_getter n c) key fb"
    by (cases "get_val (net_getter n c) key fb") (simp_all add: defs copy_val_scalar)
  show "Net_Channels n (Config_Clone c) = Net_Channels n c"
    by (cases "get_val (net_getter n c) ''channels'' True"; cases "the (get_val (net_getter n c) ''channels'' True)")
      (simp_all add: Net_Channels_def Clone_get_val copy_val_arr del: copy_val.simps(2))
  show "Networks (Config_Clone c) = Networks c"
    by (cases "mp_get (Some (cf_values c)) ''networks''")
      (simp_all add: Networks_def Clone_mp_get copyMap_def comp_def case_prod_unfold)
qed (simp_all add: Filename_def DisplayErrors_def Config_Clone_def NewConfig_def clear_def)

text \<open>
  The setters store types that validation refuses: a delay as an unsigned integer, channels as a
  slice of structs, an extension as the named map type.
\<close>

lemma setters_break_validation:
  "fst (Validate sample_config)" "\<not> fst (Validate (Net_SetJoinDelay 5 (NetOf ''net'') sample_config))"
  "\<not> fst (Validate (Net_SetChannels [] (NetOf ''net'') sample_config))"
  "\<not> fst (Validate (snd (NewExt ''e'' sample_config)))"
  by code_simp+

end
