(* ===== verification/CoreCommands.thy ===== *)
theory CoreCommands
  imports Cmds "HOL-Library.List_Lexorder" "HOL-Library.Char_ord"
begin

text \<open>
  The core commands of the bot, \<^verbatim>\<open>src/bot/core_commands.go\<close>: registration and authentication of
  accounts, their masks and passwords, the granting and taking of access, lists and help.

  A command runs on a session: its event, the world of the dispatcher and the notices it has sent.
  It stops early with its two errors, with a panic, or because it waits for itself: the write lock on the
  store is not granted while the event holds its read lock.  The deferred unlock needs no model.
  Messages are values that hold what is formatted into them.  What the commands take from outside
  is in the record \<^verbatim>\<open>Deps\<close>: the database, gob, the two functions of bcrypt, the random
  numbers and the order of iteration over maps.
\<close>

section \<open>Sessions\<close>

datatype (plugins only: code) core_msg =
    RegisterSuccess string | RegisterSuccessFirst string | AuthSuccess string | LogoutSuccess
  | AccessSuccess string string
  | GusersNoUsers | GusersHead nat | SusersNoUsers string | SusersHead nat string
  | UsersNoUsers string | UsersHead nat string | UsersList string
  | DeluserSuccess string | DeluserFailure string | DelmeSuccess string
  | PasswdSuccess | PasswdFailure | MasksSuccess string | MasksFailure
  | AddmaskSuccess string | AddmaskFailure string | DelmaskSuccess string | DelmaskFailure string
  | ResetpasswdSuccess | ResetpasswdSuccessTarget string string
  | GgiveSuccess string string | SgiveSuccess string string | GiveSuccess string string string
  | GiveFailure | GiveFailureHas string string string | TakeFailureNo string string
  | HelpSuccess string string | HelpDescription string | HelpSuccessUsage string
  | HelpExtension string | HelpCommands string | HelpFailure string

datatype CoreErr =
    StoreFailed StoreError | UserFailed UserError | Expired string | DelmeFailure | NumError string
  | AlreadyAuthed | RegisterFailure string | AuthRefused AuthFailure | CmdErr CmdError | TakeFailure string

record 'd Deps =
  dp_kv :: "'d kv"
  dp_gob :: gob
  dp_gen :: "string \<Rightarrow> string option"
  dp_cmp :: "string \<Rightarrow> string \<Rightarrow> bool"
  dp_rnd :: "nat \<Rightarrow> nat"
  dp_rng :: "string set \<Rightarrow> string list"

record 'd Session =
  ss_ev :: CmdEvent
  ss_w :: "'d World"
  ss_out :: "(string \<times> core_msg) list"

datatype stop = Panicked go_panic | Waiting | Returned "CoreErr option" "CoreErr option"

type_synonym ('d, 'a) core = "'d Session \<Rightarrow> (stop + 'a) \<times> 'd Session"

definition ret :: "'a \<Rightarrow> ('d, 'a) core" where "ret x = (\<lambda>s. (Inr x, s))"

definition sq :: "('d, 'a) core \<Rightarrow> ('a \<Rightarrow> ('d, 'b) core) \<Rightarrow> ('d, 'b) core" where
  "sq m f = (\<lambda>s. case m s of (Inl x, s) \<Rightarrow> (Inl x, s) | (Inr a, s) \<Rightarrow> f a s)"

definition internal :: "CoreErr \<Rightarrow> ('d, 'a) core" where "internal e = (\<lambda>s. (Inl (Returned (Some e) None), s))"

definition external :: "CoreErr \<Rightarrow> ('d, 'a) core" where "external e = (\<lambda>s. (Inl (Returned None (Some e)), s))"

definition panic_or :: "'a outcome \<Rightarrow> ('d, 'a) core" where
  "panic_or m = (\<lambda>s. (map_sum Panicked id m, s))"

definition the_event :: "('d, CmdEvent) core" where "the_event = (\<lambda>s. (Inr (ss_ev s), s))"

definition notice :: "string \<Rightarrow> core_msg \<Rightarrow> ('d, unit) core" where
  "notice to m = (\<lambda>s. (Inr (), s\<lparr>ss_out := ss_out s @ [(to, m)]\<rparr>))"

text \<open>The targets of the pointers \<^verbatim>\<open>ev.User\<close>, \<^verbatim>\<open>ev.TargetUsers[k]\<close> and \<^verbatim>\<open>ev.Channel\<close>.\<close>

definition user_at :: "ref option \<Rightarrow> ('d, User) core" where
  "user_at p = (\<lambda>s. panic_or (and_then (deref (w_state (ss_w s))) (the_user p)) s)"

definition channel_name_at :: "ref option \<Rightarrow> ('d, string) core" where
  "channel_name_at p =
     (\<lambda>s. panic_or (and_then (deref (w_state (ss_w s))) (\<lambda>st. and_then (the_channel p st) (\<lambda>c. Inr (Channel_Name c)))) s)"

definition event_user :: "('d, User) core" where "event_user = sq the_event (\<lambda>ev. user_at (ce_User ev))"

text \<open>A method of the store, called on \<^verbatim>\<open>c.b.store\<close> or on the store embedded in the event.\<close>

definition bot_store :: "('d Store \<Rightarrow> 'r \<times> 'd Store) \<Rightarrow> ('d, 'r) core" where
  "bot_store f = (\<lambda>s. case w_store (ss_w s) of
       None \<Rightarrow> (Inl (Panicked NilDereference), s)
     | Some st \<Rightarrow> (case f st of (r, st) \<Rightarrow> (Inr r, s\<lparr>ss_w := (ss_w s)\<lparr>w_store := Some st\<rparr>\<rparr>)))"

definition event_store :: "('d Store \<Rightarrow> 'r \<times> 'd Store) \<Rightarrow> ('d, 'r) core" where
  "event_store f = sq the_event (\<lambda>ev. if ce_Store ev then bot_store f else panic_or (Inl NilDereference))"

definition account_at :: "uref option \<Rightarrow> ('d, StoredUser) core" where
  "account_at p = sq (panic_or (deref p)) (\<lambda>r. sq (bot_store (\<lambda>st. (heapSU st r, st))) (\<lambda>u. panic_or (deref u)))"

definition change_account :: "uref \<Rightarrow> StoredUser \<Rightarrow> ('d, unit) core" where
  "change_account r u = bot_store (\<lambda>st. ((), st\<lparr>heapSU := (heapSU st)(r \<mapsto> u)\<rparr>))"

text \<open>\<^verbatim>\<open>if internal != nil { return }\<close>.\<close>

definition or_internal :: "StoreError + 'a \<Rightarrow> ('d, 'a) core" where
  "or_internal r = (case r of Inl e \<Rightarrow> internal (StoreFailed e) | Inr x \<Rightarrow> ret x)"

text \<open>
  \<^verbatim>\<open>ev.Close()\<close> followed by \<^verbatim>\<open>c.b.protectStore.Lock()\<close>.  Other readers let go of the store in the
  end; the event of this command would not.
\<close>

definition close_event :: "('d, unit) core" where
  "close_event = (\<lambda>s. case CE_Close (ss_ev s) (ss_w s) of (ev, w) \<Rightarrow> (Inr (), s\<lparr>ss_ev := ev, ss_w := w\<rparr>))"

definition lock_store :: "('d, unit) core" where
  "lock_store = (\<lambda>s. if ce_closed (ss_ev s) then (Inr (), s) else (Inl Waiting, s))"

definition find_account :: "'d Deps \<Rightarrow> string \<Rightarrow> ('d, uref \<times> StoredUser) core" where
  "find_account D uname =
     sq (bot_store (FindUser (dp_kv D) (dp_gob D) uname)) (\<lambda>found.
     sq (or_internal found) (\<lambda>p.
     case p of
       None \<Rightarrow> internal (Expired uname)
     | Some r \<Rightarrow> sq (account_at (Some r)) (\<lambda>a. ret (r, a))))"

definition save_account :: "'d Deps \<Rightarrow> uref \<Rightarrow> ('d, unit) core" where
  "save_account D r = sq (bot_store (SaveUser (dp_kv D) (dp_gob D) r)) or_internal"

section \<open>Registration and authentication\<close>

definition username_arg :: "('d, string) core" where
  "username_arg =
     sq the_event (\<lambda>ev.
     if CE_GetArg ''username'' ev = [] then
       sq event_user (\<lambda>u. ret (trim_left (\<lambda>c. c = CHR ''~'') (User_Username u)))
     else ret (CE_GetArg ''username'' ev))"

text \<open>\<^verbatim>\<open>access = ev.StoredUser\<close>, or else the account that is authenticated for the host.\<close>

definition not_authed :: "string outcome \<Rightarrow> ('d, unit) core" where
  "not_authed host =
     sq the_event (\<lambda>ev.
     if ce_StoredUser ev \<noteq> None then external AlreadyAuthed
     else
       sq (panic_or host) (\<lambda>h.
       sq (event_store (\<lambda>st. (GetAuthedUser (eNetworkID (ce_event ev)) h st, st))) (\<lambda>a.
       if a \<noteq> None then external AlreadyAuthed else ret ())))"

definition event_host :: "'d Session \<Rightarrow> string outcome" where
  "event_host s = and_then (deref (w_state (ss_w s))) (\<lambda>st. and_then (the_user (ce_User (ss_ev s)) st) (\<lambda>u. Inr (User_Host u)))"

definition all_access :: Access where "all_access = \<lparr>Level = NOT 0, Flags = NOT 0\<rparr>"

definition register :: "'d Deps \<Rightarrow> ('d, unit) core" where
  "register D =
     sq the_event (\<lambda>ev.
     let pwd = CE_GetArg ''password'' ev; net = eNetworkID (ce_event ev) in
     sq username_arg (\<lambda>uname.
     sq (\<lambda>s. not_authed (event_host s) s) (\<lambda>_.
     sq (event_store (FindUser (dp_kv D) (dp_gob D) uname)) (\<lambda>found.
     sq (or_internal found) (\<lambda>p.
     if p \<noteq> None then external (RegisterFailure uname)
     else
       case NewStoredUser (dp_gen D) uname pwd [] of
         Inl e \<Rightarrow> internal (UserFailed e)
       | Inr access \<Rightarrow>
           sq event_user (\<lambda>u.
           let host = User_Host u; nik = User_Nick u in
           sq close_event (\<lambda>_.
           sq lock_store (\<lambda>_.
           sq (bot_store (IsFirst (dp_kv D))) (\<lambda>first.
           sq (or_internal first) (\<lambda>isFirst.
           let access = (if isFirst then access\<lparr>su_Global := Some all_access\<rparr> else access) in
           sq (bot_store (alloc_user access)) (\<lambda>r.
           sq (save_account D r) (\<lambda>_.
           sq (bot_store (AuthUser (dp_kv D) (dp_gob D) (dp_cmp D) net host uname pwd)) (\<lambda>authd.
           sq (or_internal authd) (\<lambda>_.
           notice nik (if isFirst then RegisterSuccessFirst uname else RegisterSuccess uname)))))))))))))))"

definition auth :: "'d Deps \<Rightarrow> ('d, unit) core" where
  "auth D =
     sq the_event (\<lambda>ev.
     let pwd = CE_GetArg ''password'' ev; net = eNetworkID (ce_event ev) in
     sq username_arg (\<lambda>uname.
     sq event_user (\<lambda>u.
     let host = User_Host u; nik = User_Nick u in
     sq (not_authed (Inr host)) (\<lambda>_.
     sq close_event (\<lambda>_.
     sq lock_store (\<lambda>_.
     sq (bot_store (AuthUser (dp_kv D) (dp_gob D) (dp_cmp D) net host uname pwd)) (\<lambda>res.
     case res of
       Inl (AuthError e) \<Rightarrow> external (AuthRefused e)
     | Inl e \<Rightarrow> internal (StoreFailed e)
     | Inr _ \<Rightarrow> notice nik (AuthSuccess uname))))))))"

text \<open>\<^verbatim>\<open>if !ev.StoredUser.HasGlobalFlag('G')\<close> returns the error.\<close>

definition require_G :: "('d, unit) core" where
  "require_G =
     sq the_event (\<lambda>ev. sq (account_at (ce_StoredUser ev)) (\<lambda>a.
     if \<not> HasGlobalFlag CHR ''G'' a then external (CmdErr (MakeGlobalFlagsError ''G'')) else ret ()))"

text \<open>The account to work on: the target, which needs the flag G, or else what \<^verbatim>\<open>own\<close> gives.\<close>

definition target_or :: "('d, 'a) core \<Rightarrow> (StoredUser \<Rightarrow> 'a) \<Rightarrow> ('d, 'a) core" where
  "target_or own f =
     sq the_event (\<lambda>ev.
     case ce_TargetStoredUser ev ''user'' of
       None \<Rightarrow> own
     | Some t \<Rightarrow> sq require_G (\<lambda>_. sq (account_at (Some t)) (\<lambda>a. ret (f a))))"

definition logout :: "('d, unit) core" where
  "logout =
     sq the_event (\<lambda>ev.
     sq event_user (\<lambda>u.
     let host = User_Host u; nik = User_Nick u in
     sq (target_or (ret []) su_Username) (\<lambda>uname.
     sq close_event (\<lambda>_.
     sq lock_store (\<lambda>_.
     sq (bot_store (\<lambda>st. ((), if uname \<noteq> [] then LogoutByUsername uname st
                               else Logout (eNetworkID (ce_event ev)) host st))) (\<lambda>_.
     notice nik LogoutSuccess))))))"

section \<open>Showing access\<close>

definition access_cmd :: "'d Deps \<Rightarrow> ('d, unit) core" where
  "access_cmd D =
     sq the_event (\<lambda>ev.
     let p = (case ce_TargetStoredUser ev ''user'' of None \<Rightarrow> ce_StoredUser ev | Some t \<Rightarrow> Some t) in
     sq (case ce_Channel ev of None \<Rightarrow> ret [] | Some c \<Rightarrow> channel_name_at (Some c)) (\<lambda>ch.
     sq event_user (\<lambda>u.
     sq (account_at p) (\<lambda>a.
     notice (User_Nick u) (AccessSuccess (su_Username a) (SU_String (dp_rng D) (eNetworkID (ce_event ev)) ch a))))))"

definition userListWidth :: "StoredUser list \<Rightarrow> nat" where
  "userListWidth us = fold (\<lambda>u minl. if length (su_Username u) > minl then length (su_Username u) else minl) us (length ''User'')"

text \<open>The format \<^verbatim>\<open>%-*v %v\<close>.\<close>

definition user_line :: "nat \<Rightarrow> string \<Rightarrow> string \<Rightarrow> string" where
  "user_line width a b = a @ replicate (width - length a) CHR '' '' @ '' '' @ b"

fun notices :: "string \<Rightarrow> core_msg list \<Rightarrow> ('d, unit) core" where
  "notices nik [] = ret ()"
| "notices nik (m # ms) = sq (notice nik m) (\<lambda>_. notices nik ms)"

text \<open>The common half of \<^verbatim>\<open>gusers\<close>, \<^verbatim>\<open>susers\<close> and \<^verbatim>\<open>users\<close>.\<close>

definition list_users :: "('d Store \<Rightarrow> StoreError + StoredUser list) \<Rightarrow> core_msg \<Rightarrow> (nat \<Rightarrow> core_msg)
    \<Rightarrow> (StoredUser \<Rightarrow> Access option) \<Rightarrow> string \<Rightarrow> ('d, unit) core" where
  "list_users query noUsers heading acc nik =
     sq (bot_store (\<lambda>st. (query st, st))) (\<lambda>found.
     sq (or_internal found) (\<lambda>us.
     if us = [] then notice nik noUsers
     else
       let width = userListWidth us + 1 in
       notices nik (heading (length us) # UsersList (user_line width ''User'' ''Access'')
         # map (\<lambda>ua. UsersList (user_line width (su_Username ua) (Access_String (acc ua)))) us)))"

definition gusers :: "'d Deps \<Rightarrow> ('d, unit) core" where
  "gusers D =
     sq event_user (\<lambda>u. list_users (GlobalUsers (dp_kv D) (dp_gob D)) GusersNoUsers GusersHead GetGlobal (User_Nick u))"

definition susers :: "'d Deps \<Rightarrow> ('d, unit) core" where
  "susers D =
     sq the_event (\<lambda>ev. sq event_user (\<lambda>u.
     let net = eNetworkID (ce_event ev) in
     list_users (NetworkUsers (dp_kv D) (dp_gob D) net) (SusersNoUsers net) (\<lambda>n. SusersHead n net) (GetNetwork net)
       (User_Nick u)))"

definition users_cmd :: "'d Deps \<Rightarrow> ('d, unit) core" where
  "users_cmd D =
     sq the_event (\<lambda>ev.
     let net = eNetworkID (ce_event ev) in
     sq (if CE_GetArg ''chan'' ev \<noteq> [] then ret (CE_GetArg ''chan'' ev) else channel_name_at (ce_Channel ev)) (\<lambda>ch.
     if ch = [] then ret ()
     else
       sq event_user (\<lambda>u.
       list_users (ChanUsers (dp_kv D) (dp_gob D) net ch) (UsersNoUsers ch) (\<lambda>n. UsersHead n ch) (SU_GetChannel net ch)
         (User_Nick u))))"

section \<open>Accounts\<close>

definition deluser :: "'d Deps \<Rightarrow> ('d, unit) core" where
  "deluser D =
     sq the_event (\<lambda>ev.
     let param = CE_GetArg ''user'' ev in
     sq require_G (\<lambda>_.
     sq (account_at (ce_TargetStoredUser ev ''user'')) (\<lambda>t.
     let uname = su_Username t in
     sq event_user (\<lambda>u.
     sq close_event (\<lambda>_.
     sq lock_store (\<lambda>_.
     sq (bot_store (\<lambda>st. ((), LogoutByUsername uname st))) (\<lambda>_.
     sq (bot_store (RemoveUser (dp_kv D) (dp_gob D) uname)) (\<lambda>res.
     sq (or_internal res) (\<lambda>removed.
     notice (User_Nick u) (if removed then DeluserSuccess param else DeluserFailure param))))))))))"

definition delme :: "'d Deps \<Rightarrow> ('d, unit) core" where
  "delme D =
     sq the_event (\<lambda>ev.
     sq event_user (\<lambda>u.
     sq (account_at (ce_StoredUser ev)) (\<lambda>a.
     let uname = su_Username a in
     sq close_event (\<lambda>_.
     sq lock_store (\<lambda>_.
     sq (bot_store (\<lambda>st. ((), Logout (eNetworkID (ce_event ev)) (User_Host u) st))) (\<lambda>_.
     sq (bot_store (RemoveUser (dp_kv D) (dp_gob D) uname)) (\<lambda>res.
     sq (or_internal res) (\<lambda>removed.
     if \<not> removed then internal DelmeFailure
     else notice (User_Nick u) (DelmeSuccess uname)))))))))"

definition passwd :: "'d Deps \<Rightarrow> ('d, unit) core" where
  "passwd D =
     sq the_event (\<lambda>ev.
     let oldpasswd = CE_GetArg ''oldpassword'' ev; newpasswd = CE_GetArg ''newpassword'' ev in
     sq event_user (\<lambda>u.
     sq (account_at (ce_StoredUser ev)) (\<lambda>me.
     if \<not> VerifyPassword (dp_cmp D) oldpasswd me then notice (User_Nick u) PasswdFailure
     else
       sq close_event (\<lambda>_.
       sq lock_store (\<lambda>_.
       sq (find_account D (su_Username me)) (\<lambda>(r, access).
       case SetPassword (dp_gen D) newpasswd access of (ok, access) \<Rightarrow>
       if \<not> ok then internal (UserFailed BcryptError)
       else
         sq (change_account r access) (\<lambda>_.
         sq (save_account D r) (\<lambda>_.
         notice (User_Nick u) PasswdSuccess))))))))"

definition masks_cmd :: "('d, unit) core" where
  "masks_cmd =
     sq the_event (\<lambda>ev.
     sq (target_or (account_at (ce_StoredUser ev)) id) (\<lambda>access.
     sq event_user (\<lambda>u.
     notice (User_Nick u)
       (if su_Masks access \<noteq> [] then MasksSuccess (Prelude.join '' '' (su_Masks access)) else MasksFailure))))"

text \<open>\<^verbatim>\<open>addmask\<close> and \<^verbatim>\<open>delmask\<close> differ in the method of the account and in the messages.\<close>

definition mask_helper :: "'d Deps \<Rightarrow> (string \<Rightarrow> StoredUser \<Rightarrow> bool \<times> StoredUser) \<Rightarrow> (string \<Rightarrow> core_msg) \<Rightarrow> (string \<Rightarrow> core_msg)
    \<Rightarrow> ('d, unit) core" where
  "mask_helper D f good bad =
     sq the_event (\<lambda>ev.
     let mk = CE_GetArg ''mask'' ev in
     sq event_user (\<lambda>u.
     sq (account_at (ce_StoredUser ev)) (\<lambda>me.
     sq (target_or (ret (su_Username me)) su_Username) (\<lambda>uname.
     sq close_event (\<lambda>_.
     sq lock_store (\<lambda>_.
     sq (find_account D uname) (\<lambda>(r, access).
     case f mk access of (ok, access) \<Rightarrow>
     if ok then
       sq (change_account r access) (\<lambda>_.
       sq (save_account D r) (\<lambda>_.
       notice (User_Nick u) (good mk)))
     else notice (User_Nick u) (bad mk))))))))"

definition addmask :: "'d Deps \<Rightarrow> ('d, unit) core" where "addmask D = mask_helper D AddMask AddmaskSuccess AddmaskFailure"

definition delmask :: "'d Deps \<Rightarrow> ('d, unit) core" where "delmask D = mask_helper D DelMask DelmaskSuccess DelmaskFailure"

definition resetpasswd :: "'d Deps \<Rightarrow> ('d, unit) core" where
  "resetpasswd D =
     sq the_event (\<lambda>ev.
     sq (account_at (ce_TargetStoredUser ev ''user'')) (\<lambda>t.
     sq (user_at (ce_TargetUsers ev ''nick'')) (\<lambda>tu.
     let resetnick = User_Nick tu in
     sq event_user (\<lambda>u.
     let nik = User_Nick u in
     sq close_event (\<lambda>_.
     sq lock_store (\<lambda>_.
     sq (find_account D (su_Username t)) (\<lambda>(r, access).
     case ResetPassword (dp_gen D) (dp_rnd D) access of (newpasswd, ok, access) \<Rightarrow>
     if \<not> ok then internal (UserFailed BcryptError)
     else
       sq (change_account r access) (\<lambda>_.
       sq (save_account D r) (\<lambda>_.
       sq (notice nik ResetpasswdSuccess) (\<lambda>_.
       notice resetnick (ResetpasswdSuccessTarget nik newpasswd)))))))))))"

section \<open>Giving and taking access\<close>

text \<open>The pattern \<^verbatim>\<open>[A-Za-z]+\<close> is not anchored: one letter is enough.\<close>

definition rgxFlags :: "string \<Rightarrow> bool" where "rgxFlags s = list_ex (\<lambda>c. is_upper c \<or> is_lower c) s"

text \<open>\<^verbatim>\<open>strconv.ParseUint(arg, 10, 8)\<close>.\<close>

definition ParseUint8 :: "string \<Rightarrow> nat option" where
  "ParseUint8 s = (if s \<noteq> [] \<and> list_all is_digit s \<and> digits_val s < 256 then Some (nat (digits_val s)) else None)"

definition filterFlags :: "string \<Rightarrow> (rune \<Rightarrow> bool) \<Rightarrow> string" where
  "filterFlags flags check = filter (\<lambda>f. \<not> check f) flags"

type_synonym giveHelperFunc = "StoredUser \<Rightarrow> 8 word \<Rightarrow> string \<Rightarrow> core_msg \<times> bool \<times> StoredUser"
type_synonym takeHelperFunc = "StoredUser \<Rightarrow> bool \<Rightarrow> bool \<Rightarrow> string \<Rightarrow> core_msg \<times> bool \<times> StoredUser"

text \<open>The loop over the arguments: the last level and all flags, or the argument that is neither.\<close>

fun give_args :: "string list \<Rightarrow> nat \<Rightarrow> string \<Rightarrow> string + nat \<times> string" where
  "give_args [] level flags = Inr (level, flags)"
| "give_args (a # as) level flags =
     (if rgxFlags a then give_args as level (flags @ a)
      else (case ParseUint8 a of None \<Rightarrow> Inl a | Some n \<Rightarrow> give_args as n flags))"

definition giveHelper :: "'d Deps \<Rightarrow> giveHelperFunc \<Rightarrow> ('d, unit) core" where
  "giveHelper D g =
     sq the_event (\<lambda>ev.
     sq (account_at (ce_TargetStoredUser ev ''user'')) (\<lambda>t.
     let args = SplitArg ''levelOrFlags'' ev in
     sq event_user (\<lambda>u.
     let nik = User_Nick u in
     sq close_event (\<lambda>_.
     sq lock_store (\<lambda>_.
     sq (find_account D (su_Username t)) (\<lambda>(r, access).
     case give_args args 0 [] of
       Inl a \<Rightarrow> internal (NumError a)
     | Inr (level, flags) \<Rightarrow>
         if 0 < level \<and> level < 256 \<or> flags \<noteq> [] then
           (case g access (of_nat level) flags of (m, dosave, access) \<Rightarrow>
              sq (change_account r access) (\<lambda>_.
              sq (if dosave then save_account D r else ret ()) (\<lambda>_.
              notice nik m)))
         else notice nik GiveFailure))))))"

definition takeHelper :: "'d Deps \<Rightarrow> takeHelperFunc \<Rightarrow> ('d, unit) core" where
  "takeHelper D t =
     sq the_event (\<lambda>ev.
     sq (account_at (ce_TargetStoredUser ev ''user'')) (\<lambda>tu.
     let ag = CE_GetArg ''allOrFlags'' ev in
     sq event_user (\<lambda>u.
     let nik = User_Nick u in
     sq close_event (\<lambda>_.
     sq lock_store (\<lambda>_.
     sq (find_account D (su_Username tu)) (\<lambda>(r, access).
     let level = (ag = []); all = (ag = ''all'');
         flags = (if \<not> level \<and> \<not> all \<and> rgxFlags ag then ag else []);
         bad = (\<not> level \<and> \<not> all \<and> \<not> rgxFlags ag) in
     case t access all level flags of (m, dosave, access) \<Rightarrow>
     sq (change_account r access) (\<lambda>_.
     sq (if dosave then save_account D r else ret ()) (\<lambda>_.
     sq (notice nik m) (\<lambda>_.
     if bad then external (TakeFailure ag) else ret ())))))))))"

definition ggive_fn :: giveHelperFunc where
  "ggive_fn a level flags =
     (let a = (if level > 0 then GrantGlobalLevel level a else a);
          filtered = filterFlags flags (\<lambda>f. HasGlobalFlag f a) in
      if flags \<noteq> [] \<and> filtered = [] \<and> level = 0
      then (GiveFailureHas (su_Username a) (Access_String (su_Global a)) flags, False, a)
      else
        let a = (if flags \<noteq> [] then GrantGlobalFlags [filtered] a else a) in
        (GgiveSuccess (su_Username a) (Access_String (su_Global a)), True, a))"

definition ggive :: "'d Deps \<Rightarrow> ('d, unit) core" where "ggive D = giveHelper D ggive_fn"

definition sgive_fn :: "string \<Rightarrow> giveHelperFunc" where
  "sgive_fn network a level flags =
     (let a = (if level > 0 then GrantNetworkLevel network level a else a);
          filtered = filterFlags flags (\<lambda>f. HasNetworkFlag network f a) in
      if flags \<noteq> [] \<and> filtered = [] \<and> level = 0
      then (GiveFailureHas (su_Username a) (Access_String (GetNetwork network a)) flags, False, a)
      else
        let a = (if flags \<noteq> [] then GrantNetworkFlags network [filtered] a else a) in
        (SgiveSuccess (su_Username a) (Access_String (GetNetwork network a)), True, a))"

definition sgive :: "'d Deps \<Rightarrow> ('d, unit) core" where
  "sgive D = sq the_event (\<lambda>ev. giveHelper D (sgive_fn (eNetworkID (ce_event ev))))"

definition give_fn :: "string \<Rightarrow> string \<Rightarrow> giveHelperFunc" where
  "give_fn network channel a level flags =
     (let a = (if level > 0 then GrantChannelLevel network channel level a else a);
          filtered = filterFlags flags (\<lambda>f. HasChannelFlag network channel f a) in
      if flags \<noteq> [] \<and> filtered = [] \<and> level = 0
      then (GiveFailureHas (su_Username a) (Access_String (SU_GetChannel network channel a)) flags, False, a)
      else
        let a = (if flags \<noteq> [] then GrantChannelFlags network channel [filtered] a else a) in
        (GiveSuccess (su_Username a) (Access_String (SU_GetChannel network channel a)) channel, True, a))"

definition give :: "'d Deps \<Rightarrow> ('d, unit) core" where
  "give D = sq the_event (\<lambda>ev. giveHelper D (give_fn (eNetworkID (ce_event ev)) (CE_GetArg ''chan'' ev)))"

definition gtake_fn :: takeHelperFunc where
  "gtake_fn a all level flags =
     (let (a, save) =
        (if all then (if HasGlobalLevel 1 a \<or> HasGlobalFlags [flags] a then (RevokeGlobal a, True) else (a, False))
         else if level then (if HasGlobalLevel 1 a then (RevokeGlobalLevel a, True) else (a, False))
         else if HasGlobalFlags [flags] a then (RevokeGlobalFlags [flags] a, True) else (a, False));
          rstr = Access_String (su_Global a)
      in (if save then GgiveSuccess (su_Username a) rstr else TakeFailureNo (su_Username a) rstr, save, a))"

definition gtake :: "'d Deps \<Rightarrow> ('d, unit) core" where "gtake D = takeHelper D gtake_fn"

definition stake_fn :: "string \<Rightarrow> takeHelperFunc" where
  "stake_fn network a all level flags =
     (let (a, save) =
        (if all then
           (if HasNetworkLevel network 1 a \<or> HasNetworkFlags network [flags] a then (RevokeNetwork network a, True) else (a, False))
         else if level then (if HasNetworkLevel network 1 a then (RevokeNetworkLevel network a, True) else (a, False))
         else if HasNetworkFlags network [flags] a then (RevokeNetworkFlags network [flags] a, True) else (a, False));
          rstr = Access_String (GetNetwork network a)
      in (if save then SgiveSuccess (su_Username a) rstr else TakeFailureNo (su_Username a) rstr, save, a))"

definition stake :: "'d Deps \<Rightarrow> ('d, unit) core" where
  "stake D = sq the_event (\<lambda>ev. takeHelper D (stake_fn (eNetworkID (ce_event ev))))"

definition take_fn :: "string \<Rightarrow> string \<Rightarrow> takeHelperFunc" where
  "take_fn network channel a all level flags =
     (let (a, save) =
        (if all then
           (if HasChannelLevel network channel 1 a \<or> HasChannelFlags network channel [flags] a
            then (RevokeChannel network channel a, True) else (a, False))
         else if level then
           (if HasChannelLevel network channel 1 a then (RevokeChannelLevel network channel a, True) else (a, False))
         else if HasChannelFlags network channel [flags] a
         then (RevokeChannelFlags network channel [flags] a, True) else (a, False));
          rstr = Access_String (SU_GetChannel network channel a)
      in (if save then GiveSuccess (su_Username a) rstr channel else TakeFailureNo (su_Username a) rstr, save, a))"

definition take_cmd :: "'d Deps \<Rightarrow> ('d, unit) core" where
  "take_cmd D = sq the_event (\<lambda>ev. takeHelper D (take_fn (eNetworkID (ce_event ev)) (CE_GetArg ''chan'' ev)))"

section \<open>Help\<close>

text \<open>The callback of \<^verbatim>\<open>EachCmd\<close> with its two variables: the names to show by extension, and the exact matches.\<close>

type_synonym help_state = "(string \<rightharpoonup> string list) \<times> (string \<times> string \<times> string \<times> string list) list"

definition combined :: "'h Cmd \<Rightarrow> string" where "combined c = c_Extension c @ ''.'' @ c_Cmd c"

definition add_name :: "string \<Rightarrow> string \<Rightarrow> (string \<rightharpoonup> string list) \<Rightarrow> (string \<rightharpoonup> string list)" where
  "add_name ext name out = out(ext \<mapsto> (case out ext of None \<Rightarrow> [name] | Some arr \<Rightarrow> arr @ [name]))"

definition help_step :: "string \<Rightarrow> 'h Cmd \<Rightarrow> help_state \<Rightarrow> help_state" where
  "help_step search c st =
     (case st of (out, exact) \<Rightarrow>
        let perfect = (combined c = search); it = (c_Extension c, c_Cmd c, c_Description c, c_Args c);
            written = add_name (c_Extension c) (c_Cmd c) out in
        if search = [] then (written, exact)
        else if c_Cmd c = search \<or> perfect then
          (if perfect then (out, [it]) else if exact = [] then (written, [it]) else (out, exact @ [it]))
        else if sublist search (combined c) then (written, exact) else (out, exact))"

definition help_messages :: "(string set \<Rightarrow> string list) \<Rightarrow> string \<Rightarrow> help_state \<Rightarrow> core_msg list" where
  "help_messages rng search st =
     (case st of (out, exact) \<Rightarrow>
        let (out, exact) = (if 1 < length exact then (fold (\<lambda>(ext, name, _). add_name ext name) exact out, []) else (out, exact)) in
        case exact of
          (ext, name, desc, args) # _ \<Rightarrow>
            [HelpSuccess ext name, HelpDescription desc] @ (if args \<noteq> [] then [HelpSuccessUsage (Prelude.join '' '' args)] else [])
        | [] \<Rightarrow>
            if rng (dom out) \<noteq> [] then
              concat (map (\<lambda>ext. [HelpExtension ext, HelpCommands (Prelude.join '' '' (sort (the (out ext))))]) (rng (dom out)))
            else [HelpFailure search])"

definition help_cmd :: "'d Deps \<Rightarrow> 'h Registry \<Rightarrow> ('d, unit) core" where
  "help_cmd D reg =
     sq the_event (\<lambda>ev.
     let search = to_lower (CE_GetArg ''command'' ev) in
     sq event_user (\<lambda>u.
     let visited = EachCmd (dp_rng D) (\<lambda>c. search \<noteq> [] \<and> combined c = search) reg in
     notices (User_Nick u) (help_messages (dp_rng D) search (fold (help_step search) visited (Map.empty, [])))))"

section \<open>The handler\<close>

definition core_switch :: "'d Deps \<Rightarrow> 'h Registry \<Rightarrow> string \<Rightarrow> ('d, unit) core" where
  "core_switch D reg cmd =
     (if cmd = ''register'' then register D
      else if cmd = ''auth'' then auth D
      else if cmd = ''logout'' then logout
      else if cmd = ''access'' then access_cmd D
      else if cmd = ''gusers'' then gusers D
      else if cmd = ''susers'' then susers D
      else if cmd = ''users'' then users_cmd D
      else if cmd = ''deluser'' then deluser D
      else if cmd = ''delme'' then delme D
      else if cmd = ''passwd'' then passwd D
      else if cmd = ''masks'' then masks_cmd
      else if cmd = ''addmask'' then addmask D
      else if cmd = ''delmask'' then delmask D
      else if cmd = ''setpasswd'' then resetpasswd D
      else if cmd = ''ggive'' then ggive D
      else if cmd = ''sgive'' then sgive D
      else if cmd = ''give'' then give D
      else if cmd = ''gtake'' then gtake D
      else if cmd = ''stake'' then stake D
      else if cmd = ''take'' then take_cmd D
      else if cmd = ''help'' then help_cmd D reg
      else ret ())"

text \<open>
  \<^verbatim>\<open>Cmd\<close>: the error the dispatcher sends to the user, and the session at the end.  A panic is
  recovered and an internal error only logged, so the user sees neither.  \<^verbatim>\<open>None\<close>: it never returns.
\<close>

definition core_Cmd :: "'d Deps \<Rightarrow> 'h Registry \<Rightarrow> string \<Rightarrow> CmdEvent \<Rightarrow> 'd World \<Rightarrow> (CoreErr option \<times> 'd Session) option" where
  "core_Cmd D reg cmd ev w =
     (case core_switch D reg cmd \<lparr>ss_ev = ev, ss_w = w, ss_out = []\<rparr> of
        (Inl Waiting, s) \<Rightarrow> None
      | (Inl (Panicked _), s) \<Rightarrow> Some (None, s)
      | (Inl (Returned _ ext), s) \<Rightarrow> Some (ext, s)
      | (Inr _, s) \<Rightarrow> Some (None, s))"

section \<open>Registration of the commands\<close>

record core_entry =
  en_Name :: string
  en_Desc :: string
  en_Authed :: bool
  en_Public :: bool
  en_Level :: "8 word"
  en_Flags :: string
  en_Args :: "string list"

definition takeDesc :: "string \<Rightarrow> string" where
  "takeDesc what = ''Takes '' @ what @ '' access from a user. If no arguments are given, takes the level access, otherwise removes the given flags. Use all to take all access.''"

definition giveDesc :: "string \<Rightarrow> string" where
  "giveDesc what = ''Gives '' @ what @ '' access to a user. Arguments can be numeric levels or flags.''"

definition core_table :: "core_entry list" where
  "core_table = map (\<lambda>(n, d, a, p, l, f, as). \<lparr>en_Name = n, en_Desc = d, en_Authed = a, en_Public = p, en_Level = l, en_Flags = f, en_Args = as\<rparr>)
    [(''register'', ''Registers an account.'', False, False, 0, [], [''password'', ''[username]'']),
     (''auth'', ''Authenticate a user to an account.'', False, False, 0, [], [''password'', ''[username]'']),
     (''logout'', ''Logs the current user out of the account. Admins can add a user param to log that user out.'',
        True, True, 0, [], [''[*user]'']),
     (''access'', ''Access retrieves the access for the user.'', True, True, 0, [], [''[*user]'']),
     (''gusers'', ''Lists all the users added to the global access list.'', False, True, 0, [], []),
     (''susers'', ''Lists all the users added to the network's access list. '', False, True, 0, [], []),
     (''users'', ''Lists all the users added to the channel's access list. If no channel specified then list for current channel.'',
        False, True, 0, [], [''[chan]'']),
     (''deluser'', ''Deletes a user account from the bot.'', True, True, 0, [], [''*user'']),
     (''delme'', ''Deletes the current user's account.'', True, True, 0, [], []),
     (''passwd'', ''Change the current user's account password.'', True, False, 0, [], [''oldpassword'', ''newpassword'']),
     (''masks'', ''Retrieves the current user's mask list. Admins can add a user param to see that user's masks.'',
        True, False, 0, [], [''[*user]'']),
     (''addmask'', ''Adds a mask to the current user. Admins can add a user param to add a mask to that user.'',
        True, False, 0, [], [''mask'', ''[*user]'']),
     (''delmask'', ''Deletes a mask from the current user. Admins can add a user param to remove a mask to that user.'',
        True, False, 0, [], [''mask'', ''[*user]'']),
     (''setpasswd'', ''Resets a user's password.'', True, False, 0, [], [''~nick'', ''*user'']),
     (''ggive'', giveDesc ''global'', True, True, 0, ''G'', [''*user'', ''levelOrFlags...'']),
     (''sgive'', giveDesc ''network'', True, True, 0, ''GS'', [''*user'', ''levelOrFlags...'']),
     (''give'', giveDesc ''channel'', True, True, 0, ''GSC'', [''#chan'', ''*user'', ''levelOrFlags...'']),
     (''gtake'', takeDesc ''global'', True, True, 0, ''G'', [''*user'', ''[allOrFlags]'']),
     (''stake'', takeDesc ''network'', True, True, 0, ''GS'', [''*user'', ''[allOrFlags]'']),
     (''take'', takeDesc ''channel'', True, True, 0, ''GSC'', [''#chan'', ''*user'', ''[allOrFlags]'']),
     (''help'', ''Help with no arguments shows all commands, help with an argument performs a search, if only one match is found gives detailed information about that command.'',
        True, True, 0, [], [''[command]''])]"

definition core_cmd :: "'h \<Rightarrow> core_entry \<Rightarrow> 'h Cmd" where
  "core_cmd h e =
     (MkCmd ''core'' (en_Desc e) (en_Name e) (Some h) MSG_PRIVMSG (if en_Public e then ALL_SCOPES else PRIVATE) (en_Args e))
       \<lparr>c_RequireAuth := en_Authed e, c_ReqLevel := en_Level e, c_ReqFlags := en_Flags e\<rparr>"

text \<open>Commands are allocated from \<^verbatim>\<open>r\<close> on; the first error ends the loop.\<close>

fun register_entries :: "'h \<Rightarrow> core_entry list \<Rightarrow> cref \<Rightarrow> 'h Registry \<Rightarrow> Cmds \<Rightarrow> CmdError option \<times> 'h Registry \<times> Cmds" where
  "register_entries h [] r reg c = (None, reg, c)"
| "register_entries h (e # es) r reg c =
     (case Cmds_Register GLOBAL r (reg\<lparr>heapCmd := (heapCmd reg)(r \<mapsto> core_cmd h e)\<rparr>) c of
        (Some err, reg, c) \<Rightarrow> (Some err, reg, c)
      | (None, reg, c) \<Rightarrow> register_entries h es (r + 1) reg c)"

definition NewCoreCmds :: "'h \<Rightarrow> cref \<Rightarrow> 'h Registry \<Rightarrow> Cmds \<Rightarrow> CmdError option \<times> 'h Registry \<times> Cmds" where
  "NewCoreCmds h r reg c = register_entries h core_table r reg c"

fun unregister_entries :: "core_entry list \<Rightarrow> 'h Registry \<Rightarrow> Cmds \<Rightarrow> 'h Registry \<times> Cmds" where
  "unregister_entries [] reg c = (reg, c)"
| "unregister_entries (e # es) reg c =
     (case Cmds_Unregister GLOBAL (en_Name e) reg c of (_, reg, c) \<Rightarrow> unregister_entries es reg c)"

definition unregisterCoreCmds :: "'h Registry \<Rightarrow> Cmds \<Rightarrow> 'h Registry \<times> Cmds" where
  "unregisterCoreCmds reg c = unregister_entries core_table reg c"

end
