(* ===== verification/CoreProps.thy ===== *)
theory CoreProps
  imports CoreCommands CmdsProps
begin

text \<open>
  Properties of the core commands.  A command changes the store by steps of the store's interface
  and the locks by closing its event; what such changes keep, every command keeps (locale
  \<^verbatim>\<open>session_invariant\<close>).
\<close>

section \<open>Invariants of sessions\<close>

text \<open>What the commands do to the store.\<close>

inductive store_step :: "'d Deps \<Rightarrow> 'd Store \<Rightarrow> 'd Store \<Rightarrow> bool" for D where
  same: "store_step D st st"
| find: "store_step D st (snd (FindUser (dp_kv D) (dp_gob D) n st))"
| remove: "store_step D st (snd (RemoveUser (dp_kv D) (dp_gob D) n st))"
| auth_user: "store_step D st (snd (AuthUser (dp_kv D) (dp_gob D) (dp_cmp D) net host n pw st))"
| first: "store_step D st (snd (IsFirst (dp_kv D) st))"
| save: "heapSU st r \<noteq> None \<Longrightarrow> store_step D st (snd (SaveUser (dp_kv D) (dp_gob D) r st))"
| change: "heapSU st r \<noteq> None \<Longrightarrow> store_step D st (st\<lparr>heapSU := (heapSU st)(r \<mapsto> u)\<rparr>)"
| alloc: "store_step D st (snd (alloc_user u st))"
| log_out: "store_step D st (Logout net host st)"
| log_out_user: "store_step D st (LogoutByUsername n st)"

definition allocated :: "uref \<Rightarrow> 'd Session \<Rightarrow> bool" where
  "allocated r s \<longleftrightarrow> (\<exists>st. w_store (ss_w s) = Some st \<and> heapSU st r \<noteq> None)"

lemma sq_run: "sq m f s = (case m s of (Inl x, s) \<Rightarrow> (Inl x, s) | (Inr a, s) \<Rightarrow> f a s)"
  by (simp add: sq_def)

lemma sq_assoc: "sq (sq m f) g = sq m (\<lambda>a. sq (f a) g)"
  by (rule ext) (simp add: sq_def split: prod.splits sum.splits)

locale session_invariant =
  fixes D :: "'d Deps" and I :: "'d Session \<Rightarrow> bool"
  assumes out: "I s \<Longrightarrow> I (s\<lparr>ss_out := xs\<rparr>)"
    and close: "I s \<Longrightarrow> CE_Close (ss_ev s) (ss_w s) = (ev, w) \<Longrightarrow> I (s\<lparr>ss_ev := ev, ss_w := w\<rparr>)"
    and store: "I s \<Longrightarrow> w_store (ss_w s) = Some st \<Longrightarrow> store_step D st st' \<Longrightarrow>
      I (s\<lparr>ss_w := (ss_w s)\<lparr>w_store := Some st'\<rparr>\<rparr>)"
begin

definition ok :: "('d Session \<Rightarrow> bool) \<Rightarrow> ('d, 'a) core \<Rightarrow> bool" where
  "ok P m \<longleftrightarrow> (\<forall>s. I s \<and> P s \<longrightarrow> I (snd (m s)) \<and> fst (m s) \<noteq> Inl Waiting)"

definition any :: "'d Session \<Rightarrow> bool" where "any s = True"

lemma ok_weaken: "ok any m \<Longrightarrow> ok P m" by (simp add: ok_def any_def)

lemma ok_sq:
  assumes "ok P m" "\<And>s a s'. I s \<Longrightarrow> P s \<Longrightarrow> m s = (Inr a, s') \<Longrightarrow> R a s'" "\<And>a. ok (R a) (f a)"
  shows "ok P (sq m f)"
  unfolding ok_def
proof (intro allI impI)
  fix s assume s: "I s \<and> P s"
  obtain r s' where m: "m s = (r, s')" by (cases "m s")
  with assms(1) s have "I s'" "r \<noteq> Inl Waiting" by (force simp: ok_def)+
  then show "I (snd (sq m f s)) \<and> fst (sq m f s) \<noteq> Inl Waiting"
    using m s assms(2) [of s _ s'] assms(3) by (cases r) (auto simp: sq_def ok_def)
qed

lemma ok_sq_any: "ok any m \<Longrightarrow> (\<And>a. ok any (f a)) \<Longrightarrow> ok P (sq m f)"
  by (rule ok_weaken, rule ok_sq [where R = "\<lambda>_. any"]) (auto simp: any_def)

lemma ok_if: "ok P a \<Longrightarrow> ok P b \<Longrightarrow> ok P (if c then a else b)" by simp

lemma ok_option: "ok P a \<Longrightarrow> (\<And>x. ok P (f x)) \<Longrightarrow> ok P (case p of None \<Rightarrow> a | Some x \<Rightarrow> f x)" by (cases p) auto

lemma ok_sum: "(\<And>x. ok P (f x)) \<Longrightarrow> (\<And>x. ok P (g x)) \<Longrightarrow> ok P (case p of Inl x \<Rightarrow> f x | Inr x \<Rightarrow> g x)"
  by (cases p) auto

lemma ok_prod: "(\<And>x y. ok P (f x y)) \<Longrightarrow> ok P (case p of (x, y) \<Rightarrow> f x y)" by (cases p) auto

lemma ok_error: "(\<And>x. ok P (f x)) \<Longrightarrow> (\<And>x. ok P (g x)) \<Longrightarrow> ok P h \<Longrightarrow>
    ok P (case e of AuthError x \<Rightarrow> f x | DbErr s \<Rightarrow> g s | GobErr \<Rightarrow> h)" by (cases e) auto

lemmas ok_cases = ok_if ok_option ok_sum ok_prod ok_error

lemma ok_ret: "ok any (ret x)" "ok any (internal e)" "ok any (external e)" "ok any the_event"
  by (simp_all add: ok_def ret_def internal_def external_def the_event_def)

lemma ok_panic: "ok any (panic_or m)" by (cases m) (simp_all add: ok_def panic_or_def)

lemma ok_notice: "ok any (notice n m)" by (simp add: ok_def notice_def out)

lemma ok_notices: "ok any (notices n ms)"
  by (induction ms) (auto intro!: ok_ret ok_sq_any ok_notice)

lemma ok_user: "ok any (user_at p)" "ok any (channel_name_at p)"
  by (auto simp: ok_def user_at_def channel_name_at_def panic_or_def map_sum_def split: sum.splits)

lemma ok_event_user: "ok any event_user"
  unfolding event_user_def by (intro ok_sq_any ok_ret ok_user)

lemma ok_bot_store: "(\<And>st. store_step D st (snd (f st))) \<Longrightarrow> ok any (bot_store f)"
  by (auto simp: ok_def bot_store_def store split: option.splits prod.splits) (metis snd_conv store)

lemma ok_event_store: "(\<And>st. store_step D st (snd (f st))) \<Longrightarrow> ok any (event_store f)"
  unfolding event_store_def by (intro ok_sq_any ok_ret ok_if ok_bot_store ok_panic)

lemma ok_account_at: "ok any (account_at p)"
  unfolding account_at_def by (intro ok_sq_any ok_panic ok_bot_store) (simp add: store_step.same)

lemma ok_or_internal: "ok any (or_internal r)"
  unfolding or_internal_def by (intro ok_cases ok_ret)

lemma ok_close: "(\<And>a. ok (\<lambda>s. ce_closed (ss_ev s)) (f a)) \<Longrightarrow> ok P (sq close_event f)"
proof (rule ok_sq [where R = "\<lambda>_ s. ce_closed (ss_ev s)"])
  show "ok P close_event" by (auto simp: ok_def close_event_def split: prod.splits intro: close)
  show "close_event s = (Inr a, s') \<Longrightarrow> ce_closed (ss_ev s')" for s :: "'d Session" and a s'
    by (auto simp: close_event_def split: prod.splits dest: store_hold.holds_close)
qed

lemma ok_lock: "(\<And>a. ok any (f a)) \<Longrightarrow> ok (\<lambda>s. ce_closed (ss_ev s)) (sq lock_store f)"
  by (rule ok_sq [where R = "\<lambda>_. any"]) (auto simp: ok_def lock_store_def any_def)

lemma account_at_allocated: "account_at (Some r) s = (Inr a, s') \<Longrightarrow> allocated r s'"
  by (auto simp: account_at_def sq_def panic_or_def bot_store_def deref_def allocated_def split: option.splits)

lemma ok_find: "(\<And>r a. ok (allocated r) (f r a)) \<Longrightarrow> ok P (sq (find_account D n) (\<lambda>(r, a). f r a))"
proof (rule ok_sq [where R = "\<lambda>(r, a). allocated r"])
  show "ok P (find_account D n)"
    unfolding find_account_def by (intro ok_sq_any ok_bot_store store_step.find ok_or_internal ok_option ok_ret ok_account_at)
  show "find_account D n s = (Inr a, s') \<Longrightarrow> (case a of (r, a) \<Rightarrow> allocated r) s'" for s a s'
    by (auto simp: find_account_def sq_run internal_def ret_def split: prod.splits sum.splits option.splits
        dest!: account_at_allocated)
qed auto

lemma ok_change: "(\<And>a. ok (allocated r) (f a)) \<Longrightarrow> ok (allocated r) (sq (change_account r u) f)"
proof (rule ok_sq [where R = "\<lambda>_. allocated r"])
  show "ok (allocated r) (change_account r u)"
    by (auto simp: ok_def change_account_def bot_store_def allocated_def intro!: store store_step.change)
qed (auto simp: change_account_def bot_store_def allocated_def split: option.splits)

lemma ok_save_account: "ok (allocated r) (save_account D r)"
  unfolding save_account_def
proof (rule ok_sq [where R = "\<lambda>_. any"])
  show "ok (allocated r) (bot_store (SaveUser (dp_kv D) (dp_gob D) r))"
    unfolding ok_def
  proof (intro allI impI)
    fix s assume "I s \<and> allocated r s"
    then obtain st where "I s" "w_store (ss_w s) = Some st" "heapSU st r \<noteq> None" by (auto simp: allocated_def)
    with store [OF this(1,2) store_step.save [OF this(3)]]
    show "I (snd (bot_store (SaveUser (dp_kv D) (dp_gob D) r) s)) \<and> fst (bot_store (SaveUser (dp_kv D) (dp_gob D) r) s) \<noteq> Inl Waiting"
      by (simp add: bot_store_def case_prod_beta)
  qed
qed (auto simp: any_def intro: ok_or_internal)

lemma ok_save: "(\<And>a. ok any (f a)) \<Longrightarrow> ok (allocated r) (sq (save_account D r) f)"
  by (rule ok_sq [OF ok_save_account, where R = "\<lambda>_. any"]) (auto simp: any_def)

lemma ok_save_if: "(\<And>a. ok any (f a)) \<Longrightarrow> ok (allocated r) (sq (if b then save_account D r else ret ()) f)"
  by (split if_split, intro conjI impI) (rule ok_save ok_sq_any [OF ok_ret(1)]; assumption)+

lemma ok_alloc: "(\<And>r. ok (allocated r) (f r)) \<Longrightarrow> ok P (sq (bot_store (alloc_user u)) f)"
proof (rule ok_sq [where R = allocated])
  show "ok P (bot_store (alloc_user u))" by (rule ok_weaken, rule ok_bot_store, rule store_step.alloc)
qed (auto simp: bot_store_def alloc_user_def allocated_def split: option.splits)

lemma ok_username: "ok any username_arg"
  unfolding username_arg_def by (intro ok_sq_any ok_ret ok_if ok_event_user)

lemma ok_require_G: "ok any require_G"
  unfolding require_G_def by (intro ok_sq_any ok_ret ok_if ok_account_at)

lemma ok_target_or: "ok any own \<Longrightarrow> ok any (target_or own f)"
  unfolding target_or_def by (intro ok_sq_any ok_ret ok_option ok_account_at ok_require_G)

lemma ok_not_authed: "ok any (not_authed h)"
  unfolding not_authed_def by (intro ok_sq_any ok_ret ok_if ok_panic ok_event_store) (simp add: store_step.same)

lemma ok_not_authed_host: "ok any (\<lambda>s. not_authed (event_host s) s)"
  using ok_not_authed by (simp add: ok_def)

lemma ok_list_users: "ok any (list_users q a b c n)"
  unfolding list_users_def Let_def
  by (intro ok_sq_any ok_or_internal ok_if ok_notice ok_notices ok_bot_store) (simp add: store_step.same)

lemmas ok_steps = ok_close ok_lock ok_find ok_change ok_save ok_save_if ok_alloc ok_sq_any

lemmas ok_atoms = ok_ret [THEN ok_weaken] ok_panic [THEN ok_weaken] ok_notice [THEN ok_weaken] ok_notices [THEN ok_weaken]
  ok_user [THEN ok_weaken] ok_event_user [THEN ok_weaken] ok_account_at [THEN ok_weaken] ok_or_internal [THEN ok_weaken]
  ok_username [THEN ok_weaken] ok_require_G [THEN ok_weaken] ok_target_or [THEN ok_weaken]
  ok_not_authed_host [THEN ok_weaken] ok_not_authed [THEN ok_weaken] ok_list_users [THEN ok_weaken]
  ok_bot_store [THEN ok_weaken] ok_event_store [THEN ok_weaken]
  store_step.find store_step.remove store_step.auth_user store_step.first

lemmas ok_rules = ok_steps ok_cases ok_atoms

lemma ok_register: "ok any (register D)"
  unfolding register_def Let_def by (rule ok_rules)+

lemma ok_auth: "ok any (auth D)"
  unfolding auth_def Let_def by (rule ok_rules)+

lemma ok_giveHelper: "ok any (giveHelper D g)"
  unfolding giveHelper_def Let_def by (rule ok_rules)+

lemma ok_takeHelper: "ok any (takeHelper D g)"
  unfolding takeHelper_def Let_def by (rule ok_rules)+

lemma ok_logouts:
  "ok any (bot_store (\<lambda>st. ((), LogoutByUsername n st)))" "ok any (bot_store (\<lambda>st. ((), Logout net host st)))"
  "ok any (bot_store (\<lambda>st. ((), if c then LogoutByUsername n st else Logout net host st)))"
  by (rule ok_bot_store; simp add: store_step.log_out store_step.log_out_user)+

lemmas ok_logout_steps = ok_logouts [THEN ok_sq_any]

lemma ok_logout: "ok any logout"
  unfolding logout_def Let_def by (rule ok_logout_steps ok_rules)+

lemma ok_deluser: "ok any (deluser D)"
  unfolding deluser_def Let_def by (rule ok_logout_steps ok_rules)+

lemma ok_delme: "ok any (delme D)"
  unfolding delme_def Let_def by (rule ok_logout_steps ok_rules)+

lemma ok_passwd: "ok any (passwd D)"
  unfolding passwd_def Let_def by (rule ok_rules)+

lemma ok_mask_helper: "ok any (mask_helper D f good bad)"
  unfolding mask_helper_def Let_def by (rule ok_rules)+

lemma ok_resetpasswd: "ok any (resetpasswd D)"
  unfolding resetpasswd_def Let_def by (rule ok_rules)+

lemma ok_shows: "ok any (access_cmd D)" "ok any (gusers D)" "ok any (susers D)" "ok any (users_cmd D)" "ok any masks_cmd"
    "ok any (help_cmd D reg)"
  unfolding access_cmd_def gusers_def susers_def users_cmd_def masks_cmd_def help_cmd_def Let_def by (rule ok_rules)+

lemma ok_gives: "ok any (ggive D)" "ok any (sgive D)" "ok any (give D)" "ok any (gtake D)" "ok any (stake D)" "ok any (take_cmd D)"
  unfolding ggive_def sgive_def give_def gtake_def stake_def take_cmd_def
  by (rule ok_giveHelper ok_takeHelper ok_rules)+

lemma ok_core_switch: "ok any (core_switch D reg cmd)"
  unfolding core_switch_def addmask_def delmask_def
  by (intro ok_if ok_register ok_auth ok_logout ok_deluser ok_delme ok_passwd ok_mask_helper ok_resetpasswd ok_shows
      ok_gives ok_ret)

text \<open>A command returns, and leaves a session with the invariant.\<close>

lemma core_Cmd_keeps:
  assumes "I \<lparr>ss_ev = ev, ss_w = w, ss_out = []\<rparr>"
  shows "\<exists>err s. core_Cmd D reg cmd ev w = Some (err, s) \<and> I s"
proof -
  let ?s = "\<lparr>ss_ev = ev, ss_w = w, ss_out = []\<rparr>"
  obtain r s where r: "core_switch D reg cmd ?s = (r, s)" by (cases "core_switch D reg cmd ?s")
  have "I (snd (core_switch D reg cmd ?s)) \<and> fst (core_switch D reg cmd ?s) \<noteq> Inl Waiting"
    using ok_core_switch [of reg cmd] assms unfolding ok_def any_def by simp
  with r have "I s" "r \<noteq> Inl Waiting" by simp_all
  moreover have "\<exists>err. core_Cmd D reg cmd ev w = Some (err, s)"
  proof (cases r)
    case (Inl x)
    then show ?thesis using r \<open>r \<noteq> Inl Waiting\<close> by (cases x) (simp_all add: core_Cmd_def)
  qed (simp add: core_Cmd_def r)
  ultimately show ?thesis by blast
qed

end

section \<open>The commands keep the store and the locks\<close>

lemma IsFirst_other: "IsFirst K st = (r, st') \<Longrightarrow> cache st' = cache st \<and> heapSU st' = heapSU st \<and> authed st' = authed st \<and> nextSU st' = nextSU st"
  by (auto simp: IsFirst_def split: if_splits sum.splits option.splits prod.splits)

lemma store_step_inv: "store_step D st st' \<Longrightarrow> store_inv st \<Longrightarrow> store_inv st'"
proof (induction rule: store_step.induct)
  case (find st n)
  then show ?case using FindUser_inv(1) by (metis prod.collapse)
next
  case (remove st n)
  then show ?case using RemoveUser_inv by (metis prod.collapse)
next
  case (auth_user st net host n pw)
  then show ?case using AuthUser_inv by (metis prod.collapse)
next
  case (first st)
  then show ?case using IsFirst_other [of "dp_kv D" st "fst (IsFirst (dp_kv D) st)" "snd (IsFirst (dp_kv D) st)"]
    by (simp add: store_inv_def)
next
  case (save st r)
  then show ?case using SaveUser_inv by (metis prod.collapse)
next
  case (alloc st u)
  then show ?case using alloc_user_inv by (metis prod.collapse)
qed (auto simp: store_inv_def Logout_def LogoutByUsername_def split: option.splits if_splits)

definition session_store_inv :: "'d Session \<Rightarrow> bool" where
  "session_store_inv s \<longleftrightarrow> (\<forall>st. w_store (ss_w s) = Some st \<longrightarrow> store_inv st)"

interpretation core_store: session_invariant D session_store_inv for D
  by unfold_locales (auto simp: session_store_inv_def dest: store_step_inv CE_Close_states)

definition locks_from :: "CmdEvent \<Rightarrow> 'd World \<Rightarrow> 'd Session \<Rightarrow> bool" where
  "locks_from e w s \<longleftrightarrow>
     w_known (ss_w s) = w_known w \<and> store_hold.holds (ss_ev s) (ss_w s) = store_hold.holds e w
     \<and> w_stateLocks (ss_w s) = w_stateLocks w + (if w_known w then w_storeLocks (ss_w s) - w_storeLocks w else 0)"

interpretation core_locks: session_invariant D "locks_from e w" for D :: "'d Deps" and e and w :: "'d World"
proof
  fix s :: "'d Session" and ev w'
  assume "locks_from e w s" "CE_Close (ss_ev s) (ss_w s) = (ev, w')"
  then show "locks_from e w (s\<lparr>ss_ev := ev, ss_w := w'\<rparr>)"
    using store_hold.holds_close [of "ss_ev s" "ss_w s" ev w'] CE_Close_states [of "ss_ev s" "ss_w s" ev w']
    by (auto simp: locks_from_def)
qed (auto simp: locks_from_def store_hold.holds_def)

text \<open>The core commands as a handler of the dispatcher: its only exported method is \<^verbatim>\<open>Cmd\<close>.\<close>

definition core_invoke :: "'d Deps \<Rightarrow> 'h Registry \<Rightarrow> (CoreErr, 'd) invocation" where
  "core_invoke D reg m e w =
     (case m of
        CmdMethod cmd \<Rightarrow> (case core_Cmd D reg cmd e w of None \<Rightarrow> (Inr None, e, w) | Some (err, s) \<Rightarrow> (Inr err, ss_ev s, ss_w s))
      | Named _ \<Rightarrow> (Inr None, e, w))"

lemma core_lock_ok: "lock_ok (core_invoke D reg)"
  unfolding lock_ok_def
proof (intro allI impI)
  fix m e x r e' x'
  assume i: "core_invoke D reg m e x = (r, e', x')"
  show "w_known x' = w_known x
      \<and> w_storeLocks x' - (if ce_closed e' then 0 else 1) = w_storeLocks x - (if ce_closed e then 0 else 1)
      \<and> w_stateLocks x' = w_stateLocks x + (if w_known x then w_storeLocks x' - w_storeLocks x else 0)"
  proof (cases m)
    case (CmdMethod cmd)
    have "locks_from e x \<lparr>ss_ev = e, ss_w = x, ss_out = []\<rparr>" by (simp add: locks_from_def)
    from core_locks.core_Cmd_keeps [OF this, of D reg cmd]
    obtain err s where "core_Cmd D reg cmd e x = Some (err, s)" "locks_from e x s" by blast
    with i CmdMethod show ?thesis by (auto simp: core_invoke_def locks_from_def store_hold.holds_def)
  qed (use i in \<open>simp add: core_invoke_def\<close>)
qed

end
