(* ===== verification/CoreSecurity.thy ===== *)
theory CoreSecurity
  imports CoreProps
begin

text \<open>
  What the core commands do and allow: who may work on the account of another, what registration
  and a change of password leave in the store, the arithmetic of giving and taking flags, and the
  two ways to more access than was given.
\<close>

section \<open>Running a command\<close>

text \<open>A session whose pointers have targets: the user and the account that the dispatcher fills in.\<close>

definition live :: "CmdEvent \<Rightarrow> 'd World \<Rightarrow> User \<Rightarrow> 'd Store \<Rightarrow> bool" where
  "live ev w u store \<longleftrightarrow>
     (\<exists>st. w_state w = Some st \<and> the_user (ce_User ev) st = Inr u) \<and> w_store w = Some store \<and> ce_Store ev"

named_theorems core_run \<open>execution of the steps of a command\<close>

lemma same_store: "w_store w = Some st \<Longrightarrow> w\<lparr>w_store := Some st\<rparr> = w" by simp

lemma run_simps [core_run]:
  "ret x s = (Inr x, s)" "internal e s = (Inl (Returned (Some e) None), s)" "external e s = (Inl (Returned None (Some e)), s)"
  "the_event s = (Inr (ss_ev s), s)" "notice n tx s = (Inr (), s\<lparr>ss_out := ss_out s @ [(n, tx)]\<rparr>)"
  "sq m f s = (case m s of (Inl x, s) \<Rightarrow> (Inl x, s) | (Inr a, s) \<Rightarrow> f a s)"
  by (simp_all add: ret_def internal_def external_def the_event_def notice_def sq_def)

lemma run_or_internal [core_run]:
  "or_internal (Inr a) s = (Inr a, s)" "or_internal (Inl e) s = (Inl (Returned (Some (StoreFailed e)) None), s)"
  by (simp_all add: or_internal_def ret_def internal_def)

lemma run_event_user [core_run]: "live (ss_ev s) (ss_w s) u store \<Longrightarrow> event_user s = (Inr u, s)"
  by (auto simp: live_def event_user_def sq_def the_event_def user_at_def panic_or_def)

lemma run_bot_store [core_run]:
  "w_store (ss_w s) = Some st \<Longrightarrow> bot_store f s = (Inr (fst (f st)), s\<lparr>ss_w := (ss_w s)\<lparr>w_store := Some (snd (f st))\<rparr>\<rparr>)"
  by (simp add: bot_store_def case_prod_beta)

lemma run_account_at [core_run]:
  "w_store (ss_w s) = Some st \<Longrightarrow> heapSU st r = Some a \<Longrightarrow> account_at (Some r) s = (Inr a, s)"
  by (simp add: account_at_def sq_def panic_or_def bot_store_def deref_def same_store)

lemma run_close [core_run]:
  "close_event s = (Inr (), s\<lparr>ss_ev := fst (CE_Close (ss_ev s) (ss_w s)), ss_w := snd (CE_Close (ss_ev s) (ss_w s))\<rparr>)"
  by (simp add: close_event_def case_prod_beta)

lemma closed_facts [simp]:
  "ce_closed (fst (CE_Close e w))" "w_store (snd (CE_Close e w)) = w_store w"
  using store_hold.holds_close [of e w] CE_Close_states [of e w] by (metis prod.collapse)+

lemma run_lock [core_run]: "ce_closed (ss_ev s) \<Longrightarrow> lock_store s = (Inr (), s)"
  by (simp add: lock_store_def)

lemma run_find [core_run]:
  assumes "w_store (ss_w s) = Some st" "FindUser (dp_kv D) (dp_gob D) n st = (Inr (Some r), st')" "heapSU st' r = Some a"
  shows "find_account D n s = (Inr (r, a), s\<lparr>ss_w := (ss_w s)\<lparr>w_store := Some st'\<rparr>\<rparr>)"
  using assms by (simp add: find_account_def run_simps run_bot_store run_or_internal run_account_at)

lemma run_change [core_run]:
  "w_store (ss_w s) = Some st \<Longrightarrow>
   change_account r u s = (Inr (), s\<lparr>ss_w := (ss_w s)\<lparr>w_store := Some (st\<lparr>heapSU := (heapSU st)(r \<mapsto> u)\<rparr>)\<rparr>\<rparr>)"
  by (simp add: change_account_def bot_store_def)

lemma SaveUser_ok:
  assumes "heapSU st r = Some u" "enc_user G u = Some b"
  shows "fst (SaveUser K G r st) = Inr ()" "heapSU (snd (SaveUser K G r st)) = heapSU st"
    "cache (snd (SaveUser K G r st)) (su_Username u) = Some (Some r)" "authed (snd (SaveUser K G r st)) = authed st"
    "db (snd (SaveUser K G r st)) = snd (kv_set K (su_Username u) b (db st))"
  using assms by (simp_all add: SaveUser_def Let_def)

lemma run_save [core_run]:
  assumes "w_store (ss_w s) = Some st" "heapSU st r = Some u" "enc_user (dp_gob D) u = Some b"
  shows "save_account D r s = (Inr (), s\<lparr>ss_w := (ss_w s)\<lparr>w_store := Some (snd (SaveUser (dp_kv D) (dp_gob D) r st))\<rparr>\<rparr>)"
  using assms by (simp add: save_account_def run_simps run_bot_store SaveUser_ok run_or_internal)

section \<open>Safety\<close>

text \<open>
  C7: Every core command returns, whatever its event holds: none of them waits for the write lock on
  the store while its own event keeps the read lock, and a panic is recovered.  It leaves the store
  with its invariant, and when its goroutine has ended all read locks of the event are released.
\<close>

theorem core_commands_safe:
  assumes "\<forall>st. w_store w = Some st \<longrightarrow> store_inv st"
  shows "(\<exists>err s. core_Cmd D reg cmd ev w = Some (err, s) \<and> (\<forall>st. w_store (ss_w s) = Some st \<longrightarrow> store_inv st))
    \<and> (case run_command (\<lambda>_. None) (core_invoke D reg) cmd ev w d of
         Inr (err, w2, d2) \<Rightarrow> w_storeLocks w2 = w_storeLocks w - (if ce_closed ev then 0 else 1)
           \<and> w_stateLocks w2 = w_stateLocks w - (if w_known w \<and> \<not> ce_closed ev then 1 else 0)
       | Inl p \<Rightarrow> waiter d \<le> 0)"
proof -
  have "\<exists>err s. core_Cmd D reg cmd ev w = Some (err, s) \<and> session_store_inv s"
    using assms by (intro core_store.core_Cmd_keeps) (simp add: session_store_inv_def)
  moreover have "case run_command (\<lambda>_. None) (core_invoke D reg) cmd ev w d of
         Inr (err, w2, d2) \<Rightarrow> w_storeLocks w2 = w_storeLocks w - (if ce_closed ev then 0 else 1)
           \<and> w_stateLocks w2 = w_stateLocks w - (if w_known w \<and> \<not> ce_closed ev then 1 else 0)
       | Inl p \<Rightarrow> waiter d \<le> 0"
  proof (cases "run_command (\<lambda>_. None) (core_invoke D reg) cmd ev w d")
    case (Inl p)
    then show ?thesis by (auto simp: run_command_def HandlerFinished_def split: prod.splits if_splits)
  next
    case (Inr x)
    then obtain err w2 d2 where x: "run_command (\<lambda>_. None) (core_invoke D reg) cmd ev w d = Inr (err, w2, d2)" by (cases x) auto
    from run_command_locks [OF this core_lock_ok] x show ?thesis by auto
  qed
  ultimately show ?thesis by (auto simp: session_store_inv_def)
qed

section \<open>Accounts of others\<close>

lemma target_refused:
  assumes "require_G s = (Inl x, s)" "ce_TargetStoredUser (ss_ev s) ''user'' \<noteq> None"
  shows "target_or own f s = (Inl x, s)"
  using assms by (auto simp: target_or_def run_simps)


section \<open>Passwords\<close>


text \<open>
  A password is reset by anyone who is authenticated.  Whatever the access of the account
  \<^verbatim>\<open>p\<close> that gives the command, the target account gets a new password, and the new password is sent to the
  nick that the command names.
\<close>

theorem resetpasswd_unguarded:
  assumes "live ev w u store" and "ce_TargetStoredUser ev ''user'' = Some t" and "heapSU store t = Some victim"
    and "w_state w = Some state" and "the_user (ce_TargetUsers ev ''nick'') state = Inr tu"
    and "FindUser (dp_kv D) (dp_gob D) (su_Username victim) store = (Inr (Some r), store')" and "heapSU store' r = Some acc"
    and "ResetPassword (dp_gen D) (dp_rnd D) acc = (pw, True, acc')" and "enc_user (dp_gob D) acc' = Some b"
    and bcrypt: "\<And>p h. dp_gen D p = Some h \<Longrightarrow> dp_cmp D h p"
  shows "\<exists>s st. core_Cmd D reg ''setpasswd'' (ev\<lparr>ce_StoredUser := p\<rparr>) w = Some (None, s)
    \<and> w_store (ss_w s) = Some st \<and> heapSU st = (heapSU store')(r \<mapsto> acc') \<and> VerifyPassword (dp_cmp D) pw acc'
    \<and> ss_out s = [(User_Nick u, ResetpasswdSuccess), (User_Nick tu, ResetpasswdSuccessTarget (User_Nick u) pw)]"
proof -
  let ?ev = "ev\<lparr>ce_StoredUser := p\<rparr>"
  let ?s = "\<lparr>ss_ev = ?ev, ss_w = w, ss_out = []\<rparr>"
  have st: "w_store w = Some store" using assms(1) by (simp add: live_def)
  have eu: "event_user ?s = (Inr u, ?s)" by (rule run_event_user) (use assms(1) in \<open>simp add: live_def\<close>)
  have tu: "user_at (ce_TargetUsers ev ''nick'') ?s = (Inr tu, ?s)" using assms(4,5) by (simp add: user_at_def panic_or_def deref_def)
  have "account_at (ce_TargetStoredUser ev ''user'') ?s = (Inr victim, ?s)" using st assms(2,3) by (simp add: run_account_at)
  moreover have "VerifyPassword (dp_cmp D) pw acc'"
    using assms(8) bcrypt by (auto simp: ResetPassword_def SetPassword_def Let_def VerifyPassword_def split: option.splits)
  ultimately show ?thesis
    by (simp add: resetpasswd_def core_Cmd_def core_switch_def run_simps run_close run_lock run_find run_change run_save
        Let_def eu tu st assms(6-9) SaveUser_ok)
qed

section \<open>Registration\<close>

lemma NewStoredUser_Inr:
  assumes "NewStoredUser gen un pw [] = Inr a"
  obtains h where "gen pw = Some h" "a = empty_user\<lparr>su_Username := to_lower un, su_Password := h\<rparr>"
  using assms that by (auto simp: NewStoredUser_def SetPassword_def split: if_splits option.splits)

lemma AuthUser_saved:
  assumes "authed st (net @ host) = None" "cache st (to_lower un) = Some (Some r)" "heapSU st r = Some a"
    "su_Masks a = []" "VerifyPassword cmp pw a"
  shows "AuthUser K G cmp net host un pw st = (Inr r, st\<lparr>authed := (authed st)(net @ host \<mapsto> r)\<rparr>)"
  using assms by (simp add: AuthUser_def FindUser_def ValidateMask_def)

lemma HasFlag_all_access: "HasFlag f all_access \<longleftrightarrow> is_upper f \<or> is_lower f"
  by (auto simp: HasFlag_iff_bit all_access_def flag_index_def bit_not_iff_eq is_upper_def is_lower_def split: if_splits)

lemma HasLevel_all_access: "Access_HasLevel l all_access" by (simp add: Access_HasLevel_def all_access_def)

text \<open>The name to register: the argument, or else the username of the sender without tildes.\<close>

definition chosen_name :: "CmdEvent \<Rightarrow> User \<Rightarrow> string" where
  "chosen_name ev u =
     (if CE_GetArg ''username'' ev = [] then trim_left (\<lambda>c. c = CHR ''~'') (User_Username u) else CE_GetArg ''username'' ev)"

text \<open>
  C9: Registration of a name that is free makes an account with the hash of the password, stores it under
  the lower-case name and authenticates the host of the sender for it.  The first account ever
  gets all flags at the highest level; every other one gets no access at all.
\<close>

theorem register_account:
  assumes "live ev w u store" and "store_inv store" and "ce_StoredUser ev = None"
    and "GetAuthedUser (eNetworkID (ce_event ev)) (User_Host u) store = None"
    and "FindUser (dp_kv D) (dp_gob D) (chosen_name ev u) store = (Inr None, store1)"
    and "NewStoredUser (dp_gen D) (chosen_name ev u) (CE_GetArg ''password'' ev) [] = Inr a"
    and "IsFirst (dp_kv D) store1 = (Inr first, store2)"
    and "acc = (if first then a\<lparr>su_Global := Some all_access\<rparr> else a)" and "enc_user (dp_gob D) acc = Some b"
    and bcrypt: "\<And>p h. dp_gen D p = Some h \<Longrightarrow> dp_cmp D h p"
  shows "\<exists>s st r. core_Cmd D reg ''register'' ev w = Some (None, s) \<and> w_store (ss_w s) = Some st
    \<and> GetAuthedUser (eNetworkID (ce_event ev)) (User_Host u) st = Some r \<and> heapSU st r = Some acc
    \<and> db st = snd (kv_set (dp_kv D) (to_lower (chosen_name ev u)) b (db store2))
    \<and> ss_out s = [(User_Nick u, if first then RegisterSuccessFirst (chosen_name ev u) else RegisterSuccess (chosen_name ev u))]
    \<and> (\<forall>net ch f. SU_HasFlag net ch f acc \<longleftrightarrow> first \<and> (is_upper f \<or> is_lower f))
    \<and> (\<forall>net ch. SU_HasLevel net ch 255 acc \<longleftrightarrow> first)"
proof -
  let ?s = "\<lparr>ss_ev = ev, ss_w = w, ss_out = []\<rparr>" and ?net = "eNetworkID (ce_event ev)"
  have st: "w_store w = Some store" "ce_Store ev" using assms(1) by (simp_all add: live_def)
  have eu: "event_user (s :: 'a Session) = (Inr u, s)" if "ss_ev s = ev" "w_state (ss_w s) = w_state w" for s
    using assms(1) that by (auto simp: live_def event_user_def sq_def the_event_def user_at_def panic_or_def)
  have name: "username_arg ?s = (Inr (chosen_name ev u), ?s)" by (simp add: username_arg_def chosen_name_def run_simps eu)
  have "event_host ?s = Inr (User_Host u)" using assms(1) by (auto simp: live_def event_host_def)
  then have free: "not_authed (event_host ?s) ?s = (Inr (), ?s)"
    using st assms(3,4) by (simp add: not_authed_def run_simps panic_or_def event_store_def run_bot_store)
  obtain h where h: "dp_gen D (CE_GetArg ''password'' ev) = Some h"
    "a = empty_user\<lparr>su_Username := to_lower (chosen_name ev u), su_Password := h\<rparr>"
    using assms(6) by (rule NewStoredUser_Inr)
  have acc: "su_Username acc = to_lower (chosen_name ev u)" "su_Masks acc = []" "VerifyPassword (dp_cmp D) (CE_GetArg ''password'' ev) acc"
    using assms(8) h bcrypt [OF h(1)] by (simp_all add: VerifyPassword_def empty_user_def)
  let ?st3 = "snd (alloc_user acc store2)" and ?r = "nextSU store2"
  let ?st4 = "snd (SaveUser (dp_kv D) (dp_gob D) ?r ?st3)"
  have st3: "fst (alloc_user acc store2) = ?r" "heapSU ?st3 ?r = Some acc" "authed ?st3 = authed store2" "db ?st3 = db store2"
    by (simp_all add: alloc_user_def)
  have "authed store2 = authed store" using FindUser_inv(2) [OF assms(2,5)] IsFirst_other [OF assms(7)] by simp
  then have "authed ?st4 (?net @ User_Host u) = None"
    using assms(4) st3 SaveUser_ok(4) [OF st3(2) assms(9)] by (simp add: GetAuthedUser_def)
  moreover note st4 = SaveUser_ok [OF st3(2) assms(9), of "dp_kv D"]
  ultimately have au: "AuthUser (dp_kv D) (dp_gob D) (dp_cmp D) ?net (User_Host u) (chosen_name ev u) (CE_GetArg ''password'' ev) ?st4
      = (Inr ?r, ?st4\<lparr>authed := (authed ?st4)(?net @ User_Host u \<mapsto> ?r)\<rparr>)"
    using st3 acc by (intro AuthUser_saved) simp_all
  have run: "\<exists>s. core_Cmd D reg ''register'' ev w = Some (None, s) \<and> w_store (ss_w s) = Some (?st4\<lparr>authed := (authed ?st4)(?net @ User_Host u \<mapsto> ?r)\<rparr>)
      \<and> ss_out s = [(User_Nick u, if first then RegisterSuccessFirst (chosen_name ev u) else RegisterSuccess (chosen_name ev u))]"
    using st assms(5-9) eu name free st3(1,2) au
    by (simp add: register_def core_Cmd_def core_switch_def run_simps run_close run_lock run_bot_store run_or_internal run_save
        event_store_def Let_def)
  have "\<forall>net ch f. SU_HasFlag net ch f acc \<longleftrightarrow> first \<and> (is_upper f \<or> is_lower f)"
    "\<forall>net ch. SU_HasLevel net ch 255 acc \<longleftrightarrow> first"
    using assms(8) h(2) by (auto simp: SU_HasFlag_tiers SU_HasLevel_tiers tiers_def su_gets empty_user_def HasFlag_all_access
        HasLevel_all_access)
  with run st3 st4 acc(1) show ?thesis by (auto simp: GetAuthedUser_def)
qed

section \<open>Giving and taking\<close>

lemma flag_index_letter_iff: "flag_index f \<noteq> None \<longleftrightarrow> is_upper f \<or> is_lower f"
  by (simp add: flag_index_def)

lemma HasFlag_Level [simp]: "HasFlag f (x\<lparr>Level := l\<rparr>) = HasFlag f x" by (simp add: HasFlag_def)

lemma Level_SetFlags [simp]: "Level (SetFlags fs x) = Level x" by (simp add: SetFlags_def)

definition the_access :: "Access option \<Rightarrow> Access" where
  "the_access p = (case p of None \<Rightarrow> zero_access | Some x \<Rightarrow> x)"

text \<open>What one of the three give functions leaves of an access: the level if one is given, and the flags.\<close>

definition given :: "8 word \<Rightarrow> string \<Rightarrow> Access \<Rightarrow> Access \<Rightarrow> bool" where
  "given level flags x y \<longleftrightarrow>
     Level y = (if level > 0 then level else Level x)
     \<and> (\<forall>f. HasFlag f y \<longleftrightarrow> HasFlag f x \<or> (is_upper f \<or> is_lower f) \<and> f \<in> set flags)"

lemma given_filtered:
  assumes "level > 0 \<or> flags \<noteq> []"
  shows "given level flags x
    ((if flags \<noteq> [] then SetFlags [filterFlags flags (\<lambda>f. HasFlag f x)] else id) (if level > 0 then x\<lparr>Level := level\<rparr> else x))"
  using assms flag_index_letter_iff by (auto simp: given_def HasFlag_SetFlags filterFlags_def)

lemma given_none:
  "filterFlags flags (\<lambda>f. HasFlag f x) = [] \<Longrightarrow> given 0 flags x x"
  by (auto simp: given_def filterFlags_def filter_empty_conv)

text \<open>A location of access in an account: how to read it and how to change it.\<close>

locale access_slot =
  fixes get :: "StoredUser \<Rightarrow> Access option" and upd :: "(Access \<Rightarrow> Access) \<Rightarrow> StoredUser \<Rightarrow> StoredUser"
  assumes get_upd: "get (upd f a) = Some (f (the_access (get a)))"
begin

lemma flag_get: "(case get a of None \<Rightarrow> False | Some x \<Rightarrow> HasFlag f x) = HasFlag f (the_access (get a))"
  by (cases "get a") (simp_all add: the_access_def)

lemma give_slot:
  fixes a :: StoredUser and level :: "8 word" and flags :: string
  defines "a1 \<equiv> (if level > 0 then upd (\<lambda>x. x\<lparr>Level := level\<rparr>) a else a)"
  defines "filtered \<equiv> filterFlags flags (\<lambda>f. HasFlag f (the_access (get a1)))"
  assumes "level > 0 \<or> flags \<noteq> []"
  shows "given level flags (the_access (get a))
    (the_access (get (if flags \<noteq> [] \<and> filtered = [] \<and> level = 0 then a1 else if flags \<noteq> [] then upd (SetFlags [filtered]) a1 else a1)))"
proof -
  have fl: "filtered = filterFlags flags (\<lambda>f. HasFlag f (the_access (get a)))"
    by (auto simp: filtered_def a1_def get_upd the_access_def)
  show ?thesis
  proof (cases "flags \<noteq> [] \<and> filtered = [] \<and> level = 0")
    case True
    then show ?thesis using given_none fl by (simp add: a1_def)
  next
    case False
    then show ?thesis using given_filtered [OF assms(3), of "the_access (get a)"] fl
      by (auto simp: a1_def get_upd the_access_def word_gt_0)
  qed
qed

end

definition on_global :: "(Access \<Rightarrow> Access) \<Rightarrow> StoredUser \<Rightarrow> StoredUser" where
  "on_global f a = a\<lparr>su_Global := Some (f (the_global a))\<rparr>"

lemma GetNetwork_on_network:
  "GetNetwork n (on_network net f a) = (if to_lower n = to_lower net then Some (f (the_access (GetNetwork net a))) else GetNetwork n a)"
  by (auto simp: on_network_def ensureNetwork_def the_access_def su_gets split: option.splits)

interpretation global_slot: access_slot GetGlobal on_global
  by unfold_locales (simp add: GetGlobal_def on_global_def the_global_def the_access_def)

interpretation network_slot: access_slot "GetNetwork net" "on_network net" for net
  by unfold_locales (simp add: GetNetwork_on_network)

interpretation channel_slot: access_slot "SU_GetChannel net ch" "on_channel net ch" for net ch
  by unfold_locales (simp add: SU_GetChannel_on_channel the_access_def split: option.split)

lemma slot_flags:
  "HasGlobalFlag f a = HasFlag f (the_access (GetGlobal a))" "HasNetworkFlag net f a = HasFlag f (the_access (GetNetwork net a))"
  "HasChannelFlag net ch f a = HasFlag f (the_access (SU_GetChannel net ch a))"
  by (auto simp: HasGlobalFlag_def HasNetworkFlag_def HasChannelFlag_def the_access_def su_gets split: option.splits)

lemma slot_grants:
  "GrantGlobalLevel l = on_global (\<lambda>x. x\<lparr>Level := l\<rparr>)" "GrantGlobalFlags fs = on_global (SetFlags fs)"
  "GrantNetworkLevel net l = on_network net (\<lambda>x. x\<lparr>Level := l\<rparr>)" "GrantNetworkFlags net fs = on_network net (SetFlags fs)"
  "GrantChannelLevel net ch l = on_channel net ch (\<lambda>x. x\<lparr>Level := l\<rparr>)" "GrantChannelFlags net ch fs = on_channel net ch (SetFlags fs)"
  by (simp_all add: fun_eq_iff GrantGlobalLevel_def GrantGlobalFlags_def GrantNetworkLevel_def GrantNetworkFlags_def
      GrantChannelLevel_def GrantChannelFlags_def on_global_def)

lemma give_results:
  "snd (snd (ggive_fn a level flags)) =
     (let a1 = (if level > 0 then on_global (\<lambda>x. x\<lparr>Level := level\<rparr>) a else a);
          filtered = filterFlags flags (\<lambda>f. HasFlag f (the_access (GetGlobal a1))) in
      if flags \<noteq> [] \<and> filtered = [] \<and> level = 0 then a1 else if flags \<noteq> [] then on_global (SetFlags [filtered]) a1 else a1)"
  "snd (snd (sgive_fn net a level flags)) =
     (let a1 = (if level > 0 then on_network net (\<lambda>x. x\<lparr>Level := level\<rparr>) a else a);
          filtered = filterFlags flags (\<lambda>f. HasFlag f (the_access (GetNetwork net a1))) in
      if flags \<noteq> [] \<and> filtered = [] \<and> level = 0 then a1 else if flags \<noteq> [] then on_network net (SetFlags [filtered]) a1 else a1)"
  "snd (snd (give_fn net ch a level flags)) =
     (let a1 = (if level > 0 then on_channel net ch (\<lambda>x. x\<lparr>Level := level\<rparr>) a else a);
          filtered = filterFlags flags (\<lambda>f. HasFlag f (the_access (SU_GetChannel net ch a1))) in
      if flags \<noteq> [] \<and> filtered = [] \<and> level = 0 then a1 else if flags \<noteq> [] then on_channel net ch (SetFlags [filtered]) a1 else a1)"
  unfolding ggive_fn_def sgive_fn_def give_fn_def slot_flags slot_grants Let_def if_distrib [of snd] snd_conv by (rule refl)+

lemma on_global_other [simp]: "GetNetwork n (on_global f a) = GetNetwork n a" "SU_GetChannel n c (on_global f a) = SU_GetChannel n c a"
  by (simp_all add: on_global_def su_gets)

lemma on_network_other [simp]: "GetGlobal (on_network net f a) = GetGlobal a" "SU_GetChannel n c (on_network net f a) = SU_GetChannel n c a"
  by (simp_all add: on_network_def ensureNetwork_def su_gets split: option.splits)

text \<open>
  Giving is exact at its level of access.  \<^verbatim>\<open>ggive\<close>, \<^verbatim>\<open>sgive\<close> and \<^verbatim>\<open>give\<close>
  leave the global access, the access to the network and that to the channel with the level
  given, if one is, with the flags it had and with the letters that are given, and leave
  the other two levels of access as they are.
\<close>

theorem give_exact:
  assumes "level > 0 \<or> flags \<noteq> []"
  shows "(let a' = snd (snd (ggive_fn a level flags)) in
      given level flags (the_access (GetGlobal a)) (the_access (GetGlobal a'))
      \<and> GetNetwork n a' = GetNetwork n a \<and> SU_GetChannel n c a' = SU_GetChannel n c a)
    \<and> (let a' = snd (snd (sgive_fn net a level flags)) in
      given level flags (the_access (GetNetwork net a)) (the_access (GetNetwork net a'))
      \<and> GetGlobal a' = GetGlobal a \<and> SU_GetChannel n c a' = SU_GetChannel n c a)
    \<and> (let a' = snd (snd (give_fn net ch a level flags)) in
      given level flags (the_access (SU_GetChannel net ch a)) (the_access (SU_GetChannel net ch a'))
      \<and> GetGlobal a' = GetGlobal a \<and> GetNetwork n a' = GetNetwork n a)"
  unfolding give_results Let_def
  using global_slot.give_slot [OF assms, of a] network_slot.give_slot [OF assms, of net a]
    channel_slot.give_slot [OF assms, of net ch a]
  by simp


text \<open>Taking everything from someone with flags but no level takes nothing.\<close>

lemma take_all_needs_level:
  assumes "\<not> HasGlobalLevel 1 a" shows "gtake_fn a True False [] = (TakeFailureNo (su_Username a) (Access_String (su_Global a)), False, a)"
proof -
  have "\<not> HasGlobalFlags [[]] a" by (simp add: HasGlobalFlags_def Access_HasFlags_def split: option.splits)
  with assms show ?thesis by (simp add: gtake_fn_def)
qed

section \<open>The table\<close>

definition entry_ok :: "'h \<Rightarrow> core_entry \<Rightarrow> bool" where
  "entry_ok h e \<longleftrightarrow> en_Name e \<noteq> [] \<and> en_Desc e \<noteq> [] \<and> fst (parseArgs (core_cmd h e)) = None"

lemma core_table_ok: "list_all (entry_ok h) core_table" "distinct (map en_Name core_table)" "length core_table = 21"
  by code_simp+

lemma core_cmd_sel [simp]:
  "c_Cmd (core_cmd h e) = en_Name e" "c_Extension (core_cmd h e) = ''core''" "c_Description (core_cmd h e) = en_Desc e"
  "c_Handler (core_cmd h e) = Some h"
  by (simp_all add: core_cmd_def MkCmd_def)

abbreviation core_key :: "core_entry \<Rightarrow> string" where "core_key e \<equiv> makeIdentifier GLOBAL (en_Name e)"

lemma core_key_inj [simp]: "core_key e = core_key e' \<longleftrightarrow> en_Name e = en_Name e'" by (simp add: makeIdentifier_def)

lemma Register_core:
  assumes "entry_ok h e" "globalCmdRegistry reg (core_key e) = None"
  shows "Cmds_Register GLOBAL r (reg\<lparr>heapCmd := (heapCmd reg)(r \<mapsto> core_cmd h e)\<rparr>) c =
    (None, \<lparr>heapCmd = (heapCmd reg)(r \<mapsto> snd (parseArgs (core_cmd h e))),
            globalCmdRegistry = (globalCmdRegistry reg)(core_key e \<mapsto> r)\<rparr>, c\<lparr>commands := (commands c)(en_Name e \<mapsto> r)\<rparr>)"
  using assms by (cases "parseArgs (core_cmd h e)") (auto simp: Cmds_Register_def entry_ok_def Let_def)

text \<open>The entry is found in both tables at its place in the heap, with its arguments parsed.\<close>

definition found_at :: "'h \<Rightarrow> cref \<Rightarrow> 'h Registry \<Rightarrow> Cmds \<Rightarrow> core_entry \<Rightarrow> bool" where
  "found_at h r reg c e \<longleftrightarrow>
     commands c (en_Name e) = Some r \<and> globalCmdRegistry reg (core_key e) = Some r
     \<and> heapCmd reg r = Some (snd (parseArgs (core_cmd h e)))"

lemma register_entries_ok:
  assumes "list_all (entry_ok h) es" "distinct (map en_Name es)" "\<And>e. e \<in> set es \<Longrightarrow> globalCmdRegistry reg (core_key e) = None"
  shows "\<exists>reg' c'. register_entries h es r reg c = (None, reg', c')
    \<and> (\<forall>i < length es. found_at h (r + i) reg' c' (es ! i))
    \<and> (\<forall>n. n \<notin> en_Name ` set es \<longrightarrow> commands c' n = commands c n)
    \<and> (\<forall>k. k \<notin> core_key ` set es \<longrightarrow> globalCmdRegistry reg' k = globalCmdRegistry reg k)
    \<and> (\<forall>x < r. heapCmd reg' x = heapCmd reg x)"
  using assms
proof (induction es arbitrary: r reg c)
  case (Cons e es)
  let ?reg = "\<lparr>heapCmd = (heapCmd reg)(r \<mapsto> snd (parseArgs (core_cmd h e))),
      globalCmdRegistry = (globalCmdRegistry reg)(core_key e \<mapsto> r)\<rparr>"
  let ?c = "c\<lparr>commands := (commands c)(en_Name e \<mapsto> r)\<rparr>"
  have step: "register_entries h (e # es) r reg c = register_entries h es (r + 1) ?reg ?c"
    using Cons.prems Register_core [of h e reg r c] by simp
  have "globalCmdRegistry ?reg (core_key x) = None" if "x \<in> set es" for x
    using Cons.prems(2,3) that by (auto simp: rev_image_eqI)
  with Cons.prems obtain reg' c' where r: "register_entries h es (r + 1) ?reg ?c = (None, reg', c')"
    "\<forall>i < length es. found_at h (r + 1 + i) reg' c' (es ! i)"
    "\<forall>n. n \<notin> en_Name ` set es \<longrightarrow> commands c' n = commands ?c n"
    "\<forall>k. k \<notin> core_key ` set es \<longrightarrow> globalCmdRegistry reg' k = globalCmdRegistry ?reg k"
    "\<forall>x < r + 1. heapCmd reg' x = heapCmd ?reg x"
    using Cons.IH [of ?reg "r + 1" ?c] by auto
  have "core_key e \<notin> core_key ` set es" "en_Name e \<notin> en_Name ` set es" using Cons.prems(2) by auto
  with r(3-5) have "found_at h r reg' c' e" by (auto simp: found_at_def)
  then have "\<forall>i < length (e # es). found_at h (r + i) reg' c' ((e # es) ! i)"
    using r(2) by (auto simp: nth_Cons split: nat.split)
  with step r show ?case by auto
qed simp

lemma unregister_entries_ok:
  "globalCmdRegistry (fst (unregister_entries es reg c)) k = (if k \<in> core_key ` set es then None else globalCmdRegistry reg k)"
  "commands (snd (unregister_entries es reg c)) n = (if n \<in> en_Name ` set es then None else commands c n)"
  by (induction es arbitrary: reg c) (auto simp: Cmds_Unregister_def Let_def)

text \<open>
  All 21 core commands register with a bot that has none of their names: no declaration of
  arguments in the table is refused and no two names clash.  Each is then found under its name with
  its arguments parsed, other commands are as they were, and unregistering the core commands
  leaves the registry as it was before.
\<close>

theorem core_table_registers:
  assumes "\<And>e. e \<in> set core_table \<Longrightarrow> globalCmdRegistry reg (makeIdentifier GLOBAL (en_Name e)) = None"
  shows "\<exists>reg' c'. NewCoreCmds h r reg c = (None, reg', c')
    \<and> length core_table = 21 \<and> (\<forall>i < 21. found_at h (r + i) reg' c' (core_table ! i))
    \<and> (\<forall>n. n \<notin> en_Name ` set core_table \<longrightarrow> commands c' n = commands c n)
    \<and> globalCmdRegistry (fst (unregisterCoreCmds reg' c')) = globalCmdRegistry reg"
proof -
  obtain reg' c' where r: "register_entries h core_table r reg c = (None, reg', c')"
    "\<forall>i < 21. found_at h (r + i) reg' c' (core_table ! i)"
    "\<forall>n. n \<notin> en_Name ` set core_table \<longrightarrow> commands c' n = commands c n"
    "\<forall>k. k \<notin> core_key ` set core_table \<longrightarrow> globalCmdRegistry reg' k = globalCmdRegistry reg k"
    using register_entries_ok [OF core_table_ok(1) [of h] core_table_ok(2) assms, of r c] core_table_ok(3) by auto
  have "globalCmdRegistry (fst (unregisterCoreCmds reg' c')) k = globalCmdRegistry reg k" for k
    using r(4) assms by (auto simp: unregisterCoreCmds_def unregister_entries_ok)
  with r core_table_ok(3) show ?thesis by (auto simp: NewCoreCmds_def)
qed

section \<open>Samples\<close>

definition no_commands :: "unit Registry" where
  "no_commands = \<lparr>heapCmd = Map.empty, globalCmdRegistry = Map.empty\<rparr>"

definition ann_store :: "(string \<rightharpoonup> string) Store" where
  "ann_store = \<lparr>db = Map.empty, heapSU = [0 \<mapsto> sample_user], nextSU = 1, cache = [''ann'' \<mapsto> Some 0],
     authed = [''netme!u@h'' \<mapsto> 0], checkedFirst = True\<rparr>"

definition empty_store :: "(string \<rightharpoonup> string) Store" where
  "empty_store = \<lparr>db = Map.empty, heapSU = Map.empty, nextSU = 0, cache = Map.empty, authed = Map.empty, checkedFirst = False\<rparr>"

definition core_world :: "(string \<rightharpoonup> string) Store \<Rightarrow> (string \<rightharpoonup> string) World" where
  "core_world st = \<lparr>w_known = True, w_state = Some joined_state, w_store = Some st, w_stateLocks = 1, w_storeLocks = 1\<rparr>"

definition gob_for :: "StoredUser \<Rightarrow> gob" where
  "gob_for u = \<lparr>enc_user = (\<lambda>x. if x = u then Some ''u'' else None), dec_user = (\<lambda>b. if b = ''u'' then Some u else None),
     enc_channel = (\<lambda>_. None), dec_channel = (\<lambda>_. None)\<rparr>"

definition core_deps :: "StoredUser \<Rightarrow> (string \<rightharpoonup> string) Deps" where
  "core_deps u = \<lparr>dp_kv = mem_kv, dp_gob = gob_for u, dp_gen = Some, dp_cmp = (=), dp_rnd = (\<lambda>_. 0), dp_rng = (\<lambda>_. [])\<rparr>"

definition me_user :: User where "me_user = \<lparr>u_host = ''me!u@h'', u_name = []\<rparr>"

definition core_event :: "uref option \<Rightarrow> (string \<rightharpoonup> string) \<Rightarrow> CmdEvent" where
  "core_event a as = (new_event (said ''x''))\<lparr>ce_State := True, ce_Store := True, ce_User := Some 0, ce_StoredUser := a, ce_args := as,
     ce_TargetStoredUser := [''user'' \<mapsto> 0], ce_TargetUsers := [''nick'' \<mapsto> 0]\<rparr>"

lemma core_live: "live (core_event a as) (core_world st) me_user st"
  by (simp add: live_def core_event_def core_world_def joined_state_def the_user_def deref_def me_user_def)

lemma core_event_sel [simp]:
  "ce_StoredUser (core_event a as) = a" "CE_GetArg k (core_event a as) = (case as k of None \<Rightarrow> [] | Some x \<Rightarrow> x)"
  "ce_TargetStoredUser (core_event a as) k = (if k = ''user'' then Some 0 else None)"
  "ce_TargetUsers (core_event a as) k = (if k = ''nick'' then Some 0 else None)"
  "eNetworkID (ce_event (core_event a as)) = ''net''"
  by (simp_all add: core_event_def CE_GetArg_def new_event_def said_def NewEvent_def)

lemma ann_facts: "store_inv ann_store" "heapSU ann_store 0 = Some sample_user"
  "FindUser mem_kv G ''ann'' ann_store = (Inr (Some 0), ann_store)" "su_Username sample_user = ''ann''"
  "\<not> HasGlobalFlag f sample_user" "User_Nick me_user = ''me''" "User_Host me_user = ''me!u@h''"
proof -
  have "to_lower ''ann'' = ''ann''" "Nick ''me!u@h'' = ''me''" by code_simp+
  then show "store_inv ann_store" "heapSU ann_store 0 = Some sample_user"
    "FindUser mem_kv G ''ann'' ann_store = (Inr (Some 0), ann_store)" "su_Username sample_user = ''ann''"
    "\<not> HasGlobalFlag f sample_user" "User_Nick me_user = ''me''" "User_Host me_user = ''me!u@h''"
    by (auto simp: ann_store_def store_inv_def FindUser_def sample_user_def empty_user_def HasGlobalFlag_def nMaxCache_def
        User_Nick_def User_Host_def me_user_def Let_def split: if_splits)
qed

lemma deps_sel [simp]: "dp_kv (core_deps u) = mem_kv" "dp_gob (core_deps u) = gob_for u" "dp_gen (core_deps u) p = Some p"
  "dp_cmp (core_deps u) h p = (h = p)" "enc_user (gob_for u) u = Some ''u''"
  by (simp_all add: core_deps_def gob_for_def)

theorem core_commands_safe_witness:
  "store_inv ann_store \<and> (\<exists>err s. core_Cmd (core_deps sample_user) no_commands ''logout'' (core_event (Some 0) Map.empty) (core_world ann_store)
     = Some (err, s) \<and> (\<forall>st. w_store (ss_w s) = Some st \<longrightarrow> store_inv st))"
  using ann_facts(1) core_commands_safe [of "core_world ann_store" "core_deps sample_user" no_commands "''logout''" "core_event (Some 0) Map.empty"]
  by (simp add: core_world_def)



theorem resetpasswd_unguarded_witness:
  "\<exists>s pw. core_Cmd (core_deps (snd (snd (ResetPassword Some (\<lambda>_. 0) sample_user)))) no_commands ''setpasswd'' (core_event None Map.empty)
      (core_world ann_store) = Some (None, s)
    \<and> (''me'', ResetpasswdSuccessTarget ''me'' pw) \<in> set (ss_out s)"
proof -
  obtain pw a where r: "ResetPassword Some (\<lambda>_. 0) sample_user = (pw, True, a)"
    by (auto simp: ResetPassword_def SetPassword_def Let_def)
  let ?D = "core_deps a"
  have "the_user (ce_TargetUsers (core_event None Map.empty) ''nick'') joined_state = Inr me_user"
    by (simp add: joined_state_def the_user_def deref_def me_user_def)
  moreover have "w_state (core_world ann_store) = Some joined_state" by (simp add: core_world_def)
  moreover have "ResetPassword (dp_gen ?D) (dp_rnd ?D) sample_user = (pw, True, a)" using r by (simp add: core_deps_def)
  ultimately have "\<exists>s st. core_Cmd ?D no_commands ''setpasswd'' ((core_event None Map.empty)\<lparr>ce_StoredUser := None\<rparr>) (core_world ann_store) = Some (None, s)
    \<and> w_store (ss_w s) = Some st \<and> heapSU st = (heapSU ann_store)(0 \<mapsto> a) \<and> VerifyPassword (dp_cmp ?D) pw a
    \<and> ss_out s = [(User_Nick me_user, ResetpasswdSuccess), (User_Nick me_user, ResetpasswdSuccessTarget (User_Nick me_user) pw)]"
    by (intro resetpasswd_unguarded [OF core_live, where t = 0 and victim = sample_user and state = joined_state and store' = ann_store and r = 0 and acc = sample_user])
      (simp_all add: ann_facts)
  moreover have "(core_event None Map.empty)\<lparr>ce_StoredUser := None\<rparr> = core_event None Map.empty" by (simp add: core_event_def)
  ultimately show ?thesis using r by (auto simp: ann_facts(6))
qed

theorem register_account_witness:
  "\<exists>s st r. core_Cmd (core_deps (empty_user\<lparr>su_Username := ''bob'', su_Password := ''pw'', su_Global := Some all_access\<rparr>)) no_commands ''register''
      (core_event None [''username'' \<mapsto> ''Bob'', ''password'' \<mapsto> ''pw'']) (core_world empty_store) = Some (None, s)
    \<and> w_store (ss_w s) = Some st \<and> GetAuthedUser ''net'' ''me!u@h'' st = Some r
    \<and> ss_out s = [(''me'', RegisterSuccessFirst ''Bob'')]"
proof -
  let ?a = "empty_user\<lparr>su_Username := ''bob'', su_Password := ''pw''\<rparr>"
  let ?acc = "?a\<lparr>su_Global := Some all_access\<rparr>"
  let ?D = "core_deps ?acc" and ?ev = "core_event None [''username'' \<mapsto> ''Bob'', ''password'' \<mapsto> ''pw'']"
  let ?st1 = "empty_store\<lparr>cache := [''bob'' \<mapsto> None]\<rparr>"
  have l: "to_lower ''Bob'' = ''bob''" "to_lower ''bob'' = ''bob''" by code_simp+
  have 1: "store_inv empty_store" "GetAuthedUser ''net'' ''me!u@h'' empty_store = None"
    by (simp_all add: store_inv_def empty_store_def GetAuthedUser_def)
  have 2: "FindUser mem_kv (gob_for ?acc) ''Bob'' empty_store = (Inr None, ?st1)"
    by (simp add: FindUser_def l fetchUser_def mem_kv_def empty_store_def checkCacheLimits_def nMaxCache_def)
  have 3: "NewStoredUser Some ''Bob'' ''pw'' [] = Inr ?a" by (simp add: NewStoredUser_def SetPassword_def l)
  obtain st2 where 4: "IsFirst mem_kv ?st1 = (Inr True, st2)" by (simp add: IsFirst_def mem_kv_def empty_store_def)
  have 5: "chosen_name ?ev me_user = ''Bob''" by (simp add: chosen_name_def)
  have 6: "dp_gen ?D = Some" by (simp add: core_deps_def)
  show ?thesis
    using register_account [OF core_live [of None "[''username'' \<mapsto> ''Bob'', ''password'' \<mapsto> ''pw'']"] 1(1), of ?D ?st1 ?a True st2 ?acc "''u''" no_commands]
      1 2 3 4 5 6
    by (auto simp: ann_facts)
qed

theorem give_exact_witness:
  "HasGlobalFlag CHR ''G'' (snd (snd (ggive_fn sample_user 0 ''G'')))"
proof -
  have "is_upper CHR ''G''" by code_simp
  then show ?thesis using give_exact [of 0 "''G''" sample_user] by (simp add: given_def Let_def slot_flags)
qed


theorem core_table_registers_witness:
  "\<exists>reg' c'. NewCoreCmds () 0 no_commands (NewCmds CHR ''.'' (NewDispatchCore [])) = (None, reg', c')
     \<and> found_at () 20 reg' c' (core_table ! 20)"
proof -
  have "\<And>e. e \<in> set core_table \<Longrightarrow> globalCmdRegistry no_commands (makeIdentifier GLOBAL (en_Name e)) = None"
    by (simp add: no_commands_def)
  from core_table_registers [OF this, of "()" 0 "NewCmds CHR ''.'' (NewDispatchCore [])"] show ?thesis by auto
qed

end
