(* ===== verification/Server.thy ===== *)
theory Server
  imports Cmds Config
begin

text \<open>
  One network of the bot, \<^verbatim>\<open>src/bot/server.go\<close>: its status with listeners, writing, the choice of the
  next address, connecting and the settings given to the client.

  Socket, TLS and files are parameters, gathered in the record \<^verbatim>\<open>dialer\<close>; the client is a parameter with
  the operations \<^verbatim>\<open>mk\<close> (from a connection and its settings), \<^verbatim>\<open>cwrite\<close> and \<^verbatim>\<open>cclose\<close>.  A server points to a configuration
  it shares with others: \<^verbatim>\<open>s_conf\<close> is that reference and operations that read it get the configuration it
  points to as \<^verbatim>\<open>cf\<close>.  A listener is the name of its channel; what is sent on channels is returned in order.
  Locks are not modelled.
\<close>

section \<open>The server\<close>

datatype Status = STATUS_STOPPED | STATUS_CONNECTING | STATUS_STARTED | STATUS_RECONNECTING

primrec status_byte :: "Status \<Rightarrow> nat" where
  "status_byte STATUS_STOPPED = 0"
| "status_byte STATUS_CONNECTING = 1"
| "status_byte STATUS_STARTED = 2"
| "status_byte STATUS_RECONNECTING = 3"

type_synonym listener = nat
type_synonym cfref = nat

text \<open>The handler of a server for the events the bot itself answers, of \<^verbatim>\<open>src/bot/core_handler.go\<close>.\<close>

record coreHandler =
  nickvalue :: nat
  untilJoinScale :: "64 word"

text \<open>The dispatcher and the commands share one core: it is kept in the dispatcher.\<close>

record 'c Server =
  s_networkID :: string
  s_status :: Status
  s_listeners :: "listener list list"
  s_conf :: cfref
  s_netInfo :: NetworkInfo
  s_dispatcher :: Dispatcher
  s_cmds :: Cmds
  s_handlerID :: int
  s_handler :: "coreHandler option"
  s_client :: "'c option"
  s_state :: "State option"
  s_stateLocks :: int
  s_serverIndex :: nat

text \<open>The fields that \<^verbatim>\<open>createServer\<close> sets and the zero values of the others.\<close>

definition new_server :: "string \<Rightarrow> cfref \<Rightarrow> 'c Server" where
  "new_server netID r =
     \<lparr>s_networkID = netID, s_status = STATUS_STOPPED, s_listeners = [], s_conf = r, s_netInfo = NewNetworkInfo,
      s_dispatcher = NewDispatcher (NewDispatchCore []), s_cmds = NewCmds (CHR 0x00) (NewDispatchCore []),
      s_handlerID = 0, s_handler = None, s_client = None, s_state = None, s_stateLocks = 0, s_serverIndex = 0\<rparr>"

datatype BotError =
    NotConnected | AlreadyConnected string | ServerKilledConn | ServerKilledReconn | ServerKilled
  | CertError string | FailedToLoadCertificate | DialError string | NetDialError string bool
  | WriteError string | CloseError string
  | StateFailed StateError | UnknownServerID | InvalidConfig | LogFailed string | OpenStoreFailed StoreError | CmdFailed CmdError
  | NewServerFailed string BotError

section \<open>Status\<close>

text \<open>A nil slice of listeners is \<^verbatim>\<open>[]\<close>; otherwise there are five lists: for every status, and for each.\<close>

definition setStatus :: "Status \<Rightarrow> 'c Server \<Rightarrow> (listener \<times> Status) list \<times> 'c Server" where
  "setStatus new s =
     (if s_listeners s = [] then ([], s\<lparr>s_status := new\<rparr>)
      else (map (\<lambda>l. (l, new)) (s_listeners s ! 0) @ map (\<lambda>l. (l, new)) (s_listeners s ! (status_byte new + 1)),
            s\<lparr>s_status := new\<rparr>))"

definition add_at :: "listener \<Rightarrow> nat \<Rightarrow> listener list list \<Rightarrow> listener list list" where
  "add_at l i ls = ls[i := ls ! i @ [l]]"

definition addStatusListener :: "listener \<Rightarrow> Status list \<Rightarrow> 'c Server \<Rightarrow> 'c Server" where
  "addStatusListener l listen s =
     (let ls = (if s_listeners s = [] then [[], [], [], [], []] else s_listeners s) in
      s\<lparr>s_listeners := (if listen = [] then add_at l 0 ls else fold (\<lambda>st. add_at l (status_byte st + 1)) listen ls)\<rparr>)"

definition GetStatus :: "'c Server \<Rightarrow> Status" where "GetStatus s = s_status s"

section \<open>Writing\<close>

text \<open>Only the status is tested: while a server connects or waits there is no client to write to.\<close>

definition Server_Write :: "('c \<Rightarrow> string \<Rightarrow> (nat \<times> string option) \<times> 'c) \<Rightarrow> string \<Rightarrow> 'c Server
    \<Rightarrow> ((nat \<times> BotError option) \<times> 'c Server) outcome" where
  "Server_Write cwrite buf s =
     (if buf = [] then Inr ((0, None), s)
      else if GetStatus s \<noteq> STATUS_STOPPED then
        and_then (deref (s_client s)) (\<lambda>c.
          case cwrite c buf of ((n, err), c) \<Rightarrow> Inr ((n, map_option WriteError err), s\<lparr>s_client := Some c\<rparr>))
      else Inr ((0, Some NotConnected), s))"

section \<open>Connecting\<close>

definition Server_createDispatching :: "rune \<Rightarrow> string list \<Rightarrow> 'c Server \<Rightarrow> 'c Server" where
  "Server_createDispatching pre cs s =
     (let c = NewDispatchCore cs in s\<lparr>s_dispatcher := NewDispatcher c, s_cmds := NewCmds pre c\<rparr>)"

definition createState :: "'c Server \<Rightarrow> (BotError option \<times> 'c Server) outcome" where
  "createState s =
     and_then (NewState (Some (s_netInfo s))) (\<lambda>r.
       case r of Inl e \<Rightarrow> Inr (Some (StateFailed e), s\<lparr>s_state := None\<rparr>) | Inr st \<Rightarrow> Inr (None, s\<lparr>s_state := Some st\<rparr>))"

text \<open>\<^verbatim>\<open>s.conf.Network(s.networkID)\<close> is nil when the configuration no longer has the network, and using it panics.\<close>

definition net_ctx :: "Config \<Rightarrow> 'c Server \<Rightarrow> NetCTX outcome" where
  "net_ctx cf s = deref (Network (s_networkID s) cf)"

record tlsConfig =
  skipVerify :: bool
  rootCAs :: "string option"

definition createTlsConfig :: "(string \<Rightarrow> BotError + string) \<Rightarrow> NetCTX \<Rightarrow> Config \<Rightarrow> BotError + tlsConfig" where
  "createTlsConfig cr cfg cf =
     (let skip = fst (Net_NoVerifyCert cfg cf) in
      case Net_SSLCert cfg cf of
        (cert, True) \<Rightarrow> (case cr cert of Inl e \<Rightarrow> Inl e | Inr pool \<Rightarrow> Inr \<lparr>skipVerify = skip, rootCAs = Some pool\<rparr>)
      | (_, False) \<Rightarrow> Inr \<lparr>skipVerify = skip, rootCAs = None\<rparr>)"

text \<open>
  Opening and reading the file of the certificate is the parameter \<^verbatim>\<open>file\<close>, the parser of its certificates \<^verbatim>\<open>pem\<close>.
\<close>

definition readCert :: "(string \<Rightarrow> string + string) \<Rightarrow> (string \<Rightarrow> string option) \<Rightarrow> string \<Rightarrow> BotError + string" where
  "readCert file pem filename =
     (case file filename of
        Inl e \<Rightarrow> Inl (CertError e)
      | Inr bytes \<Rightarrow> (case pem bytes of None \<Rightarrow> Inl FailedToLoadCertificate | Some pool \<Rightarrow> Inr pool))"

text \<open>Where connections come from; a provider, if the bot has one, is used instead of TCP and TLS.\<close>

record 'n dialer =
  connProvider :: "(string \<Rightarrow> BotError + 'n) option"
  certFile :: "string \<Rightarrow> string + string"
  certPEM :: "string \<Rightarrow> string option"
  dialTLS :: "tlsConfig \<Rightarrow> string \<Rightarrow> BotError + 'n"
  dialTCP :: "string \<Rightarrow> BotError + 'n"

definition connect_to :: "'n dialer \<Rightarrow> NetCTX \<Rightarrow> Config \<Rightarrow> string \<Rightarrow> BotError + 'n" where
  "connect_to dl cfg cf server =
     (case connProvider dl of
        Some provider \<Rightarrow> provider server
      | None \<Rightarrow>
          if fst (Net_SSL cfg cf) then
            (case createTlsConfig (readCert (certFile dl) (certPEM dl)) cfg cf of
               Inl e \<Rightarrow> Inl e
             | Inr conf \<Rightarrow> dialTLS dl conf server)
          else dialTCP dl server)"

text \<open>
  \<^verbatim>\<open>createConnection\<close>: the address it tried, the connection or the error, and the server, which after an error
  points at the next address.  An empty list of addresses is indexed out of range.
\<close>

definition createConnection :: "'n dialer \<Rightarrow> Config \<Rightarrow> 'c Server \<Rightarrow> (string \<times> (BotError + 'n) \<times> 'c Server) outcome" where
  "createConnection dl cf s =
     and_then (net_ctx cf s) (\<lambda>cfg.
     let srvs = fst (Net_Servers cfg cf);
         s = (if length srvs \<le> s_serverIndex s then s\<lparr>s_serverIndex := 0\<rparr> else s) in
     and_then (index_at srvs (s_serverIndex s)) (\<lambda>server.
       case connect_to dl cfg cf server of
         Inl e \<Rightarrow> Inr (server, Inl e, s\<lparr>s_serverIndex := s_serverIndex s + 1\<rparr>)
       | Inr conn \<Rightarrow> Inr (server, Inr conn, s)))"

text \<open>An error of the network (\<^verbatim>\<open>net.Error\<close>) says whether it is temporary; no other error is.\<close>

definition temporary :: "BotError \<Rightarrow> bool" where
  "temporary e = (case e of NetDialError _ t \<Rightarrow> t | _ \<Rightarrow> False)"

text \<open>The settings of the client; a conversion of a float64 to a Duration drops the fraction.\<close>

record clientSettings =
  cs_floodPenalty :: int
  cs_floodTimeout :: int
  cs_floodStep :: int
  cs_keepAlive :: int

definition truncate :: "rat \<Rightarrow> int" where "truncate r = (if 0 \<le> r then \<lfloor>r\<rfloor> else \<lceil>r\<rceil>)"

definition client_settings :: "NetCTX \<Rightarrow> Config \<Rightarrow> clientSettings" where
  "client_settings cfg c =
     \<lparr>cs_floodPenalty = sint (fst (Net_FloodLenPenalty cfg c)), cs_floodTimeout = truncate (fst (Net_FloodTimeout cfg c)),
      cs_floodStep = truncate (fst (Net_FloodStep cfg c)), cs_keepAlive = truncate (fst (Net_KeepAlive cfg c))\<rparr>"

text \<open>
  \<^verbatim>\<open>createIrcClient\<close>: the error and whether it is temporary.  \<^verbatim>\<open>killed\<close> is the choice of the select
  when the server is stopped while it connects; the connection is then closed by the other goroutine.
\<close>

definition createIrcClient :: "'n dialer \<Rightarrow> ('n \<Rightarrow> clientSettings \<Rightarrow> 'c) \<Rightarrow> bool \<Rightarrow> Config \<Rightarrow> 'c Server
    \<Rightarrow> ((BotError option \<times> bool) \<times> 'c Server) outcome" where
  "createIrcClient dl mk killed cf s =
     (if s_client s \<noteq> None then Inr ((Some (AlreadyConnected (s_networkID s)), False), s)
      else
        and_then (createConnection dl cf s) (\<lambda>(_, r, s).
          if killed then Inr ((Some ServerKilledConn, False), s)
          else case r of
            Inl e \<Rightarrow> Inr ((Some e, temporary e), s)
          | Inr conn \<Rightarrow>
              and_then (net_ctx cf s) (\<lambda>cfg.
                Inr ((None, False), s\<lparr>s_client := Some (mk conn (client_settings cfg cf))\<rparr>))))"

definition Server_Close :: "('c \<Rightarrow> string option) \<Rightarrow> 'c Server \<Rightarrow> BotError option \<times> 'c Server" where
  "Server_Close cclose s =
     (case s_client s of None \<Rightarrow> None | Some c \<Rightarrow> map_option CloseError (cclose c), s\<lparr>s_client := None\<rparr>)"

definition rehashNetworkInfo :: "'c Server \<Rightarrow> (BotError option \<times> 'c Server) outcome" where
  "rehashNetworkInfo s =
     (case s_state s of
        None \<Rightarrow> Inr (None, s)
      | Some st \<Rightarrow>
          and_then (SetNetworkInfo (Some (s_netInfo s)) st) (\<lambda>r.
            case r of Inl e \<Rightarrow> Inr (Some (StateFailed e), s) | Inr st \<Rightarrow> Inr (None, s\<lparr>s_state := Some st\<rparr>)))"

section \<open>Listeners\<close>

definition listeners_ok :: "'c Server \<Rightarrow> bool" where
  "listeners_ok s \<longleftrightarrow> s_listeners s = [] \<or> length (s_listeners s) = 5"

text \<open>How often a change to a status is sent to a listener.\<close>

definition heard :: "listener \<Rightarrow> Status \<Rightarrow> 'c Server \<Rightarrow> nat" where
  "heard l st s = count_list (map fst (fst (setStatus st s))) l"

lemma status_byte_less: "status_byte st < 4" by (cases st) simp_all

lemma status_byte_inj [simp]: "status_byte a = status_byte b \<longleftrightarrow> a = b" by (cases a; cases b) simp_all

lemma length_add_at [simp]: "length (add_at l i ls) = length ls" by (simp add: add_at_def)

lemma fold_add_at:
  "length ls = 5 \<Longrightarrow> length (fold (\<lambda>st. add_at l (status_byte st + 1)) sts ls) = 5
     \<and> fold (\<lambda>st. add_at l (status_byte st + 1)) sts ls ! 0 = ls ! 0
     \<and> fold (\<lambda>st. add_at l (status_byte st + 1)) sts ls ! (status_byte x + 1)
         = ls ! (status_byte x + 1) @ replicate (count_list sts x) l"
proof (induction sts arbitrary: ls)
  case (Cons st sts)
  have "length (add_at l (status_byte st + 1) ls) = 5" using Cons.prems by simp
  from Cons.IH [OF this] show ?case using Cons.prems status_byte_less [of st]
    by (auto simp: add_at_def nth_list_update replicate_append_same)
qed simp

lemma heard_lists:
  "length (s_listeners s) = 5
   \<Longrightarrow> heard l st s = count_list (s_listeners s ! 0) l + count_list (s_listeners s ! (status_byte st + 1)) l"
  by (auto simp: heard_def setStatus_def comp_def)

text \<open>A server as it is created, for the witnesses.\<close>

definition sample_server :: "cfref \<Rightarrow> 'c Server" where "sample_server r = new_server ''net'' r"

text \<open>
  A listener hears exactly what it asked for.  One that is added without statuses hears every
  change once more than before, one that is added for some statuses hears those, as often as they are
  listed, and nothing changes for other listeners.
\<close>

theorem status_listeners:
  assumes "listeners_ok s"
  shows "heard l' st (addStatusListener l listen s)
      = heard l' st s + (if l' = l then if listen = [] then 1 else count_list listen st else 0)
    \<and> listeners_ok (addStatusListener l listen s) \<and> s_status (snd (setStatus st s)) = st"
proof -
  let ?ls = "if s_listeners s = [] then [[], [], [], [], []] else s_listeners s"
  have 5: "length ?ls = 5" using assms by (auto simp: listeners_ok_def)
  have count: "count_list (xs @ replicate n l) l' = count_list xs l' + (if l' = l then n else 0)" for xs n
    by (induction n) auto
  have old: "heard l' st s = count_list (?ls ! 0) l' + count_list (?ls ! (status_byte st + 1)) l'"
    using status_byte_less [of st] by (cases st) (simp_all add: heard_def setStatus_def comp_def)
  let ?xs = "if listen = [] then add_at l 0 ?ls else fold (\<lambda>st. add_at l (status_byte st + 1)) listen ?ls"
  have s': "s_listeners (addStatusListener l listen s) = ?xs" by (simp add: addStatusListener_def Let_def)
  have xs: "length ?xs = 5 \<and> count_list (?xs ! 0) l' + count_list (?xs ! (status_byte st + 1)) l'
      = heard l' st s + (if l' = l then if listen = [] then 1 else count_list listen st else 0)"
  proof (cases "listen = []")
    case True
    then show ?thesis using 5 old count [of _ 1] by (simp add: add_at_def)
  next
    case False
    then show ?thesis using fold_add_at [OF 5, of l listen st] old count by simp
  qed
  show ?thesis using xs heard_lists [of "addStatusListener l listen s" l' st] unfolding s'
    by (simp add: setStatus_def listeners_ok_def s')
qed

theorem status_listeners_witness:
  "heard 7 STATUS_STARTED (addStatusListener 7 [STATUS_STOPPED, STATUS_STARTED] (sample_server 0 :: nat Server)) = 1"
proof -
  have "listeners_ok (sample_server 0 :: nat Server)" "heard 7 STATUS_STARTED (sample_server 0 :: nat Server) = 0"
    by (simp_all add: sample_server_def new_server_def listeners_ok_def heard_def setStatus_def)
  then show ?thesis using status_listeners [of "sample_server 0 :: nat Server" 7 STATUS_STARTED 7 "[STATUS_STOPPED, STATUS_STARTED]"] by simp
qed

section \<open>The addresses that are tried\<close>

text \<open>Connecting once with each of a list of dialers: the addresses, in order.\<close>

fun tried :: "'n dialer list \<Rightarrow> Config \<Rightarrow> 'c Server \<Rightarrow> string list outcome" where
  "tried [] cf s = Inr []"
| "tried (dl # dls) cf s =
     and_then (createConnection dl cf s) (\<lambda>(a, _, s). and_then (tried dls cf s) (\<lambda>as. Inr (a # as)))"

definition refuses :: "Config \<Rightarrow> 'n dialer \<Rightarrow> bool" where
  "refuses cf dl \<longleftrightarrow> (\<forall>cfg server. \<exists>e. connect_to dl cfg cf server = Inl e)"

lemma createConnection_refused:
  assumes "Network (s_networkID s) cf = Some cfg" "srvs = fst (Net_Servers cfg cf)" "srvs \<noteq> []" "refuses cf dl"
  shows "\<exists>e. createConnection dl cf s
    = Inr (srvs ! (if length srvs \<le> s_serverIndex s then 0 else s_serverIndex s), Inl e,
           s\<lparr>s_serverIndex := (if length srvs \<le> s_serverIndex s then 0 else s_serverIndex s) + 1\<rparr>)"
proof -
  let ?a = "srvs ! (if length srvs \<le> s_serverIndex s then 0 else s_serverIndex s)"
  obtain e where "connect_to dl cfg cf ?a = Inl e" using assms(4) by (auto simp: refuses_def)
  then show ?thesis using assms(1-3) by (auto simp: createConnection_def net_ctx_def index_at_def Let_def)
qed

text \<open>
  A server that cannot be reached goes round its configured addresses: however long connecting
  fails, the \<^verbatim>\<open>k\<close>-th attempt goes to the address \<^verbatim>\<open>k\<close> places after the one it stood at, and from the last
  on to the first.
\<close>

theorem addresses_rotate:
  assumes "Network (s_networkID s) cf = Some cfg" and "srvs = fst (Net_Servers cfg cf)" and "srvs \<noteq> []"
    and "s_serverIndex s \<le> length srvs" and "\<forall>dl \<in> set dls. refuses cf dl"
  shows "tried dls cf s = Inr (map (\<lambda>k. srvs ! ((s_serverIndex s + k) mod length srvs)) [0..<length dls])"
  using assms
proof (induction dls arbitrary: s)
  case (Cons dl dls)
  let ?i = "if length srvs \<le> s_serverIndex s then 0 else s_serverIndex s"
  let ?s = "s\<lparr>s_serverIndex := ?i + 1\<rparr>"
  from Cons.prems obtain e where e: "createConnection dl cf s = Inr (srvs ! ?i, Inl e, ?s)"
    using createConnection_refused [of s cf cfg srvs dl] by auto
  have i: "?i = s_serverIndex s mod length srvs" using Cons.prems(3,4) by (auto simp: le_less)
  have "tried dls cf ?s = Inr (map (\<lambda>k. srvs ! ((s_serverIndex ?s + k) mod length srvs)) [0..<length dls])"
    using Cons.prems by (intro Cons.IH) (auto simp: Suc_le_eq length_greater_0_conv [symmetric] simp del: length_greater_0_conv)
  also have "map (\<lambda>k. srvs ! ((s_serverIndex ?s + k) mod length srvs)) [0..<length dls]
      = map (\<lambda>k. srvs ! ((s_serverIndex s + k) mod length srvs)) [1..<Suc (length dls)]"
  proof (rule nth_equalityI)
    have "(s_serverIndex s mod length srvs + 1 + k) mod length srvs = (s_serverIndex s + (1 + k)) mod length srvs" for k
      using mod_add_left_eq [of "s_serverIndex s" "length srvs" "1 + k"] by (simp only: add.assoc)
    then show "map (\<lambda>k. srvs ! ((s_serverIndex ?s + k) mod length srvs)) [0..<length dls] ! j
        = map (\<lambda>k. srvs ! ((s_serverIndex s + k) mod length srvs)) [1..<Suc (length dls)] ! j"
      if "j < length (map (\<lambda>k. srvs ! ((s_serverIndex ?s + k) mod length srvs)) [0..<length dls])" for j
      using that unfolding i by (simp del: upt_Suc)
  qed (simp del: upt_Suc)
  finally show ?case using e i by (simp add: upt_conv_Cons del: upt_Suc)
qed simp

definition sample_conf :: Config where
  "sample_conf = NewConfig\<lparr>cf_values := [(''networks'', VMap GoMap [(''net'', VMap GoMap
     [(''nick'', VStr ''bot''), (''servers'', VStrArr [''a:6667'', ''b:6667''])])])]\<rparr>"

definition sample_dialer :: "BotError + nat \<Rightarrow> nat dialer" where
  "sample_dialer r = \<lparr>connProvider = Some (\<lambda>_. r), certFile = Inl, certPEM = (\<lambda>_. None),
     dialTLS = (\<lambda>_ _. r), dialTCP = (\<lambda>_. r)\<rparr>"

theorem addresses_rotate_witness:
  "tried (replicate 3 (sample_dialer (Inl (NetDialError ''timeout'' True)))) sample_conf (sample_server 0 :: nat Server)
     = Inr [''a:6667'', ''b:6667'', ''a:6667'']"
proof -
  have n: "Network (s_networkID (sample_server 0)) sample_conf = Some (NetOf ''net'')"
    by (simp add: sample_server_def new_server_def sample_conf_def Network_def mp_get_def intfToMp_def)
  have a: "[''a:6667'', ''b:6667''] = fst (Net_Servers (NetOf ''net'') sample_conf)" by code_simp
  show ?thesis
    using addresses_rotate [OF n a, of "replicate 3 (sample_dialer (Inl (NetDialError ''timeout'' True)))"]
    by (simp add: sample_server_def new_server_def refuses_def connect_to_def sample_dialer_def upt_rec numeral_3_eq_3 mod_Suc)
qed

section \<open>Writing\<close>

text \<open>
  What is written to a server is refused with an error when the server is stopped and goes to its
  client otherwise; without a client, which is the case while it connects or waits to reconnect, it panics.
\<close>

theorem Server_Write_cases:
  assumes "buf \<noteq> []"
  shows "((\<exists>p. Server_Write cwrite buf s = Inl p) \<longleftrightarrow> s_status s \<noteq> STATUS_STOPPED \<and> s_client s = None)
    \<and> (Server_Write cwrite buf s = Inr ((0, Some NotConnected), s) \<longleftrightarrow> s_status s = STATUS_STOPPED)"
  using assms by (auto simp: Server_Write_def GetStatus_def deref_def split: option.splits prod.splits)

theorem Server_Write_cases_witness:
  "\<exists>p. Server_Write (\<lambda>c b. ((length b, None), c)) ''QUIT'' ((sample_server 0 :: nat Server)\<lparr>s_status := STATUS_CONNECTING\<rparr>) = Inl p"
  using Server_Write_cases [of "''QUIT''" "\<lambda>c b. ((length b, None), c)"
      "(sample_server 0 :: nat Server)\<lparr>s_status := STATUS_CONNECTING\<rparr>"]
  by (simp add: sample_server_def new_server_def)

end
