(* ===== verification/Bot.thy ===== *)
theory Bot
  imports Server Validation CoreCommands
begin

text \<open>
  The bot, \<^verbatim>\<open>src/bot/bot.go\<close>: its construction from a configuration, the lookup of servers, the registration of
  handlers and commands, and the access to state and store that it gives to extensions.

  Servers and configurations are shared by pointer and live in heaps.  The databases, the log file, the random numbers
  and the handler value of the core commands are parameters, gathered in the record \<^verbatim>\<open>botEnv\<close>.  A lock that
  has to wait is the value \<^verbatim>\<open>None\<close>.
\<close>

section \<open>The bot\<close>

type_synonym sref = nat

record ('c, 'd, 'h) Bot =
  b_heap :: "sref \<rightharpoonup> 'c Server"
  b_nextRef :: sref
  b_servers :: "string \<rightharpoonup> sref"
  b_configs :: "cfref \<Rightarrow> Config"
  b_conf :: cfref
  b_store :: "'d Store option"
  b_storeReaders :: int
  b_storeWriter :: bool
  b_dispatcher :: Dispatcher
  b_cmds :: Cmds
  b_registry :: "'h Registry"
  b_attachHandlers :: bool
  b_coreCommands :: bool

definition getServer :: "string \<Rightarrow> ('c, 'd, 'h) Bot \<Rightarrow> sref option" where
  "getServer networkID b = b_servers b networkID"

definition the_server :: "sref option \<Rightarrow> ('c, 'd, 'h) Bot \<Rightarrow> 'c Server outcome" where
  "the_server p b = and_then (deref p) (\<lambda>r. deref (b_heap b r))"

definition put_server :: "sref \<Rightarrow> 'c Server \<Rightarrow> ('c, 'd, 'h) Bot \<Rightarrow> ('c, 'd, 'h) Bot" where
  "put_server r s b = b\<lparr>b_heap := (b_heap b)(r \<mapsto> s)\<rparr>"

text \<open>The server of a network, nil where there is none, and the configuration a server reads.\<close>

definition server_at :: "string \<Rightarrow> ('c, 'd, 'h) Bot \<Rightarrow> (sref \<times> 'c Server) option" where
  "server_at networkID b =
     (case getServer networkID b of None \<Rightarrow> None | Some r \<Rightarrow> map_option (Pair r) (b_heap b r))"

definition conf_of :: "'c Server \<Rightarrow> ('c, 'd, 'h) Bot \<Rightarrow> Config" where
  "conf_of s b = b_configs b (s_conf s)"

section \<open>Construction\<close>

record ('d, 'h) botEnv =
  be_logProvider :: bool
  be_openLog :: "string \<Rightarrow> string option"
  be_storeProvider :: "(string \<Rightarrow> StoreError + 'd Store) option"
  be_openStore :: "string \<Rightarrow> string + 'd"
  be_rand :: "nat \<Rightarrow> int"
  be_coreHandler :: 'h
  be_newCmd :: cref

definition CheckConfig :: "Config \<Rightarrow> bool \<times> Config" where
  "CheckConfig c = (if Config_Errors c \<noteq> [] then (False, c) else Validate c)"

definition Bot_createDispatching :: "rune \<Rightarrow> string list \<Rightarrow> ('c, 'd, 'h) Bot \<Rightarrow> ('c, 'd, 'h) Bot" where
  "Bot_createDispatching pre cs b =
     (let c = NewDispatchCore cs in b\<lparr>b_dispatcher := NewDispatcher c, b_cmds := NewCmds pre c\<rparr>)"

definition createStore :: "('d, 'h) botEnv \<Rightarrow> string \<Rightarrow> ('c, 'd, 'h) Bot \<Rightarrow> BotError option \<times> ('c, 'd, 'h) Bot" where
  "createStore E filename b =
     (case (case be_storeProvider E of None \<Rightarrow> NewStore (be_openStore E filename) | Some provider \<Rightarrow> provider filename) of
        Inl e \<Rightarrow> (Some (OpenStoreFailed e), b\<lparr>b_store := None\<rparr>)
      | Inr st \<Rightarrow> (None, b\<lparr>b_store := Some st\<rparr>))"

text \<open>The handler that is registered for every event; it implements \<^verbatim>\<open>HandleRaw\<close> and nothing else.\<close>

definition core_handler :: Handler where
  "core_handler = \<lparr>h_name = ''coreHandler'', h_implements = [EventHandler]\<rparr>"

text \<open>One second, in nanoseconds.\<close>

definition second :: "64 word" where "second = 1000000000"

text \<open>The dispatcher of a new server has no handlers, so registering the first one returns (\<^verbatim>\<open>register_new\<close> below).\<close>

definition createServer :: "('d, 'h) botEnv \<Rightarrow> string \<Rightarrow> cfref \<Rightarrow> ('c, 'd, 'h) Bot \<Rightarrow> (BotError + 'c Server) outcome" where
  "createServer E netID r b =
     (let s = new_server netID r; conf = b_configs b r in
      and_then (deref (Network netID conf)) (\<lambda>cfg.
        let s = Server_createDispatching (fst (Net_Prefix cfg conf)) [] s in
        and_then (if fst (Net_NoState cfg conf) then Inr (None, s) else createState s) (\<lambda>(err, s).
          case err of
            Some e \<Rightarrow> Inr (Inl e)
          | None \<Rightarrow>
              Inr (Inr (if b_attachHandlers b then
                (let (i, d) = the (Dispatcher_Register (be_rand E) ''RAW'' core_handler (s_dispatcher s)) in
                 s\<lparr>s_handler := Some \<lparr>nickvalue = 0, untilJoinScale = second\<rparr>, s_handlerID := i, s_dispatcher := d\<rparr>)
              else s)))))"

definition add_server :: "string \<Rightarrow> 'c Server \<Rightarrow> ('c, 'd, 'h) Bot \<Rightarrow> ('c, 'd, 'h) Bot" where
  "add_server netID s b =
     b\<lparr>b_heap := (b_heap b)(b_nextRef b \<mapsto> s), b_servers := (b_servers b)(netID \<mapsto> b_nextRef b),
       b_nextRef := b_nextRef b + 1\<rparr>"

text \<open>The loop over the networks ends with the first error.\<close>

fun create_servers :: "('d, 'h) botEnv \<Rightarrow> string list \<Rightarrow> cfref \<Rightarrow> ('c, 'd, 'h) Bot \<Rightarrow> (BotError + ('c, 'd, 'h) Bot) outcome" where
  "create_servers E [] r b = Inr (Inr b)"
| "create_servers E (net # nets) r b =
     and_then (createServer E net r b) (\<lambda>res.
       case res of Inl e \<Rightarrow> Inr (Inl e) | Inr s \<Rightarrow> create_servers E nets r (add_server net s b))"

fun wants_store :: "Config \<Rightarrow> string list \<Rightarrow> bool outcome" where
  "wants_store conf [] = Inr False"
| "wants_store conf (net # nets) =
     and_then (deref (Network net conf)) (\<lambda>cfg.
       and_then (wants_store conf nets) (\<lambda>more. Inr (\<not> fst (Net_NoStore cfg conf) \<or> more)))"

definition open_log :: "('d, 'h) botEnv \<Rightarrow> Config \<Rightarrow> BotError option" where
  "open_log E conf =
     (if be_logProvider E then None
      else (case LogFile conf of (file, True) \<Rightarrow> map_option LogFailed (be_openLog E file) | (_, False) \<Rightarrow> None))"

definition empty_bot :: "bool \<Rightarrow> (cfref \<Rightarrow> Config) \<Rightarrow> cfref \<Rightarrow> 'h Registry \<Rightarrow> ('c, 'd, 'h) Bot" where
  "empty_bot attachHandlers configs conf reg =
     \<lparr>b_heap = Map.empty, b_nextRef = 0, b_servers = Map.empty, b_configs = configs, b_conf = conf, b_store = None,
      b_storeReaders = 0, b_storeWriter = False, b_dispatcher = NewDispatcher (NewDispatchCore []),
      b_cmds = NewCmds (CHR 0x00) (NewDispatchCore []), b_registry = reg, b_attachHandlers = attachHandlers,
      b_coreCommands = False\<rparr>"

text \<open>An error comes with the registry of commands, which is global and keeps what was registered before the error.\<close>

definition attach_commands :: "('d, 'h) botEnv \<Rightarrow> ('c, 'd, 'h) Bot \<Rightarrow> BotError \<times> 'h Registry + ('c, 'd, 'h) Bot" where
  "attach_commands E b =
     (case NewCoreCmds (be_coreHandler E) (be_newCmd E) (b_registry b) (b_cmds b) of
        (Some err, reg, c) \<Rightarrow> Inl (CmdFailed err, reg)
      | (None, reg, c) \<Rightarrow> Inr (b\<lparr>b_registry := reg, b_cmds := c, b_coreCommands := True\<rparr>))"

definition createBot :: "('d, 'h) botEnv \<Rightarrow> bool \<Rightarrow> bool \<Rightarrow> (cfref \<Rightarrow> Config) \<Rightarrow> cfref \<Rightarrow> 'h Registry
    \<Rightarrow> (BotError \<times> 'h Registry + ('c, 'd, 'h) Bot) outcome" where
  "createBot E attachHandlers attachCommands configs r reg =
     (let conf = configs r; networks = Networks conf; b = empty_bot attachHandlers configs r reg in
      case open_log E conf of
        Some e \<Rightarrow> Inr (Inl (e, reg))
      | None \<Rightarrow>
          (let b = Bot_createDispatching (fst (Net_Prefix GlobalNet conf)) [] b in
           and_then (wants_store conf networks) (\<lambda>makeStore.
             case (if makeStore then createStore E (fst (StoreFile conf)) b else (None, b)) of
               (Some e, b) \<Rightarrow> Inr (Inl (e, reg))
             | (None, b) \<Rightarrow>
                 and_then (create_servers E networks r b) (\<lambda>res.
                   case res of
                     Inl e \<Rightarrow> Inr (Inl (e, reg))
                   | Inr b \<Rightarrow>
                       Inr (if attachCommands \<and> \<not> fst (Net_NoStore GlobalNet conf) then attach_commands E b
                            else Inr b)))))"

definition NewBot :: "('d, 'h) botEnv \<Rightarrow> (cfref \<Rightarrow> Config) \<Rightarrow> cfref \<Rightarrow> 'h Registry
    \<Rightarrow> (BotError \<times> 'h Registry + ('c, 'd, 'h) Bot) outcome" where
  "NewBot E configs r reg =
     (case CheckConfig (configs r) of
        (False, _) \<Rightarrow> Inr (Inl (InvalidConfig, reg))
      | (True, conf) \<Rightarrow>
          createBot (E\<lparr>be_logProvider := False, be_storeProvider := None\<rparr>) True True (configs(r := conf)) r reg)"

section \<open>Handlers and commands\<close>

definition Bot_Register :: "(nat \<Rightarrow> int) \<Rightarrow> string \<Rightarrow> Handler \<Rightarrow> ('c, 'd, 'h) Bot \<Rightarrow> (int \<times> ('c, 'd, 'h) Bot) option" where
  "Bot_Register rnd event h b =
     map_option (\<lambda>(i, d). (i, b\<lparr>b_dispatcher := d\<rparr>)) (Dispatcher_Register rnd event h (b_dispatcher b))"

definition RegisterNetwork :: "(nat \<Rightarrow> int) \<Rightarrow> string \<Rightarrow> string \<Rightarrow> Handler \<Rightarrow> ('c, 'd, 'h) Bot
    \<Rightarrow> ((int \<times> BotError option) \<times> ('c, 'd, 'h) Bot) option" where
  "RegisterNetwork rnd networkID event h b =
     (case server_at networkID b of
        None \<Rightarrow> Some ((0, Some UnknownServerID), b)
      | Some (r, s) \<Rightarrow>
          map_option (\<lambda>(i, d). ((i, None), put_server r (s\<lparr>s_dispatcher := d\<rparr>) b))
            (Dispatcher_Register rnd event h (s_dispatcher s)))"

definition Bot_Unregister :: "string \<Rightarrow> int \<Rightarrow> ('c, 'd, 'h) Bot \<Rightarrow> bool \<times> ('c, 'd, 'h) Bot" where
  "Bot_Unregister event i b =
     (case Dispatcher_Unregister event i (b_dispatcher b) of (ok, d) \<Rightarrow> (ok, b\<lparr>b_dispatcher := d\<rparr>))"

definition UnregisterNetwork :: "string \<Rightarrow> string \<Rightarrow> int \<Rightarrow> ('c, 'd, 'h) Bot \<Rightarrow> (bool \<times> BotError option) \<times> ('c, 'd, 'h) Bot" where
  "UnregisterNetwork networkID event i b =
     (case server_at networkID b of
        None \<Rightarrow> ((False, Some UnknownServerID), b)
      | Some (r, s) \<Rightarrow>
          (case Dispatcher_Unregister event i (s_dispatcher s) of
             (ok, d) \<Rightarrow> ((ok, None), put_server r (s\<lparr>s_dispatcher := d\<rparr>) b)))"

definition RegisterCmd :: "cref \<Rightarrow> ('c, 'd, 'h) Bot \<Rightarrow> BotError option \<times> ('c, 'd, 'h) Bot" where
  "RegisterCmd command b =
     (case Cmds_Register GLOBAL command (b_registry b) (b_cmds b) of
        (err, reg, c) \<Rightarrow> (map_option CmdFailed err, b\<lparr>b_registry := reg, b_cmds := c\<rparr>))"

definition RegisterNetworkCmd :: "string \<Rightarrow> cref \<Rightarrow> ('c, 'd, 'h) Bot \<Rightarrow> BotError option \<times> ('c, 'd, 'h) Bot" where
  "RegisterNetworkCmd networkID command b =
     (case server_at networkID b of
        None \<Rightarrow> (Some UnknownServerID, b)
      | Some (r, s) \<Rightarrow>
          (case Cmds_Register networkID command (b_registry b) (s_cmds s) of
             (err, reg, c) \<Rightarrow> (map_option CmdFailed err, put_server r (s\<lparr>s_cmds := c\<rparr>) (b\<lparr>b_registry := reg\<rparr>))))"

definition UnregisterCmd :: "string \<Rightarrow> ('c, 'd, 'h) Bot \<Rightarrow> bool \<times> ('c, 'd, 'h) Bot" where
  "UnregisterCmd command b =
     (case Cmds_Unregister GLOBAL command (b_registry b) (b_cmds b) of
        (ok, reg, c) \<Rightarrow> (ok, b\<lparr>b_registry := reg, b_cmds := c\<rparr>))"

definition UnregisterNetworkCmd :: "string \<Rightarrow> string \<Rightarrow> ('c, 'd, 'h) Bot \<Rightarrow> bool \<times> ('c, 'd, 'h) Bot" where
  "UnregisterNetworkCmd networkID command b =
     (case server_at networkID b of
        None \<Rightarrow> (False, b)
      | Some (r, s) \<Rightarrow>
          (case Cmds_Unregister networkID command (b_registry b) (s_cmds s) of
             (ok, reg, c) \<Rightarrow> (ok, put_server r (s\<lparr>s_cmds := c\<rparr>) (b\<lparr>b_registry := reg\<rparr>))))"

section \<open>State and store\<close>

text \<open>
  \<^verbatim>\<open>ReadState\<close> and \<^verbatim>\<open>ReadStore\<close>: what the callback returns, \<^verbatim>\<open>None\<close> if it was not called.  The world of a network
  is the part of the bot that \<^verbatim>\<open>OpenState\<close>, \<^verbatim>\<open>OpenReadStore\<close> and their counterparts of theory \<^verbatim>\<open>Cmds\<close> work on.
\<close>

definition ReadState :: "string \<Rightarrow> (State \<Rightarrow> 'a) \<Rightarrow> ('c, 'd, 'h) Bot \<Rightarrow> 'a option" where
  "ReadState networkID fn b =
     (case server_at networkID b of None \<Rightarrow> None | Some (r, s) \<Rightarrow> map_option fn (s_state s))"

definition ReadStore :: "('d Store \<Rightarrow> 'a) \<Rightarrow> ('c, 'd, 'h) Bot \<Rightarrow> 'a option option" where
  "ReadStore fn b = (if b_storeWriter b then None else Some (map_option fn (b_store b)))"

definition WriteStore :: "('d Store \<Rightarrow> 'd Store) \<Rightarrow> ('c, 'd, 'h) Bot \<Rightarrow> (bool \<times> ('c, 'd, 'h) Bot) option" where
  "WriteStore fn b =
     (if b_storeWriter b \<or> b_storeReaders b \<noteq> 0 then None
      else Some (case b_store b of None \<Rightarrow> (False, b) | Some st \<Rightarrow> (True, b\<lparr>b_store := Some (fn st)\<rparr>)))"

definition OpenWriteStore :: "('c, 'd, 'h) Bot \<Rightarrow> ('d Store option \<times> ('c, 'd, 'h) Bot) option" where
  "OpenWriteStore b =
     (if b_storeWriter b \<or> b_storeReaders b \<noteq> 0 then None else Some (b_store b, b\<lparr>b_storeWriter := True\<rparr>))"

text \<open>Unlocking what is not locked ends the program.\<close>

definition CloseWriteStore :: "('c, 'd, 'h) Bot \<Rightarrow> unit + ('c, 'd, 'h) Bot" where
  "CloseWriteStore b = (if b_storeWriter b then Inr (b\<lparr>b_storeWriter := False\<rparr>) else Inl ())"

definition Bot_Close :: "('d \<Rightarrow> string option) \<Rightarrow> ('c, 'd, 'h) Bot \<Rightarrow> (BotError option \<times> ('c, 'd, 'h) Bot) option" where
  "Bot_Close dbclose b =
     (if b_storeWriter b \<or> b_storeReaders b \<noteq> 0 then None
      else Some (case b_store b of
                   None \<Rightarrow> (None, b)
                 | Some st \<Rightarrow> (map_option CloseError (dbclose (db st)), b\<lparr>b_store := None\<rparr>)))"

text \<open>A network's writer is its server; nil if there is no such network.\<close>

definition NetworkWriter :: "string \<Rightarrow> ('c, 'd, 'h) Bot \<Rightarrow> sref option" where
  "NetworkWriter networkID b = getServer networkID b"

definition world_of :: "string \<Rightarrow> ('c, 'd, 'h) Bot \<Rightarrow> 'd World" where
  "world_of networkID b =
     (case server_at networkID b of
        None \<Rightarrow> \<lparr>w_known = False, w_state = None, w_store = b_store b, w_stateLocks = 0, w_storeLocks = b_storeReaders b\<rparr>
      | Some (r, s) \<Rightarrow> \<lparr>w_known = True, w_state = s_state s, w_store = b_store b, w_stateLocks = s_stateLocks s,
                        w_storeLocks = b_storeReaders b\<rparr>)"

definition put_world :: "string \<Rightarrow> 'd World \<Rightarrow> ('c, 'd, 'h) Bot \<Rightarrow> ('c, 'd, 'h) Bot" where
  "put_world networkID w b =
     (let b' = b\<lparr>b_store := w_store w, b_storeReaders := w_storeLocks w\<rparr> in
      case server_at networkID b of
        None \<Rightarrow> b'
      | Some (r, s) \<Rightarrow> put_server r (s\<lparr>s_state := w_state w, s_stateLocks := w_stateLocks w\<rparr>) b')"

end
