(* ===== verification/BotProps.thy ===== *)
theory BotProps
  imports Bot ConfigProps StateProps
begin

text \<open>
  What a new bot looks like: one stopped server for each network of its configuration, with an empty
  state and the handler of the core registered; and that building it from a valid configuration does not panic.
\<close>

section \<open>New servers\<close>

lemma register_new:
  "Dispatcher_Register rnd event h (NewDispatcher c) = Some (rnd 0, \<lparr>core = c, events = [(to_upper event, [(rnd 0, h)])]\<rparr>)"
  by (simp add: Dispatcher_Register_def NewDispatcher_def Let_def)

lemma to_upper_RAW [simp]: "to_upper ''RAW'' = ''RAW''" by code_simp

lemma table_of_new [simp]: "table_of (NewDispatcher c) event = []" by (simp add: table_of_def NewDispatcher_def)

definition fresh_server :: "('d, 'h) botEnv \<Rightarrow> string \<Rightarrow> cfref \<Rightarrow> bool \<Rightarrow> Config \<Rightarrow> 'c Server \<Rightarrow> bool" where
  "fresh_server E net r attach conf s \<longleftrightarrow>
     s_networkID s = net \<and> s_conf s = r \<and> s_status s = STATUS_STOPPED \<and> s_client s = None \<and> s_listeners s = []
     \<and> s_netInfo s = NewNetworkInfo
     \<and> s_state s = (if fst (Net_NoState (the (Network net conf)) conf) then None else Some start_state)
     \<and> GetPrefix (s_cmds s) = fst (Net_Prefix (the (Network net conf)) conf)
     \<and> table_of (s_dispatcher s) ''RAW'' = (if attach then [(be_rand E 0, core_handler)] else [])
     \<and> s_handler s = (if attach then Some \<lparr>nickvalue = 0, untilJoinScale = second\<rparr> else None)"

lemma createServer_fresh:
  assumes "Network net (b_configs b r) = Some cfg"
  shows "\<exists>s. createServer E net r b = Inr (Inr s) \<and> fresh_server E net r (b_attachHandlers b) (b_configs b r) s"
  using assms
  by (simp add: createServer_def Let_def createState_def new_server_def Server_createDispatching_def NewState_default
      register_new fresh_server_def NewCmds_def GetPrefix_def) (simp add: table_of_def)

section \<open>New bots\<close>

text \<open>What the loop over the networks has built: the networks in the map are those it has seen, each with a server of its own.\<close>

definition has_servers :: "('d, 'h) botEnv \<Rightarrow> string set \<Rightarrow> cfref \<Rightarrow> ('c, 'd, 'h) Bot \<Rightarrow> bool" where
  "has_servers E nets r b \<longleftrightarrow>
     dom (b_servers b) = nets \<and> inj_on (b_servers b) nets
     \<and> (\<forall>net \<in> nets. \<exists>ref s. server_at net b = Some (ref, s) \<and> ref < b_nextRef b
          \<and> fresh_server E net r (b_attachHandlers b) (b_configs b r) s)"

lemma server_at_Some: "server_at net b = Some (ref, s) \<longleftrightarrow> b_servers b net = Some ref \<and> b_heap b ref = Some s"
  by (auto simp: server_at_def getServer_def split: option.splits)

lemma has_servers_add:
  assumes "has_servers E nets r b" "fresh_server E net r (b_attachHandlers b) (b_configs b r) s"
  shows "has_servers E (insert net nets) r (add_server net s b)"
proof -
  have "ref < b_nextRef b" if "b_servers b x = Some ref" for x ref
    using assms(1) that unfolding has_servers_def server_at_Some by (metis domI option.inject)
  then have new: "b_servers b x \<noteq> Some (b_nextRef b)" for x by blast
  moreover have "\<exists>ref t. b_servers b x = Some ref \<and> b_heap b ref = Some t \<and> ref < b_nextRef b
      \<and> fresh_server E x r (b_attachHandlers b) (b_configs b r) t" if "x \<in> nets" for x
    using assms(1) that by (auto simp: has_servers_def server_at_Some)
  ultimately have "\<exists>ref t. server_at x (add_server net s b) = Some (ref, t) \<and> ref < b_nextRef (add_server net s b)
      \<and> fresh_server E x r (b_attachHandlers b) (b_configs b r) t" if "x \<in> insert net nets" for x
    using that assms(2) by (cases "x = net") (fastforce simp: server_at_Some add_server_def)+
  moreover have "inj_on ((b_servers b)(net \<mapsto> b_nextRef b)) (insert net nets)"
    using assms(1) new by (auto simp: has_servers_def inj_on_def)
  ultimately show ?thesis using assms(1) by (simp add: has_servers_def add_server_def)
qed

lemma has_servers_rand: "be_rand E' = be_rand E \<Longrightarrow> has_servers E' nets r b = has_servers E nets r b"
  by (simp add: has_servers_def fresh_server_def)

lemma create_servers_ok:
  assumes "has_servers E done r b" "\<forall>net \<in> set nets. Network net (b_configs b r) \<noteq> None"
  shows "\<exists>b'. create_servers E nets r b = Inr (Inr b') \<and> has_servers E (done \<union> set nets) r b'
    \<and> b_configs b' = b_configs b \<and> b_conf b' = b_conf b \<and> b_attachHandlers b' = b_attachHandlers b
    \<and> b_store b' = b_store b \<and> b_registry b' = b_registry b"
  using assms
proof (induction nets arbitrary: b "done")
  case (Cons net nets)
  then obtain s where s: "createServer E net r b = Inr (Inr s)" "fresh_server E net r (b_attachHandlers b) (b_configs b r) s"
    using createServer_fresh [of net b r _ E] by fastforce
  have "has_servers E (insert net done) r (add_server net s b)" using Cons.prems(1) s(2) by (rule has_servers_add)
  from Cons.IH [OF this] show ?case using Cons.prems(2) s(1) by (simp add: add_server_def)
qed simp

lemma valid_Network:
  assumes "Validate c = (True, c')" "name \<in> set (Networks c)"
  shows "Network name c \<noteq> None"
proof -
  have ok: "validateTypes c = []" "validateRequired c = []" using assms(1) by (simp_all add: Validate_True)
  obtain nets where nets: "mp_get (Some (cf_values c)) ''networks'' = Some nets"
    using ok(2) by (auto simp: validateRequired_def split: option.splits)
  with assms(2) have "name \<in> set (map fst nets)" by (simp add: Networks_def)
  then obtain v where v: "map_of nets name = Some v" by (metis map_of_eq_None_iff not_None_eq set_map)
  obtain net where "v = VMap GoMap net" using ok(1) nets v by (rule validated_network)
  then show ?thesis using nets v by (simp add: Network_def mp_get_def)
qed

lemma wants_store_ok: "\<forall>net \<in> set nets. Network net c \<noteq> None \<Longrightarrow> \<exists>w. wants_store c nets = Inr w"
  by (induction nets) auto

definition creation_error :: "BotError \<Rightarrow> bool" where
  "creation_error e \<longleftrightarrow> (\<exists>x. e = LogFailed x) \<or> (\<exists>x. e = OpenStoreFailed x) \<or> (\<exists>x. e = CmdFailed x)"

text \<open>
  Building a bot from a configuration that validates does not panic.  It fails only if the log file
  or the store cannot be opened or a core command is taken; otherwise the bot has one server for each network,
  no two networks share one, and each is stopped, reads the bot's configuration, starts with an empty state
  unless the network asks for none, and has the core handler as the only handler for all events.
\<close>

theorem NewBot_servers:
  fixes E :: "('d, 'h) botEnv"
  assumes "CheckConfig (configs r) = (True, conf)"
  shows "case (NewBot E configs r reg :: (BotError \<times> 'h Registry + ('c, 'd, 'h) Bot) outcome) of
      Inl p \<Rightarrow> False
    | Inr (Inl (e, reg')) \<Rightarrow> creation_error e
    | Inr (Inr b) \<Rightarrow> b_configs b (b_conf b) = conf \<and> has_servers E (set (Networks conf)) (b_conf b) b \<and> b_attachHandlers b"
proof -
  let ?E = "E\<lparr>be_logProvider := False, be_storeProvider := None\<rparr>" and ?configs = "configs(r := conf)"
  have valid: "Validate (configs r) = (True, conf)" and conf: "conf = configs r"
    using assms by (auto simp: CheckConfig_def Validate_def Let_def split: if_splits)
  have nets: "\<forall>net \<in> set (Networks conf). Network net conf \<noteq> None"
    using valid_Network [OF valid] conf by simp
  obtain mk where mk: "wants_store conf (Networks conf) = Inr mk" using wants_store_ok [OF nets] by blast
  let ?b0 = "Bot_createDispatching (fst (Net_Prefix GlobalNet conf)) [] (empty_bot True ?configs r reg) :: ('c, 'd, 'h) Bot"
  obtain err b1 where b1: "(if mk then createStore ?E (fst (StoreFile conf)) ?b0 else (None, ?b0)) = (err, b1)" by fastforce
  have b1': "has_servers ?E {} r b1" "b_configs b1 = ?configs" "b_conf b1 = r" "b_attachHandlers b1"
    "err = None \<or> (\<exists>x. err = Some (OpenStoreFailed x))"
    using b1 by (auto simp: createStore_def Bot_createDispatching_def empty_bot_def has_servers_def Let_def
        split: if_splits sum.splits)
  obtain b2 where b2: "create_servers ?E (Networks conf) r b1 = Inr (Inr b2)" "has_servers ?E (set (Networks conf)) r b2"
    "b_configs b2 = ?configs" "b_conf b2 = r" "b_attachHandlers b2"
    using create_servers_ok [OF b1'(1), of "Networks conf"] b1' nets by auto
  have E: "has_servers E (set (Networks conf)) r b2" by (rule has_servers_rand [THEN iffD1, OF _ b2(2)]) simp
  let ?cmds = "if fst (Net_NoStore GlobalNet conf) then Inr b2 else attach_commands ?E b2"
  have N: "NewBot E configs r reg = (case open_log ?E conf of Some e \<Rightarrow> Inr (Inl (e, reg))
      | None \<Rightarrow> (case err of Some e \<Rightarrow> Inr (Inl (e, reg)) | None \<Rightarrow> Inr ?cmds))"
    using assms b1 b2(1) mk by (simp add: NewBot_def createBot_def Let_def split: option.split)
  have log: "creation_error e" if "open_log ?E conf = Some e" for e
    using that by (auto simp: open_log_def creation_error_def split: prod.splits bool.splits)
  have cmds: "case ?cmds of Inl (e, reg') \<Rightarrow> creation_error e
    | Inr b \<Rightarrow> b_configs b (b_conf b) = conf \<and> has_servers E (set (Networks conf)) (b_conf b) b \<and> b_attachHandlers b"
    using E b2(3-5)
    by (auto simp: attach_commands_def creation_error_def has_servers_def server_at_def getServer_def split: option.splits prod.splits)
  show ?thesis using N log cmds b1'(5) by (auto simp: creation_error_def split: option.splits)
qed

text \<open>An environment in which everything opens.\<close>

definition sample_env :: "(unit, unit) botEnv" where
  "sample_env = \<lparr>be_logProvider = False, be_openLog = (\<lambda>_. None), be_storeProvider = None, be_openStore = (\<lambda>_. Inr ()),
     be_rand = (\<lambda>n. int n), be_coreHandler = (), be_newCmd = 0\<rparr>"

theorem NewBot_servers_witness:
  "case (NewBot sample_env (\<lambda>_. sample_config) 0 \<lparr>heapCmd = Map.empty, globalCmdRegistry = Map.empty\<rparr>
       :: (BotError \<times> unit Registry + (nat, unit, unit) Bot) outcome) of
     Inl p \<Rightarrow> False
   | Inr (Inl (e, reg')) \<Rightarrow> creation_error e
   | Inr (Inr b) \<Rightarrow> b_configs b (b_conf b) = sample_config \<and> has_servers sample_env {''net''} (b_conf b) b \<and> b_attachHandlers b"
proof -
  have ok: "CheckConfig sample_config = (True, sample_config)"
    using sample_config_valid by (simp add: CheckConfig_def Config_Errors_def sample_config_def NewConfig_def clear_def)
  have nets: "set (Networks sample_config) = {''net''}" by (simp add: Networks_def sample_config_def mp_get_def intfToMp_def)
  show ?thesis by (rule NewBot_servers [where configs = "\<lambda>_. sample_config", OF ok, unfolded nets])
qed

end
