(* ===== verification/CoreHandler.thy ===== *)
theory CoreHandler
  imports BotProps
begin

text \<open>
  The handler of the events the bot itself answers, \<^verbatim>\<open>src/bot/core_handler.go\<close>: it keeps the connection alive,
  registers with the network, finds a free nick, joins the configured channels again after a kick or
  a ban, asks for members and modes of a joined channel and reads what the network supports.

  What it does is a list of actions in order, lines given to the writer and pauses in nanoseconds.  All
  its panics come before its first action.  Changes to the handler and the server come before the lines are
  sent, so a writer that fails leaves the same state.
\<close>

datatype action = Sent string | Pause "64 word"

abbreviation (input) PING :: string where "PING \<equiv> ''PING''"
abbreviation (input) CONNECT :: string where "CONNECT \<equiv> ''CONNECT''"
abbreviation (input) DISCONNECT :: string where "DISCONNECT \<equiv> ''DISCONNECT''"
abbreviation (input) RPL_MYINFO :: string where "RPL_MYINFO \<equiv> ''004''"
abbreviation (input) RPL_ISUPPORT :: string where "RPL_ISUPPORT \<equiv> ''005''"
abbreviation (input) ERR_NICKNAMEINUSE :: string where "ERR_NICKNAMEINUSE \<equiv> ''433''"
abbreviation (input) ERR_BANNEDFROMCHAN :: string where "ERR_BANNEDFROMCHAN \<equiv> ''474''"

section \<open>The cases of the switch\<close>

text \<open>\<^verbatim>\<open>server.conf.Network(ev.NetworkID)\<close>: the context of the network and the configuration it is in.\<close>

definition handler_conf :: "Event \<Rightarrow> ('c, 'd, 'h) Bot \<Rightarrow> (NetCTX \<times> Config) outcome" where
  "handler_conf ev b =
     and_then (the_server (getServer (eNetworkID ev) b) b) (\<lambda>s.
       and_then (deref (Network (eNetworkID ev) (conf_of s b))) (\<lambda>cfg. Inr (cfg, conf_of s b)))"

definition handle_ping :: "Event \<Rightarrow> action list outcome" where
  "handle_ping ev = and_then (index_at (eArgs ev) 0) (\<lambda>a. Inr [Sent (''PONG :'' @ a)])"

definition join_action :: "ConfChannel \<Rightarrow> action" where
  "join_action ch =
     Sent (if cc_Password ch \<noteq> [] then ''JOIN '' @ cc_Name ch @ '' '' @ cc_Password ch else ''JOIN '' @ cc_Name ch)"

definition join_pause :: "coreHandler \<Rightarrow> NetCTX \<Rightarrow> Config \<Rightarrow> action" where
  "join_pause h cfg conf = Pause (untilJoinScale h * fst (Net_JoinDelay cfg conf))"

definition handle_connect :: "coreHandler \<Rightarrow> NetCTX \<Rightarrow> Config \<Rightarrow> action list" where
  "handle_connect h cfg conf =
     (case Net_Password cfg conf of (password, True) \<Rightarrow> [Sent (''PASS :'' @ password)] | (_, False) \<Rightarrow> [])
     @ [Sent (''NICK :'' @ fst (Net_Nick cfg conf)),
        Sent (''USER '' @ fst (Net_Username cfg conf) @ '' 0 * :'' @ fst (Net_Realname cfg conf))]
     @ (if fst (Net_NoAutoJoin cfg conf) then []
        else (case Net_Channels cfg conf of
                (chs, True) \<Rightarrow> join_pause h cfg conf # map join_action chs
              | (_, False) \<Rightarrow> []))"

text \<open>
  The nick and the channel of a kick are its second and first argument, those of the reply 474 its first and
  second.  Reading the bot's own nick panics before the network has told it.
\<close>

definition handle_rejoin :: "coreHandler \<Rightarrow> Event \<Rightarrow> ('c, 'd, 'h) Bot \<Rightarrow> action list outcome" where
  "handle_rejoin h ev b =
     and_then (handler_conf ev b) (\<lambda>(cfg, conf).
       if fst (Net_NoAutoJoin cfg conf) \<or> \<not> snd (Net_Channels cfg conf) then Inr []
       else
         let kicked = (eName ev = KICK) in
         and_then (index_at (eArgs ev) 0) (\<lambda>a0. and_then (index_at (eArgs ev) 1) (\<lambda>a1.
           let channel = to_lower (if kicked then a0 else a1); nick = to_lower (if kicked then a1 else a0) in
           and_then (case ReadState (eNetworkID ev) self_nick b of
                       None \<Rightarrow> Inr [] | Some own \<Rightarrow> and_then own (\<lambda>n. Inr (to_lower n))) (\<lambda>curNick.
             if curNick = [] \<or> nick \<noteq> curNick then Inr []
             else Inr (concat (map (\<lambda>ch.
                    if to_lower (cc_Name ch) \<noteq> channel then []
                    else (if kicked then [] else [join_pause h cfg conf]) @ [join_action ch]) (fst (Net_Channels cfg conf))))))))"

definition collision_nick :: "coreHandler \<Rightarrow> NetCTX \<Rightarrow> Config \<Rightarrow> string" where
  "collision_nick h cfg conf =
     (if nickvalue h = 0 \<and> fst (Net_Altnick cfg conf) \<noteq> [] then fst (Net_Altnick cfg conf)
      else fst (Net_Nick cfg conf) @ replicate (nickvalue h) (CHR ''_''))"

definition handle_collision :: "coreHandler \<Rightarrow> Event \<Rightarrow> ('c, 'd, 'h) Bot \<Rightarrow> (action list \<times> coreHandler) outcome" where
  "handle_collision h ev b =
     and_then (handler_conf ev b) (\<lambda>(cfg, conf).
       Inr ([Sent (''NICK :'' @ collision_nick h cfg conf)], h\<lparr>nickvalue := nickvalue h + 1\<rparr>))"

definition handle_join :: "Event \<Rightarrow> ('c, 'd, 'h) Bot \<Rightarrow> action list outcome" where
  "handle_join ev b =
     and_then (the_server (getServer (eNetworkID ev) b) b) (\<lambda>s.
       case s_state s of
         None \<Rightarrow> Inr []
       | Some st \<Rightarrow>
           and_then (self_host st) (\<lambda>host.
             if eSender ev = host then
               and_then (index_at (eArgs ev) 0) (\<lambda>ch. Inr [Sent (''WHO :'' @ ch), Sent (''MODE :'' @ ch)])
             else Inr []))"

text \<open>
  The replies 004 and 005.  A panic of the parser leaves what it has read so far; the error of
  \<^verbatim>\<open>rehashNetworkInfo\<close> is dropped.
\<close>

definition handle_info :: "(string list \<Rightarrow> NetworkInfo \<Rightarrow> NetworkInfo \<times> go_panic option) \<Rightarrow> Event \<Rightarrow> ('c, 'd, 'h) Bot
    \<Rightarrow> ('c, 'd, 'h) Bot \<times> go_panic option" where
  "handle_info parse ev b =
     (case server_at (eNetworkID ev) b of
        None \<Rightarrow> (b, Some NilDereference)
      | Some (r, s) \<Rightarrow>
          (case parse (eArgs ev) (s_netInfo s) of
             (info, Some p) \<Rightarrow> (put_server r (s\<lparr>s_netInfo := info\<rparr>) b, Some p)
           | (info, None) \<Rightarrow>
               (let s = s\<lparr>s_netInfo := info\<rparr> in
                case rehashNetworkInfo s of
                  Inl p \<Rightarrow> (put_server r s b, Some p)
                | Inr (_, s) \<Rightarrow> (put_server r s b, None))))"

section \<open>The handler\<close>

text \<open>The actions, the handler and the bot afterwards, and the panic, if any.\<close>

type_synonym ('c, 'd, 'h) handled = "action list \<times> coreHandler \<times> ('c, 'd, 'h) Bot \<times> go_panic option"

definition acting :: "coreHandler \<Rightarrow> ('c, 'd, 'h) Bot \<Rightarrow> action list outcome \<Rightarrow> ('c, 'd, 'h) handled" where
  "acting h b r = (case r of Inl p \<Rightarrow> ([], h, b, Some p) | Inr as \<Rightarrow> (as, h, b, None))"

definition coreHandler_HandleRaw :: "coreHandler \<Rightarrow> Event \<Rightarrow> ('c, 'd, 'h) Bot \<Rightarrow> ('c, 'd, 'h) handled" where
  "coreHandler_HandleRaw h ev b =
     (if eName ev = PING then acting h b (handle_ping ev)
      else if eName ev = CONNECT then
        (let h = h\<lparr>nickvalue := 0\<rparr> in
         acting h b (and_then (handler_conf ev b) (\<lambda>(cfg, conf). Inr (handle_connect h cfg conf))))
      else if eName ev = KICK \<or> eName ev = ERR_BANNEDFROMCHAN then acting h b (handle_rejoin h ev b)
      else if eName ev = ERR_NICKNAMEINUSE then
        (case handle_collision h ev b of Inl p \<Rightarrow> ([], h, b, Some p) | Inr (as, h) \<Rightarrow> (as, h, b, None))
      else if eName ev = JOIN then acting h b (handle_join ev b)
      else if eName ev = RPL_MYINFO then (case handle_info ParseMyInfo ev b of (b, p) \<Rightarrow> ([], h, b, p))
      else if eName ev = RPL_ISUPPORT then (case handle_info ParseISupport ev b of (b, p) \<Rightarrow> ([], h, b, p))
      else ([], h, b, None))"

section \<open>Nick collisions\<close>

text \<open>The handler on a sequence of events, as long as it does not panic: all actions, in order.\<close>

fun handle_all :: "coreHandler \<Rightarrow> Event list \<Rightarrow> ('c, 'd, 'h) Bot \<Rightarrow> ('c, 'd, 'h) handled" where
  "handle_all h [] b = ([], h, b, None)"
| "handle_all h (ev # evs) b =
     (case coreHandler_HandleRaw h ev b of
        (as, h, b, Some p) \<Rightarrow> (as, h, b, Some p)
      | (as, h, b, None) \<Rightarrow> (case handle_all h evs b of (as', r) \<Rightarrow> (as @ as', r)))"

text \<open>The nick the bot tries after \<^verbatim>\<open>k\<close> collisions.\<close>

definition nick_try :: "string \<Rightarrow> string \<Rightarrow> nat \<Rightarrow> string" where
  "nick_try nk alt k = (if k = 0 \<and> alt \<noteq> [] then alt else nk @ replicate k (CHR ''_''))"

lemma handle_all_collisions:
  assumes "handler_conf ev b = Inr (cfg, conf)" "eName ev = ERR_NICKNAMEINUSE"
  shows "handle_all h (replicate n ev) b =
    (map (\<lambda>k. Sent (''NICK :'' @ nick_try (fst (Net_Nick cfg conf)) (fst (Net_Altnick cfg conf)) k)) [nickvalue h..<nickvalue h + n],
     h\<lparr>nickvalue := nickvalue h + n\<rparr>, b, None)"
proof (induction n arbitrary: h)
  case (Suc n)
  have "coreHandler_HandleRaw h ev b = ([Sent (''NICK :'' @ collision_nick h cfg conf)], h\<lparr>nickvalue := nickvalue h + 1\<rparr>, b, None)"
    using assms by (simp add: coreHandler_HandleRaw_def handle_collision_def)
  then show ?case using Suc.IH [of "h\<lparr>nickvalue := nickvalue h + 1\<rparr>"]
    by (simp add: upt_conv_Cons collision_nick_def nick_try_def del: upt_Suc)
qed simp


text \<open>A bot on one network, with an alternative nick.\<close>

definition alt_conf :: Config where
  "alt_conf = NewConfig\<lparr>cf_values := [(''networks'', VMap GoMap [(''net'', VMap GoMap
     [(''nick'', VStr ''bot''), (''altnick'', VStr ''tob''), (''servers'', VStrArr [''a:6667''])])])]\<rparr>"

definition sample_bot :: "Config \<Rightarrow> (nat, unit, unit) Bot" where
  "sample_bot conf = add_server ''net'' (sample_server 0)
     (empty_bot True (\<lambda>_. conf) 0 \<lparr>heapCmd = Map.empty, globalCmdRegistry = Map.empty\<rparr>)"

definition taken :: Event where "taken = NewEvent 0 ''net'' None ''433'' ''irc'' [''*'', ''bot'']"

definition connected :: Event where "connected = NewEvent 0 ''net'' None ''CONNECT'' ''net'' []"

lemma sample_bot_conf: "Network ''net'' conf = Some (NetOf ''net'') \<Longrightarrow> eNetworkID ev = ''net'' \<Longrightarrow>
    handler_conf ev (sample_bot conf) = Inr (NetOf ''net'', conf)"
  by (simp add: handler_conf_def the_server_def getServer_def conf_of_def sample_bot_def add_server_def empty_bot_def
      sample_server_def new_server_def)


section \<open>What the handler keeps\<close>

text \<open>The states of all servers, of those in the map and of those that were taken out of it, are reachable.\<close>

definition states_reachable :: "('c, 'd, 'h) Bot \<Rightarrow> bool" where
  "states_reachable b \<longleftrightarrow> (\<forall>r s st. b_heap b r = Some s \<longrightarrow> s_state s = Some st \<longrightarrow> reachable st)"

lemma states_reachable_put:
  "states_reachable b \<Longrightarrow> (\<And>st. s_state s = Some st \<Longrightarrow> reachable st) \<Longrightarrow> states_reachable (put_server r s b)"
  by (auto simp: states_reachable_def put_server_def)

lemma states_reachableD: "states_reachable b \<Longrightarrow> b_heap b r = Some s \<Longrightarrow> s_state s = Some st \<Longrightarrow> reachable st"
  by (auto simp: states_reachable_def)

lemma rehash_reachable:
  "rehashNetworkInfo s = Inr (e, s') \<Longrightarrow> (\<And>st. s_state s = Some st \<Longrightarrow> reachable st) \<Longrightarrow> s_state s' = Some st' \<Longrightarrow> reachable st'"
  by (auto simp: rehashNetworkInfo_def split: option.splits sum.splits) (erule (1) reachable.netinfo)

lemma handle_info_reachable:
  assumes "states_reachable b" shows "states_reachable (fst (handle_info parse ev b))"
proof -
  have "reachable st" if "server_at net b = Some (r, s)" "s_state s = Some st" for net r s st
    using assms that by (auto simp: server_at_Some dest: states_reachableD)
  then show ?thesis using assms
    by (auto simp: handle_info_def Let_def split: option.splits prod.splits sum.splits
        intro!: states_reachable_put dest: rehash_reachable)
qed

lemma HandleRaw_reachable:
  assumes "states_reachable b" "coreHandler_HandleRaw h ev b = (as, h', b', p)"
  shows "states_reachable b'"
  using assms handle_info_reachable [OF assms(1), of ParseMyInfo ev] handle_info_reachable [OF assms(1), of ParseISupport ev]
  by (auto simp: coreHandler_HandleRaw_def acting_def Let_def split: if_splits sum.splits prod.splits)

end
