(* ===== verification/BotRun.thy ===== *)
theory BotRun
  imports CoreHandler CmdsProps
begin

text \<open>
  The bot at work, \<^verbatim>\<open>src/bot/bot.go\<close>: a line of a network on its way through the parser and the state to
  handlers and commands (\<^verbatim>\<open>dispatchMessage\<close>, \<^verbatim>\<open>dispatch\<close>), and the life of a server between connecting,
  running and waiting (\<^verbatim>\<open>startServer\<close>).

  What the world does is an argument: the choices of the \<^verbatim>\<open>select\<close> of a session are a list, one round of
  the connection loop is a record.  Results tell when the list ends before the code returns.  Handlers run in
  their own goroutines (theory \<^verbatim>\<open>Dispatch\<close>); dispatching returns the tasks it starts.
\<close>

section \<open>Messages\<close>

text \<open>The handlers that were started and what became of the command, for the bot and for the network.\<close>

type_synonym effect = "task list \<times> dispatched list"

text \<open>
  The dispatcher and the commands of a bot, and those of a server, count their handlers in one shared core,
  which is kept in the dispatcher.
\<close>

definition global_cmds :: "'d kv \<Rightarrow> gob \<Rightarrow> rune \<Rightarrow> string \<Rightarrow> Event \<Rightarrow> ('c, 'd, 'h) Bot \<Rightarrow> (dispatched \<times> ('c, 'd, 'h) Bot) outcome" where
  "global_cmds K G pre netID ev b =
     and_then (Cmds_Dispatch K G netID pre ev (b_registry b) (world_of netID b) ((b_cmds b)\<lparr>cmds_core := core (b_dispatcher b)\<rparr>))
       (\<lambda>(x, w, c). Inr (x, put_world netID w (b\<lparr>b_cmds := c, b_dispatcher := (b_dispatcher b)\<lparr>core := cmds_core c\<rparr>\<rparr>)))"

definition server_cmds :: "'d kv \<Rightarrow> gob \<Rightarrow> sref \<Rightarrow> Event \<Rightarrow> ('c, 'd, 'h) Bot \<Rightarrow> (dispatched \<times> ('c, 'd, 'h) Bot) outcome" where
  "server_cmds K G r ev b =
     and_then (the_server (Some r) b) (\<lambda>s.
     and_then (Cmds_Dispatch K G (s_networkID s) (CHR 0x00) ev (b_registry b) (world_of (s_networkID s) b)
                 ((s_cmds s)\<lparr>cmds_core := core (s_dispatcher s)\<rparr>))
       (\<lambda>(x, w, c). Inr (x, put_world (s_networkID s) w
          (put_server r (s\<lparr>s_cmds := c, s_dispatcher := (s_dispatcher s)\<lparr>core := cmds_core c\<rparr>\<rparr>) b))))"

definition dispatchMessage :: "'d kv \<Rightarrow> gob \<Rightarrow> sref \<Rightarrow> Event \<Rightarrow> ('c, 'd, 'h) Bot \<Rightarrow> (effect \<times> ('c, 'd, 'h) Bot) outcome" where
  "dispatchMessage K G r ev b =
     and_then (the_server (Some r) b) (\<lambda>s.
       case Dispatcher_Dispatch ev (b_dispatcher b) of (_, ts, d) \<Rightarrow>
       case Dispatcher_Dispatch ev (s_dispatcher s) of (_, ts', d') \<Rightarrow>
       let b = put_server r (s\<lparr>s_dispatcher := d'\<rparr>) (b\<lparr>b_dispatcher := d\<rparr>) in
       and_then (global_cmds K G (GetPrefix (s_cmds s)) (s_networkID s) ev b) (\<lambda>(x, b).
         and_then (server_cmds K G r ev b) (\<lambda>(x', b). Inr ((ts @ ts', [x, x']), b))))"

section \<open>The session\<close>

text \<open>
  The two cases of the \<^verbatim>\<open>select\<close>: a line with the time of its arrival, or the end of the channel, is read;
  or the monitor takes the server's offer to be killed.
\<close>

datatype select = Received "(int \<times> string) option" | Killable

definition update_state :: "Event \<Rightarrow> 'c Server \<Rightarrow> 'c Server outcome" where
  "update_state ev s =
     (case s_state s of None \<Rightarrow> Inr s | Some st \<Rightarrow> and_then (Update ev st) (\<lambda>st. Inr (s\<lparr>s_state := Some st\<rparr>)))"

definition dispatch_line :: "'d kv \<Rightarrow> gob \<Rightarrow> sref \<Rightarrow> int \<Rightarrow> string \<Rightarrow> ('c, 'd, 'h) Bot \<Rightarrow> (effect \<times> ('c, 'd, 'h) Bot) outcome" where
  "dispatch_line K G r now line b =
     (case Parse now line of
        Inl _ \<Rightarrow> Inr (([], []), b)
      | Inr ev \<Rightarrow>
          and_then (the_server (Some r) b) (\<lambda>s.
            let ev = ev\<lparr>eNetworkID := s_networkID s, eNetworkInfo := Some (s_netInfo s)\<rparr> in
            and_then (update_state ev s) (\<lambda>s. dispatchMessage K G r ev (put_server r s b))))"

text \<open>The loop of \<^verbatim>\<open>dispatch\<close>: its two results, \<^verbatim>\<open>None\<close> while it waits for the next choice.\<close>

fun session_loop :: "'d kv \<Rightarrow> gob \<Rightarrow> sref \<Rightarrow> select list \<Rightarrow> ('c, 'd, 'h) Bot
    \<Rightarrow> ((bool \<times> BotError option) option \<times> effect list \<times> ('c, 'd, 'h) Bot) outcome" where
  "session_loop K G r [] b = Inr (None, [], b)"
| "session_loop K G r (Killable # cs) b = Inr (Some (False, Some ServerKilled), [], b)"
| "session_loop K G r (Received None # cs) b = Inr (Some (True, None), [], b)"
| "session_loop K G r (Received (Some (now, line)) # cs) b =
     and_then (dispatch_line K G r now line b) (\<lambda>(e, b).
       and_then (session_loop K G r cs b) (\<lambda>(res, es, b). Inr (res, e # es, b)))"

definition pseudo_event :: "string \<Rightarrow> int \<Rightarrow> 'c Server \<Rightarrow> Event" where
  "pseudo_event name now s = NewEvent now (s_networkID s) (Some (s_netInfo s)) name (s_networkID s) []"

definition announce :: "'d kv \<Rightarrow> gob \<Rightarrow> sref \<Rightarrow> string \<Rightarrow> int \<Rightarrow> ('c, 'd, 'h) Bot \<Rightarrow> (effect \<times> ('c, 'd, 'h) Bot) outcome" where
  "announce K G r name now b =
     and_then (the_server (Some r) b) (\<lambda>s. dispatchMessage K G r (pseudo_event name now s) b)"

text \<open>Reading the channel of the client panics without a client.\<close>

definition bot_dispatch :: "'d kv \<Rightarrow> gob \<Rightarrow> sref \<Rightarrow> int \<times> int \<Rightarrow> select list \<Rightarrow> ('c, 'd, 'h) Bot
    \<Rightarrow> ((bool \<times> BotError option) option \<times> effect list \<times> ('c, 'd, 'h) Bot) outcome" where
  "bot_dispatch K G r tms cs b =
     and_then (the_server (Some r) b) (\<lambda>s. and_then (deref (s_client s)) (\<lambda>_.
     and_then (announce K G r CONNECT (fst tms) b) (\<lambda>(e, b).
     and_then (session_loop K G r cs b) (\<lambda>(res, es, b).
       if res = None then Inr (None, e # es, b)
       else and_then (announce K G r DISCONNECT (snd tms) b) (\<lambda>(e', b). Inr (res, e # es @ [e'], b))))))"

section \<open>The life of a server\<close>

text \<open>
  One round of the loop of \<^verbatim>\<open>startServer\<close>: how dialing goes, whether the monitor kills the server while it
  connects, the choices of the session, and whether it kills the server while it waits.
\<close>

record 'n round =
  rd_dialer :: "'n dialer"
  rd_killConnecting :: bool
  rd_times :: "int \<times> int"
  rd_session :: "select list"
  rd_killWaiting :: bool

record ('n, 'c) clientOps =
  co_new :: "'n \<Rightarrow> clientSettings \<Rightarrow> 'c"
  co_close :: "'c \<Rightarrow> string option"

text \<open>
  What happens to a server: a change of its status and the end of a successful \<^verbatim>\<open>createIrcClient\<close>, each with
  whether the server has a client just then, a message that is dispatched, and a wait.
\<close>

datatype life_event = Became Status bool | Connected bool | Waiting "64 word" | Message effect

definition has_client :: "sref \<Rightarrow> ('c, 'd, 'h) Bot \<Rightarrow> bool" where
  "has_client r b = (case b_heap b r of None \<Rightarrow> False | Some s \<Rightarrow> s_client s \<noteq> None)"

definition change_status :: "Status \<Rightarrow> sref \<Rightarrow> ('c, 'd, 'h) Bot \<Rightarrow> ('c, 'd, 'h) Bot outcome" where
  "change_status st r b = and_then (the_server (Some r) b) (\<lambda>s. Inr (put_server r (snd (setStatus st s)) b))"

definition close_server :: "('c \<Rightarrow> string option) \<Rightarrow> sref \<Rightarrow> ('c, 'd, 'h) Bot \<Rightarrow> ('c, 'd, 'h) Bot outcome" where
  "close_server cclose r b = and_then (the_server (Some r) b) (\<lambda>s. Inr (put_server r (snd (Server_Close cclose s)) b))"

text \<open>How a round ends: the loop ends with an error or without, it goes on, or the session still waits.\<close>

datatype verdict = Ends "BotError option" | Again | InSession

text \<open>
  The second half of the body, after a disconnection: \<^verbatim>\<open>disconnect\<close> and \<^verbatim>\<open>err\<close> are those of the code.  The
  timeout is scaled with \<^verbatim>\<open>reconnScale\<close>, one second.
\<close>

definition reconnect :: "('n, 'c) clientOps \<Rightarrow> 'n round \<Rightarrow> sref \<Rightarrow> bool \<Rightarrow> BotError option \<Rightarrow> ('c, 'd, 'h) Bot
    \<Rightarrow> (verdict \<times> life_event list \<times> ('c, 'd, 'h) Bot) outcome" where
  "reconnect ops rd r disconnect err b =
     and_then (the_server (Some r) b) (\<lambda>s. and_then (net_ctx (conf_of s b) s) (\<lambda>cfg.
       if \<not> disconnect \<or> fst (Net_NoReconnect cfg (conf_of s b)) then Inr (Ends err, [], b)
       else
         let wait = fst (Net_ReconnectTimeout cfg (conf_of s b)) * second in
         and_then (close_server (co_close ops) r b) (\<lambda>b. and_then (change_status STATUS_RECONNECTING r b) (\<lambda>b.
           Inr (if rd_killWaiting rd then Ends (Some ServerKilledReconn) else Again,
                [Became STATUS_RECONNECTING (has_client r b), Waiting wait], b)))))"

text \<open>What follows the session: an error ends the loop at once.\<close>

definition after_session :: "('n, 'c) clientOps \<Rightarrow> 'n round \<Rightarrow> sref \<Rightarrow> (bool \<times> BotError option) option \<Rightarrow> ('c, 'd, 'h) Bot
    \<Rightarrow> (verdict \<times> life_event list \<times> ('c, 'd, 'h) Bot) outcome" where
  "after_session ops rd r res b =
     (case res of
        None \<Rightarrow> Inr (InSession, [], b)
      | Some (disconnect, Some e) \<Rightarrow> Inr (Ends (Some e), [], b)
      | Some (disconnect, None) \<Rightarrow> reconnect ops rd r disconnect None b)"

definition server_round :: "'d kv \<Rightarrow> gob \<Rightarrow> ('n, 'c) clientOps \<Rightarrow> 'n round \<Rightarrow> sref \<Rightarrow> ('c, 'd, 'h) Bot
    \<Rightarrow> (verdict \<times> life_event list \<times> ('c, 'd, 'h) Bot) outcome" where
  "server_round K G ops rd r b =
     and_then (change_status STATUS_CONNECTING r b) (\<lambda>b. and_then (the_server (Some r) b) (\<lambda>s.
     and_then (createIrcClient (rd_dialer rd) (co_new ops) (rd_killConnecting rd) (conf_of s b) s) (\<lambda>((err, temp), s).
       let connecting = Became STATUS_CONNECTING (has_client r b); b = put_server r s b in
       if err \<noteq> None then
         and_then (reconnect ops rd r temp err b) (\<lambda>(v, tr, b). Inr (v, connecting # tr, b))
       else
         let connected = Connected (has_client r b) in
         and_then (change_status STATUS_STARTED r b) (\<lambda>b.
         let started = Became STATUS_STARTED (has_client r b) in
         and_then (bot_dispatch K G r (rd_times rd) (rd_session rd) b) (\<lambda>(res, es, b).
         and_then (after_session ops rd r res b) (\<lambda>(v, tr, b).
           Inr (v, [connecting, connected, started] @ map Message es @ tr, b)))))))"

text \<open>
  The loop and what follows it; \<^verbatim>\<open>None\<close> if the server is still running when the rounds are used up.
  The channel \<^verbatim>\<open>killable\<close> and the monitor are in theory \<^verbatim>\<open>Monitor\<close>.
\<close>

fun server_loop :: "'d kv \<Rightarrow> gob \<Rightarrow> ('n, 'c) clientOps \<Rightarrow> 'n round list \<Rightarrow> sref \<Rightarrow> ('c, 'd, 'h) Bot
    \<Rightarrow> (BotError option option \<times> life_event list \<times> ('c, 'd, 'h) Bot) outcome" where
  "server_loop K G ops [] r b = Inr (None, [], b)"
| "server_loop K G ops (rd # rds) r b =
     and_then (server_round K G ops rd r b) (\<lambda>(v, tr, b).
       case v of
         InSession \<Rightarrow> Inr (None, tr, b)
       | Ends err \<Rightarrow> Inr (Some err, tr, b)
       | Again \<Rightarrow> and_then (server_loop K G ops rds r b) (\<lambda>(res, tr', b). Inr (res, tr @ tr', b)))"

definition startServer :: "'d kv \<Rightarrow> gob \<Rightarrow> ('n, 'c) clientOps \<Rightarrow> 'n round list \<Rightarrow> sref \<Rightarrow> ('c, 'd, 'h) Bot
    \<Rightarrow> (BotError option option \<times> life_event list \<times> ('c, 'd, 'h) Bot) outcome" where
  "startServer K G ops rds r b =
     and_then (server_loop K G ops rds r b) (\<lambda>(res, tr, b).
       if res = None then Inr (None, tr, b)
       else
         and_then (close_server (co_close ops) r b) (\<lambda>b. and_then (change_status STATUS_STOPPED r b) (\<lambda>b.
           Inr (res, tr @ [Became STATUS_STOPPED (has_client r b)], b))))"

end
