(* ===== verification/BotLife.thy ===== *)
theory BotLife
  imports BotRun
begin

text \<open>
  What the bot keeps while it works.  Dispatching changes nothing of a server but its tables and locks; so the
  status, the client and the state of a server change only where \<^verbatim>\<open>startServer\<close> and the loop of
  \<^verbatim>\<open>dispatch\<close> change them.  From this: the order of the statuses, when a server has a client, that a
  server goes on trying, and that the states of all networks stay consistent.
\<close>

section \<open>What dispatching leaves alone\<close>

text \<open>A server without its tables and locks, and the part of the bot that dispatching does not touch.\<close>

definition quiet :: "'c Server \<Rightarrow> 'c Server" where
  "quiet s = s\<lparr>s_dispatcher := NewDispatcher (NewDispatchCore []), s_cmds := NewCmds (CHR 0x00) (NewDispatchCore []), s_stateLocks := 0\<rparr>"

definition outline :: "('c, 'd, 'h) Bot \<Rightarrow> (sref \<Rightarrow> 'c Server option) \<times> (string \<rightharpoonup> sref) \<times> (cfref \<Rightarrow> Config) \<times> cfref \<times> sref" where
  "outline b = (\<lambda>r. map_option quiet (b_heap b r), b_servers b, b_configs b, b_conf b, b_nextRef b)"

lemma quiet_fields [simp]:
  "s_status (quiet s) = s_status s" "s_client (quiet s) = s_client s" "s_state (quiet s) = s_state s"
  "s_networkID (quiet s) = s_networkID s" "s_conf (quiet s) = s_conf s" "s_serverIndex (quiet s) = s_serverIndex s"
  "s_netInfo (quiet s) = s_netInfo s" "s_listeners (quiet s) = s_listeners s" "s_handler (quiet s) = s_handler s"
  by (simp_all add: quiet_def)

lemma outline_server:
  assumes "outline b' = outline b" "b_heap b r = Some s"
  obtains s' where "b_heap b' r = Some s'" "quiet s' = quiet s"
proof -
  have "map_option quiet (b_heap b' r) = map_option quiet (b_heap b r)" using assms(1) by (simp add: outline_def fun_eq_iff)
  then show ?thesis using that assms(2) by (cases "b_heap b' r") auto
qed

definition same_state :: "'d World \<Rightarrow> 'd World \<Rightarrow> bool" where
  "same_state w w' \<longleftrightarrow> w_state w' = w_state w \<and> w_known w' = w_known w"

lemma refuse_state: "refuse ev err cev w c = (x, w', c') \<Longrightarrow> same_state w w'"
  by (auto simp: refuse_def CE_Close_def CloseState_def CloseReadStore_def same_state_def split: if_splits)

lemma check_and_start_state:
  assumes "check_and_start K G net ev cmd ch isChan as r reg w c = Inr (x, w', c')"
  shows "same_state w w'"
proof -
  obtain st w0 where st: "OpenState w = (st, w0)" by fastforce
  obtain sto w1 where sto: "OpenReadStore w0 = (sto, w1)" by fastforce
  have open_same: "same_state w w1" using st sto by (auto simp: OpenState_def OpenReadStore_def same_state_def split: if_splits)
  have "same_state w1 w'" using assms unfolding check_and_start_def Let_def st sto prod.case
    by (auto simp: same_state_def same_world_def split: sum.splits option.splits if_splits
        dest!: filterArgs_frame refuse_state)
  with open_same show ?thesis by (simp add: same_state_def)
qed

lemma Cmds_Dispatch_state: "Cmds_Dispatch K G net pre ev reg w c = Inr (x, w', c') \<Longrightarrow> w_state w' = w_state w"
  using check_and_start_state
  by (fastforce simp: Cmds_Dispatch_def Let_def same_state_def split: option.splits prod.splits if_splits)

lemma outline_put: "b_heap b r = Some s \<Longrightarrow> quiet s' = quiet s \<Longrightarrow> outline (put_server r s' b) = outline b"
  by (auto simp: outline_def put_server_def fun_eq_iff)

lemma outline_put_world:
  assumes "w_state w = w_state (world_of net b)"
  shows "outline (put_world net w b) = outline b"
  using assms by (auto simp: put_world_def world_of_def server_at_Some outline_def put_server_def quiet_def fun_eq_iff
      split: option.splits)

lemma outline_tables [simp]: "outline (b\<lparr>b_dispatcher := d\<rparr>) = outline b" "outline (b\<lparr>b_cmds := c\<rparr>) = outline b"
  by (simp_all add: outline_def)

lemma server_at_tables [simp]:
  "server_at net (b\<lparr>b_dispatcher := d\<rparr>) = server_at net b" "server_at net (b\<lparr>b_cmds := c\<rparr>) = server_at net b"
  by (simp_all add: server_at_def getServer_def split: option.split)

lemma world_of_tables [simp]: "world_of net (b\<lparr>b_dispatcher := d\<rparr>) = world_of net b" "world_of net (b\<lparr>b_cmds := c\<rparr>) = world_of net b"
  by (simp_all add: world_of_def split: option.split)

lemma global_cmds_outline:
  assumes "global_cmds K G pre net ev b = Inr (x, b')" shows "outline b' = outline b"
proof -
  from assms obtain w c where "w_state w = w_state (world_of net b)"
    and b': "b' = put_world net w (b\<lparr>b_cmds := c, b_dispatcher := (b_dispatcher b)\<lparr>core := cmds_core c\<rparr>\<rparr>)"
    by (auto simp: global_cmds_def dest: Cmds_Dispatch_state)
  then have "w_state w = w_state (world_of net (b\<lparr>b_cmds := c, b_dispatcher := (b_dispatcher b)\<lparr>core := cmds_core c\<rparr>\<rparr>))"
    by simp
  then show ?thesis unfolding b' by (simp add: outline_put_world)
qed

lemma server_cmds_outline:
  assumes "server_cmds K G r ev b = Inr (x, b')" shows "outline b' = outline b"
proof -
  from assms obtain s w c where s: "b_heap b r = Some s" and "w_state w = w_state (world_of (s_networkID s) b)"
    and b': "b' = put_world (s_networkID s) w (put_server r (s\<lparr>s_cmds := c, s_dispatcher := (s_dispatcher s)\<lparr>core := cmds_core c\<rparr>\<rparr>) b)"
    by (auto simp: server_cmds_def the_server_def deref_eq_Inr dest: Cmds_Dispatch_state)
  then have "w_state w = w_state (world_of (s_networkID s)
      (put_server r (s\<lparr>s_cmds := c, s_dispatcher := (s_dispatcher s)\<lparr>core := cmds_core c\<rparr>\<rparr>) b))"
    by (auto simp: world_of_def server_at_def getServer_def put_server_def split: option.splits)
  then show ?thesis unfolding b' using s by (simp add: outline_put_world outline_put quiet_def)
qed

lemma dispatchMessage_outline:
  assumes "dispatchMessage K G r ev b = Inr (e, b')" shows "outline b' = outline b"
proof -
  from assms obtain s d d' x b1 x' where s: "b_heap b r = Some s"
    and 1: "global_cmds K G (GetPrefix (s_cmds s)) (s_networkID s) ev (put_server r (s\<lparr>s_dispatcher := d'\<rparr>) (b\<lparr>b_dispatcher := d\<rparr>)) = Inr (x, b1)"
    and 2: "server_cmds K G r ev b1 = Inr (x', b')"
    by (auto simp: dispatchMessage_def the_server_def deref_eq_Inr Let_def split: prod.splits)
  have "outline b' = outline (put_server r (s\<lparr>s_dispatcher := d'\<rparr>) (b\<lparr>b_dispatcher := d\<rparr>))"
    using global_cmds_outline [OF 1] server_cmds_outline [OF 2] by simp
  also have "\<dots> = outline (b\<lparr>b_dispatcher := d\<rparr>)" using s by (intro outline_put [where s = s]) (simp_all add: quiet_def)
  finally show ?thesis by simp
qed


section \<open>The order of the statuses\<close>

text \<open>
  What can happen to a server in a status, with or without a client: it connects when it is stopped or has
  waited, it gets its client while it connects and starts with it, it handles messages only while it is started
  and has a client, and it gives its client up before it waits or is stopped.
\<close>

fun life_step :: "Status \<times> bool \<Rightarrow> life_event \<Rightarrow> (Status \<times> bool) option" where
  "life_step (st, c) (Message e) = (if st = STATUS_STARTED \<and> c then Some (st, c) else None)"
| "life_step (st, c) (Waiting w) = (if st = STATUS_RECONNECTING \<and> \<not> c then Some (st, c) else None)"
| "life_step (st, c) (Connected c') = (if st = STATUS_CONNECTING \<and> \<not> c \<and> c' then Some (st, c') else None)"
| "life_step (st, c) (Became new c') =
     (if (st, c, new, c') \<in>
         {(STATUS_STOPPED, False, STATUS_CONNECTING, False), (STATUS_RECONNECTING, False, STATUS_CONNECTING, False),
          (STATUS_CONNECTING, True, STATUS_STARTED, True),
          (STATUS_CONNECTING, False, STATUS_RECONNECTING, False), (STATUS_STARTED, True, STATUS_RECONNECTING, False),
          (STATUS_CONNECTING, False, STATUS_STOPPED, False), (STATUS_STARTED, True, STATUS_STOPPED, False),
          (STATUS_RECONNECTING, False, STATUS_STOPPED, False)}
      then Some (new, c') else None)"

fun life :: "Status \<times> bool \<Rightarrow> life_event list \<Rightarrow> (Status \<times> bool) option" where
  "life st [] = Some st"
| "life st (e # es) = (case life_step st e of None \<Rightarrow> None | Some st \<Rightarrow> life st es)"

lemma life_append: "life st (es @ es') = (case life st es of None \<Rightarrow> None | Some st \<Rightarrow> life st es')"
  by (induction es arbitrary: st) (auto split: option.splits)

lemma life_messages: "life (STATUS_STARTED, True) (map Message es) = Some (STATUS_STARTED, True)"
  by (induction es) simp_all

text \<open>
  A server in a status, with a client exactly in the status \<^verbatim>\<open>STATUS_STARTED\<close>, whose network is in its
  configuration with at least one address.
\<close>

definition lives :: "Config \<Rightarrow> sref \<Rightarrow> Status \<Rightarrow> ('c, 'd, 'h) Bot \<Rightarrow> bool" where
  "lives cf r st b \<longleftrightarrow> (\<exists>s cfg. b_heap b r = Some s \<and> s_status s = st \<and> (s_client s \<noteq> None \<longleftrightarrow> st = STATUS_STARTED)
     \<and> conf_of s b = cf \<and> Network (s_networkID s) cf = Some cfg \<and> fst (Net_Servers cfg cf) \<noteq> [])"

lemma lives_outline:
  assumes "outline b' = outline b" "lives cf r st b" shows "lives cf r st b'"
proof -
  from assms(2) obtain s cfg where s: "b_heap b r = Some s" "s_status s = st" "s_client s \<noteq> None \<longleftrightarrow> st = STATUS_STARTED"
    "conf_of s b = cf" "Network (s_networkID s) cf = Some cfg" "fst (Net_Servers cfg cf) \<noteq> []" by (auto simp: lives_def)
  obtain s' where s': "b_heap b' r = Some s'" "quiet s' = quiet s" using outline_server [OF assms(1) s(1)] .
  have "s_status s' = s_status s" "s_client s' = s_client s" "s_conf s' = s_conf s" "s_networkID s' = s_networkID s"
    using s'(2) by (metis quiet_fields)+
  moreover have "b_configs b' = b_configs b" using assms(1) by (simp add: outline_def)
  ultimately show ?thesis using s s'(1) by (simp add: lives_def conf_of_def)
qed

lemma the_server_Inr [simp]: "the_server (Some r) b = Inr s \<longleftrightarrow> b_heap b r = Some s"
  by (simp add: the_server_def deref_eq_Inr)

lemma put_server_heap [simp]: "b_heap (put_server r s b) r = Some s" by (simp add: put_server_def)

lemma put_server_twice [simp]: "put_server r x (put_server r y b) = put_server r x b" by (simp add: put_server_def)

lemma put_server_fields [simp]:
  "b_configs (put_server r s b) = b_configs b" "b_servers (put_server r s b) = b_servers b" "b_conf (put_server r s b) = b_conf b"
  by (simp_all add: put_server_def)

lemma conf_of_put [simp]: "conf_of s (put_server r x b) = conf_of s b" by (simp add: conf_of_def put_server_def)

lemma conf_of_same: "s_conf s' = s_conf s \<Longrightarrow> conf_of s' b = conf_of s b" by (simp add: conf_of_def)

lemma setStatus_fields [simp]:
  "s_status (snd (setStatus st s)) = st" "s_client (snd (setStatus st s)) = s_client s"
  "s_state (snd (setStatus st s)) = s_state s" "s_conf (snd (setStatus st s)) = s_conf s"
  "s_networkID (snd (setStatus st s)) = s_networkID s" "s_serverIndex (snd (setStatus st s)) = s_serverIndex s"
  by (simp_all add: setStatus_def)

lemma has_client_put [simp]: "has_client r (put_server r s b) \<longleftrightarrow> s_client s \<noteq> None" by (simp add: has_client_def)

lemma change_status_heap:
  "change_status st r b = Inr b' \<longleftrightarrow> (\<exists>s. b_heap b r = Some s \<and> b' = put_server r (snd (setStatus st s)) b)"
  by (auto simp: change_status_def and_then_eq_Inr)

lemma close_server_heap:
  "close_server cl r b = Inr b' \<longleftrightarrow> (\<exists>s. b_heap b r = Some s \<and> b' = put_server r (s\<lparr>s_client := None\<rparr>) b)"
  by (auto simp: close_server_def and_then_eq_Inr Server_Close_def)

lemma announce_outline: "announce K G r name now b = Inr (e, b') \<Longrightarrow> outline b' = outline b"
  by (auto simp: announce_def dest: dispatchMessage_outline)

text \<open>The pseudo events are no commands, so announcing them cannot panic.\<close>

lemma announce_returns:
  fixes b :: "('c, 'd, 'h) Bot"
  assumes "b_heap b r = Some s" "name \<notin> {PRIVMSG, NOTICE}"
  shows "\<exists>e b'. announce K G r name now b = Inr (e, b')"
proof -
  have quiet_cmds: "Cmds_Dispatch K G net pre (pseudo_event name now s) reg w c = Inr (Ignored, w, c)" for net pre reg w c
    using assms(2) by (simp add: Cmds_Dispatch_def command_name_def msgtype_of_def pseudo_event_def NewEvent_def)
  have kept: "b_heap (put_world net w b') r = None \<longleftrightarrow> b_heap b' r = None" for net w and b' :: "('c, 'd, 'h) Bot"
    by (auto simp: put_world_def server_at_Some put_server_def Let_def split: option.splits)
  show ?thesis using assms(1)
    by (auto simp: announce_def dispatchMessage_def the_server_def global_cmds_def server_cmds_def quiet_cmds Let_def deref_def
        put_server_def kept split: prod.splits option.splits)
qed

lemma dispatch_line_lives:
  assumes "dispatch_line K G r now line b = Inr (e, b')" "lives cf r st b" shows "lives cf r st b'"
proof -
  have "lives cf r st (put_server r s' b)" if "update_state ev s = Inr s'" "b_heap b r = Some s" for ev s s'
    using that assms(2) by (auto simp: update_state_def lives_def conf_of_def split: option.splits)
  then show ?thesis using assms
    by (auto simp: dispatch_line_def Let_def split: sum.splits dest!: dispatchMessage_outline intro: lives_outline)
qed

lemma session_loop_lives:
  "session_loop K G r cs b = Inr (res, es, b') \<Longrightarrow> lives cf r st b \<Longrightarrow> lives cf r st b'"
  by (induction K G r cs b arbitrary: res es rule: session_loop.induct) (auto dest: dispatch_line_lives)

text \<open>A session stays started with its client, and it panics only where a message does.\<close>

lemma bot_dispatch_lives:
  fixes b :: "('c, 'd, 'h) Bot"
  assumes "lives cf r STATUS_STARTED b"
  shows "bot_dispatch K G r tms cs b = Inr (res, es, b') \<Longrightarrow> lives cf r STATUS_STARTED b' \<and> es \<noteq> []"
    and "bot_dispatch K G r tms cs b = Inl p \<Longrightarrow> \<exists>b1 :: ('c, 'd, 'h) Bot. lives cf r STATUS_STARTED b1 \<and> session_loop K G r cs b1 = Inl p"
proof -
  have names: "CONNECT \<notin> {PRIVMSG, NOTICE}" "DISCONNECT \<notin> {PRIVMSG, NOTICE}" by code_simp+
  obtain s where s: "b_heap b r = Some s" "s_client s \<noteq> None" using assms by (auto simp: lives_def)
  obtain e b1 where a: "announce K G r CONNECT (fst tms) b = Inr (e, b1)" using announce_returns [OF s(1) names(1)] by blast
  have l1: "lives cf r STATUS_STARTED b1" using announce_outline [OF a] assms by (rule lives_outline)
  have a2: "\<exists>e b'. announce K G r DISCONNECT (snd tms) b2 = Inr (e, b') \<and> lives cf r STATUS_STARTED b'"
    if "session_loop K G r cs b1 = Inr (res, es, b2)" for res es b2
  proof -
    have l: "lives cf r STATUS_STARTED b2" using session_loop_lives [OF that l1] .
    then obtain s2 where "b_heap b2 r = Some s2" by (auto simp: lives_def)
    from announce_returns [OF this names(2)] obtain e b' where "announce K G r DISCONNECT (snd tms) b2 = Inr (e, b')" by blast
    then show ?thesis using announce_outline lives_outline l by blast
  qed
  have d: "bot_dispatch K G r tms cs b = and_then (session_loop K G r cs b1) (\<lambda>(res, es, b).
       if res = None then Inr (None, e # es, b)
       else and_then (announce K G r DISCONNECT (snd tms) b) (\<lambda>(e', b). Inr (res, e # es @ [e'], b)))"
    using s a by (auto simp: bot_dispatch_def the_server_def)
  show "bot_dispatch K G r tms cs b = Inr (res, es, b') \<Longrightarrow> lives cf r STATUS_STARTED b' \<and> es \<noteq> []"
    unfolding d using a2 session_loop_lives [OF _ l1] by (fastforce split: if_splits)
  show "\<exists>b1 :: ('c, 'd, 'h) Bot. lives cf r STATUS_STARTED b1 \<and> session_loop K G r cs b1 = Inl p" if "bot_dispatch K G r tms cs b = Inl p"
  proof (cases "session_loop K G r cs b1")
    case (Inl q)
    with that have "q = p" unfolding d by simp
    with Inl l1 show ?thesis by blast
  next
    case (Inr x)
    obtain res es b2 where x: "x = (res, es, b2)" by (cases x)
    show ?thesis using a2 [of res es b2] that Inr unfolding d x by (auto split: if_splits)
  qed
qed

lemma reconnect_lives:
  assumes "lives cf r st b" "st = STATUS_CONNECTING \<or> st = STATUS_STARTED"
  shows "\<exists>v tr b' st'. reconnect ops rd r disconnect err b = Inr (v, tr, b') \<and> life (st, st = STATUS_STARTED) tr = Some (st', st' = STATUS_STARTED)
    \<and> lives cf r st' b' \<and> st' \<noteq> STATUS_STOPPED \<and> v \<noteq> InSession \<and> (v = Again \<longrightarrow> st' = STATUS_RECONNECTING)"
  using assms
  by (auto simp: reconnect_def Let_def lives_def the_server_def net_ctx_def close_server_def change_status_def Server_Close_def conf_of_def)

lemma after_session_lives:
  assumes "lives cf r STATUS_STARTED b"
  shows "\<exists>v tr b' st'. after_session ops rd r res b = Inr (v, tr, b') \<and> life (STATUS_STARTED, True) tr = Some (st', st' = STATUS_STARTED)
    \<and> lives cf r st' b' \<and> st' \<noteq> STATUS_STOPPED \<and> (v = Again \<longrightarrow> st' = STATUS_RECONNECTING)"
  using assms reconnect_lives [OF assms, of ops rd _ None]
  by (fastforce simp: after_session_def split: option.splits)

lemma createIrcClient_client:
  "createIrcClient dl mk k cf s = Inr ((err, temp), s') \<Longrightarrow> s_client s = None \<Longrightarrow>
   (s_client s' \<noteq> None \<longleftrightarrow> err = None) \<and> s_status s' = s_status s \<and> s_state s' = s_state s \<and> s_networkID s' = s_networkID s
   \<and> s_conf s' = s_conf s"
  by (auto simp: createIrcClient_def createConnection_def Let_def split: if_splits sum.splits)

text \<open>A round in which some address accepts, and nobody kills the server meanwhile.\<close>

definition connects :: "Config \<Rightarrow> 'n round \<Rightarrow> bool" where
  "connects cf rd \<longleftrightarrow> \<not> rd_killConnecting rd \<and> (\<forall>cfg server. \<exists>conn. connect_to (rd_dialer rd) cfg cf server = Inr conn)"

lemma createIrcClient_returns:
  assumes "s_client s = None" "Network (s_networkID s) cf = Some cfg" "fst (Net_Servers cfg cf) \<noteq> []"
  obtains err temp s' where "createIrcClient (rd_dialer rd) mk (rd_killConnecting rd) cf s = Inr ((err, temp), s')" "connects cf rd \<Longrightarrow> err = None"
proof -
  let ?i = "if length (fst (Net_Servers cfg cf)) \<le> s_serverIndex s then 0 else s_serverIndex s"
  let ?x = "connect_to (rd_dialer rd) cfg cf (fst (Net_Servers cfg cf) ! ?i)"
  have "connects cf rd \<Longrightarrow> \<exists>conn. ?x = Inr conn" by (simp add: connects_def)
  moreover have "\<exists>a s'. createConnection (rd_dialer rd) cf s = Inr (a, ?x, s') \<and> s_networkID s' = s_networkID s"
    using assms by (cases ?x) (auto simp: createConnection_def net_ctx_def Let_def index_at_def split: if_splits)
  ultimately obtain a x s' where x: "createConnection (rd_dialer rd) cf s = Inr (a, x, s')" "s_networkID s' = s_networkID s"
    "connects cf rd \<Longrightarrow> \<exists>conn. x = Inr conn" by blast
  show ?thesis
  proof (cases "rd_killConnecting rd")
    case True
    then have "createIrcClient (rd_dialer rd) mk (rd_killConnecting rd) cf s = Inr ((Some ServerKilledConn, False), s')" "\<not> connects cf rd"
      using x(1) assms(1) by (simp_all add: createIrcClient_def connects_def)
    then show ?thesis using that by blast
  next
    case False
    then show ?thesis using that x assms(1,2) by (cases x) (auto simp: createIrcClient_def net_ctx_def)
  qed
qed

text \<open>One round: what happens is allowed, and it panics only in a session that the server is started for.\<close>

lemma server_round_lives:
  fixes b :: "('c, 'd, 'h) Bot"
  assumes "lives cf r st b" "st = STATUS_STOPPED \<or> st = STATUS_RECONNECTING"
  shows "server_round K G ops rd r b = Inr (v, tr, b') \<Longrightarrow>
      \<exists>st'. life (st, False) tr = Some (st', st' = STATUS_STARTED) \<and> lives cf r st' b' \<and> st' \<noteq> STATUS_STOPPED
        \<and> (v = Again \<longrightarrow> st' = STATUS_RECONNECTING)
        \<and> (connects cf rd \<longrightarrow> take 3 tr = [Became STATUS_CONNECTING False, Connected True, Became STATUS_STARTED True])"
    and "server_round K G ops rd r b = Inl p \<Longrightarrow> \<exists>b1 :: ('c, 'd, 'h) Bot. lives cf r STATUS_STARTED b1 \<and> session_loop K G r (rd_session rd) b1 = Inl p"
proof -
  obtain s cfg where s: "b_heap b r = Some s" "s_client s = None" "conf_of s b = cf" "Network (s_networkID s) cf = Some cfg"
    "fst (Net_Servers cfg cf) \<noteq> []" using assms by (auto simp: lives_def)
  let ?s = "snd (setStatus STATUS_CONNECTING s)"
  let ?b = "put_server r ?s b"
  have start: "change_status STATUS_CONNECTING r b = Inr ?b" using s(1) by (simp add: change_status_heap)
  have cf: "conf_of ?s b = cf" using s(3) by (simp add: conf_of_def)
  have begin_ok: "life_step (st, False) (Became STATUS_CONNECTING False) = Some (STATUS_CONNECTING, False)" using assms(2) by auto
  obtain err temp s1 where c: "createIrcClient (rd_dialer rd) (co_new ops) (rd_killConnecting rd) cf ?s = Inr ((err, temp), s1)"
    "connects cf rd \<Longrightarrow> err = None" using createIrcClient_returns [of ?s cf cfg rd "co_new ops"] s(2,4,5) by (metis setStatus_fields(2,5))
  have s1: "s_client s1 \<noteq> None \<longleftrightarrow> err = None" "s_status s1 = STATUS_CONNECTING" "s_networkID s1 = s_networkID s" "s_conf s1 = s_conf s"
    using createIrcClient_client [OF c(1)] s(2) by simp_all
  have cf1: "conf_of s1 b = cf" using s1(4) s(3) by (simp add: conf_of_def)
  have round: "server_round K G ops rd r b =
      (let b = put_server r s1 b in
       if err \<noteq> None then and_then (reconnect ops rd r temp err b) (\<lambda>(v, tr, b). Inr (v, Became STATUS_CONNECTING False # tr, b))
       else and_then (bot_dispatch K G r (rd_times rd) (rd_session rd) (put_server r (snd (setStatus STATUS_STARTED s1)) b)) (\<lambda>(res, es, b).
         and_then (after_session ops rd r res b) (\<lambda>(v, tr, b).
           Inr (v, [Became STATUS_CONNECTING False, Connected True, Became STATUS_STARTED True] @ map Message es @ tr, b))))"
    using s(2) s1(1) by (simp add: server_round_def start the_server_def cf c(1)) (simp add: change_status_def the_server_def Let_def)
  show "\<exists>st'. life (st, False) tr = Some (st', st' = STATUS_STARTED) \<and> lives cf r st' b' \<and> st' \<noteq> STATUS_STOPPED
        \<and> (v = Again \<longrightarrow> st' = STATUS_RECONNECTING)
        \<and> (connects cf rd \<longrightarrow> take 3 tr = [Became STATUS_CONNECTING False, Connected True, Became STATUS_STARTED True])"
    if "server_round K G ops rd r b = Inr (v, tr, b')"
  proof (cases err)
    case (Some e)
    have "lives cf r STATUS_CONNECTING (put_server r s1 b)" using s1 Some s cf1 by (simp add: lives_def)
    from reconnect_lives [OF this, of ops rd temp err] show ?thesis
      using begin_ok that Some c(2) unfolding round by (auto simp: Let_def simp del: life_step.simps)
  next
    case None
    let ?b2 = "put_server r (snd (setStatus STATUS_STARTED s1)) (put_server r s1 b)"
    have l2: "lives cf r STATUS_STARTED ?b2" using s1 None s cf1 by (simp add: lives_def conf_of_def)
    from that None obtain res es b3 tr' where d: "bot_dispatch K G r (rd_times rd) (rd_session rd) ?b2 = Inr (res, es, b3)"
      and a: "after_session ops rd r res b3 = Inr (v, tr', b')"
      and tr: "tr = [Became STATUS_CONNECTING False, Connected True, Became STATUS_STARTED True] @ map Message es @ tr'"
      unfolding round by (auto simp: Let_def)
    have "lives cf r STATUS_STARTED b3" using bot_dispatch_lives(1) [OF l2 d] by simp
    from after_session_lives [OF this, of ops rd res] a obtain st' where st': "life (STATUS_STARTED, True) tr' = Some (st', st' = STATUS_STARTED)"
      "lives cf r st' b'" "st' \<noteq> STATUS_STOPPED" "v = Again \<longrightarrow> st' = STATUS_RECONNECTING" by auto
    have "life (st, False) tr = Some (st', st' = STATUS_STARTED)" using begin_ok st'(1) unfolding tr by (simp add: life_append life_messages)
    with st' show ?thesis by (auto simp: tr)
  qed
  show "\<exists>b1 :: ('c, 'd, 'h) Bot. lives cf r STATUS_STARTED b1 \<and> session_loop K G r (rd_session rd) b1 = Inl p" if "server_round K G ops rd r b = Inl p"
  proof (cases err)
    case (Some e)
    have "lives cf r STATUS_CONNECTING (put_server r s1 b)" using s1 Some s cf1 by (simp add: lives_def)
    from reconnect_lives [OF this, of ops rd temp err] show ?thesis using that Some unfolding round by (auto simp: Let_def)
  next
    case None
    let ?b2 = "put_server r (snd (setStatus STATUS_STARTED s1)) (put_server r s1 b)"
    have l2: "lives cf r STATUS_STARTED ?b2" using s1 None s cf1 by (simp add: lives_def conf_of_def)
    show ?thesis
    proof (cases "bot_dispatch K G r (rd_times rd) (rd_session rd) ?b2")
      case (Inl q)
      then show ?thesis using that None bot_dispatch_lives(2) [OF l2 Inl] unfolding round by (auto simp: Let_def)
    next
      case (Inr x)
      obtain res es b3 where x: "x = (res, es, b3)" by (cases x)
      have "lives cf r STATUS_STARTED b3" using bot_dispatch_lives(1) [OF l2] Inr x by blast
      from after_session_lives [OF this, of ops rd res] show ?thesis using that None Inr x unfolding round by (auto simp: Let_def)
    qed
  qed
qed

lemma server_loop_lives:
  assumes "server_loop K G ops rds r b = Inr (res, tr, b')" "lives cf r st b" "st = STATUS_STOPPED \<or> st = STATUS_RECONNECTING"
  shows "\<exists>st'. life (st, False) tr = Some (st', st' = STATUS_STARTED) \<and> lives cf r st' b' \<and> (st' = STATUS_STOPPED \<longrightarrow> tr = [] \<and> res = None)"
  using assms
proof (induction rds arbitrary: b st tr)
  case (Cons rd rds)
  from Cons.prems(1) obtain v tr1 b1 where r: "server_round K G ops rd r b = Inr (v, tr1, b1)" by (auto simp: and_then_eq_Inr)
  from server_round_lives(1) [OF Cons.prems(2,3) r] obtain st1
    where st1: "life (st, False) tr1 = Some (st1, st1 = STATUS_STARTED)" "lives cf r st1 b1" "st1 \<noteq> STATUS_STOPPED"
      "v = Again \<longrightarrow> st1 = STATUS_RECONNECTING" by blast
  show ?case
  proof (cases v)
    case Again
    then obtain tr2 where l: "server_loop K G ops rds r b1 = Inr (res, tr2, b')" "tr = tr1 @ tr2"
      using Cons.prems(1) r by auto
    from Cons.IH [OF l(1) st1(2)] st1 Again l(2) show ?thesis
      by (cases rds) (fastforce simp: life_append)+
  qed (use Cons.prems(1) r st1 in auto)
qed auto

lemma server_loop_panics:
  fixes b :: "('c, 'd, 'h) Bot"
  assumes "server_loop K G ops rds r b = Inl p" "lives cf r st b" "st = STATUS_STOPPED \<or> st = STATUS_RECONNECTING"
  shows "\<exists>rd \<in> set rds. \<exists>b1 :: ('c, 'd, 'h) Bot. lives cf r STATUS_STARTED b1 \<and> session_loop K G r (rd_session rd) b1 = Inl p"
  using assms
proof (induction rds arbitrary: b st)
  case (Cons rd rds)
  show ?case
  proof (cases "server_round K G ops rd r b")
    case (Inl q)
    then show ?thesis using server_round_lives(2) [OF Cons.prems(2,3) Inl] Cons.prems(1) by auto
  next
    case (Inr x)
    obtain v tr1 b1 where x: "x = (v, tr1, b1)" by (cases x)
    from server_round_lives(1) [OF Cons.prems(2,3) Inr [unfolded x]] obtain st1
      where "lives cf r st1 b1" "v = Again \<longrightarrow> st1 = STATUS_RECONNECTING" by blast
    then show ?thesis using Cons.IH [of b1 st1] Cons.prems(1) Inr x
      by (cases "server_loop K G ops rds r b1") (auto split: verdict.splits)
  qed
qed simp

lemma server_loop_first:
  assumes "server_loop K G ops rds r b = Inr (res, tr, b')" "lives cf r STATUS_STOPPED b" "rds \<noteq> []" "connects cf (hd rds)"
  shows "take 3 tr = [Became STATUS_CONNECTING False, Connected True, Became STATUS_STARTED True]"
proof -
  obtain rd rds' where rds: "rds = rd # rds'" using assms(3) by (cases rds) auto
  from assms(1) obtain v tr1 b1 tr2 where r: "server_round K G ops rd r b = Inr (v, tr1, b1)" "tr = tr1 @ tr2"
    unfolding rds by (fastforce split: verdict.splits)
  have t: "take 3 tr1 = [Became STATUS_CONNECTING False, Connected True, Became STATUS_STARTED True]"
    using server_round_lives(1) [OF assms(2) _ r(1)] assms(4) rds by auto
  then have "length tr1 \<ge> 3" by (cases "length tr1 \<ge> 3") auto
  with t r(2) show ?thesis by simp
qed



section \<open>Outages\<close>

definition fails :: "(BotError \<Rightarrow> bool) \<Rightarrow> Config \<Rightarrow> 'n round \<Rightarrow> bool" where
  "fails P cf rd \<longleftrightarrow> \<not> rd_killConnecting rd \<and> \<not> rd_killWaiting rd
     \<and> (\<forall>cfg server. \<exists>e. connect_to (rd_dialer rd) cfg cf server = Inl e \<and> P e)"

text \<open>A server that can try to connect: no client, a network with addresses in its configuration, reconnecting allowed.\<close>

definition can_try :: "Config \<Rightarrow> sref \<Rightarrow> ('c, 'd, 'h) Bot \<Rightarrow> bool" where
  "can_try cf r b \<longleftrightarrow> (\<exists>s cfg. b_heap b r = Some s \<and> s_client s = None \<and> conf_of s b = cf \<and> Network (s_networkID s) cf = Some cfg
     \<and> fst (Net_Servers cfg cf) \<noteq> [] \<and> \<not> fst (Net_NoReconnect cfg cf))"

lemma createIrcClient_fails:
  assumes "fails P cf rd" "s_client s = None" "Network (s_networkID s) cf = Some cfg" "fst (Net_Servers cfg cf) \<noteq> []"
  shows "\<exists>e i. P e \<and> createIrcClient (rd_dialer rd) mk (rd_killConnecting rd) cf s = Inr ((Some e, temporary e), s\<lparr>s_serverIndex := i\<rparr>)"
proof -
  have conn: "\<exists>e. connect_to (rd_dialer rd) cfg cf a = Inl e \<and> P e" for a using assms(1) by (auto simp: fails_def)
  have "\<exists>e i a. P e \<and> createConnection (rd_dialer rd) cf s = Inr (a, Inl e, s\<lparr>s_serverIndex := i\<rparr>)"
  proof (cases "length (fst (Net_Servers cfg cf)) \<le> s_serverIndex s")
    case True
    with conn [of "fst (Net_Servers cfg cf) ! 0"] show ?thesis
      using assms(3,4) by (auto simp: createConnection_def net_ctx_def index_at_def Let_def)
  next
    case False
    with conn [of "fst (Net_Servers cfg cf) ! s_serverIndex s"] show ?thesis
      using assms(3,4) by (auto simp: createConnection_def net_ctx_def index_at_def Let_def)
  qed
  then show ?thesis using assms(1,2) by (auto simp: createIrcClient_def fails_def)
qed

lemma round_temporary:
  assumes "can_try cf r b" "fails temporary cf rd"
  shows "\<exists>w b'. server_round K G ops rd r b = Inr (Again, [Became STATUS_CONNECTING False, Became STATUS_RECONNECTING False, Waiting w], b')
    \<and> can_try cf r b'"
proof -
  from assms(1) obtain s cfg where s: "b_heap b r = Some s" "s_client s = None" "conf_of s b = cf" "Network (s_networkID s) cf = Some cfg"
    "fst (Net_Servers cfg cf) \<noteq> []" "\<not> fst (Net_NoReconnect cfg cf)" by (auto simp: can_try_def)
  let ?s = "snd (setStatus STATUS_CONNECTING s)"
  obtain e i where e: "temporary e"
    "createIrcClient (rd_dialer rd) (co_new ops) (rd_killConnecting rd) cf ?s = Inr ((Some e, temporary e), ?s\<lparr>s_serverIndex := i\<rparr>)"
    using createIrcClient_fails [OF assms(2), of ?s cfg "co_new ops"] s by auto
  have cf: "conf_of ?s b = cf" using s(3) by (simp add: conf_of_def)
  show ?thesis using s e assms(2) cf
    by (auto simp: server_round_def change_status_def the_server_def reconnect_def net_ctx_def close_server_def Server_Close_def
        Let_def can_try_def conf_of_def fails_def)
qed

lemma round_permanent:
  assumes "can_try cf r b" "fails (\<lambda>x. x = e) cf rd" "\<not> temporary e"
  shows "\<exists>b'. server_round K G ops rd r b = Inr (Ends (Some e), [Became STATUS_CONNECTING False], b') \<and> b_heap b' r \<noteq> None"
proof -
  from assms(1) obtain s cfg where s: "b_heap b r = Some s" "s_client s = None" "conf_of s b = cf" "Network (s_networkID s) cf = Some cfg"
    "fst (Net_Servers cfg cf) \<noteq> []" by (auto simp: can_try_def)
  let ?s = "snd (setStatus STATUS_CONNECTING s)"
  obtain i where e:
    "createIrcClient (rd_dialer rd) (co_new ops) (rd_killConnecting rd) cf ?s = Inr ((Some e, temporary e), ?s\<lparr>s_serverIndex := i\<rparr>)"
    using createIrcClient_fails [OF assms(2), of ?s cfg "co_new ops"] s by auto
  have "conf_of ?s b = cf" using s(3) by (simp add: conf_of_def)
  then show ?thesis using s e assms(3)
    by (auto simp: server_round_def change_status_def the_server_def reconnect_def net_ctx_def Let_def conf_of_def)
qed

lemma loop_temporary:
  "can_try cf r b \<Longrightarrow> \<forall>rd \<in> set rds. fails temporary cf rd \<Longrightarrow>
   \<exists>tr b'. can_try cf r b' \<and> length (filter (\<lambda>e. e = Became STATUS_CONNECTING False) tr) = length rds
     \<and> (\<forall>rds'. server_loop K G ops (rds @ rds') r b = and_then (server_loop K G ops rds' r b') (\<lambda>(res, tr', b). Inr (res, tr @ tr', b)))"
proof (induction rds arbitrary: b)
  case Nil
  then show ?case by (intro exI [of _ "[]"] exI [of _ b]) (auto simp: and_then_def split: sum.split)
next
  case (Cons rd rds)
  obtain w b1 where b1: "server_round K G ops rd r b = Inr (Again, [Became STATUS_CONNECTING False, Became STATUS_RECONNECTING False, Waiting w], b1)" "can_try cf r b1"
    using round_temporary [OF Cons.prems(1), of rd K G ops] Cons.prems(2) by auto
  obtain tr b' where IH: "can_try cf r b'" "length (filter (\<lambda>e. e = Became STATUS_CONNECTING False) tr) = length rds"
    "\<And>rds'. server_loop K G ops (rds @ rds') r b1 = and_then (server_loop K G ops rds' r b') (\<lambda>(res, tr', b). Inr (res, tr @ tr', b))"
    using Cons.IH [OF b1(2)] Cons.prems(2) by auto
  show ?case
    by (rule exI [of _ "[Became STATUS_CONNECTING False, Became STATUS_RECONNECTING False, Waiting w] @ tr"], rule exI [of _ b'])
      (use IH b1(1) in \<open>auto simp: and_then_def split: sum.split\<close>)
qed

text \<open>
  A server survives an outage of any length.  As long as connecting fails with temporary errors
  and nobody kills it, it does not stop and connects once per round; the first error that is not temporary
  ends it with that error, after one attempt for every round.
\<close>

theorem outage:
  assumes "can_try cf r b" and "\<forall>rd \<in> set rds. fails temporary cf rd" and "fails (\<lambda>x. x = e) cf rd" and "\<not> temporary e"
  shows "(\<exists>tr b'. startServer K G ops rds r b = Inr (None, tr, b')
        \<and> length (filter (\<lambda>x. x = Became STATUS_CONNECTING False) tr) = length rds)
    \<and> (\<exists>tr b'. startServer K G ops (rds @ [rd]) r b = Inr (Some (Some e), tr, b')
        \<and> length (filter (\<lambda>x. x = Became STATUS_CONNECTING False) tr) = length rds + 1)"
proof -
  obtain tr b1 where l: "can_try cf r b1" "length (filter (\<lambda>e. e = Became STATUS_CONNECTING False) tr) = length rds"
    "\<And>rds'. server_loop K G ops (rds @ rds') r b = and_then (server_loop K G ops rds' r b1) (\<lambda>(res, tr', b). Inr (res, tr @ tr', b))"
    using loop_temporary [OF assms(1,2), of K G ops] by blast
  obtain b2 where b2: "server_round K G ops rd r b1 = Inr (Ends (Some e), [Became STATUS_CONNECTING False], b2)" "b_heap b2 r \<noteq> None"
    using round_permanent [OF l(1) assms(3,4), of K G ops] by blast
  have "startServer K G ops rds r b = Inr (None, tr, b1)" using l(3) [of "[]"] by (simp add: startServer_def)
  moreover have "\<exists>b'. startServer K G ops (rds @ [rd]) r b = Inr (Some (Some e), tr @ [Became STATUS_CONNECTING False, Became STATUS_STOPPED False], b')"
    using l(3) [of "[rd]"] b2 by (auto simp: startServer_def close_server_def change_status_def the_server_def Server_Close_def)
  ultimately show ?thesis using l(2) by fastforce
qed


definition sample_ops :: "(nat, nat) clientOps" where "sample_ops = \<lparr>co_new = (\<lambda>n _. n), co_close = (\<lambda>_. None)\<rparr>"

definition sample_round :: "bool \<Rightarrow> nat round" where
  "sample_round t = \<lparr>rd_dialer = sample_dialer (Inl (NetDialError ''refused'' t)), rd_killConnecting = False, rd_times = (0, 0),
     rd_session = [], rd_killWaiting = False\<rparr>"

lemma sample_round_fails: "fails (\<lambda>x. x = NetDialError ''refused'' t) cf (sample_round t)"
  by (simp add: fails_def sample_round_def connect_to_def sample_dialer_def)

lemma sample_can_try: "can_try sample_conf 0 (sample_bot sample_conf)"
proof -
  have "Network ''net'' sample_conf = Some (NetOf ''net'')" "fst (Net_Servers (NetOf ''net'') sample_conf) \<noteq> []"
    "\<not> fst (Net_NoReconnect (NetOf ''net'') sample_conf)" by code_simp+
  then show ?thesis
    by (simp add: can_try_def sample_bot_def add_server_def empty_bot_def sample_server_def new_server_def conf_of_def)
qed

theorem outage_witness:
  "\<forall>K G. \<exists>tr b'. startServer K G sample_ops (replicate 2 (sample_round True) @ [sample_round False]) 0 (sample_bot sample_conf)
     = Inr (Some (Some (NetDialError ''refused'' False)), tr, b')
     \<and> length (filter (\<lambda>x. x = Became STATUS_CONNECTING False) tr) = 3"
proof (intro allI)
  fix K :: "unit kv" and G
  have "\<forall>rd \<in> set (replicate 2 (sample_round True)). fails temporary sample_conf rd"
    using sample_round_fails [of True sample_conf] by (auto simp: fails_def temporary_def)
  from outage [OF sample_can_try this sample_round_fails, of False K G sample_ops]
  show "\<exists>tr b'. startServer K G sample_ops (replicate 2 (sample_round True) @ [sample_round False]) 0 (sample_bot sample_conf)
     = Inr (Some (Some (NetDialError ''refused'' False)), tr, b')
     \<and> length (filter (\<lambda>x. x = Became STATUS_CONNECTING False) tr) = 3"
    by (simp add: temporary_def)
qed

text \<open>A round that connects, gets a line and loses the connection.\<close>

definition good_round :: "nat round" where
  "good_round = \<lparr>rd_dialer = sample_dialer (Inr 5), rd_killConnecting = False, rd_times = (0, 0),
     rd_session = [Received (Some (0, ''!'')), Received None], rd_killWaiting = False\<rparr>"


end
