(* ===== verification/BotConfig.thy ===== *)
theory BotConfig
  imports BotLife
begin

text \<open>
  Changing the configuration of a running bot, \<^verbatim>\<open>src/bot/botconfig.go\<close>: replacing it, with the servers
  that are stopped and started for it, reading it again from its file and writing it.

  What reaches other goroutines is a list of effects in order: a server is started in a goroutine of its own,
  a server is stopped through the monitor, a line is written to a server, an error is sent to \<^verbatim>\<open>botEnd\<close>.  The order in
  which Go iterates over the map of servers is the parameter \<^verbatim>\<open>rng\<close>.  Reading and writing files and TOML are
  the parameters of theory \<^verbatim>\<open>Config\<close>.
\<close>

section \<open>Replacing\<close>

datatype config_effect = EndError BotError | StartedServer sref | StoppedServer sref | Wrote sref string

definition ReadConfig :: "(Config \<Rightarrow> 'a) \<Rightarrow> ('c, 'd, 'h) Bot \<Rightarrow> 'a" where
  "ReadConfig fn b = fn (b_configs b (b_conf b))"

definition WriteConfig :: "(Config \<Rightarrow> Config) \<Rightarrow> ('c, 'd, 'h) Bot \<Rightarrow> ('c, 'd, 'h) Bot" where
  "WriteConfig fn b = b\<lparr>b_configs := (b_configs b)(b_conf b := fn (b_configs b (b_conf b)))\<rparr>"

text \<open>The loop of \<^verbatim>\<open>startNewServers\<close>; new servers point to the new configuration and not to that of the bot.\<close>

fun start_new :: "('d, 'h) botEnv \<Rightarrow> cfref \<Rightarrow> string list \<Rightarrow> ('c, 'd, 'h) Bot \<Rightarrow> (config_effect list \<times> ('c, 'd, 'h) Bot) outcome" where
  "start_new E nr [] b = Inr ([], b)"
| "start_new E nr (net # nets) b =
     (case Network net (b_configs b (b_conf b)) of
        Some _ \<Rightarrow> start_new E nr nets b
      | None \<Rightarrow>
          and_then (createServer E net nr b) (\<lambda>res.
            case res of
              Inl err \<Rightarrow> and_then (start_new E nr nets b) (\<lambda>(fx, b). Inr (EndError (NewServerFailed net err) # fx, b))
            | Inr s \<Rightarrow>
                and_then (start_new E nr nets (add_server net s b)) (\<lambda>(fx, b'). Inr (StartedServer (b_nextRef b) # fx, b'))))"

definition startNewServers :: "('d, 'h) botEnv \<Rightarrow> cfref \<Rightarrow> ('c, 'd, 'h) Bot \<Rightarrow> (config_effect list \<times> ('c, 'd, 'h) Bot) outcome" where
  "startNewServers E nr b = start_new E nr (Networks (b_configs b nr)) b"

type_synonym 'c cwriter = "'c \<Rightarrow> string \<Rightarrow> (nat \<times> string option) \<times> 'c"

definition rehashConfig :: "'c cwriter \<Rightarrow> Config \<Rightarrow> sref \<Rightarrow> ('c, 'd, 'h) Bot \<Rightarrow> (config_effect list \<times> ('c, 'd, 'h) Bot) outcome" where
  "rehashConfig cwrite newConfig r b =
     and_then (the_server (Some r) b) (\<lambda>s.
     and_then (deref (Network (s_networkID s) (conf_of s b))) (\<lambda>old.
     and_then (deref (Network (s_networkID s) newConfig)) (\<lambda>new.
       let oldNick = fst (Net_Nick old (conf_of s b)); newNick = fst (Net_Nick new newConfig) in
       if newNick \<noteq> oldNick then
         and_then (Server_Write cwrite (''NICK :'' @ newNick) s) (\<lambda>(_, s).
           Inr ([Wrote r (''NICK :'' @ newNick)], put_server r s b))
       else Inr ([], b))))"

text \<open>The loop over the map of servers.\<close>

fun rehash_servers :: "'c cwriter \<Rightarrow> Config \<Rightarrow> string list \<Rightarrow> ('c, 'd, 'h) Bot \<Rightarrow> (config_effect list \<times> ('c, 'd, 'h) Bot) outcome" where
  "rehash_servers cwrite newConfig [] b = Inr ([], b)"
| "rehash_servers cwrite newConfig (net # nets) b =
     and_then (deref (b_servers b net)) (\<lambda>r.
       and_then (if Network net newConfig = None then Inr ([StoppedServer r], b\<lparr>b_servers := (b_servers b)(net := None)\<rparr>)
                 else rehashConfig cwrite newConfig r b) (\<lambda>(fx, b).
         and_then (rehash_servers cwrite newConfig nets b) (\<lambda>(fx', b). Inr (fx @ fx', b))))"

definition ReplaceConfig :: "('d, 'h) botEnv \<Rightarrow> (string set \<Rightarrow> string list) \<Rightarrow> 'c cwriter \<Rightarrow> cfref \<Rightarrow> ('c, 'd, 'h) Bot
    \<Rightarrow> (bool \<times> config_effect list \<times> ('c, 'd, 'h) Bot) outcome" where
  "ReplaceConfig E rng cwrite nr b =
     (case Validate (b_configs b nr) of (ok, c) \<Rightarrow>
        let b = b\<lparr>b_configs := (b_configs b)(nr := c)\<rparr> in
        if \<not> ok then Inr (False, [], b)
        else
          and_then (startNewServers E nr b) (\<lambda>(fx, b).
          and_then (rehash_servers cwrite c (rng (dom (b_servers b))) b) (\<lambda>(fx', b).
            Inr (True, fx @ fx', WriteConfig (Config_Replace c) b))))"

section \<open>Files\<close>

text \<open>\<^verbatim>\<open>Rehash\<close> reads the file named by \<^verbatim>\<open>StoreFile\<close>.\<close>

definition Rehash :: "(string \<Rightarrow> vmap \<times> string option) \<Rightarrow> (string \<Rightarrow> string + string) \<Rightarrow> ('c, 'd, 'h) Bot
    \<Rightarrow> BotError option \<times> ('c, 'd, 'h) Bot" where
  "Rehash decode fopen b =
     (case CheckConfig (FromFile decode fopen (fst (StoreFile (b_configs b (b_conf b)))) NewConfig) of
        (False, _) \<Rightarrow> (Some InvalidConfig, b)
      | (True, conf) \<Rightarrow> (None, WriteConfig (Config_Replace conf) b))"

definition DumpConfig :: "(vmap \<Rightarrow> string + string) \<Rightarrow> (string \<Rightarrow> string option) \<Rightarrow> ('c, 'd, 'h) Bot \<Rightarrow> string + string \<times> string" where
  "DumpConfig encode create b = ToFile encode create [] (b_configs b (b_conf b))"

section \<open>Comparing lists\<close>

text \<open>The inner loop over \<^verbatim>\<open>j\<close> ends at the first equal element or at the length.\<close>

fun scan_for :: "string \<Rightarrow> string list \<Rightarrow> nat \<Rightarrow> nat" where
  "scan_for x [] j = j"
| "scan_for x (y # ys) j = (if x = y then j else scan_for x ys (j + 1))"

fun all_found :: "string list \<Rightarrow> string list \<Rightarrow> bool" where
  "all_found [] bs = True"
| "all_found (x # as) bs = (if length bs \<le> scan_for x bs 0 then False else all_found as bs)"

definition contains :: "string list \<Rightarrow> string list \<Rightarrow> bool" where
  "contains as bs = (if length as \<noteq> length bs then False else all_found as bs)"

lemma scan_for_index: "scan_for x ys j = j + index_of x ys"
  by (induction ys arbitrary: j) (auto simp: index_of_def)

lemma all_found_iff: "all_found as bs \<longleftrightarrow> set as \<subseteq> set bs"
  by (induction as) (auto simp: scan_for_index not_less [symmetric] index_of_less_iff)

text \<open>The comment says that the two contain the same elements; repeated ones on the left go unnoticed.\<close>

lemma contains_iff: "contains as bs \<longleftrightarrow> length as = length bs \<and> set as \<subseteq> set bs"
  by (simp add: contains_def all_found_iff)

lemma contains_repeated: "contains [''a'', ''a''] [''a'', ''b'']" by code_simp


section \<open>The servers after a replacement\<close>

text \<open>What a bot that runs keeps about its map of servers, and a server that a changed nick can be written to.\<close>

definition refs_ok :: "('c, 'd, 'h) Bot \<Rightarrow> bool" where
  "refs_ok b \<longleftrightarrow> (\<forall>net r. b_servers b net = Some r \<longrightarrow> r < b_nextRef b)"

definition writable :: "string \<Rightarrow> ('c, 'd, 'h) Bot \<Rightarrow> bool" where
  "writable net b \<longleftrightarrow> (\<exists>r s. b_servers b net = Some r \<and> b_heap b r = Some s \<and> s_networkID s = net \<and> Network net (conf_of s b) \<noteq> None
     \<and> (s_status s = STATUS_STOPPED \<or> s_client s \<noteq> None))"

lemma start_new_ok:
  assumes "refs_ok b" "\<forall>net \<in> set nets. Network net (b_configs b nr) \<noteq> None"
    "old = b_configs b (b_conf b)" "new = {net \<in> set nets. Network net old = None}"
  shows "\<exists>fx b'. start_new E nr nets b = Inr (fx, b') \<and> refs_ok b' \<and> b_configs b' = b_configs b \<and> b_conf b' = b_conf b
    \<and> b_nextRef b \<le> b_nextRef b' \<and> (\<forall>r < b_nextRef b. b_heap b' r = b_heap b r)
    \<and> (\<forall>net. net \<notin> new \<longrightarrow> b_servers b' net = b_servers b net)
    \<and> (\<forall>net \<in> new. \<exists>r s. b_servers b' net = Some r \<and> b_heap b' r = Some s \<and> b_nextRef b \<le> r \<and> StartedServer r \<in> set fx
         \<and> fresh_server E net nr (b_attachHandlers b) (b_configs b nr) s)
    \<and> (\<forall>r. StoppedServer r \<notin> set fx)"
  using assms
proof (induction nets arbitrary: b new)
  case (Cons net nets)
  show ?case
  proof (cases "Network net old")
    case (Some x)
    then have "new = {net \<in> set nets. Network net old = None}" using Cons.prems(4) by auto
    from Cons.IH [OF Cons.prems(1) _ Cons.prems(3) this] Cons.prems(2,3) Some show ?thesis by auto
  next
    case None
    obtain s where s: "createServer E net nr b = Inr (Inr s)" "fresh_server E net nr (b_attachHandlers b) (b_configs b nr) s"
      using createServer_fresh [of net b nr _ E] Cons.prems(2) by fastforce
    let ?b = "add_server net s b" and ?new = "{net \<in> set nets. Network net old = None}"
    have b: "refs_ok ?b" "b_configs ?b = b_configs b" "b_conf ?b = b_conf b" "b_nextRef ?b = b_nextRef b + 1" "b_attachHandlers ?b = b_attachHandlers b"
      using Cons.prems(1) by (auto simp: refs_ok_def add_server_def less_Suc_eq)
    obtain fx b' where IH: "start_new E nr nets ?b = Inr (fx, b')" "refs_ok b'" "b_configs b' = b_configs b" "b_conf b' = b_conf b"
      "b_nextRef b + 1 \<le> b_nextRef b'" "\<forall>r < b_nextRef b + 1. b_heap b' r = b_heap ?b r"
      "\<forall>net. net \<notin> ?new \<longrightarrow> b_servers b' net = b_servers ?b net"
      "\<forall>net \<in> ?new. \<exists>r s. b_servers b' net = Some r \<and> b_heap b' r = Some s \<and> b_nextRef b + 1 \<le> r \<and> StartedServer r \<in> set fx
         \<and> fresh_server E net nr (b_attachHandlers b) (b_configs b nr) s" "\<forall>r. StoppedServer r \<notin> set fx"
      using Cons.IH [OF b(1), of ?new] Cons.prems(2,3) b(2-5) by auto
    have this_net: "\<exists>r s. b_servers b' net = Some r \<and> b_heap b' r = Some s \<and> b_nextRef b \<le> r
        \<and> StartedServer r \<in> set (StartedServer (b_nextRef b) # fx) \<and> fresh_server E net nr (b_attachHandlers b) (b_configs b nr) s"
    proof (cases "net \<in> ?new")
      case True
      then obtain r s where "b_servers b' net = Some r" "b_heap b' r = Some s" "b_nextRef b + 1 \<le> r" "StartedServer r \<in> set fx"
        "fresh_server E net nr (b_attachHandlers b) (b_configs b nr) s" using IH(8) by blast
      then show ?thesis by auto
    next
      case False
      then show ?thesis using IH(6,7) s(2) by (auto simp: add_server_def)
    qed
    have new: "new = insert net ?new" using Cons.prems(4) None by auto
    have heap: "\<forall>r < b_nextRef b. b_heap b' r = b_heap b r" using IH(6) by (auto simp: add_server_def)
    have keep: "\<forall>n. n \<notin> new \<longrightarrow> b_servers b' n = b_servers b n" using IH(7) new by (auto simp: add_server_def)
    have all: "\<forall>n \<in> new. \<exists>r s. b_servers b' n = Some r \<and> b_heap b' r = Some s \<and> b_nextRef b \<le> r
         \<and> StartedServer r \<in> set (StartedServer (b_nextRef b) # fx) \<and> fresh_server E n nr (b_attachHandlers b) (b_configs b nr) s"
      unfolding new
    proof (intro ballI)
      fix n assume "n \<in> insert net ?new"
      then consider "n = net" | "n \<in> ?new" by blast
      then show "\<exists>r s. b_servers b' n = Some r \<and> b_heap b' r = Some s \<and> b_nextRef b \<le> r
         \<and> StartedServer r \<in> set (StartedServer (b_nextRef b) # fx) \<and> fresh_server E n nr (b_attachHandlers b) (b_configs b nr) s"
      proof cases
        case 1
        then show ?thesis using this_net by simp
      next
        case 2
        then show ?thesis using bspec [OF IH(8) 2] by fastforce
      qed
    qed
    have "start_new E nr (net # nets) b = Inr (StartedServer (b_nextRef b) # fx, b')"
      using None s(1) IH(1) Cons.prems(3) by simp
    with IH(2-5,9) heap keep all show ?thesis
      by (intro exI [of _ "StartedServer (b_nextRef b) # fx"] exI [of _ b']) (simp del: start_new.simps)
  qed
qed auto

lemma Server_Write_ok:
  assumes "s_status s = STATUS_STOPPED \<or> s_client s \<noteq> None"
  shows "\<exists>x s'. Server_Write cwrite buf s = Inr (x, s') \<and> s_networkID s' = s_networkID s \<and> s_conf s' = s_conf s
    \<and> s_status s' = s_status s \<and> (s_client s \<noteq> None \<longrightarrow> s_client s' \<noteq> None)"
  using assms by (cases "s_client s") (auto simp: Server_Write_def GetStatus_def split: prod.splits)

lemma rehashConfig_ok:
  assumes "b_servers b net = Some r" "writable net b" "Network net c \<noteq> None"
  obtains fx b' where "rehashConfig cwrite c r b = Inr (fx, b')" "b_servers b' = b_servers b" "b_configs b' = b_configs b"
    "b_conf b' = b_conf b" "\<And>n. writable n b \<Longrightarrow> writable n b'" "\<And>x. StoppedServer x \<notin> set fx" "\<And>x. StartedServer x \<notin> set fx"
proof -
  obtain s where s: "b_heap b r = Some s" "s_networkID s = net" "Network net (conf_of s b) \<noteq> None" "s_status s = STATUS_STOPPED \<or> s_client s \<noteq> None"
    using assms(1,2) by (auto simp: writable_def)
  obtain newNick where nn: "newNick = fst (Net_Nick (the (Network net c)) c)" by blast
  obtain x s' where w: "Server_Write cwrite (''NICK :'' @ newNick) s = Inr (x, s')" "s_networkID s' = s_networkID s"
    "s_conf s' = s_conf s" "s_status s' = s_status s" "s_client s \<noteq> None \<longrightarrow> s_client s' \<noteq> None"
    using Server_Write_ok [OF s(4)] by blast
  have "writable n (put_server r s' b)" if wn: "writable n b" for n
  proof -
    obtain r2 s2 where 2: "b_servers b n = Some r2" "b_heap b r2 = Some s2" "s_networkID s2 = n" "Network n (conf_of s2 b) \<noteq> None"
      "s_status s2 = STATUS_STOPPED \<or> s_client s2 \<noteq> None" using wn unfolding writable_def by blast
    show ?thesis
    proof (cases "r2 = r")
      case True
      then have "s2 = s" using 2(2) s(1) by simp
      with True 2 w(2-5) show ?thesis by (auto simp: writable_def conf_of_def)
    next
      case False
      with 2 show ?thesis by (auto simp: writable_def conf_of_def put_server_def)
    qed
  qed
  then show ?thesis using that [of "[]" b] that [of "[Wrote r (''NICK :'' @ newNick)]" "put_server r s' b"] assms(3) s w(1) nn
    by (cases "newNick = fst (Net_Nick (the (Network net (conf_of s b))) (conf_of s b))")
      (auto simp: rehashConfig_def the_server_def Let_def)
qed

lemma rehash_servers_ok:
  assumes "distinct nets" "\<forall>net \<in> set nets. writable net b"
  shows "\<exists>fx b'. rehash_servers cwrite c nets b = Inr (fx, b') \<and> b_configs b' = b_configs b \<and> b_conf b' = b_conf b
    \<and> b_servers b' = (\<lambda>n. if n \<in> set nets \<and> Network n c = None then None else b_servers b n)
    \<and> (\<forall>x. StartedServer x \<notin> set fx)
    \<and> (\<forall>r. StoppedServer r \<in> set fx \<longleftrightarrow> (\<exists>net \<in> set nets. Network net c = None \<and> b_servers b net = Some r))"
  using assms
proof (induction nets arbitrary: b)
  case (Cons net nets)
  obtain r where r: "b_servers b net = Some r" using Cons.prems(2) by (auto simp: writable_def)
  show ?case
  proof (cases "Network net c = None")
    case True
    let ?b = "b\<lparr>b_servers := (b_servers b)(net := None)\<rparr>"
    have "\<forall>n \<in> set nets. writable n ?b" using Cons.prems by (auto simp: writable_def conf_of_def)
    from Cons.IH [OF _ this] Cons.prems(1) obtain fx b' where IH: "rehash_servers cwrite c nets ?b = Inr (fx, b')"
      "b_configs b' = b_configs b" "b_conf b' = b_conf b"
      "b_servers b' = (\<lambda>n. if n \<in> set nets \<and> Network n c = None then None else b_servers ?b n)"
      "\<forall>x. StartedServer x \<notin> set fx"
      "\<forall>r. StoppedServer r \<in> set fx \<longleftrightarrow> (\<exists>n \<in> set nets. Network n c = None \<and> b_servers ?b n = Some r)" by auto
    have "net \<notin> set nets" using Cons.prems(1) by simp
    then show ?thesis using IH r True by (fastforce simp: fun_eq_iff)
  next
    case False
    have wn: "writable net b" using Cons.prems(2) by simp
    obtain fx1 b1 where 1: "rehashConfig cwrite c r b = Inr (fx1, b1)" "b_servers b1 = b_servers b" "b_configs b1 = b_configs b"
      "b_conf b1 = b_conf b" "\<And>n. writable n b \<Longrightarrow> writable n b1" "\<And>x. StoppedServer x \<notin> set fx1" "\<And>x. StartedServer x \<notin> set fx1"
      using rehashConfig_ok [OF r wn False] by blast
    from Cons.IH [of b1] Cons.prems 1(5) obtain fx b' where IH: "rehash_servers cwrite c nets b1 = Inr (fx, b')"
      "b_configs b' = b_configs b1" "b_conf b' = b_conf b1"
      "b_servers b' = (\<lambda>n. if n \<in> set nets \<and> Network n c = None then None else b_servers b1 n)"
      "\<forall>x. StartedServer x \<notin> set fx"
      "\<forall>r. StoppedServer r \<in> set fx \<longleftrightarrow> (\<exists>n \<in> set nets. Network n c = None \<and> b_servers b1 n = Some r)" by auto
    have "rehash_servers cwrite c (net # nets) b = Inr (fx1 @ fx, b')" using r False 1(1) IH(1) by (auto split: if_splits)
    then show ?thesis using IH(2-6) 1(2-4,6,7) False by (auto simp: fun_eq_iff)
  qed
qed simp


lemma Network_Networks: "Network net c \<noteq> None \<Longrightarrow> net \<noteq> [] \<Longrightarrow> net \<in> set (Networks c)"
proof -
  assume a: "Network net c \<noteq> None" "net \<noteq> []"
  then obtain nets where n: "mp_get (Some (cf_values c)) ''networks'' = Some nets" "mp_get (Some nets) net \<noteq> None"
    by (cases "mp_get (Some (cf_values c)) ''networks''") (auto simp: Network_def split: option.splits)
  then obtain v where "map_of nets net = Some v" by (auto simp: mp_get_def split: option.splits)
  then show ?thesis using n(1) by (force simp: Networks_def dest: map_of_SomeD)
qed

lemma valid_Network_iff: "Validate c = (True, c') \<Longrightarrow> net \<noteq> [] \<Longrightarrow> Network net c \<noteq> None \<longleftrightarrow> net \<in> set (Networks c)"
  using Network_Networks valid_Network by blast

lemma startNewServers_ok:
  assumes valid: "Validate c = (True, c)" "Validate old = (True, old)" "b_configs b nr = c" "b_configs b (b_conf b) = old"
    and names: "[] \<notin> set (Networks c)"
    and servers: "dom (b_servers b) = set (Networks old)" "refs_ok b" "\<forall>net \<in> dom (b_servers b). writable net b"
  obtains fx b1 where "startNewServers E nr b = Inr (fx, b1)" "b_configs b1 = b_configs b" "b_conf b1 = b_conf b"
    "dom (b_servers b1) = set (Networks old) \<union> set (Networks c)" "\<And>n. n \<in> dom (b_servers b1) \<Longrightarrow> writable n b1"
    "\<And>n. n \<notin> set (Networks c) - set (Networks old) \<Longrightarrow> b_servers b1 n = b_servers b n"
    "\<And>n. n \<in> set (Networks c) - set (Networks old) \<Longrightarrow> \<exists>r. b_servers b1 n = Some r \<and> StartedServer r \<in> set fx"
    "\<And>r. StoppedServer r \<notin> set fx"
proof -
  let ?new = "{n \<in> set (Networks c). Network n old = None}"
  have nonempty: "n \<noteq> []" if "n \<in> set (Networks c)" for n using that names by blast
  have new: "?new = set (Networks c) - set (Networks old)" using valid_Network_iff [OF valid(2) nonempty] by blast
  have all: "\<forall>n \<in> set (Networks c). Network n (b_configs b nr) \<noteq> None"
    using valid_Network_iff [OF valid(1) nonempty] unfolding valid(3) by blast
  obtain fx b1 where 1: "start_new E nr (Networks c) b = Inr (fx, b1)" "b_configs b1 = b_configs b" "b_conf b1 = b_conf b"
    "\<forall>r < b_nextRef b. b_heap b1 r = b_heap b r" "\<forall>n. n \<notin> ?new \<longrightarrow> b_servers b1 n = b_servers b n"
    "\<forall>n \<in> ?new. \<exists>r s. b_servers b1 n = Some r \<and> b_heap b1 r = Some s \<and> b_nextRef b \<le> r \<and> StartedServer r \<in> set fx
         \<and> fresh_server E n nr (b_attachHandlers b) (b_configs b nr) s" "\<forall>r. StoppedServer r \<notin> set fx"
    using start_new_ok [OF servers(2) all valid(4) [symmetric] refl, of E] by (elim exE conjE) blast
  have dom_new: "n \<in> dom (b_servers b1)" if "n \<in> ?new" for n using bspec [OF 1(6) that] by blast
  have dom_old: "n \<in> dom (b_servers b1) \<longleftrightarrow> n \<in> set (Networks old)" if "n \<notin> ?new" for n
    using that 1(5) unfolding servers(1) [symmetric] by (auto simp: domIff)
  have "dom (b_servers b1) = set (Networks old) \<union> set (Networks c)"
    using dom_new dom_old unfolding new by blast
  moreover have "writable n b1" if "n \<in> dom (b_servers b1)" for n
  proof (cases "n \<in> ?new")
    case True
    then obtain r s where "b_servers b1 n = Some r" "b_heap b1 r = Some s" "fresh_server E n nr (b_attachHandlers b) (b_configs b nr) s"
      using 1(6) by blast
    then show ?thesis using all True 1(2) valid(3) by (auto simp: writable_def fresh_server_def conf_of_def)
  next
    case False
    then have wn: "writable n b" using dom_old [OF False] that servers(1,3) by blast
    then obtain r where r: "b_servers b n = Some r" by (auto simp: writable_def)
    then have "b_heap b1 r = b_heap b r" using servers(2) 1(4) by (auto simp: refs_ok_def)
    with wn r show ?thesis using False 1(2,5) by (auto simp: writable_def conf_of_def)
  qed
  ultimately show ?thesis using that [of fx b1] 1 unfolding new startNewServers_def valid(3) by blast
qed


text \<open>A bot on the network \<^verbatim>\<open>net\<close> that is moved to the network \<^verbatim>\<open>other\<close>.\<close>

definition full_net :: vmap where
  "full_net = [(''nick'', VStr ''bot''), (''username'', VStr ''u''), (''realname'', VStr ''r''), (''servers'', VArr [VStr ''a:6667''])]"

definition conf_on :: "string \<Rightarrow> Config" where
  "conf_on net = NewConfig\<lparr>cf_values := [(''networks'', VMap GoMap [(net, VMap GoMap full_net)])]\<rparr>"

definition moving_bot :: "(nat, unit, unit) Bot" where
  "moving_bot = add_server ''net'' (sample_server 0)
     (empty_bot True (\<lambda>r. if r = 0 then conf_on ''net'' else conf_on ''other'') 0 \<lparr>heapCmd = Map.empty, globalCmdRegistry = Map.empty\<rparr>)"


end
