(* ===== verification/BotStates.thy ===== *)
theory BotStates
  imports BotConfig
begin

text \<open>
  The whole bot as a transition system: it is created, reads lines, runs its core handler, connects and
  disconnects, changes its configuration, and extensions register and unregister, in any order and on any
  network.  The states of all networks stay those a single network can reach, so the results of
  theories \<^verbatim>\<open>StateInvariant\<close> and \<^verbatim>\<open>StateProps\<close> hold for each network of a running bot.
\<close>

section \<open>Steps\<close>

text \<open>What the state of a network asks of a line (see \<^verbatim>\<open>admissible\<close>).\<close>

definition line_ok :: "sref \<Rightarrow> int \<Rightarrow> string \<Rightarrow> ('c, 'd, 'h) Bot \<Rightarrow> bool" where
  "line_ok r now line b \<longleftrightarrow>
     (case (Parse now line, b_heap b r) of
        (Inr ev, Some s) \<Rightarrow>
          (case s_state s of
             None \<Rightarrow> True
           | Some st \<Rightarrow> admissible (ev\<lparr>eNetworkID := s_networkID s, eNetworkInfo := Some (s_netInfo s)\<rparr>) st)
      | _ \<Rightarrow> True)"

text \<open>Connections are named by numbers here.\<close>

inductive bot_reach :: "('d, 'h) botEnv \<Rightarrow> 'd kv \<Rightarrow> gob \<Rightarrow> ('c, 'd, 'h) Bot \<Rightarrow> bool" for E K G where
  made: "NewBot E configs r reg = Inr (Inr b) \<Longrightarrow> bot_reach E K G b"
| line: "bot_reach E K G b \<Longrightarrow> line_ok r now l b \<Longrightarrow> dispatch_line K G r now l b = Inr (e, b') \<Longrightarrow> bot_reach E K G b'"
| announced: "bot_reach E K G b \<Longrightarrow> announce K G r name now b = Inr (e, b') \<Longrightarrow> bot_reach E K G b'"
| handled: "bot_reach E K G b \<Longrightarrow> b_heap b r = Some s \<Longrightarrow> s_handler s = Some h \<Longrightarrow> coreHandler_HandleRaw h ev b = (as, h', b1, p) \<Longrightarrow>
    b_heap b1 r = Some s1 \<Longrightarrow> bot_reach E K G (put_server r (s1\<lparr>s_handler := Some h'\<rparr>) b1)"
| status: "bot_reach E K G b \<Longrightarrow> change_status st r b = Inr b' \<Longrightarrow> bot_reach E K G b'"
| connecting: "bot_reach E K G b \<Longrightarrow> b_heap b r = Some s \<Longrightarrow> createIrcClient (dl :: nat dialer) mk killed (conf_of s b) s = Inr (res, s') \<Longrightarrow>
    bot_reach E K G (put_server r s' b)"
| closing: "bot_reach E K G b \<Longrightarrow> close_server cclose r b = Inr b' \<Longrightarrow> bot_reach E K G b'"
| configured: "bot_reach E K G b \<Longrightarrow> bot_reach E K G (b\<lparr>b_configs := cs\<rparr>)"
| replaced: "bot_reach E K G b \<Longrightarrow> ReplaceConfig E rng cwrite nr b = Inr (ok, fx, b') \<Longrightarrow> bot_reach E K G b'"
| stored: "bot_reach E K G b \<Longrightarrow> bot_reach E K G (b\<lparr>b_store := sto\<rparr>)"
| registered: "bot_reach E K G b \<Longrightarrow> RegisterNetwork rnd net event h b = Some (res, b') \<Longrightarrow> bot_reach E K G b'"
| unregistered: "bot_reach E K G b \<Longrightarrow> UnregisterNetwork net event i b = (ok, b') \<Longrightarrow> bot_reach E K G b'"
| registered_cmd: "bot_reach E K G b \<Longrightarrow> RegisterNetworkCmd net command b = (err, b') \<Longrightarrow> bot_reach E K G b'"
| unregistered_cmd: "bot_reach E K G b \<Longrightarrow> UnregisterNetworkCmd net command b = (ok, b') \<Longrightarrow> bot_reach E K G b'"

section \<open>The invariant\<close>

definition named :: "('c, 'd, 'h) Bot \<Rightarrow> bool" where
  "named b \<longleftrightarrow> (\<forall>net r. b_servers b net = Some r \<longrightarrow> (\<exists>s. b_heap b r = Some s \<and> s_networkID s = net))"

definition bot_inv :: "('c, 'd, 'h) Bot \<Rightarrow> bool" where
  "bot_inv b \<longleftrightarrow> states_reachable b \<and> named b \<and> refs_ok b"

definition good_state :: "'c Server \<Rightarrow> bool" where
  "good_state s \<longleftrightarrow> (\<forall>st. s_state s = Some st \<longrightarrow> reachable st)"

lemma bot_inv_good: "bot_inv b \<Longrightarrow> b_heap b r = Some s \<Longrightarrow> good_state s"
  by (auto simp: bot_inv_def states_reachable_def good_state_def)

lemma bot_inv_put:
  assumes "bot_inv b" "b_heap b r = Some s" "s_networkID s' = s_networkID s" "good_state s'"
  shows "bot_inv (put_server r s' b)"
proof -
  have "s_networkID s = net" if "b_servers b net = Some r" for net using assms(1,2) that by (fastforce simp: bot_inv_def named_def)
  then show ?thesis using assms by (auto simp: bot_inv_def states_reachable_def named_def refs_ok_def good_state_def put_server_def)
qed

lemma bot_inv_outline:
  assumes "outline b' = outline b" "bot_inv b" shows "bot_inv b'"
proof -
  have h: "map_option quiet (b_heap b' r) = map_option quiet (b_heap b r)" for r using assms(1) by (simp add: outline_def fun_eq_iff)
  have s: "b_servers b' = b_servers b" "b_nextRef b' = b_nextRef b" using assms(1) by (simp_all add: outline_def)
  have q: "\<exists>s. b_heap b r = Some s \<and> quiet s = quiet s'" if "b_heap b' r = Some s'" for r s' using h [of r] that by (cases "b_heap b r") auto
  have q': "\<exists>s'. b_heap b' r = Some s' \<and> quiet s' = quiet s" if "b_heap b r = Some s" for r s using h [of r] that by (cases "b_heap b' r") auto
  have "states_reachable b'" using assms(2) q unfolding bot_inv_def states_reachable_def by (metis quiet_fields(3))
  moreover have "named b'" using assms(2) q' s(1) unfolding bot_inv_def named_def by (metis quiet_fields(4))
  ultimately show ?thesis using assms(2) s by (simp add: bot_inv_def refs_ok_def)
qed

lemma reachable_start [simp]: "reachable start_state" by (rule reachable.created [OF NewState_default])

lemma createServer_good: "createServer E net r b = Inr (Inr s) \<Longrightarrow> s_networkID s = net \<and> good_state s"
  by (auto simp: createServer_def Let_def createState_def new_server_def Server_createDispatching_def NewState_default good_state_def
      register_new split: if_splits sum.splits)

lemma bot_inv_add:
  assumes "bot_inv b" "s_networkID s = net" "good_state s" shows "bot_inv (add_server net s b)"
proof -
  have "\<exists>t. b_heap (add_server net s b) r = Some t \<and> s_networkID t = n" if "b_servers (add_server net s b) n = Some r" for n r
  proof (cases "n = net")
    case True
    then show ?thesis using that assms(2) by (auto simp: add_server_def)
  next
    case False
    then have "b_servers b n = Some r" using that by (simp add: add_server_def)
    moreover then have "r < b_nextRef b" using assms(1) by (auto simp: bot_inv_def refs_ok_def)
    ultimately show ?thesis using assms(1) by (auto simp: bot_inv_def named_def add_server_def)
  qed
  moreover have "refs_ok (add_server net s b)" "states_reachable (add_server net s b)"
    using assms(1,3) by (auto simp: bot_inv_def refs_ok_def add_server_def less_Suc_eq states_reachable_def good_state_def)
  ultimately show ?thesis by (simp add: bot_inv_def named_def)
qed

lemma bot_inv_same [simp]:
  "bot_inv (b\<lparr>b_configs := cs\<rparr>) = bot_inv b" "bot_inv (b\<lparr>b_store := sto\<rparr>) = bot_inv b" "bot_inv (b\<lparr>b_registry := reg\<rparr>) = bot_inv b"
  "bot_inv (b\<lparr>b_cmds := c\<rparr>) = bot_inv b" "bot_inv (b\<lparr>b_dispatcher := d\<rparr>) = bot_inv b" "bot_inv (b\<lparr>b_coreCommands := k\<rparr>) = bot_inv b"
  by (simp_all add: bot_inv_def states_reachable_def named_def refs_ok_def)

lemma bot_inv_del: "bot_inv b \<Longrightarrow> bot_inv (b\<lparr>b_servers := (b_servers b)(net := None)\<rparr>)"
  by (auto simp: bot_inv_def states_reachable_def named_def refs_ok_def)


lemma create_servers_inv: "create_servers E nets r b = Inr (Inr b') \<Longrightarrow> bot_inv b \<Longrightarrow> bot_inv b'"
proof (induction nets arbitrary: b)
  case (Cons net nets)
  then obtain s where s: "createServer E net r b = Inr (Inr s)" "create_servers E nets r (add_server net s b) = Inr (Inr b')"
    by (auto split: sum.splits)
  show ?case using Cons.IH [OF s(2)] createServer_good [OF s(1)] Cons.prems(2) bot_inv_add by blast
qed simp

lemma createStore_inv: "(if mk then createStore E f b else (None, b)) = (err, b') \<Longrightarrow> bot_inv b \<Longrightarrow> bot_inv b'"
  by (auto simp: createStore_def split: if_splits sum.splits)

lemma attach_inv: "(if k then attach_commands E b else Inr b) = Inr b' \<Longrightarrow> bot_inv b \<Longrightarrow> bot_inv b'"
  by (auto simp: attach_commands_def split: prod.splits option.splits if_splits)

lemma empty_inv: "bot_inv (Bot_createDispatching p [] (empty_bot k cfs r reg))"
  by (simp add: Bot_createDispatching_def Let_def empty_bot_def bot_inv_def states_reachable_def named_def refs_ok_def)

lemma createBot_inv:
  assumes "createBot E k k' cfs r reg = Inr (Inr b)" shows "bot_inv b"
proof -
  obtain mk b1 b2 where 1: "(if mk then createStore E (fst (StoreFile (cfs r))) (Bot_createDispatching (fst (Net_Prefix GlobalNet (cfs r))) [] (empty_bot k cfs r reg))
      else (None, Bot_createDispatching (fst (Net_Prefix GlobalNet (cfs r))) [] (empty_bot k cfs r reg))) = (None, b1)"
    "create_servers E (Networks (cfs r)) r b1 = Inr (Inr b2)"
    "(if k' \<and> \<not> fst (Net_NoStore GlobalNet (cfs r)) then attach_commands E b2 else Inr b2) = Inr b"
    using assms unfolding createBot_def Let_def by (auto simp del: if_split split: option.splits prod.splits sum.splits)
  show ?thesis using attach_inv [OF 1(3) create_servers_inv [OF 1(2) createStore_inv [OF 1(1) empty_inv]]] .
qed

lemma NewBot_inv: "NewBot E configs r reg = Inr (Inr b) \<Longrightarrow> bot_inv b"
  by (auto simp: NewBot_def split: prod.splits bool.splits dest: createBot_inv)


lemma update_state_good:
  "update_state ev s = Inr s' \<Longrightarrow> good_state s \<Longrightarrow> (\<And>st. s_state s = Some st \<Longrightarrow> admissible ev st) \<Longrightarrow>
   good_state s' \<and> s_networkID s' = s_networkID s"
  by (auto simp: update_state_def good_state_def split: option.splits) (erule (2) reachable.event)

lemma dispatch_line_inv:
  assumes "bot_inv b" "line_ok r now l b" "dispatch_line K G r now l b = Inr (e, b')" shows "bot_inv b'"
proof (cases "Parse now l")
  case (Inl x)
  then show ?thesis using assms(1,3) by (simp add: dispatch_line_def)
next
  case (Inr ev)
  then obtain s s' where s: "b_heap b r = Some s"
    "update_state (ev\<lparr>eNetworkID := s_networkID s, eNetworkInfo := Some (s_netInfo s)\<rparr>) s = Inr s'"
    and d: "outline b' = outline (put_server r s' b)"
    using assms(3) by (auto simp: dispatch_line_def Let_def dest!: dispatchMessage_outline)
  have "good_state s' \<and> s_networkID s' = s_networkID s"
    using assms(2) Inr s(1) by (intro update_state_good [OF s(2) bot_inv_good [OF assms(1) s(1)]]) (simp add: line_ok_def)
  then have "bot_inv (put_server r s' b)" using bot_inv_put [OF assms(1) s(1)] by blast
  with d show ?thesis by (rule bot_inv_outline)
qed

lemma rehash_good: "rehashNetworkInfo s = Inr (e, s') \<Longrightarrow> good_state s \<Longrightarrow> good_state s' \<and> s_networkID s' = s_networkID s"
  unfolding good_state_def
  by (auto simp: rehashNetworkInfo_def split: option.splits sum.splits) (erule (1) reachable.netinfo)

lemma handle_info_inv:
  assumes "bot_inv b" shows "bot_inv (fst (handle_info parse ev b))"
proof (cases "server_at (eNetworkID ev) b")
  case (Some x)
  obtain r s where x: "x = (r, s)" by fastforce
  have s: "b_heap b r = Some s" using Some x by (simp add: server_at_Some)
  have g: "good_state s" using bot_inv_good [OF assms s] .
  obtain info p where i: "parse (eArgs ev) (s_netInfo s) = (info, p)" by fastforce
  have gi: "good_state (s\<lparr>s_netInfo := info\<rparr>)" using g by (simp add: good_state_def)
  have "bot_inv (put_server r (s\<lparr>s_netInfo := info\<rparr>) b)" using bot_inv_put [OF assms s] gi by simp
  moreover have "bot_inv (put_server r s' b)" if "rehashNetworkInfo (s\<lparr>s_netInfo := info\<rparr>) = Inr (e, s')" for e s'
    using bot_inv_put [OF assms s] rehash_good [OF that gi] by simp
  ultimately show ?thesis using Some x i by (auto simp: handle_info_def Let_def split: option.splits sum.splits)
qed (simp add: handle_info_def assms)

lemma HandleRaw_inv: "bot_inv b \<Longrightarrow> coreHandler_HandleRaw h ev b = (as, h', b', p) \<Longrightarrow> bot_inv b'"
  using handle_info_inv [of b ParseMyInfo ev] handle_info_inv [of b ParseISupport ev]
  by (auto simp: coreHandler_HandleRaw_def acting_def Let_def split: if_splits sum.splits prod.splits)

lemma createIrcClient_good:
  "createIrcClient dl mk k cf s = Inr (res, s') \<Longrightarrow> good_state s \<Longrightarrow> good_state s' \<and> s_networkID s' = s_networkID s"
  by (auto simp: createIrcClient_def createConnection_def Let_def good_state_def split: if_splits sum.splits)

lemma Server_Write_good: "Server_Write cw buf s = Inr (x, s') \<Longrightarrow> good_state s \<Longrightarrow> good_state s' \<and> s_networkID s' = s_networkID s"
  by (auto simp: Server_Write_def good_state_def split: if_splits prod.splits)

lemma rehashConfig_inv:
  assumes "rehashConfig cw c r b = Inr (fx, b')" "bot_inv b" shows "bot_inv b'"
proof -
  obtain s where s: "b_heap b r = Some s" using assms(1) by (auto simp: rehashConfig_def)
  have "bot_inv (put_server r s' b)" if "Server_Write cw buf s = Inr (x, s')" for buf x s'
    using bot_inv_put [OF assms(2) s] Server_Write_good [OF that bot_inv_good [OF assms(2) s]] by blast
  then show ?thesis using assms s by (auto simp: rehashConfig_def Let_def split: if_splits)
qed

lemma rehash_servers_inv: "rehash_servers cw c nets b = Inr (fx, b') \<Longrightarrow> bot_inv b \<Longrightarrow> bot_inv b'"
proof (induction nets arbitrary: b fx)
  case (Cons net nets)
  obtain r fx1 b1 fx2 where r: "(if Network net c = None then Inr ([StoppedServer r], b\<lparr>b_servers := (b_servers b)(net := None)\<rparr>)
                 else rehashConfig cw c r b) = Inr (fx1, b1)" "rehash_servers cw c nets b1 = Inr (fx2, b')"
    using Cons.prems(1) by (auto simp del: if_split)
  have "bot_inv b1" using r(1) Cons.prems(2) bot_inv_del [OF Cons.prems(2)] rehashConfig_inv by (auto split: if_splits)
  then show ?case using Cons.IH [OF r(2)] by blast
qed simp

lemma start_new_inv: "start_new E nr nets b = Inr (fx, b') \<Longrightarrow> bot_inv b \<Longrightarrow> bot_inv b'"
proof (induction nets arbitrary: b fx)
  case (Cons net nets)
  show ?case
  proof (cases "Network net (b_configs b (b_conf b))")
    case None
    then consider fx1 where "start_new E nr nets b = Inr (fx1, b')"
      | s fx1 where "createServer E net nr b = Inr (Inr s)" "start_new E nr nets (add_server net s b) = Inr (fx1, b')"
      using Cons.prems(1) by (auto split: sum.splits)
    then show ?thesis
    proof cases
      case 1
      then show ?thesis using Cons.IH Cons.prems(2) by blast
    next
      case 2
      then show ?thesis using Cons.IH [OF 2(2)] createServer_good [OF 2(1)] Cons.prems(2) bot_inv_add by blast
    qed
  qed (use Cons in auto)
qed simp

lemma ReplaceConfig_inv:
  assumes "ReplaceConfig E rng cw nr b = Inr (ok, fx, b')" "bot_inv b" shows "bot_inv b'"
  using assms by (auto simp: ReplaceConfig_def startNewServers_def Let_def WriteConfig_def split: prod.splits if_splits
      dest!: start_new_inv rehash_servers_inv)

lemma tables_inv:
  assumes "bot_inv b" "server_at net b = Some (r, s)"
  shows "bot_inv (put_server r (s\<lparr>s_dispatcher := d\<rparr>) b)" "bot_inv (put_server r (s\<lparr>s_cmds := c\<rparr>) (b\<lparr>b_registry := reg\<rparr>))"
proof -
  have s: "b_heap b r = Some s" using assms(2) by (simp add: server_at_Some)
  have g: "good_state s" using bot_inv_good [OF assms(1) s] .
  show "bot_inv (put_server r (s\<lparr>s_dispatcher := d\<rparr>) b)" using bot_inv_put [OF assms(1) s] g by (simp add: good_state_def)
  show "bot_inv (put_server r (s\<lparr>s_cmds := c\<rparr>) (b\<lparr>b_registry := reg\<rparr>))"
    using bot_inv_put [of "b\<lparr>b_registry := reg\<rparr>" r s] assms(1) s g by (simp add: good_state_def)
qed

lemma bot_reach_inv: "bot_reach E K G b \<Longrightarrow> bot_inv b"
proof (induction rule: bot_reach.induct)
  case (handled b r s h ev as h' b1 p s1)
  have i: "bot_inv b1" using HandleRaw_inv handled by blast
  have "good_state s1" using bot_inv_good [OF i handled.hyps(5)] .
  then show ?case using bot_inv_put [OF i handled.hyps(5)] by (simp add: good_state_def)
next
  case (status b st r b')
  then show ?case using bot_inv_good by (fastforce simp: change_status_heap good_state_def intro: bot_inv_put)
next
  case (connecting b r s dl mk killed res s')
  then show ?case using bot_inv_put createIrcClient_good bot_inv_good by blast
next
  case (closing b cclose r b')
  then show ?case using bot_inv_good by (fastforce simp: close_server_heap good_state_def intro: bot_inv_put)
next
  case (announced b r name now e b')
  then show ?case using announce_outline bot_inv_outline by blast
qed (auto intro: NewBot_inv dispatch_line_inv ReplaceConfig_inv simp: RegisterNetwork_def UnregisterNetwork_def RegisterNetworkCmd_def
    UnregisterNetworkCmd_def tables_inv split: option.splits prod.splits)



text \<open>A bot on one network that keeps no store, and a database that is never used.\<close>

definition none_kv :: "unit kv" where
  "none_kv = \<lparr>kv_get = (\<lambda>_ _. Inr None), kv_set = (\<lambda>_ _ d. (None, d)), kv_delete = (\<lambda>_ d. (None, d)), kv_entries = (\<lambda>_. Inr [])\<rparr>"

definition quiet_conf :: Config where
  "quiet_conf = NewConfig\<lparr>cf_values := [(''nostore'', VBool True), (''networks'', VMap GoMap [(''net'', VMap GoMap full_net)])]\<rparr>"

abbreviation no_cmds :: "unit Registry" where "no_cmds \<equiv> \<lparr>heapCmd = Map.empty, globalCmdRegistry = Map.empty\<rparr>"

lemma quiet_bot:
  "\<exists>b r s. (NewBot sample_env (\<lambda>_. quiet_conf) 0 no_cmds :: (BotError \<times> unit Registry + (nat, unit, unit) Bot) outcome) = Inr (Inr b)
     \<and> server_at ''net'' b = Some (r, s) \<and> s_state s = Some start_state"
proof -
  have "validateTypes quiet_conf = []" "validateRequired quiet_conf = []" by code_simp+
  then have "CheckConfig quiet_conf = (True, quiet_conf)"
    by (simp add: CheckConfig_def Validate_True) (simp add: Config_Errors_def quiet_conf_def NewConfig_def clear_def)
  moreover have "Networks quiet_conf = [''net'']" "LogFile quiet_conf = ([], False)" "wants_store quiet_conf [''net''] = Inr False"
    "fst (Net_NoStore GlobalNet quiet_conf)" "\<not> fst (Net_NoState (NetOf ''net'') quiet_conf)" by code_simp+
  moreover have n: "Network ''net'' quiet_conf = Some (NetOf ''net'')" by code_simp
  moreover obtain s :: "nat Server" where "createServer (sample_env\<lparr>be_logProvider := False, be_storeProvider := None\<rparr>) ''net'' 0
      (Bot_createDispatching (fst (Net_Prefix GlobalNet quiet_conf)) [] (empty_bot True (\<lambda>_. quiet_conf) 0 no_cmds)) = Inr (Inr s)"
    "fresh_server (sample_env\<lparr>be_logProvider := False, be_storeProvider := None\<rparr>) ''net'' 0 True quiet_conf s"
    using createServer_fresh [of "''net''" "Bot_createDispatching (fst (Net_Prefix GlobalNet quiet_conf)) [] (empty_bot True (\<lambda>_. quiet_conf) 0 no_cmds)" 0
        "NetOf ''net''" "sample_env\<lparr>be_logProvider := False, be_storeProvider := None\<rparr>"] n
    by (auto simp: Bot_createDispatching_def empty_bot_def Let_def)
  ultimately show ?thesis
    by (auto simp: NewBot_def createBot_def Let_def open_log_def fun_upd_idem fresh_server_def server_at_def getServer_def add_server_def)
qed


end
