(* ===== verification/Monitor.thy ===== *)
theory Monitor
  imports Server
begin

text \<open>
  The goroutines of \<^verbatim>\<open>src/bot/bot.go\<close> that start, watch and stop servers: the monitor, one goroutine of
  \<^verbatim>\<open>startServer\<close> for each start of a server, callers of \<^verbatim>\<open>StartNetwork\<close> and \<^verbatim>\<open>StopNetwork\<close>, and the
  main loop of \<^verbatim>\<open>Run\<close>.  They meet on unbuffered channels, so a rendezvous is one action of the machine; between
  actions the goroutines interleave in any order.

  The body of a server's session is in theory \<^verbatim>\<open>BotRun\<close>; here it only offers to be killed, wakes up and ends.
\<close>

section \<open>The machine\<close>

type_synonym srv = nat
type_synonym gid = nat
type_synonym death = "BotError option"

text \<open>The channels \<^verbatim>\<open>killable\<close>: one that a server is created with, and those the monitor makes.\<close>

datatype chan = Initial srv | Made nat

text \<open>
  Where a goroutine of \<^verbatim>\<open>startServer\<close> is: it waits for the monitor to accept it; it runs; it waits in a \<^verbatim>\<open>select\<close>
  that offers to be killed on a channel, evaluated when the \<^verbatim>\<open>select\<close> began; it has left its loop and is
  about to close the channel; it has closed it and reports its end.
\<close>

datatype phase = Asking srv | Running srv | Offering srv chan | Leaving srv death | Ending srv death

primrec phase_srv :: "phase \<Rightarrow> srv" where
  "phase_srv (Asking s) = s" | "phase_srv (Running s) = s" | "phase_srv (Offering s c) = s" | "phase_srv (Leaving s e) = s"
| "phase_srv (Ending s e) = s"

text \<open>
  The monitor waits in its \<^verbatim>\<open>select\<close>, waits for a server to take the kill (for a caller that is the main loop or
  not), waits for a reader of \<^verbatim>\<open>botEnd\<close>, or has closed \<^verbatim>\<open>botEnd\<close> and ended.
\<close>

datatype monMode = Idle | Stopping srv chan bool | Reporting death | Over

text \<open>The main loop of \<^verbatim>\<open>Run\<close>: it reads \<^verbatim>\<open>botEnd\<close>, is in \<^verbatim>\<open>Stop\<close> with servers left to ask for, waits for the answer, or has ended.\<close>

datatype main = Reading | StopAll "srv list" | Awaiting "srv list" | Left

record Mon =
  m_servers :: int
  m_started :: "srv \<Rightarrow> bool"
  m_killable :: "srv \<Rightarrow> chan"
  m_next :: nat
  m_closed :: "chan set"
  m_mode :: monMode
  m_gos :: "gid \<rightharpoonup> phase"
  m_main :: main
  m_deaths :: "death list"
  m_panicked :: bool

definition initial_mon :: Mon where
  "initial_mon = \<lparr>m_servers = 0, m_started = (\<lambda>_. False), m_killable = Initial, m_next = 0, m_closed = {}, m_mode = Idle,
     m_gos = Map.empty, m_main = Reading, m_deaths = [], m_panicked = False\<rparr>"

section \<open>Actions\<close>

text \<open>The end of an iteration of \<^verbatim>\<open>monitorServers\<close>: without servers it closes \<^verbatim>\<open>botEnd\<close> and ends.\<close>

definition next_iteration :: "Mon \<Rightarrow> Mon" where
  "next_iteration m = m\<lparr>m_mode := (if m_servers m = 0 then Over else Idle)\<rparr>"

definition set_go :: "gid \<Rightarrow> phase option \<Rightarrow> Mon \<Rightarrow> Mon" where
  "set_go g p m = m\<lparr>m_gos := (m_gos m)(g := p)\<rparr>"

text \<open>\<^verbatim>\<open>StartNetwork\<close> and \<^verbatim>\<open>Start\<close> start a goroutine.\<close>

definition StartNetwork :: "gid \<Rightarrow> srv \<Rightarrow> Mon \<Rightarrow> Mon option" where
  "StartNetwork g s m = (if m_gos m g = None then Some (set_go g (Some (Asking s)) m) else None)"

text \<open>The first case of the monitor for a start: the channel is replaced before it is looked at whether the server runs.\<close>

definition monitor_start :: "gid \<Rightarrow> Mon \<Rightarrow> Mon option" where
  "monitor_start g m =
     (case (m_mode m, m_gos m g) of
        (Idle, Some (Asking s)) \<Rightarrow>
          (let m' = m\<lparr>m_killable := (m_killable m)(s := Made (m_next m)), m_next := m_next m + 1\<rparr> in
           Some (next_iteration
             (if m_started m s then set_go g None m'
              else set_go g (Some (Running s)) (m'\<lparr>m_started := (m_started m)(s := True), m_servers := m_servers m + 1\<rparr>))))
      | _ \<Rightarrow> None)"

text \<open>A \<^verbatim>\<open>select\<close> that offers on a closed channel, or on one that is closed meanwhile, may choose that case and panics.\<close>

definition begin_select :: "gid \<Rightarrow> Mon \<Rightarrow> Mon option" where
  "begin_select g m =
     (case m_gos m g of Some (Running s) \<Rightarrow> Some (set_go g (Some (Offering s (m_killable m s))) m) | _ \<Rightarrow> None)"

definition send_closed :: "gid \<Rightarrow> Mon \<Rightarrow> Mon option" where
  "send_closed g m =
     (case m_gos m g of Some (Offering s c) \<Rightarrow> if c \<in> m_closed m then Some (m\<lparr>m_panicked := True\<rparr>) else None | _ \<Rightarrow> None)"

text \<open>The other case of the \<^verbatim>\<open>select\<close>: a line or a timeout; and the end of the loop for a reason of its own.\<close>

definition wake :: "gid \<Rightarrow> Mon \<Rightarrow> Mon option" where
  "wake g m = (case m_gos m g of Some (Offering s c) \<Rightarrow> Some (set_go g (Some (Running s)) m) | _ \<Rightarrow> None)"

definition leave_loop :: "gid \<Rightarrow> death \<Rightarrow> Mon \<Rightarrow> Mon option" where
  "leave_loop g e m = (case m_gos m g of Some (Running s) \<Rightarrow> Some (set_go g (Some (Leaving s e)) m) | _ \<Rightarrow> None)"

text \<open>The first case of the monitor for a stop, asked for by the main loop or by another caller.\<close>

definition monitor_stop :: "srv \<Rightarrow> bool \<Rightarrow> Mon \<Rightarrow> Mon" where
  "monitor_stop s byMain m =
     (if m_started m s then m\<lparr>m_started := (m_started m)(s := False), m_mode := Stopping s (m_killable m s) byMain\<rparr>
      else next_iteration m)"

definition StopNetwork :: "srv \<Rightarrow> Mon \<Rightarrow> Mon option" where
  "StopNetwork s m = (if m_mode m = Idle then Some (monitor_stop s False m) else None)"

text \<open>The answer of the monitor goes to the caller.\<close>

definition answer :: "bool \<Rightarrow> Mon \<Rightarrow> Mon" where
  "answer byMain m =
     next_iteration (if byMain then m\<lparr>m_main := (case m_main m of Awaiting ss \<Rightarrow> StopAll ss | x \<Rightarrow> x)\<rparr> else m)"

text \<open>The monitor receives from \<^verbatim>\<open>killable\<close>: from a goroutine that offers, or from the closed channel.\<close>

definition kill :: "gid \<Rightarrow> death \<Rightarrow> Mon \<Rightarrow> Mon option" where
  "kill g e m =
     (case (m_mode m, m_gos m g) of
        (Stopping s c byMain, Some (Offering s' c')) \<Rightarrow>
          if c' = c then Some (answer byMain (set_go g (Some (Leaving s' e)) m)) else None
      | _ \<Rightarrow> None)"

definition kill_closed :: "Mon \<Rightarrow> Mon option" where
  "kill_closed m =
     (case m_mode m of Stopping s c byMain \<Rightarrow> if c \<in> m_closed m then Some (answer byMain m) else None | _ \<Rightarrow> None)"

text \<open>The end of \<^verbatim>\<open>startServer\<close>: closing a closed channel panics; then the end is reported to the monitor.\<close>

definition close_killable :: "gid \<Rightarrow> Mon \<Rightarrow> Mon option" where
  "close_killable g m =
     (case m_gos m g of
        Some (Leaving s e) \<Rightarrow>
          Some (if m_killable m s \<in> m_closed m then m\<lparr>m_panicked := True\<rparr>
                else set_go g (Some (Ending s e)) (m\<lparr>m_closed := insert (m_killable m s) (m_closed m)\<rparr>))
      | _ \<Rightarrow> None)"

definition server_end :: "gid \<Rightarrow> Mon \<Rightarrow> Mon option" where
  "server_end g m =
     (case (m_mode m, m_gos m g) of
        (Idle, Some (Ending s e)) \<Rightarrow>
          Some (set_go g None (m\<lparr>m_started := (m_started m)(s := False), m_mode := Reporting e\<rparr>))
      | _ \<Rightarrow> None)"

text \<open>\<^verbatim>\<open>b.botEnd <- op.err\<close> waits for the main loop to read.\<close>

definition report :: "Mon \<Rightarrow> Mon option" where
  "report m =
     (case (m_mode m, m_main m) of
        (Reporting e, Reading) \<Rightarrow>
          Some (next_iteration (m\<lparr>m_deaths := m_deaths m @ [e], m_servers := m_servers m - 1\<rparr>))
      | _ \<Rightarrow> None)"

text \<open>The main loop: input or a signal leads to \<^verbatim>\<open>Stop\<close>, the closed channel \<^verbatim>\<open>botEnd\<close> to the end.\<close>

definition interrupt :: "srv list \<Rightarrow> Mon \<Rightarrow> Mon option" where
  "interrupt ss m = (if m_main m = Reading then Some (m\<lparr>m_main := StopAll ss\<rparr>) else None)"

definition main_step :: "Mon \<Rightarrow> Mon option" where
  "main_step m =
     (case (m_main m, m_mode m) of
        (StopAll [], _) \<Rightarrow> Some (m\<lparr>m_main := Left\<rparr>)
      | (StopAll (s # ss), Idle) \<Rightarrow>
          Some (monitor_stop s True (m\<lparr>m_main := (if m_started m s then Awaiting ss else StopAll ss)\<rparr>))
      | (Reading, Over) \<Rightarrow> Some (m\<lparr>m_main := Left\<rparr>)
      | _ \<Rightarrow> None)"

datatype act =
    Start gid srv | AcceptStart gid | Select gid | SendClosed gid | Wake gid | Leave gid death | StopRequest srv | Kill gid death | KillClosed
  | CloseKillable gid | End gid | Report | Interrupt "srv list" | Main

primrec act_step :: "act \<Rightarrow> Mon \<Rightarrow> Mon option" where
  "act_step (Start g s) m = StartNetwork g s m"
| "act_step (AcceptStart g) m = monitor_start g m"
| "act_step (Select g) m = begin_select g m"
| "act_step (SendClosed g) m = send_closed g m"
| "act_step (Wake g) m = wake g m"
| "act_step (Leave g e) m = leave_loop g e m"
| "act_step (StopRequest s) m = StopNetwork s m"
| "act_step (Kill g e) m = kill g e m"
| "act_step KillClosed m = kill_closed m"
| "act_step (CloseKillable g) m = close_killable g m"
| "act_step (End g) m = server_end g m"
| "act_step Report m = report m"
| "act_step (Interrupt ss) m = interrupt ss m"
| "act_step Main m = main_step m"

fun acts :: "act list \<Rightarrow> Mon \<Rightarrow> Mon option" where
  "acts [] m = Some m"
| "acts (a # as) m = (case act_step a m of None \<Rightarrow> None | Some m \<Rightarrow> acts as m)"


lemma acts_append: "acts (as @ bs) m = (case acts as m of None \<Rightarrow> None | Some m \<Rightarrow> acts bs m)"
  by (induction as arbitrary: m) (auto split: option.splits)

section \<open>Reachable states\<close>

text \<open>
  The callers are disciplined if a server is started only when it has no goroutine any more, so that
  a second start, or a restart before the end of the first run, does not happen.
\<close>

definition disciplined :: "act \<Rightarrow> Mon \<Rightarrow> bool" where
  "disciplined a m \<longleftrightarrow> (case a of Start g s \<Rightarrow> \<forall>g' p. m_gos m g' = Some p \<longrightarrow> phase_srv p \<noteq> s | _ \<Rightarrow> True)"

inductive mon_reach :: "Mon \<Rightarrow> bool" where
  mon_init: "mon_reach initial_mon"
| mon_act: "mon_reach m \<Longrightarrow> disciplined a m \<Longrightarrow> act_step a m = Some m' \<Longrightarrow> mon_reach m'"

text \<open>The goroutines that the monitor has accepted and whose end it has not seen.\<close>

primrec active :: "phase \<Rightarrow> bool" where
  "active (Asking s) = False" | "active (Running s) = True" | "active (Offering s c) = True" | "active (Leaving s e) = True"
| "active (Ending s e) = True"

type_synonym gos = "gid \<rightharpoonup> phase"

definition live :: "gos \<Rightarrow> gid set" where "live G = {g. \<exists>p. G g = Some p \<and> active p}"

definition runs :: "srv \<Rightarrow> gos \<Rightarrow> bool" where "runs s G \<longleftrightarrow> (\<exists>g p. G g = Some p \<and> phase_srv p = s \<and> active p)"

definition one_each :: "gos \<Rightarrow> bool" where
  "one_each G \<longleftrightarrow> (\<forall>g g' p p'. G g = Some p \<longrightarrow> G g' = Some p' \<longrightarrow> phase_srv p = phase_srv p' \<longrightarrow> g = g')"

definition phase_ok :: "(srv \<Rightarrow> chan) \<Rightarrow> chan set \<Rightarrow> phase \<Rightarrow> bool" where
  "phase_ok k cl p \<longleftrightarrow>
     (case p of
        Asking s \<Rightarrow> True
      | Running s \<Rightarrow> k s \<notin> cl
      | Offering s c \<Rightarrow> c = k s \<and> c \<notin> cl
      | Leaving s e \<Rightarrow> k s \<notin> cl
      | Ending s e \<Rightarrow> k s \<in> cl)"

definition channels_ok :: "(srv \<Rightarrow> chan) \<Rightarrow> nat \<Rightarrow> chan set \<Rightarrow> bool" where
  "channels_ok k n cl \<longleftrightarrow> inj k \<and> (\<forall>s i. k s = Made i \<longrightarrow> i < n) \<and> (\<forall>i. Made i \<in> cl \<longrightarrow> i < n)"

definition mode_ok :: "Mon \<Rightarrow> bool" where
  "mode_ok m \<longleftrightarrow>
     (case m_mode m of
        Idle \<Rightarrow> m_servers m = int (card (live (m_gos m)))
      | Stopping s c b \<Rightarrow> m_servers m = int (card (live (m_gos m))) \<and> c = m_killable m s \<and> runs s (m_gos m)
      | Reporting e \<Rightarrow> m_servers m = int (card (live (m_gos m))) + 1
      | Over \<Rightarrow> m_servers m = 0 \<and> live (m_gos m) = {})"

definition mon_inv :: "Mon \<Rightarrow> bool" where
  "mon_inv m \<longleftrightarrow> \<not> m_panicked m \<and> one_each (m_gos m) \<and> finite (live (m_gos m)) \<and> channels_ok (m_killable m) (m_next m) (m_closed m)
     \<and> (\<forall>g p. m_gos m g = Some p \<longrightarrow> phase_ok (m_killable m) (m_closed m) p) \<and> (\<forall>s. m_started m s \<longrightarrow> runs s (m_gos m)) \<and> mode_ok m"

lemma mon_invD:
  assumes "mon_inv m"
  shows "one_each (m_gos m)" "finite (live (m_gos m))" "channels_ok (m_killable m) (m_next m) (m_closed m)"
    "m_gos m g = Some p \<Longrightarrow> phase_ok (m_killable m) (m_closed m) p" "m_started m s \<Longrightarrow> runs s (m_gos m)" "mode_ok m" "\<not> m_panicked m"
  using assms by (auto simp: mon_inv_def)

lemma live_upd [simp]:
  "live (G(g := None)) = live G - {g}" "live (G(g \<mapsto> p)) = (if active p then insert g (live G) else live G - {g})"
  by (auto simp: live_def)

lemma runs_upd:
  "runs s (G(g := x)) \<longleftrightarrow> (\<exists>p. x = Some p \<and> phase_srv p = s \<and> active p) \<or> (\<exists>g' p. g' \<noteq> g \<and> G g' = Some p \<and> phase_srv p = s \<and> active p)"
  unfolding runs_def by (auto split: if_splits)

lemma runs_other: "runs s G \<Longrightarrow> (\<And>p. G g = Some p \<Longrightarrow> active p \<Longrightarrow> phase_srv p \<noteq> s) \<Longrightarrow> runs s (G(g := x))"
proof -
  assume a: "runs s G" "\<And>p. G g = Some p \<Longrightarrow> active p \<Longrightarrow> phase_srv p \<noteq> s"
  then obtain g' q where q: "G g' = Some q" "phase_srv q = s" "active q" by (auto simp: runs_def)
  with a(2) [of q] have "g' \<noteq> g" by auto
  with q show ?thesis by (subst runs_upd) blast
qed

lemma runs_same: "runs s G \<Longrightarrow> G g = Some p \<Longrightarrow> active p' \<Longrightarrow> phase_srv p' = phase_srv p \<Longrightarrow> runs s (G(g \<mapsto> p'))"
proof -
  assume a: "runs s G" "G g = Some p" "active p'" "phase_srv p' = phase_srv p"
  then obtain g' q where "G g' = Some q" "phase_srv q = s" "active q" by (auto simp: runs_def)
  with a(2-4) show ?thesis by (subst runs_upd) (cases "g' = g", auto)
qed

lemma one_each_upd: "one_each G \<Longrightarrow> (\<And>g' p'. g' \<noteq> g \<Longrightarrow> G g' = Some p' \<Longrightarrow> phase_srv p' \<noteq> phase_srv p) \<Longrightarrow> one_each (G(g \<mapsto> p))"
  unfolding one_each_def by (auto split: if_splits) metis

lemma one_each_del: "one_each G \<Longrightarrow> one_each (G(g := None))" by (simp add: one_each_def)

lemma one_each_other: "one_each G \<Longrightarrow> G g = Some p \<Longrightarrow> g' \<noteq> g \<Longrightarrow> G g' = Some p' \<Longrightarrow> phase_srv p' \<noteq> phase_srv p"
  unfolding one_each_def by metis

lemma in_live: "G g = Some p \<Longrightarrow> active p \<Longrightarrow> g \<in> live G" by (auto simp: live_def)

lemma set_go_fields [simp]:
  "m_servers (set_go g p m) = m_servers m" "m_started (set_go g p m) = m_started m" "m_killable (set_go g p m) = m_killable m"
  "m_next (set_go g p m) = m_next m" "m_closed (set_go g p m) = m_closed m" "m_mode (set_go g p m) = m_mode m"
  "m_main (set_go g p m) = m_main m" "m_panicked (set_go g p m) = m_panicked m" "m_gos (set_go g p m) = (m_gos m)(g := p)"
  by (simp_all add: set_go_def)

lemma mon_inv_init: "mon_inv initial_mon"
  by (simp add: mon_inv_def initial_mon_def one_each_def live_def channels_ok_def mode_ok_def inj_def)

lemma mon_inv_main [simp]: "mon_inv (m\<lparr>m_main := x\<rparr>) \<longleftrightarrow> mon_inv m"
  by (simp add: mon_inv_def mode_ok_def split: monMode.splits)

text \<open>A goroutine that goes from one phase to another, for the same server and active before and after.\<close>

lemma mon_inv_advance:
  assumes "mon_inv m" "m_gos m g = Some p" "active p" "active p'" "phase_srv p' = phase_srv p" "phase_ok (m_killable m) (m_closed m) p'"
  shows "mon_inv (set_go g (Some p') m)"
proof -
  note inv = mon_invD [OF assms(1)]
  have l: "insert g (live (m_gos m)) = live (m_gos m)" using in_live [where G = "m_gos m", OF assms(2,3)] by auto
  have "one_each ((m_gos m)(g \<mapsto> p'))" using inv(1) one_each_other [OF inv(1) assms(2)] assms(5) by (intro one_each_upd) auto
  moreover have "runs s ((m_gos m)(g \<mapsto> p'))" if "runs s (m_gos m)" for s using runs_same [OF that assms(2,4,5)] .
  ultimately show ?thesis using assms(1,4,6) l by (simp add: mon_inv_def mode_ok_def split: monMode.splits)
qed

text \<open>The end of an iteration, when the number of servers is right.\<close>

lemma mon_inv_iterate:
  assumes "mon_inv (m\<lparr>m_mode := Idle\<rparr>)" shows "mon_inv (next_iteration m)"
  using assms by (auto simp: mon_inv_def mode_ok_def next_iteration_def)

lemma mon_inv_idle: "mon_inv m \<Longrightarrow> m_mode m = Stopping s c b \<or> m_mode m = Idle \<Longrightarrow> mon_inv (m\<lparr>m_mode := Idle\<rparr>)"
  by (auto simp: mon_inv_def mode_ok_def)

lemma mon_inv_answer:
  assumes "mon_inv m" "m_mode m = Stopping s c b" shows "mon_inv (answer b' m)"
proof -
  have "mon_inv (m\<lparr>m_mode := Idle\<rparr>)" using assms by (intro mon_inv_idle) auto
  then have "mon_inv (m\<lparr>m_main := x, m_mode := Idle\<rparr>)" for x using assms by (auto simp: mon_inv_def mode_ok_def)
  with \<open>mon_inv (m\<lparr>m_mode := Idle\<rparr>)\<close> show ?thesis unfolding answer_def by (intro mon_inv_iterate) auto
qed

lemma mon_inv_Start:
  assumes "mon_inv m" "StartNetwork g s m = Some m'" "\<forall>g' p. m_gos m g' = Some p \<longrightarrow> phase_srv p \<noteq> s" shows "mon_inv m'"
proof -
  note inv = mon_invD [OF assms(1)]
  have g: "m_gos m g = None" and m': "m' = set_go g (Some (Asking s)) m" using assms(2) by (auto simp: StartNetwork_def split: if_splits)
  have l: "live (m_gos m) - {g} = live (m_gos m)" using g by (auto simp: live_def)
  have "one_each (m_gos m')" using inv(1) assms(3) by (auto simp: m' intro: one_each_upd)
  moreover have "runs x (m_gos m')" if "runs x (m_gos m)" for x using that g by (auto simp: m' intro: runs_other)
  moreover have "phase_ok k cl (Asking s)" for k cl by (simp add: phase_ok_def)
  ultimately show ?thesis using assms(1) l by (simp add: mon_inv_def mode_ok_def m' split: monMode.splits)
qed

lemma mon_inv_AcceptStart:
  assumes "mon_inv m" "monitor_start g m = Some m'" shows "mon_inv m'"
proof -
  note inv = mon_invD [OF assms(1)]
  obtain s where s: "m_mode m = Idle" "m_gos m g = Some (Asking s)"
    using assms(2) by (auto simp: monitor_start_def split: monMode.splits option.splits phase.splits)
  have other: "phase_srv p \<noteq> s" if "g' \<noteq> g" "m_gos m g' = Some p" for g' p
    using one_each_other [OF inv(1) s(2) that] by simp
  have "\<not> runs s (m_gos m)"
  proof
    assume "runs s (m_gos m)"
    then obtain g' p where "m_gos m g' = Some p" "phase_srv p = s" "active p" by (auto simp: runs_def)
    then show False using other [of g' p] s(2) by (cases "g' = g") auto
  qed
  then have ns: "\<not> m_started m s" using inv(5) by blast
  let ?k = "(m_killable m)(s := Made (m_next m))"
  let ?m = "set_go g (Some (Running s)) (m\<lparr>m_killable := ?k, m_next := m_next m + 1,
      m_started := (m_started m)(s := True), m_servers := m_servers m + 1\<rparr>)"
  have m': "m' = next_iteration ?m" using assms(2) s ns by (simp add: monitor_start_def Let_def)
  have l: "g \<notin> live (m_gos m)" using s(2) by (auto simp: live_def)
  have "one_each ((m_gos m)(g \<mapsto> Running s))" using inv(1) other by (intro one_each_upd) auto
  moreover have "m_killable m y \<noteq> Made (m_next m)" for y using inv(3) by (auto simp: channels_ok_def)
  then have "channels_ok ?k (m_next m + 1) (m_closed m)"
    using inv(3) by (auto simp: channels_ok_def inj_def less_Suc_eq dest: sym)
  moreover have "phase_ok ?k (m_closed m) p" if "((m_gos m)(g \<mapsto> Running s)) g' = Some p" for g' p
  proof (cases "g' = g")
    case True
    then show ?thesis using that inv(3) by (auto simp: phase_ok_def channels_ok_def)
  next
    case False
    then have "m_gos m g' = Some p" "phase_srv p \<noteq> s" using that other by auto
    then show ?thesis using inv(4) [of g' p] by (auto simp: phase_ok_def split: phase.splits)
  qed
  moreover have "runs x ((m_gos m)(g \<mapsto> Running s))" if "x = s \<or> runs x (m_gos m)" for x
    using that s(2) by (auto simp: runs_upd [of s] intro: runs_other)
  ultimately have "mon_inv (?m\<lparr>m_mode := Idle\<rparr>)" using inv l s(1) by (auto simp: mon_inv_def mode_ok_def)
  then show ?thesis unfolding m' by (rule mon_inv_iterate)
qed

lemma mon_inv_CloseKillable:
  assumes "mon_inv m" "close_killable g m = Some m'" shows "mon_inv m'"
proof -
  note inv = mon_invD [OF assms(1)]
  obtain s e where g: "m_gos m g = Some (Leaving s e)" using assms(2) by (auto simp: close_killable_def split: option.splits phase.splits)
  then have open_ch: "m_killable m s \<notin> m_closed m" using inv(4) [of g "Leaving s e"] by (simp add: phase_ok_def)
  let ?cl = "insert (m_killable m s) (m_closed m)"
  have m': "m' = set_go g (Some (Ending s e)) (m\<lparr>m_closed := ?cl\<rparr>)" using assms(2) g open_ch by (simp add: close_killable_def)
  have other: "phase_srv p \<noteq> s" if "g' \<noteq> g" "m_gos m g' = Some p" for g' p using one_each_other [OF inv(1) g that] by simp
  have inj: "m_killable m x = m_killable m s \<longleftrightarrow> x = s" for x using inv(3) by (auto simp: channels_ok_def inj_eq)
  have l: "insert g (live (m_gos m)) = live (m_gos m)" using in_live [where G = "m_gos m", OF g] by auto
  have "phase_ok (m_killable m) ?cl p" if "((m_gos m)(g \<mapsto> Ending s e)) g' = Some p" for g' p
    using that inv(4) [of g' p] other [of g' p] inj by (cases "g' = g") (auto simp: phase_ok_def split: phase.splits)
  moreover have "runs x ((m_gos m)(g \<mapsto> Ending s e))" if "runs x (m_gos m)" for x using runs_same [OF that g] by simp
  moreover have "one_each ((m_gos m)(g \<mapsto> Ending s e))" using inv(1) other by (intro one_each_upd) auto
  moreover have "channels_ok (m_killable m) (m_next m) ?cl" using inv(3) by (auto simp: channels_ok_def)
  ultimately show ?thesis using assms(1) l by (simp add: mon_inv_def mode_ok_def m' split: monMode.splits)
qed

lemma mon_inv_End:
  assumes "mon_inv m" "server_end g m = Some m'" shows "mon_inv m'"
proof -
  note inv = mon_invD [OF assms(1)]
  obtain s e where g: "m_mode m = Idle" "m_gos m g = Some (Ending s e)"
    using assms(2) by (auto simp: server_end_def split: monMode.splits option.splits phase.splits)
  have m': "m' = set_go g None (m\<lparr>m_started := (m_started m)(s := False), m_mode := Reporting e\<rparr>)"
    using assms(2) g by (simp add: server_end_def)
  have "card (live (m_gos m)) = card (live (m_gos m) - {g}) + 1" using in_live [where G = "m_gos m", OF g(2)] inv(2)
      card.remove [of "live (m_gos m)" g] by simp
  moreover have "runs x ((m_gos m)(g := None))" if "runs x (m_gos m)" "x \<noteq> s" for x
    using that g(2) by (intro runs_other) auto
  ultimately show ?thesis using assms(1) g(1) by (auto simp: mon_inv_def mode_ok_def m' one_each_del split: if_splits)
qed

lemma mon_inv_Report:
  assumes "mon_inv m" "report m = Some m'" shows "mon_inv m'"
proof -
  obtain e where e: "m_mode m = Reporting e" "m' = next_iteration (m\<lparr>m_deaths := m_deaths m @ [e], m_servers := m_servers m - 1\<rparr>)"
    using assms(2) by (auto simp: report_def split: monMode.splits main.splits)
  have "mon_inv (m\<lparr>m_deaths := m_deaths m @ [e], m_servers := m_servers m - 1, m_mode := Idle\<rparr>)"
    using assms(1) e(1) by (auto simp: mon_inv_def mode_ok_def)
  then show ?thesis unfolding e(2) by (intro mon_inv_iterate) simp
qed

lemma mon_inv_stop:
  assumes "mon_inv m" "m_mode m = Idle" shows "mon_inv (monitor_stop s b m)"
proof (cases "m_started m s")
  case True
  then show ?thesis using assms mon_invD(5) [OF assms(1) True] by (auto simp: monitor_stop_def mon_inv_def mode_ok_def)
next
  case False
  then show ?thesis using assms mon_inv_idle [OF assms(1)] by (auto simp: monitor_stop_def intro: mon_inv_iterate)
qed

lemma mon_inv_step:
  assumes "mon_inv m" "disciplined a m" "act_step a m = Some m'"
  shows "mon_inv m'"
proof (cases a)
  case (Start g s)
  then show ?thesis using assms mon_inv_Start by (auto simp: disciplined_def)
next
  case (AcceptStart g)
  then show ?thesis using assms mon_inv_AcceptStart by simp
next
  case (Select g)
  then obtain s where "m_gos m g = Some (Running s)" "m' = set_go g (Some (Offering s (m_killable m s))) m"
    using assms(3) by (auto simp: begin_select_def split: option.splits phase.splits)
  moreover from this(1) have "phase_ok (m_killable m) (m_closed m) (Running s)" using mon_invD(4) [OF assms(1)] by blast
  ultimately show ?thesis using mon_inv_advance [OF assms(1), of g "Running s" "Offering s (m_killable m s)"] by (simp add: phase_ok_def)
next
  case (SendClosed g)
  then obtain s c where "m_gos m g = Some (Offering s c)" "c \<in> m_closed m"
    using assms(3) by (auto simp: send_closed_def split: option.splits phase.splits if_splits)
  then show ?thesis using assms(1) by (fastforce simp: mon_inv_def phase_ok_def)
next
  case (Wake g)
  then obtain s c where "m_gos m g = Some (Offering s c)" "m' = set_go g (Some (Running s)) m"
    using assms(3) by (auto simp: wake_def split: option.splits phase.splits)
  moreover from this(1) have "phase_ok (m_killable m) (m_closed m) (Offering s c)" using mon_invD(4) [OF assms(1)] by blast
  ultimately show ?thesis using mon_inv_advance [OF assms(1), of g "Offering s c" "Running s"] by (auto simp: phase_ok_def)
next
  case (Leave g e)
  then obtain s where "m_gos m g = Some (Running s)" "m' = set_go g (Some (Leaving s e)) m"
    using assms(3) by (auto simp: leave_loop_def split: option.splits phase.splits)
  moreover from this(1) have "phase_ok (m_killable m) (m_closed m) (Running s)" using mon_invD(4) [OF assms(1)] by blast
  ultimately show ?thesis using mon_inv_advance [OF assms(1), of g "Running s" "Leaving s e"] by (simp add: phase_ok_def)
next
  case (StopRequest s)
  then show ?thesis using assms mon_inv_stop by (auto simp: StopNetwork_def split: if_splits)
next
  case (Kill g e)
  then obtain s b s' c where k: "m_mode m = Stopping s c b" "m_gos m g = Some (Offering s' c)"
    "m' = answer b (set_go g (Some (Leaving s' e)) m)"
    using assms(3) by (auto simp: kill_def split: monMode.splits option.splits phase.splits if_splits)
  then have "phase_ok (m_killable m) (m_closed m) (Offering s' c)" using mon_invD(4) [OF assms(1)] by blast
  then have "mon_inv (set_go g (Some (Leaving s' e)) m)"
    using mon_inv_advance [OF assms(1) k(2), of "Leaving s' e"] by (auto simp: phase_ok_def)
  then show ?thesis unfolding k(3) by (rule mon_inv_answer) (simp add: k(1))
next
  case KillClosed
  then show ?thesis using assms mon_inv_answer by (auto simp: kill_closed_def split: monMode.splits if_splits)
next
  case (CloseKillable g)
  then show ?thesis using assms mon_inv_CloseKillable by simp
next
  case (End g)
  then show ?thesis using assms mon_inv_End by simp
next
  case Report
  then show ?thesis using assms mon_inv_Report by simp
next
  case (Interrupt ss)
  then show ?thesis using assms by (auto simp: interrupt_def split: if_splits)
next
  case Main
  then show ?thesis using assms
    by (auto simp: main_step_def split: main.splits monMode.splits list.splits intro!: mon_inv_stop)
qed


lemma mon_reach_inv: "mon_reach m \<Longrightarrow> mon_inv m"
  by (induction rule: mon_reach.induct) (auto intro: mon_inv_init mon_inv_step)

section \<open>Safety and progress\<close>

text \<open>The actions by which the monitor or the goroutine \<^verbatim>\<open>g\<close> goes on while a server is being stopped.\<close>

definition stop_progress :: "gid \<Rightarrow> act list" where
  "stop_progress g = [Select g, Kill g None, CloseKillable g, KillClosed]"

lemma stopping_progress:
  assumes "mon_inv m" "m_mode m = Stopping s c b"
  shows "\<exists>g p. m_gos m g = Some p \<and> phase_srv p = s \<and> (\<exists>a \<in> set (stop_progress g). act_step a m \<noteq> None)"
proof -
  note inv = mon_invD [OF assms(1)]
  have c: "c = m_killable m s" "runs s (m_gos m)" using inv(6) assms(2) by (simp_all add: mode_ok_def)
  then obtain g p where p: "m_gos m g = Some p" "phase_srv p = s" "active p" by (auto simp: runs_def)
  have "phase_ok (m_killable m) (m_closed m) p" using inv(4) p(1) by blast
  then have "\<exists>a \<in> set (stop_progress g). act_step a m \<noteq> None" using p c(1) assms(2)
    by (cases p) (auto simp: stop_progress_def begin_select_def kill_def close_killable_def kill_closed_def phase_ok_def)
  with p show ?thesis by blast
qed

text \<open>
  C21: Under every interleaving of starting, stopping, killing, ending and interrupting, as long as no server is
  started before its last run has ended: no goroutine panics on a closed channel; the monitor's count is the number of
  running servers; when the monitor closes \<^verbatim>\<open>botEnd\<close> no server runs; and a monitor that waits for a
  server to take the kill never waits for nothing, because the server's goroutine or the monitor can go on.
\<close>

theorem monitor_safe:
  assumes "mon_reach m"
  shows "\<not> m_panicked m
    \<and> m_servers m = int (card (live (m_gos m))) + (case m_mode m of Reporting _ \<Rightarrow> 1 | _ \<Rightarrow> 0)
    \<and> (m_mode m = Over \<longrightarrow> live (m_gos m) = {})
    \<and> (\<forall>s c b. m_mode m = Stopping s c b \<longrightarrow>
         (\<exists>g p. m_gos m g = Some p \<and> phase_srv p = s \<and> (\<exists>a \<in> set (stop_progress g). act_step a m \<noteq> None)))"
  using mon_reach_inv [OF assms] stopping_progress [OF mon_reach_inv [OF assms]]
  by (auto simp: mon_inv_def mode_ok_def split: monMode.splits)

lemmas mon_eval = initial_mon_def StartNetwork_def monitor_start_def begin_select_def send_closed_def wake_def leave_loop_def
  StopNetwork_def monitor_stop_def answer_def kill_def kill_closed_def close_killable_def server_end_def report_def interrupt_def
  main_step_def next_iteration_def set_go_def Let_def

lemma mon_reach_acts:
  "mon_reach m \<Longrightarrow> acts as m = Some m' \<Longrightarrow> (\<And>a m. a \<in> set as \<Longrightarrow> \<forall>g s. a \<noteq> Start g s) \<Longrightarrow> mon_reach m'"
proof (induction as arbitrary: m)
  case (Cons a as)
  then obtain m1 where m1: "act_step a m = Some m1" "acts as m1 = Some m'" by (auto split: option.splits)
  moreover have "disciplined a m" using Cons.prems(3) [of a] by (auto simp: disciplined_def split: act.splits)
  ultimately show ?case using Cons.IH [OF _ m1(2)] Cons.prems by (auto intro: mon_act)
qed simp

theorem monitor_safe_witness:
  "\<exists>m. acts [Start 0 7, AcceptStart 0, Select 0, StopRequest 7] initial_mon = Some m \<and> m_mode m = Stopping 7 (Made 0) False
     \<and> m_servers m = 1 \<and> \<not> m_panicked m \<and> card (live (m_gos m)) = 1"
proof -
  obtain m1 where m1: "act_step (Start 0 7) initial_mon = Some m1" by (simp add: mon_eval)
  then have r: "mon_reach m1" by (rule mon_act [OF mon_init, rotated]) (simp add: disciplined_def initial_mon_def)
  obtain m where m: "acts [AcceptStart 0, Select 0, StopRequest 7] m1 = Some m" "m_mode m = Stopping 7 (Made 0) False" "m_servers m = 1"
    using m1 by (simp add: mon_eval) (clarsimp simp: mon_eval)
  then have "mon_reach m" using mon_reach_acts [OF r m(1)] by auto
  from monitor_safe [OF this] m show ?thesis using m1 by (intro exI [of _ m]) simp
qed

section \<open>Where the protocol breaks\<close>

text \<open>
  A server that is started again while it is still going down breaks the protocol: the
  monitor has taken the kill and counts the server as stopped, the new start gets a new channel, and the old
  goroutine closes that one.  The new goroutine then sends on a closed channel and panics.
\<close>

theorem restart_panics:
  "\<exists>m. acts [Start 0 s, AcceptStart 0, Select 0, StopRequest s, Kill 0 (Some ServerKilled), Start 1 s, AcceptStart 1,
          CloseKillable 0, Select 1, SendClosed 1] initial_mon = Some m \<and> m_panicked m"
  by (simp add: mon_eval)

text \<open>The main loop waits in \<^verbatim>\<open>Stop\<close> for the monitor, which waits for the main loop to read \<^verbatim>\<open>botEnd\<close>.\<close>

definition deadlocked :: "Mon \<Rightarrow> bool" where
  "deadlocked m \<longleftrightarrow> (\<exists>e s ss. m_mode m = Reporting e \<and> m_main m = StopAll (s # ss))"

lemma deadlocked_step: "deadlocked m \<Longrightarrow> act_step a m = Some m' \<Longrightarrow> deadlocked m'"
  by (cases a) (auto simp: deadlocked_def mon_eval split: option.splits phase.splits if_splits)

lemma deadlocked_acts: "deadlocked m \<Longrightarrow> acts as m = Some m' \<Longrightarrow> deadlocked m'"
  by (induction as arbitrary: m) (auto split: option.splits dest: deadlocked_step)



text \<open>A monitor that has ended accepts nothing: a server that asks later never runs.\<close>

lemma over_step: "m_mode m = Over \<Longrightarrow> act_step a m = Some m' \<Longrightarrow> m_mode m' = Over \<and> live (m_gos m') \<subseteq> live (m_gos m)"
  by (cases a) (auto simp: mon_eval live_def split: option.splits phase.splits if_splits main.splits list.splits)

lemma over_acts: "m_mode m = Over \<Longrightarrow> acts as m = Some m' \<Longrightarrow> m_mode m' = Over \<and> live (m_gos m') \<subseteq> live (m_gos m)"
  by (induction as arbitrary: m) (fastforce split: option.splits dest: over_step)+

text \<open>When the first server ends before the second has asked to start, the second one never starts.\<close>

theorem early_end:
  "\<exists>m. acts [Start 0 s, Start 1 t, AcceptStart 0, Leave 0 e, CloseKillable 0, End 0, Report] initial_mon = Some m
     \<and> m_gos m 1 = Some (Asking t) \<and> (\<nexists>as m'. acts as m = Some m' \<and> live (m_gos m') \<noteq> {})"
proof -
  obtain m where m: "acts [Start 0 s, Start 1 t, AcceptStart 0, Leave 0 e, CloseKillable 0, End 0, Report] initial_mon = Some m"
    "m_gos m 1 = Some (Asking t)" "m_mode m = Over" "live (m_gos m) = {}"
    by (simp add: mon_eval live_def)
  with over_acts [OF m(3)] show ?thesis by blast
qed

text \<open>Starting a server that runs replaces the channel it offers to be killed on: a stop then waits until the server wakes up.\<close>

lemma second_start_delays_stop:
  "\<exists>m. acts [Start 0 s, AcceptStart 0, Select 0, Start 1 s, AcceptStart 1, StopRequest s] initial_mon = Some m
     \<and> m_mode m = Stopping s (Made 1) False \<and> m_gos m = [0 \<mapsto> Offering s (Made 0)] \<and> act_step (Kill 0 e) m = None \<and> act_step KillClosed m = None"
  by (simp add: mon_eval fun_eq_iff)

end
