(* ===== verification/InetLife.thy ===== *)
theory InetLife
  imports InetClient Complex_Main
begin

text \<open>
  The life of a connection, \<^verbatim>\<open>src/inet/client.go\<close>: its construction, the goroutines of pump and siphon, calls of
  \<^verbatim>\<open>Write\<close> and \<^verbatim>\<open>Close\<close>, and the channels on which they meet.

  A rendezvous on an unbuffered channel is one action, and goroutines interleave in any order.  What the pump
  does with a message and how the siphon cuts its input is in theory \<^verbatim>\<open>InetClient\<close>; here a message that the pump has taken is
  written at once or queued.  A connection that is closed fails all later reads and writes, as \<^verbatim>\<open>net.Conn\<close> documents.
\<close>

section \<open>Construction\<close>

text \<open>The settings of a client; the factor of the length penalty is the inverse of the given number, 0 without one.\<close>

record IrcClient =
  ic_throttle :: Throttle
  ic_lenPenaltyFactor :: rat
  ic_keepalive :: int

definition defaultTimeScale :: int where "defaultTimeScale = 1000000000"

text \<open>The zero time of Go is long ago; the parameter \<^verbatim>\<open>zero\<close> is its distance to the clock's origin.\<close>

definition inet_createIrcClient :: "int \<Rightarrow> IrcClient" where
  "inet_createIrcClient zero =
     \<lparr>ic_throttle = \<lparr>lastwrite = zero, penalty = zero, th_timeout = 0, basestep = 0, scale = defaultTimeScale\<rparr>,
      ic_lenPenaltyFactor = 0, ic_keepalive = 0\<rparr>"

definition NewIrcClient :: "int \<Rightarrow> int \<Rightarrow> int \<Rightarrow> int \<Rightarrow> int \<Rightarrow> int \<Rightarrow> IrcClient" where
  "NewIrcClient zero lenPenaltyFactor tmout bstep kalive sc =
     (let c = inet_createIrcClient zero;
          c = (if sc \<noteq> 0 then c\<lparr>ic_throttle := (ic_throttle c)\<lparr>scale := sc\<rparr>\<rparr> else c);
          c = (if lenPenaltyFactor > 0 then c\<lparr>ic_lenPenaltyFactor := 1 / of_int lenPenaltyFactor\<rparr> else c)
      in c\<lparr>ic_throttle := (ic_throttle c)\<lparr>th_timeout := tmout, basestep := bstep\<rparr>, ic_keepalive := kalive\<rparr>)"

section \<open>The goroutines\<close>

type_synonym goid = nat

text \<open>
  The pump: not started, in its \<^verbatim>\<open>select\<close>, waiting for the message of a writer that has its channel, in
  \<^verbatim>\<open>conn.Write\<close>, offering its error to \<^verbatim>\<open>Close\<close>, ended.
\<close>

datatype pump_phase = PumpOff | PumpSelect | PumpTaking | PumpWriting | PumpFailed string | PumpDone

text \<open>The siphon: not started, in \<^verbatim>\<open>conn.Read\<close>, handing over a message, offering its error to \<^verbatim>\<open>Close\<close>, ended.\<close>

datatype siphon_phase = SiphonOff | SiphonReading | SiphonSending | SiphonFailed string | SiphonDone

text \<open>A call of \<^verbatim>\<open>Write\<close>: it waits for the pump's channel, has it, or has returned with or without the error \<^verbatim>\<open>EOF\<close>.\<close>

datatype writer_phase = WaitService | HasService | Returned "string option"

text \<open>
  A call of \<^verbatim>\<open>Close\<close>: it has seen that the client is not closed; it has closed the socket and waits for the pump;
  it has the pump's error and waits for the siphon; it has returned.
\<close>

datatype closer_phase = Checked | AtPump "string option" | AtSiphon "string option" "string option" | Closed "ClientError option"

record Life =
  isShutdown :: bool
  shutdownLock :: "goid option"
  socketOpen :: bool
  pumpPhase :: pump_phase
  siphonPhase :: siphon_phase
  serviceClosed :: bool
  siphonchanClosed :: bool
  writers :: "goid \<rightharpoonup> writer_phase"
  closers :: "goid \<rightharpoonup> closer_phase"
  lifePanicked :: bool

definition new_life :: Life where
  "new_life = \<lparr>isShutdown = False, shutdownLock = None, socketOpen = True, pumpPhase = PumpOff, siphonPhase = SiphonOff,
     serviceClosed = False, siphonchanClosed = False, writers = Map.empty, closers = Map.empty, lifePanicked = False\<rparr>"

definition set_writer :: "goid \<Rightarrow> writer_phase \<Rightarrow> Life \<Rightarrow> Life" where
  "set_writer g p m = m\<lparr>writers := (writers m)(g \<mapsto> p)\<rparr>"

definition set_closer :: "goid \<Rightarrow> closer_phase \<Rightarrow> Life \<Rightarrow> Life" where
  "set_closer g p m = m\<lparr>closers := (closers m)(g \<mapsto> p)\<rparr>"

text \<open>\<^verbatim>\<open>SpawnWorkers\<close> while no worker of the kind runs.\<close>

definition SpawnWorkers :: "bool \<Rightarrow> bool \<Rightarrow> Life \<Rightarrow> Life option" where
  "SpawnWorkers pump siphon m =
     (if shutdownLock m \<noteq> None \<or> (pump \<and> pumpPhase m \<notin> {PumpOff, PumpDone}) \<or> (siphon \<and> siphonPhase m \<notin> {SiphonOff, SiphonDone})
      then None
      else Some (m\<lparr>isShutdown := False, pumpPhase := (if pump then PumpSelect else pumpPhase m),
                   siphonPhase := (if siphon then SiphonReading else siphonPhase m)\<rparr>))"

text \<open>\<^verbatim>\<open>Write\<close> of a message that is not empty: it receives the pump's channel, and then sends on it.\<close>

definition write_call :: "goid \<Rightarrow> Life \<Rightarrow> Life option" where
  "write_call g m = (if writers m g = None then Some (set_writer g WaitService m) else None)"

text \<open>The first case of the pump; on a closed channel it panics.\<close>

definition serve :: "goid \<Rightarrow> Life \<Rightarrow> Life option" where
  "serve g m =
     (if pumpPhase m \<noteq> PumpSelect then None
      else if serviceClosed m then Some (m\<lparr>lifePanicked := True\<rparr>)
      else if writers m g = Some WaitService then Some (set_writer g HasService (m\<lparr>pumpPhase := PumpTaking\<rparr>))
      else None)"

definition take_message :: "goid \<Rightarrow> bool \<Rightarrow> Life \<Rightarrow> Life option" where
  "take_message g now m =
     (if pumpPhase m = PumpTaking \<and> writers m g = Some HasService
      then Some (set_writer g (Returned None) (m\<lparr>pumpPhase := (if now then PumpWriting else PumpSelect)\<rparr>))
      else None)"

text \<open>The cases \<^verbatim>\<open>sleeper\<close> and \<^verbatim>\<open>pinger\<close> that write, and the results of \<^verbatim>\<open>conn.Write\<close>.\<close>

definition timer :: "Life \<Rightarrow> Life option" where
  "timer m = (if pumpPhase m = PumpSelect then Some (m\<lparr>pumpPhase := PumpWriting\<rparr>) else None)"

definition wrote :: "Life \<Rightarrow> Life option" where
  "wrote m = (if pumpPhase m = PumpWriting \<and> socketOpen m then Some (m\<lparr>pumpPhase := PumpSelect\<rparr>) else None)"

definition write_fails :: "string \<Rightarrow> Life \<Rightarrow> Life option" where
  "write_fails e m = (if pumpPhase m = PumpWriting then Some (m\<lparr>pumpPhase := PumpFailed e\<rparr>) else None)"

definition write_eof :: "goid \<Rightarrow> Life \<Rightarrow> Life option" where
  "write_eof g m =
     (if writers m g = Some WaitService \<and> serviceClosed m then Some (set_writer g (Returned (Some ''EOF'')) m) else None)"

text \<open>The siphon reads, with or without a whole message; hands a message to a reader; fails.\<close>

definition read_bytes :: "bool \<Rightarrow> Life \<Rightarrow> Life option" where
  "read_bytes msgs m =
     (if siphonPhase m = SiphonReading \<and> socketOpen m
      then Some (m\<lparr>siphonPhase := (if msgs then SiphonSending else SiphonReading)\<rparr>) else None)"

definition deliver :: "bool \<Rightarrow> Life \<Rightarrow> Life option" where
  "deliver again m =
     (if siphonPhase m \<noteq> SiphonSending then None
      else if siphonchanClosed m then Some (m\<lparr>lifePanicked := True\<rparr>)
      else Some (m\<lparr>siphonPhase := (if again then SiphonSending else SiphonReading)\<rparr>))"

definition read_fails :: "string \<Rightarrow> Life \<Rightarrow> Life option" where
  "read_fails e m =
     (if siphonPhase m \<noteq> SiphonReading then None
      else if siphonchanClosed m then Some (m\<lparr>lifePanicked := True\<rparr>)
      else Some (m\<lparr>siphonPhase := SiphonFailed e, siphonchanClosed := True\<rparr>))"

text \<open>\<^verbatim>\<open>ReadMessage\<close> on the channel of the siphon: a message, the end, or \<^verbatim>\<open>None\<close> while it waits.\<close>

definition ReadMessage :: "string \<Rightarrow> bool \<Rightarrow> Life \<Rightarrow> (string option \<times> bool) option" where
  "ReadMessage next_msg offered m =
     (if siphonchanClosed m then Some (None, False)
      else if siphonPhase m = SiphonSending \<and> offered then Some (Some next_msg, True)
      else None)"

text \<open>\<^verbatim>\<open>IsClosed\<close> takes the read lock, so it waits while \<^verbatim>\<open>Close\<close> has the lock.\<close>

definition IsClosed :: "Life \<Rightarrow> bool option" where
  "IsClosed m = (if shutdownLock m = None then Some (isShutdown m) else None)"

definition close_call :: "goid \<Rightarrow> Life \<Rightarrow> Life option" where
  "close_call g m =
     (if closers m g \<noteq> None then None
      else (case IsClosed m of
              None \<Rightarrow> None
            | Some shut \<Rightarrow> Some (set_closer g (if shut then Closed None else Checked) m)))"

definition close_socket :: "goid \<Rightarrow> string option \<Rightarrow> Life \<Rightarrow> Life option" where
  "close_socket g err m =
     (if closers m g = Some Checked \<and> shutdownLock m = None
      then Some (set_closer g (AtPump err) (m\<lparr>shutdownLock := Some g, socketOpen := False, isShutdown := True\<rparr>))
      else None)"

text \<open>
  \<^verbatim>\<open>Close\<close> receives from the pump: it offers nil in its \<^verbatim>\<open>select\<close>, or its error after a failed write; then it
  ends and closes its service.  Without a pump nothing is received.
\<close>

definition close_pump :: "goid \<Rightarrow> Life \<Rightarrow> Life option" where
  "close_pump g m =
     (case closers m g of
        Some (AtPump serr) \<Rightarrow>
          (case pumpPhase m of
             PumpOff \<Rightarrow> Some (set_closer g (AtSiphon serr None) m)
           | PumpSelect \<Rightarrow> Some (set_closer g (AtSiphon serr None) (m\<lparr>pumpPhase := PumpDone, serviceClosed := True\<rparr>))
           | PumpFailed e \<Rightarrow> Some (set_closer g (AtSiphon serr (Some e)) (m\<lparr>pumpPhase := PumpDone, serviceClosed := True\<rparr>))
           | _ \<Rightarrow> None)
      | _ \<Rightarrow> None)"

text \<open>The siphon offers nil while it hands over a message, and its error after a failed read.\<close>

definition finish_close :: "goid \<Rightarrow> string option \<Rightarrow> string option \<Rightarrow> string option \<Rightarrow> Life \<Rightarrow> Life" where
  "finish_close g serr perr rerr m =
     set_closer g (Closed (CheckNeeded \<lparr>ce_Socket = serr, ce_Pump = perr, ce_Siphon = rerr\<rparr>)) (m\<lparr>shutdownLock := None\<rparr>)"

definition close_siphon :: "goid \<Rightarrow> Life \<Rightarrow> Life option" where
  "close_siphon g m =
     (case closers m g of
        Some (AtSiphon serr perr) \<Rightarrow>
          (case siphonPhase m of
             SiphonOff \<Rightarrow> Some (finish_close g serr perr None m)
           | SiphonSending \<Rightarrow> Some (finish_close g serr perr None (m\<lparr>siphonPhase := SiphonDone\<rparr>))
           | SiphonFailed e \<Rightarrow> Some (finish_close g serr perr (Some e) (m\<lparr>siphonPhase := SiphonDone\<rparr>))
           | _ \<Rightarrow> None)
      | _ \<Rightarrow> None)"

datatype life_act =
    Spawn bool bool | WriteCall goid | Serve goid | TakeMessage goid bool | Timer | WriteDone | WriteFails string | WriteEOF goid
  | ReadBytes bool | Deliver bool | ReadFails string | CloseCall goid | CloseSocket goid "string option" | ClosePump goid
  | CloseSiphon goid

primrec life_do :: "life_act \<Rightarrow> Life \<Rightarrow> Life option" where
  "life_do (Spawn p s) m = SpawnWorkers p s m"
| "life_do (WriteCall g) m = write_call g m"
| "life_do (Serve g) m = serve g m"
| "life_do (TakeMessage g now) m = take_message g now m"
| "life_do Timer m = timer m"
| "life_do WriteDone m = wrote m"
| "life_do (WriteFails e) m = write_fails e m"
| "life_do (WriteEOF g) m = write_eof g m"
| "life_do (ReadBytes msgs) m = read_bytes msgs m"
| "life_do (Deliver again) m = deliver again m"
| "life_do (ReadFails e) m = read_fails e m"
| "life_do (CloseCall g) m = close_call g m"
| "life_do (CloseSocket g e) m = close_socket g e m"
| "life_do (ClosePump g) m = close_pump g m"
| "life_do (CloseSiphon g) m = close_siphon g m"

fun life_acts :: "life_act list \<Rightarrow> Life \<Rightarrow> Life option" where
  "life_acts [] m = Some m"
| "life_acts (a # as) m = (case life_do a m of None \<Rightarrow> None | Some m \<Rightarrow> life_acts as m)"

section \<open>Reachable states\<close>

text \<open>The workers are started once, before anything is closed, as the server does.  Calls of \<^verbatim>\<open>Close\<close> are not restricted.\<close>

definition once :: "life_act \<Rightarrow> Life \<Rightarrow> bool" where
  "once a m \<longleftrightarrow> (case a of
     Spawn p s \<Rightarrow> closers m = Map.empty \<and> pumpPhase m = PumpOff \<and> siphonPhase m = SiphonOff
   | _ \<Rightarrow> True)"

inductive life_reach :: "Life \<Rightarrow> bool" where
  life_new: "life_reach new_life"
| life_act: "life_reach m \<Longrightarrow> once a m \<Longrightarrow> life_do a m = Some m' \<Longrightarrow> life_reach m'"

definition returned :: "goid \<Rightarrow> Life \<Rightarrow> bool" where "returned g m \<longleftrightarrow> (\<exists>r. closers m g = Some (Closed r))"

text \<open>No call, or one that has not taken the lock.\<close>

definition outside :: "closer_phase option \<Rightarrow> bool" where "outside p \<longleftrightarrow> p = None \<or> p = Some Checked"

lemma outside_simps [simp]:
  "outside None" "outside (Some Checked)" "\<not> outside (Some (AtPump e))" "\<not> outside (Some (AtSiphon e e'))" "\<not> outside (Some (Closed r))"
  by (simp_all add: outside_def)

text \<open>The three ages of a connection: open, being closed by the first call that got the lock, closed.\<close>

definition opened :: "Life \<Rightarrow> bool" where
  "opened m \<longleftrightarrow> shutdownLock m = None \<and> \<not> isShutdown m \<and> pumpPhase m \<noteq> PumpDone \<and> siphonPhase m \<noteq> SiphonDone
     \<and> (\<forall>g. outside (closers m g))"

definition closing_by :: "goid \<Rightarrow> Life \<Rightarrow> bool" where
  "closing_by g m \<longleftrightarrow> shutdownLock m = Some g \<and> isShutdown m \<and> \<not> socketOpen m \<and> siphonPhase m \<noteq> SiphonDone
     \<and> ((\<exists>e. closers m g = Some (AtPump e)) \<and> pumpPhase m \<noteq> PumpDone
        \<or> (\<exists>e e'. closers m g = Some (AtSiphon e e')) \<and> pumpPhase m \<in> {PumpOff, PumpDone})
     \<and> (\<forall>g'. g' \<noteq> g \<longrightarrow> outside (closers m g'))"

definition closed_down :: "Life \<Rightarrow> bool" where
  "closed_down m \<longleftrightarrow> isShutdown m \<and> \<not> socketOpen m \<and> pumpPhase m \<in> {PumpOff, PumpDone} \<and> siphonPhase m \<in> {SiphonOff, SiphonDone}
     \<and> (\<exists>g. returned g m)
     \<and> (\<forall>g. outside (closers m g) \<or> returned g m
          \<or> shutdownLock m = Some g \<and> (\<exists>e. closers m g = Some (AtPump e) \<or> (\<exists>e'. closers m g = Some (AtSiphon e e') \<and> pumpPhase m = PumpOff)))"

text \<open>The parts of the invariant on the pump and its writers, and on closing.\<close>

definition writers_ok :: "pump_phase \<Rightarrow> (goid \<rightharpoonup> writer_phase) \<Rightarrow> bool" where
  "writers_ok p w \<longleftrightarrow> (if p = PumpTaking then \<exists>!g. w g = Some HasService else \<forall>g. w g \<noteq> Some HasService)"

definition closing_ok :: "Life \<Rightarrow> bool" where
  "closing_ok m \<longleftrightarrow> opened m \<or> (\<exists>g. closing_by g m) \<or> closed_down m"

definition channels_closed_ok :: "Life \<Rightarrow> bool" where
  "channels_closed_ok m \<longleftrightarrow> \<not> lifePanicked m \<and> serviceClosed m = (pumpPhase m = PumpDone)
     \<and> (siphonchanClosed m \<longrightarrow> siphonPhase m = SiphonDone \<or> (\<exists>e. siphonPhase m = SiphonFailed e))"

definition life_inv :: "Life \<Rightarrow> bool" where
  "life_inv m \<longleftrightarrow> writers_ok (pumpPhase m) (writers m) \<and> closing_ok m \<and> channels_closed_ok m"

lemmas life_eval = SpawnWorkers_def write_call_def serve_def take_message_def timer_def wrote_def write_fails_def write_eof_def
  read_bytes_def deliver_def read_fails_def close_call_def IsClosed_def close_socket_def close_pump_def close_siphon_def
  finish_close_def set_writer_def set_closer_def

lemmas phase_splits = if_splits option.splits closer_phase.splits pump_phase.splits siphon_phase.splits

lemma life_inv_new: "life_inv new_life"
  by (simp add: life_inv_def new_life_def opened_def writers_ok_def closing_ok_def channels_closed_ok_def)

lemma writers_ok_other: "writers_ok p w \<Longrightarrow> w g \<noteq> Some HasService \<Longrightarrow> q \<noteq> HasService \<Longrightarrow> writers_ok p (w(g \<mapsto> q))"
  unfolding writers_ok_def by (auto split: if_splits)

lemma writers_ok_step:
  assumes "writers_ok (pumpPhase m) (writers m)" "life_do a m = Some m'"
  shows "writers_ok (pumpPhase m') (writers m')"
proof (cases "\<exists>g. a = WriteCall g \<or> a = WriteEOF g")
  case True
  with assms show ?thesis by (auto simp: life_eval writers_ok_other split: if_splits)
next
  case False
  with assms show ?thesis by (cases a) (auto simp: life_eval writers_ok_def split: phase_splits)
qed

text \<open>Which phase a call is in when it makes its next step; what workers and writers leave alone.\<close>

definition closer_act :: "life_act \<Rightarrow> bool" where
  "closer_act a \<longleftrightarrow> (case a of Spawn p s \<Rightarrow> True | CloseCall g \<Rightarrow> True | CloseSocket g e \<Rightarrow> True | ClosePump g \<Rightarrow> True | CloseSiphon g \<Rightarrow> True | _ \<Rightarrow> False)"

lemma ClosePump_from: "close_pump h m = Some m' \<Longrightarrow> \<exists>e. closers m h = Some (AtPump e)"
  by (auto simp: close_pump_def split: option.splits closer_phase.splits)

lemma CloseSiphon_from: "close_siphon h m = Some m' \<Longrightarrow> \<exists>e e'. closers m h = Some (AtSiphon e e')"
  by (auto simp: close_siphon_def split: option.splits closer_phase.splits)

lemma worker_act:
  assumes "\<not> closer_act a" "life_do a m = Some m'"
  shows "closers m' = closers m \<and> shutdownLock m' = shutdownLock m \<and> isShutdown m' = isShutdown m \<and> socketOpen m' = socketOpen m
    \<and> (pumpPhase m' = PumpDone \<longleftrightarrow> pumpPhase m = PumpDone) \<and> (pumpPhase m' = PumpOff \<longleftrightarrow> pumpPhase m = PumpOff)
    \<and> (siphonPhase m' = SiphonDone \<longleftrightarrow> siphonPhase m = SiphonDone) \<and> (siphonPhase m' = SiphonOff \<longleftrightarrow> siphonPhase m = SiphonOff)"
  using assms by (cases a) (auto simp: life_eval closer_act_def split: if_splits)

lemma opened_step:
  assumes "opened m" "once a m" "life_do a m = Some m'"
  shows "opened m' \<or> (\<exists>g. closing_by g m')"
proof (cases "closer_act a")
  case False
  with assms(1) worker_act [OF False assms(3)] show ?thesis by (simp add: opened_def)
next
  case True
  have c: "outside (closers m g)" for g using assms(1) by (auto simp: opened_def)
  show ?thesis
  proof (cases a)
    case (CloseSocket g e)
    with assms(1,3) have "closing_by g m'" by (auto simp: life_eval opened_def closing_by_def split: if_splits)
    then show ?thesis by blast
  next
    case (ClosePump g)
    then have "\<exists>e. closers m g = Some (AtPump e)" using assms(3) by (auto intro: ClosePump_from)
    then show ?thesis using c [of g] by auto
  next
    case (CloseSiphon g)
    then have "\<exists>e e'. closers m g = Some (AtSiphon e e')" using assms(3) by (auto intro: CloseSiphon_from)
    then show ?thesis using c [of g] by auto
  next
    case (CloseCall g)
    with assms(1,3) show ?thesis by (auto simp: life_eval opened_def split: if_splits)
  next
    case (Spawn p q)
    with assms show ?thesis by (auto simp: life_eval opened_def once_def split: if_splits)
  qed (use True in \<open>simp_all add: closer_act_def\<close>)
qed

lemma closing_by_step:
  assumes "closing_by g m" "once a m" "life_do a m = Some m'"
  shows "closing_by g m' \<or> closed_down m'"
proof (cases "closer_act a")
  case False
  with assms(1) worker_act [OF False assms(3)] show ?thesis by (auto simp: closing_by_def)
next
  case True
  have other: "outside (closers m h)" if "h \<noteq> g" for h using assms(1) that by (auto simp: closing_by_def)
  have lock: "shutdownLock m = Some g" "closers m g \<noteq> None" using assms(1) by (auto simp: closing_by_def)
  show ?thesis
  proof (cases a)
    case (ClosePump h)
    then have "\<exists>e. closers m h = Some (AtPump e)" using assms(3) by (auto intro: ClosePump_from)
    then have "h = g" using other [of h] by (cases "h = g") auto
    with ClosePump assms(1,3) have "closing_by g m'" unfolding closing_by_def by (auto simp: life_eval split: pump_phase.splits)
    then show ?thesis by blast
  next
    case (CloseSiphon h)
    then have "\<exists>e e'. closers m h = Some (AtSiphon e e')" using assms(3) by (auto intro: CloseSiphon_from)
    then have "h = g" using other [of h] by (cases "h = g") auto
    then obtain e e' where e: "closers m g = Some (AtSiphon e e')" using CloseSiphon assms(3) CloseSiphon_from by (metis life_do.simps(15))
    with CloseSiphon \<open>h = g\<close> assms(1,3) obtain r where m': "closers m' = (closers m)(g \<mapsto> Closed r)" "siphonPhase m' \<in> {SiphonOff, SiphonDone}"
      "isShutdown m'" "\<not> socketOpen m'" "pumpPhase m' \<in> {PumpOff, PumpDone}"
      by (auto simp: life_eval closing_by_def split: siphon_phase.splits)
    have "outside (closers m' k) \<or> returned k m'" for k using other [of k] m'(1) by (cases "k = g") (auto simp: returned_def)
    moreover have "returned g m'" using m'(1) by (simp add: returned_def)
    ultimately have "closed_down m'" using m' unfolding closed_down_def by blast
    then show ?thesis by blast
  next
    case (Spawn p q)
    then show ?thesis using assms(2) lock(2) by (simp add: once_def)
  qed (use True assms(3) lock in \<open>auto simp: closer_act_def life_eval split: if_splits\<close>)
qed

text \<open>A step of the call that has the lock of a closed connection.\<close>

lemma closed_down_holder:
  assumes "closed_down m" "shutdownLock m = Some h" "\<not> returned h m" "closers m' = (closers m)(h \<mapsto> q)"
    and "isShutdown m' = isShutdown m" "socketOpen m' = socketOpen m" "pumpPhase m' = pumpPhase m" "siphonPhase m' = siphonPhase m"
    and "(\<exists>r. q = Closed r) \<or> shutdownLock m' = Some h \<and> pumpPhase m = PumpOff \<and> (\<exists>e e'. q = AtSiphon e e')"
  shows "closed_down m'"
proof -
  have old: "outside (closers m g) \<or> returned g m" if "g \<noteq> h" for g
    using assms(1,2) that unfolding closed_down_def by (metis option.inject)
  have "returned g m' = returned g m" if "g \<noteq> h" for g using that assms(4) by (simp add: returned_def)
  moreover obtain g0 where "returned g0 m" "g0 \<noteq> h" using assms(1,3) by (auto simp: closed_down_def)
  ultimately have "\<exists>g. returned g m'" by blast
  moreover have "outside (closers m' g) \<or> returned g m'
          \<or> shutdownLock m' = Some g \<and> (\<exists>e. closers m' g = Some (AtPump e) \<or> (\<exists>e'. closers m' g = Some (AtSiphon e e') \<and> pumpPhase m' = PumpOff))" for g
    using old [of g] assms(4,7,9) by (cases "g = h") (auto simp: returned_def)
  ultimately show ?thesis using assms(1,5-8) by (simp add: closed_down_def)
qed

lemma closed_down_free:
  assumes "closed_down m" "shutdownLock m = None" "\<not> returned h m" "closers m' = (closers m)(h \<mapsto> q)"
    and "isShutdown m' = isShutdown m" "socketOpen m' = socketOpen m" "pumpPhase m' = pumpPhase m" "siphonPhase m' = siphonPhase m"
    and "(\<exists>r. q = Closed r) \<or> shutdownLock m' = Some h \<and> (\<exists>e. q = AtPump e)"
  shows "closed_down m'"
proof -
  have old: "outside (closers m g) \<or> returned g m" for g using assms(1,2) unfolding closed_down_def by (metis option.distinct(1))
  obtain g0 where "returned g0 m" "g0 \<noteq> h" using assms(1,3) by (auto simp: closed_down_def)
  then have "\<exists>g. returned g m'" using assms(4) by (auto simp: returned_def intro!: exI [of _ g0])
  moreover have "outside (closers m' g) \<or> returned g m'
          \<or> shutdownLock m' = Some g \<and> (\<exists>e. closers m' g = Some (AtPump e) \<or> (\<exists>e'. closers m' g = Some (AtSiphon e e') \<and> pumpPhase m' = PumpOff))" for g
    using old [of g] assms(4,9) by (cases "g = h") (auto simp: returned_def)
  ultimately show ?thesis using assms(1,5-8) by (simp add: closed_down_def)
qed

lemma closed_down_step:
  assumes "closed_down m" "once a m" "life_do a m = Some m'"
  shows "closed_down m'"
proof (cases "closer_act a")
  case False
  note w = worker_act [OF False assms(3)]
  then have "returned g m' = returned g m" for g by (simp add: returned_def)
  with assms(1) w show ?thesis by (simp add: closed_down_def)
next
  case True
  have holder: "shutdownLock m = Some h" if "\<not> outside (closers m h)" "\<not> returned h m" for h
    using assms(1) that unfolding closed_down_def by blast
  show ?thesis
  proof (cases a)
    case (ClosePump h)
    then obtain e where e: "closers m h = Some (AtPump e)" using assms(3) ClosePump_from by (metis life_do.simps(14))
    then have "shutdownLock m = Some h" using holder [of h] by (auto simp: returned_def)
    moreover have "pumpPhase m = PumpOff" "m' = set_closer h (AtSiphon e None) m"
      using ClosePump assms(1,3) e by (auto simp: close_pump_def closed_down_def)
    ultimately show ?thesis using e by (intro closed_down_holder [OF assms(1), of h]) (auto simp: set_closer_def returned_def)
  next
    case (CloseSiphon h)
    then obtain e e' where e: "closers m h = Some (AtSiphon e e')" using assms(3) CloseSiphon_from by (metis life_do.simps(15))
    then have "shutdownLock m = Some h" using holder [of h] by (auto simp: returned_def)
    moreover have "m' = finish_close h e e' None m" using CloseSiphon assms(1,3) e by (auto simp: close_siphon_def closed_down_def)
    ultimately show ?thesis using e by (intro closed_down_holder [OF assms(1), of h]) (auto simp: set_closer_def finish_close_def returned_def)
  next
    case (Spawn p q)
    then show ?thesis using assms(1,2) by (auto simp: once_def closed_down_def returned_def)
  next
    case (CloseCall g)
    then have "shutdownLock m = None" "closers m g = None" "m' = set_closer g (Closed None) m"
      using assms(1,3) by (auto simp: life_eval closed_down_def split: if_splits)
    then show ?thesis by (intro closed_down_free [OF assms(1), of g _ "Closed None"]) (auto simp: set_closer_def returned_def)
  next
    case (CloseSocket g e)
    then have "shutdownLock m = None" "closers m g = Some Checked"
        "m' = set_closer g (AtPump e) (m\<lparr>shutdownLock := Some g, socketOpen := False, isShutdown := True\<rparr>)"
      using assms(3) by (auto simp: life_eval split: if_splits)
    then show ?thesis using assms(1)
      by (intro closed_down_free [OF assms(1), of g _ "AtPump e"]) (auto simp: set_closer_def returned_def closed_down_def)
  qed (use True in \<open>simp_all add: closer_act_def\<close>)
qed

lemma closing_ok_step: "closing_ok m \<Longrightarrow> once a m \<Longrightarrow> life_do a m = Some m' \<Longrightarrow> closing_ok m'"
  using opened_step closing_by_step closed_down_step unfolding closing_ok_def by blast

lemma channels_closed_ok_step:
  assumes "channels_closed_ok m" "closing_ok m" "once a m" "life_do a m = Some m'"
  shows "channels_closed_ok m'"
  using assms by (cases a) (auto simp: life_eval channels_closed_ok_def once_def split: phase_splits)

lemma life_reach_inv: "life_reach m \<Longrightarrow> life_inv m"
proof (induction rule: life_reach.induct)
  case (life_act m a m')
  then show ?case using writers_ok_step closing_ok_step channels_closed_ok_step unfolding life_inv_def by blast
qed (rule life_inv_new)

section \<open>Closing\<close>

text \<open>The actions of workers and calls that are under way; no new call, and no reader, is needed for them.\<close>

definition own_act :: "life_act \<Rightarrow> bool" where
  "own_act a \<longleftrightarrow> (case a of Spawn p s \<Rightarrow> False | WriteCall g \<Rightarrow> False | CloseCall g \<Rightarrow> False | Deliver b \<Rightarrow> False | _ \<Rightarrow> True)"

definition can_reach :: "nat \<Rightarrow> Life \<Rightarrow> (Life \<Rightarrow> bool) \<Rightarrow> bool" where
  "can_reach n m P \<longleftrightarrow> (\<exists>as m'. length as \<le> n \<and> (\<forall>a \<in> set as. own_act a) \<and> life_acts as m = Some m' \<and> P m')"

lemma can_reach_now: "P m \<Longrightarrow> can_reach n m P"
  unfolding can_reach_def by (rule exI [of _ "[]"]) simp

lemma can_reach_step: "life_do a m = Some m1 \<Longrightarrow> own_act a \<Longrightarrow> can_reach n m1 P \<Longrightarrow> can_reach (Suc n) m P"
proof -
  assume a: "life_do a m = Some m1" "own_act a" "can_reach n m1 P"
  then obtain as m' where "length as \<le> n" "\<forall>a \<in> set as. own_act a" "life_acts as m1 = Some m'" "P m'" by (auto simp: can_reach_def)
  with a(1,2) show ?thesis unfolding can_reach_def by (intro exI [of _ "a # as"] exI [of _ m']) simp
qed

lemma can_reach_mono: "can_reach n m P \<Longrightarrow> n \<le> k \<Longrightarrow> can_reach k m P"
  unfolding can_reach_def by (meson le_trans)

lemma close_from_siphon:
  assumes "closers m g = Some (AtSiphon e e')" "siphonPhase m \<noteq> SiphonDone" "siphonchanClosed m \<longrightarrow> siphonPhase m \<noteq> SiphonReading"
  shows "can_reach 2 m (returned g)"
proof (cases "siphonPhase m = SiphonReading")
  case True
  let ?m = "m\<lparr>siphonPhase := SiphonFailed [], siphonchanClosed := True\<rparr>"
  have "can_reach 1 ?m (returned g)" unfolding One_nat_def
    by (rule can_reach_step [of "CloseSiphon g"], simp add: life_eval assms(1), simp add: own_act_def, rule can_reach_now)
      (simp add: returned_def)
  moreover have "life_do (ReadFails []) m = Some ?m" using assms(3) True by (simp add: life_eval)
  ultimately show ?thesis using can_reach_step [of "ReadFails []" m ?m 1] by (simp add: own_act_def numeral_2_eq_2)
next
  case False
  then obtain m' where m': "life_do (CloseSiphon g) m = Some m'" "returned g m'"
    using assms by (cases "siphonPhase m") (auto simp: life_eval returned_def)
  show ?thesis unfolding numeral_2_eq_2 by (rule can_reach_step [OF m'(1)]) (simp add: own_act_def, rule can_reach_now, rule m'(2))
qed

text \<open>The pump comes to where it offers its end.\<close>

definition pump_ready :: "pump_phase \<Rightarrow> bool" where "pump_ready p \<longleftrightarrow> p \<in> {PumpOff, PumpSelect} \<or> (\<exists>e. p = PumpFailed e)"

lemma close_from_ready:
  assumes "closers m g = Some (AtPump e)" "pump_ready (pumpPhase m)" "siphonPhase m \<noteq> SiphonDone"
    "siphonchanClosed m \<longrightarrow> siphonPhase m \<noteq> SiphonReading"
  shows "can_reach 3 m (returned g)"
proof -
  obtain m' e' where m': "life_do (ClosePump g) m = Some m'" "closers m' g = Some (AtSiphon e e')" "siphonPhase m' = siphonPhase m"
      "siphonchanClosed m' = siphonchanClosed m"
    using assms(1,2) by (auto simp: life_eval pump_ready_def)
  then have "can_reach 2 m' (returned g)" using assms(3,4) by (intro close_from_siphon) auto
  then show ?thesis using can_reach_step [OF m'(1), of 2] by (simp add: own_act_def eval_nat_numeral)
qed

lemma close_from_pump:
  assumes "closers m g = Some (AtPump e)" "pumpPhase m \<noteq> PumpDone" "writers_ok (pumpPhase m) (writers m)" "siphonPhase m \<noteq> SiphonDone"
    "siphonchanClosed m \<longrightarrow> siphonPhase m \<noteq> SiphonReading"
  shows "can_reach 4 m (returned g)"
proof (cases "pump_ready (pumpPhase m)")
  case True
  then show ?thesis using can_reach_mono [OF close_from_ready [OF assms(1) True assms(4,5)], of 4] by simp
next
  case False
  then consider "pumpPhase m = PumpTaking" | "pumpPhase m = PumpWriting" using assms(2) by (cases "pumpPhase m") (auto simp: pump_ready_def)
  then obtain a m' where a: "life_do a m = Some m'" "own_act a" "closers m' = closers m" "pump_ready (pumpPhase m')"
    "siphonPhase m' = siphonPhase m" "siphonchanClosed m' = siphonchanClosed m"
  proof cases
    case 1
    then obtain w where "writers m w = Some HasService" using assms(3) by (auto simp: writers_ok_def)
    with 1 show ?thesis by (intro that [of "TakeMessage w False" "set_writer w (Returned None) (m\<lparr>pumpPhase := PumpSelect\<rparr>)"])
      (simp_all add: life_eval own_act_def pump_ready_def)
  next
    case 2
    then show ?thesis by (intro that [of "WriteFails []" "m\<lparr>pumpPhase := PumpFailed []\<rparr>"]) (simp_all add: life_eval own_act_def pump_ready_def)
  qed
  have "can_reach 3 m' (returned g)" using a assms by (intro close_from_ready) auto
  then show ?thesis using can_reach_step [OF a(1,2), of 3] by (simp add: eval_nat_numeral)
qed

text \<open>Runs in which the workers are started once.\<close>

fun life_run :: "life_act list \<Rightarrow> Life \<Rightarrow> Life option" where
  "life_run [] m = Some m"
| "life_run (a # as) m = (if once a m then case life_do a m of None \<Rightarrow> None | Some m \<Rightarrow> life_run as m else None)"

lemma life_reach_run: "life_reach m \<Longrightarrow> life_run as m = Some m' \<Longrightarrow> life_reach m'"
proof (induction as arbitrary: m)
  case (Cons a as)
  then obtain m1 where "once a m" "life_do a m = Some m1" "life_run as m1 = Some m'" by (auto split: if_splits option.splits)
  with Cons show ?case by (meson life_reach.life_act)
qed simp

text \<open>A call that saw the client open and comes to the pump after it has ended.\<close>

definition too_late :: "goid \<Rightarrow> Life \<Rightarrow> bool" where
  "too_late g m \<longleftrightarrow> closed_down m \<and> pumpPhase m = PumpDone \<and> (closers m g = Some Checked \<or> (\<exists>e. closers m g = Some (AtPump e)))"

lemma too_late_step:
  assumes "too_late g m" "once a m" "life_do a m = Some m'" shows "too_late g m'"
proof -
  have c: "closed_down m'" using closed_down_step [OF _ assms(2,3)] assms(1) by (simp add: too_late_def)
  have "closers m \<noteq> Map.empty" using assms(1) by (auto simp: too_late_def)
  then have "pumpPhase m' = PumpDone \<and> (closers m' g = Some Checked \<or> (\<exists>e. closers m' g = Some (AtPump e)))"
    using assms by (cases a) (auto simp: too_late_def life_eval once_def split: if_splits option.splits closer_phase.splits siphon_phase.splits)
  with c show ?thesis by (simp add: too_late_def)
qed

lemma too_late_run: "too_late g m \<Longrightarrow> life_run as m = Some m' \<Longrightarrow> \<not> returned g m'"
proof (induction as arbitrary: m)
  case (Cons a as)
  then obtain m1 where "once a m" "life_do a m = Some m1" "life_run as m1 = Some m'" by (auto split: if_splits option.splits)
  with Cons show ?case by (meson too_late_step)
qed (auto simp: too_late_def returned_def)



text \<open>A siphon that is stopped while it hands over a message does not close its channel: a reader then waits for ever.\<close>

lemma no_end_of_file:
  "\<exists>m. life_acts [Spawn True True, ReadBytes True, CloseCall 0, CloseSocket 0 None, ClosePump 0, CloseSiphon 0] new_life = Some m
     \<and> returned 0 m \<and> ReadMessage x offered m = None"
  by (simp add: new_life_def life_eval returned_def ReadMessage_def)

end
