(* ===== verification/ServerClose.thy ===== *)
theory ServerClose
  imports InetLife Server
begin

text \<open>
  A server and its client together: \<^verbatim>\<open>Write\<close> and \<^verbatim>\<open>Close\<close> of \<^verbatim>\<open>src/bot/server.go\<close> under the lock \<^verbatim>\<open>protect\<close>, over
  the goroutines of the client (theory \<^verbatim>\<open>InetLife\<close>).  A write holds the read lock until the client's \<^verbatim>\<open>Write\<close> returns;
  closing takes the write lock first and forgets the client in the end.
\<close>

section \<open>The lock\<close>

definition writing :: "Life \<Rightarrow> bool" where
  "writing m \<longleftrightarrow> (\<exists>g. writers m g \<in> {Some WaitService, Some HasService})"

text \<open>
  A write gets the read lock while nothing closes; closing gets the lock while nothing writes.  After closing
  the client is nil, so there is no second call of either.  The workers are started once, after the client is created.
\<close>

definition server_lock :: "life_act \<Rightarrow> Life \<Rightarrow> bool" where
  "server_lock a m \<longleftrightarrow> (case a of
     Spawn p s \<Rightarrow> closers m = Map.empty \<and> pumpPhase m = PumpOff \<and> siphonPhase m = SiphonOff
   | WriteCall g \<Rightarrow> closers m = Map.empty
   | CloseCall g \<Rightarrow> closers m = Map.empty \<and> \<not> writing m
   | _ \<Rightarrow> True)"

fun server_acts :: "life_act list \<Rightarrow> Life \<Rightarrow> Life option" where
  "server_acts [] m = Some m"
| "server_acts (a # as) m = (if server_lock a m then case life_do a m of None \<Rightarrow> None | Some m \<Rightarrow> server_acts as m else None)"

text \<open>The server keeps the rules of the client, so what theory \<^verbatim>\<open>InetLife\<close> shows of closing is true of it.\<close>

lemma server_lock_once: "server_lock a m \<Longrightarrow> once a m"
  by (auto simp: server_lock_def once_def split: life_act.splits)

lemma server_acts_reach: "life_reach m \<Longrightarrow> server_acts as m = Some m' \<Longrightarrow> life_reach m'"
proof (induction as arbitrary: m)
  case (Cons a as)
  then obtain m1 where "server_lock a m" "life_do a m = Some m1" "server_acts as m1 = Some m'" by (auto split: if_splits option.splits)
  with Cons show ?case by (meson life_reach.life_act server_lock_once)
qed simp

section \<open>A write error\<close>

text \<open>The pump offers its error to \<^verbatim>\<open>Close\<close>, a writer waits for the pump, \<^verbatim>\<open>Close\<close> waits for the writer.\<close>

definition hung :: "Life \<Rightarrow> bool" where
  "hung m \<longleftrightarrow> (\<exists>e. pumpPhase m = PumpFailed e) \<and> (\<exists>g. writers m g = Some WaitService) \<and> closers m = Map.empty \<and> \<not> serviceClosed m"

lemma hung_step: "hung m \<Longrightarrow> server_lock a m \<Longrightarrow> life_do a m = Some m' \<Longrightarrow> hung m'"
  by (cases a) (auto simp: hung_def server_lock_def writing_def life_eval split: if_splits)

lemma hung_acts: "hung m \<Longrightarrow> server_acts as m = Some m' \<Longrightarrow> hung m'"
  by (induction as arbitrary: m) (auto split: if_splits option.splits dest: hung_step)

text \<open>
  C36: A write error can hang a server for ever.  After it the pump waits for \<^verbatim>\<open>Close\<close> to take the
  error and serves nobody; the next write waits for the pump with the read lock of the server in its hands; and
  \<^verbatim>\<open>Close\<close>, which would end both, waits for that lock.  Whatever happens from then on, the client is never closed.
\<close>

theorem write_error_hangs:
  "\<exists>m. server_acts [Spawn True True, WriteCall 0, Serve 0, TakeMessage 0 True, WriteFails e, WriteCall 1] new_life = Some m
     \<and> (\<nexists>as m' g. server_acts as m = Some m' \<and> closers m' g \<noteq> None)"
proof -
  obtain m where m: "server_acts [Spawn True True, WriteCall 0, Serve 0, TakeMessage 0 True, WriteFails e, WriteCall 1] new_life = Some m"
      "pumpPhase m = PumpFailed e" "writers m 1 = Some WaitService" "closers m = Map.empty" "\<not> serviceClosed m"
    by (simp add: server_lock_def new_life_def life_eval)
  then have "hung m" by (auto simp: hung_def)
  then have "closers m' g = None" if "server_acts as m = Some m'" for as m' g using hung_acts [OF _ that] by (simp add: hung_def)
  then have "\<nexists>as m' g. server_acts as m = Some m' \<and> closers m' g \<noteq> None" by auto
  with m(1) show ?thesis by (intro exI [of _ m] conjI)
qed

end
