(* ===== verification/Markov.thy ===== *)
theory Markov
  imports IrcEvent
begin

text \<open>
  The text generator \<^verbatim>\<open>src/markov.go\<close>: a table from prefixes of \<^verbatim>\<open>k\<close> words to the words that followed them in the
  texts it has read, and a random walk through it.

  A reader is the text it gives; \<^verbatim>\<open>fmt.Fscan\<close> reads its words one after the other (\<^verbatim>\<open>Fields\<close>).  The random numbers are the
  parameter \<^verbatim>\<open>rnd\<close>: \<^verbatim>\<open>rnd i n\<close> is what the \<^verbatim>\<open>i\<close>-th call of \<^verbatim>\<open>rand.Intn\<close> returns for \<^verbatim>\<open>n\<close>.
\<close>

section \<open>The generator\<close>

type_synonym ChainPrefix = "string list"

definition Prefix_String :: "ChainPrefix \<Rightarrow> string" where
  "Prefix_String p = join '' '' p"

text \<open>Slicing off the first word of an empty prefix panics.\<close>

definition Shift :: "string \<Rightarrow> ChainPrefix \<Rightarrow> ChainPrefix outcome" where
  "Shift word p = and_then (slice_from p 1) (\<lambda>rest. Inr (rest @ [word]))"

record Chain =
  ch_chain :: "string \<rightharpoonup> string list"
  ch_prefixLen :: int

definition NewChain :: "int \<Rightarrow> Chain" where
  "NewChain prefixLen = \<lparr>ch_chain = Map.empty, ch_prefixLen = prefixLen\<rparr>"

text \<open>Reading the map where it has no entry gives nil, the empty slice.\<close>

definition choices :: "Chain \<Rightarrow> string \<Rightarrow> string list" where
  "choices c key = (case ch_chain c key of None \<Rightarrow> [] | Some ws \<Rightarrow> ws)"

definition make_prefix :: "Chain \<Rightarrow> ChainPrefix outcome" where
  "make_prefix c = (if ch_prefixLen c < 0 then Inl MakeSliceLen else Inr (replicate (nat (ch_prefixLen c)) []))"

text \<open>The loop of \<^verbatim>\<open>Build\<close> over the words; a panic leaves what was added before it.\<close>

fun build_loop :: "string list \<Rightarrow> ChainPrefix \<Rightarrow> Chain \<Rightarrow> Chain \<times> go_panic option" where
  "build_loop [] p c = (c, None)"
| "build_loop (s # ss) p c =
     (let key = Prefix_String p; c = c\<lparr>ch_chain := (ch_chain c)(key \<mapsto> choices c key @ [s])\<rparr> in
      case Shift s p of Inl e \<Rightarrow> (c, Some e) | Inr p \<Rightarrow> build_loop ss p c)"

definition Build :: "string \<Rightarrow> Chain \<Rightarrow> Chain \<times> go_panic option" where
  "Build input c = (case make_prefix c of Inl e \<Rightarrow> (c, Some e) | Inr p \<Rightarrow> build_loop (Fields input) p c)"

fun generate_loop :: "(nat \<Rightarrow> nat \<Rightarrow> nat) \<Rightarrow> nat \<Rightarrow> nat \<Rightarrow> ChainPrefix \<Rightarrow> Chain \<Rightarrow> string list outcome" where
  "generate_loop rnd i 0 p c = Inr []"
| "generate_loop rnd i (Suc n) p c =
     (let cs = choices c (Prefix_String p) in
      if cs = [] then Inr []
      else and_then (index_at cs (rnd i (length cs))) (\<lambda>w.
        and_then (Shift w p) (\<lambda>p. and_then (generate_loop rnd (i + 1) n p c) (\<lambda>ws. Inr (w # ws)))))"

definition Generate :: "(nat \<Rightarrow> nat \<Rightarrow> nat) \<Rightarrow> int \<Rightarrow> Chain \<Rightarrow> string outcome" where
  "Generate rnd n c =
     and_then (make_prefix c) (\<lambda>p. and_then (generate_loop rnd 0 (nat n) p c) (\<lambda>ws. Inr (join '' '' ws)))"

section \<open>What follows what\<close>

text \<open>The last \<^verbatim>\<open>k\<close> words of a text, filled up with empty words at its beginning.\<close>

definition ctx :: "nat \<Rightarrow> string list \<Rightarrow> ChainPrefix" where
  "ctx k ws = drop (length ws) (replicate k [] @ ws)"

text \<open>The words that follow a prefix in a text, in order and as often as they do.\<close>

definition followers :: "nat \<Rightarrow> ChainPrefix \<Rightarrow> string list \<Rightarrow> string list" where
  "followers k p ws = map (\<lambda>j. ws ! j) (filter (\<lambda>j. ctx k (take j ws) = p) [0..<length ws])"

definition plain_words :: "string list \<Rightarrow> bool" where
  "plain_words ws \<longleftrightarrow> (\<forall>w \<in> set ws. \<forall>c \<in> set w. \<not> is_space c)"

lemma ctx_Nil [simp]: "ctx k [] = replicate k []" by (simp add: ctx_def)

lemma length_ctx [simp]: "length (ctx k ws) = k" by (simp add: ctx_def)

lemma set_ctx: "set (ctx k ws) \<subseteq> insert [] (set ws)"
  unfolding ctx_def by (rule order_trans [OF set_drop_subset]) auto

lemma plain_ctx: "plain_words ws \<Longrightarrow> plain_words (ctx k ws)"
  using set_ctx [of k ws] by (auto simp: plain_words_def)

lemma Shift_ctx: "0 < k \<Longrightarrow> Shift w (ctx k ws) = Inr (ctx k (ws @ [w]))"
proof -
  assume k: "0 < k"
  have "ctx k (ws @ [w]) = drop (Suc (length ws)) ((replicate k [] @ ws) @ [w])" by (simp add: ctx_def)
  also have "\<dots> = drop 1 (ctx k ws) @ [w]" using k by (subst drop_append) (simp add: ctx_def del: drop_append)
  finally show ?thesis using k by (simp add: Shift_def slice_from_def)
qed

lemma followers_snoc: "followers k p (ws @ [w]) = followers k p ws @ (if ctx k ws = p then [w] else [])"
proof -
  have "filter (\<lambda>j. ctx k (take j (ws @ [w])) = p) [0..<length ws] = filter (\<lambda>j. ctx k (take j ws) = p) [0..<length ws]"
    by (rule filter_cong) auto
  then show ?thesis by (auto simp: followers_def nth_append)
qed

lemma set_followers: "set (followers k p ws) \<subseteq> set ws" by (auto simp: followers_def)

text \<open>Words without spaces are found again in the key.\<close>

lemma Prefix_String_inj:
  assumes "plain_words p" "plain_words q" "length p = length q" "Prefix_String p = Prefix_String q"
  shows "p = q"
proof (cases "p = []")
  case False
  have space: "is_space (CHR '' '')" by code_simp
  have "\<forall>x \<in> set r. CHR '' '' \<notin> set x" if "plain_words r" for r using that space unfolding plain_words_def by blast
  then have "split_on (CHR '' '') (join '' '' r) = r" if "r \<noteq> []" "plain_words r" for r
    using split_on_join [OF that(1)] that(2) by blast
  moreover have "q \<noteq> []" using False assms(3) by auto
  ultimately have "split_on (CHR '' '') (join '' '' p) = p" "split_on (CHR '' '') (join '' '' q) = q" using False assms(1,2) by blast+
  then show ?thesis using assms(4) unfolding Prefix_String_def by metis
qed (use assms(3) in simp)

lemma plain_words_cons:
  "Fs = w # Fr \<Longrightarrow> \<forall>x \<in> set w. \<not> is_space x \<Longrightarrow> w \<noteq> [] \<Longrightarrow> plain_words Fr \<and> (\<forall>w \<in> set Fr. w \<noteq> [])
   \<Longrightarrow> plain_words Fs \<and> (\<forall>w \<in> set Fs. w \<noteq> [])"
  by (simp add: plain_words_def)

lemma plain_Fields: "plain_words (Fields s) \<and> (\<forall>w \<in> set (Fields s). w \<noteq> [])"
proof (induction s rule: Fields.induct)
  case (1 s)
  show ?case
  proof (cases "dropWhile is_space s")
    case Nil
    then have "Fields s = []" by (subst Fields.simps) (simp only: list.case)
    then show ?thesis by (simp add: plain_words_def)
  next
    case (Cons c cs)
    then have F: "Fields s = takeWhile (Not \<circ> is_space) (c # cs) # Fields (dropWhile (Not \<circ> is_space) (c # cs))"
      by (subst Fields.simps) (simp only: list.case)
    have "\<not> is_space c" using Cons by (metis hd_dropWhile list.sel(1) list.simps(3))
    then have "takeWhile (Not \<circ> is_space) (c # cs) \<noteq> []" by simp
    moreover have "\<forall>x \<in> set (takeWhile (Not \<circ> is_space) (c # cs)). \<not> is_space x" by (metis comp_apply set_takeWhileD)
    ultimately show ?thesis using 1 [OF Cons] by (intro plain_words_cons [OF F])
  qed
qed

section \<open>Building\<close>

text \<open>What the table holds after some texts: under every prefix exactly what followed it in them.\<close>

definition holds_texts :: "nat \<Rightarrow> string list list \<Rightarrow> Chain \<Rightarrow> bool" where
  "holds_texts k ts c \<longleftrightarrow> ch_prefixLen c = int k
     \<and> (\<forall>p. length p = k \<longrightarrow> plain_words p \<longrightarrow> choices c (Prefix_String p) = concat (map (followers k p) ts))"

lemma build_loop_adds:
  assumes "0 < k" "plain_words (seen @ ws)" "holds_texts k (ts @ [seen]) c"
  shows "\<exists>c'. build_loop ws (ctx k seen) c = (c', None) \<and> holds_texts k (ts @ [seen @ ws]) c'"
  using assms(2,3)
proof (induction ws arbitrary: seen c)
  case (Cons w ws)
  let ?key = "Prefix_String (ctx k seen)"
  let ?c = "c\<lparr>ch_chain := (ch_chain c)(?key \<mapsto> choices c ?key @ [w])\<rparr>"
  have seen: "plain_words seen" using Cons.prems(1) by (auto simp: plain_words_def)
  have "choices ?c (Prefix_String p) = concat (map (followers k p) (ts @ [seen @ [w]]))" if "length p = k" "plain_words p" for p
  proof (cases "p = ctx k seen")
    case True
    have "choices ?c ?key = choices c ?key @ [w]" unfolding choices_def [of ?c] by simp
    then show ?thesis using Cons.prems(2) that True by (simp add: holds_texts_def followers_snoc)
  next
    case False
    then have "Prefix_String p \<noteq> ?key" using Prefix_String_inj [of p "ctx k seen"] that plain_ctx [OF seen] by auto
    then have "choices ?c (Prefix_String p) = choices c (Prefix_String p)" by (simp add: choices_def)
    then show ?thesis using Cons.prems(2) that False by (simp add: holds_texts_def followers_snoc)
  qed
  then have "holds_texts k (ts @ [seen @ [w]]) ?c" using Cons.prems(2) by (simp add: holds_texts_def)
  from Cons.IH [OF _ this] Cons.prems(1) show ?case using Shift_ctx [OF assms(1)] by (simp add: Let_def)
qed simp

lemma holds_new: "holds_texts k [] (NewChain (int k))" by (simp add: holds_texts_def NewChain_def choices_def)

lemma Build_adds:
  assumes "0 < k" "holds_texts k ts c"
  shows "\<exists>c'. Build input c = (c', None) \<and> holds_texts k (ts @ [Fields input]) c'"
proof -
  have "holds_texts k (ts @ [[]]) c" using assms(2) by (simp add: holds_texts_def followers_def)
  from build_loop_adds [OF assms(1) _ this, of "Fields input"] show ?thesis
    using plain_Fields [of input] assms(2) by (simp add: Build_def make_prefix_def holds_texts_def)
qed

section \<open>Generating\<close>

text \<open>
  A walk: each word followed the \<^verbatim>\<open>k\<close> words before it somewhere in the texts, and it is shorter than \<^verbatim>\<open>n\<close> words only if
  nothing ever followed its last \<^verbatim>\<open>k\<close> words.
\<close>

definition walk :: "nat \<Rightarrow> string list list \<Rightarrow> nat \<Rightarrow> string list \<Rightarrow> bool" where
  "walk k ts n ws \<longleftrightarrow> length ws \<le> n
     \<and> (\<forall>i < length ws. \<exists>t \<in> set ts. ws ! i \<in> set (followers k (ctx k (take i ws)) t))
     \<and> (length ws < n \<longrightarrow> (\<forall>t \<in> set ts. followers k (ctx k ws) t = []))"

lemma generate_loop_walk:
  assumes "0 < k" "\<forall>i n. 0 < n \<longrightarrow> rnd i n < n" "holds_texts k ts c" "plain_words ws"
    "\<forall>t \<in> set ts. plain_words t"
  shows "\<exists>more. generate_loop rnd i n (ctx k ws) c = Inr more \<and> length more \<le> n
    \<and> (\<forall>j < length more. \<exists>t \<in> set ts. more ! j \<in> set (followers k (ctx k (ws @ take j more)) t))
    \<and> (length more < n \<longrightarrow> (\<forall>t \<in> set ts. followers k (ctx k (ws @ more)) t = []))"
  using assms(4)
proof (induction n arbitrary: i ws)
  case (Suc n)
  let ?cs = "choices c (Prefix_String (ctx k ws))"
  have cs: "?cs = concat (map (followers k (ctx k ws)) ts)" using assms(3) plain_ctx [OF Suc.prems] by (simp add: holds_texts_def)
  show ?case
  proof (cases "?cs = []")
    case True
    then show ?thesis using cs by (simp add: Let_def)
  next
    case False
    let ?w = "?cs ! rnd i (length ?cs)"
    have r: "rnd i (length ?cs) < length ?cs" using False assms(2) by simp
    then have "?w \<in> set ?cs" by (rule nth_mem)
    then obtain t where t: "t \<in> set ts" "?w \<in> set (followers k (ctx k ws) t)" unfolding cs by auto
    then have "?w \<in> set t" by (auto simp: followers_def)
    then have "plain_words (ws @ [?w])" using Suc.prems assms(5) t(1) by (auto simp: plain_words_def)
    from Suc.IH [OF this, of "i + 1"] obtain more where more: "generate_loop rnd (i + 1) n (ctx k (ws @ [?w])) c = Inr more" "length more \<le> n"
      "\<forall>j < length more. \<exists>t \<in> set ts. more ! j \<in> set (followers k (ctx k ((ws @ [?w]) @ take j more)) t)"
      "length more < n \<longrightarrow> (\<forall>t \<in> set ts. followers k (ctx k ((ws @ [?w]) @ more)) t = [])" by blast
    have "generate_loop rnd i (Suc n) (ctx k ws) c = Inr (?w # more)"
      using False r more(1) Shift_ctx [OF assms(1)] by (simp add: Let_def index_at_def)
    moreover have "\<exists>t \<in> set ts. (?w # more) ! j \<in> set (followers k (ctx k (ws @ take j (?w # more))) t)" if "j < length (?w # more)" for j
      using that t more(3) by (cases j) auto
    ultimately show ?thesis using more(2,4) by (intro exI [of _ "?w # more"]) simp
  qed
qed simp

lemma Fields_join: "plain_words ws \<Longrightarrow> \<forall>w \<in> set ws. w \<noteq> [] \<Longrightarrow> Fields (join '' '' ws) = ws"
proof (induction "'' ''" ws rule: join.induct)
  case (2 x)
  then show ?case using Fields_word [of x "[]"] by (simp add: plain_words_def)
next
  case (3 x y xs)
  have "is_space (CHR '' '')" by code_simp
  with 3 show ?case using Fields_word [of x "CHR '' '' # join '' '' (y # xs)"] by (simp add: plain_words_def Fields_space)
qed simp

text \<open>Reading several texts one after the other.\<close>

fun build_all :: "string list \<Rightarrow> Chain \<Rightarrow> Chain \<times> go_panic option" where
  "build_all [] c = (c, None)"
| "build_all (t # ts) c = (case Build t c of (c, None) \<Rightarrow> build_all ts c | (c, Some e) \<Rightarrow> (c, Some e))"

lemma build_all_holds:
  "0 < k \<Longrightarrow> holds_texts k ts c \<Longrightarrow> \<exists>c'. build_all texts c = (c', None) \<and> holds_texts k (ts @ map Fields texts) c'"
proof (induction texts arbitrary: ts c)
  case (Cons t texts)
  from Build_adds [OF Cons.prems, of t] obtain c1 where c1: "Build t c = (c1, None)" "holds_texts k (ts @ [Fields t]) c1" by blast
  from Cons.IH [OF Cons.prems(1) c1(2)] c1(1) show ?case by simp
qed simp

text \<open>
  C27: What the generator says is made of what it has read.  With prefixes of at least one word, reading
  never panics, and the generated text has at most \<^verbatim>\<open>n\<close> words, each of which followed the \<^verbatim>\<open>k\<close> words before it
  (fewer at the beginning) somewhere in the texts; it is shorter only if it ran into an end that nothing follows.
  The table holds the followers of every prefix as often as they occurred, so words are
  drawn with the frequencies of the texts.
\<close>

theorem Generate_walks:
  assumes "0 < k" and "\<forall>i n. 0 < n \<longrightarrow> rnd i n < n"
  shows "\<exists>c out. build_all texts (NewChain (int k)) = (c, None) \<and> Generate rnd n c = Inr out
    \<and> walk k (map Fields texts) (nat n) (Fields out)
    \<and> (\<forall>ws. plain_words ws \<longrightarrow> choices c (Prefix_String (ctx k ws)) = concat (map (followers k (ctx k ws) \<circ> Fields) texts))"
proof -
  from build_all_holds [OF assms(1) holds_new, of texts]
  obtain c where c: "build_all texts (NewChain (int k)) = (c, None)" "holds_texts k (map Fields texts) c" by auto
  have plain: "\<forall>t \<in> set (map Fields texts). plain_words t" using plain_Fields by auto
  from generate_loop_walk [OF assms c(2), of "[]" 0 "nat n"] plain
  obtain ws where ws: "generate_loop rnd 0 (nat n) (replicate k []) c = Inr ws" "walk k (map Fields texts) (nat n) ws"
    by (auto simp: walk_def plain_words_def)
  have "\<exists>t \<in> set (map Fields texts). w \<in> set t" if w: "w \<in> set ws" for w
  proof -
    obtain i where "i < length ws" "ws ! i = w" using w by (auto simp: in_set_conv_nth)
    then obtain t where "t \<in> set (map Fields texts)" "w \<in> set (followers k (ctx k (take i ws)) t)" using ws(2) unfolding walk_def by blast
    then show ?thesis using set_followers by blast
  qed
  then have "plain_words ws" "\<forall>w \<in> set ws. w \<noteq> []" using plain_Fields by (fastforce simp: plain_words_def)+
  moreover have "Generate rnd n c = Inr (join '' '' ws)" using ws(1) c(2) by (simp add: Generate_def make_prefix_def holds_texts_def)
  moreover have "choices c (Prefix_String (ctx k xs)) = concat (map (followers k (ctx k xs) \<circ> Fields) texts)" if "plain_words xs" for xs
    using c(2) plain_ctx [OF that] by (simp add: holds_texts_def)
  ultimately show ?thesis using c(1) ws(2) Fields_join by auto
qed

theorem Generate_walks_witness:
  "\<exists>c out. build_all [''I am not a number'', ''I am a free man''] (NewChain 2) = (c, None) \<and> Generate (\<lambda>i n. i mod n) 5 c = Inr out
     \<and> walk 2 [Fields ''I am not a number'', Fields ''I am a free man''] 5 (Fields out)"
  using Generate_walks [of 2 "\<lambda>i n. i mod n" "[''I am not a number'', ''I am a free man'']" 5] by auto

text \<open>A prefix of no words panics at the first word, a negative length at once.\<close>

lemma Build_panics:
  "ch_prefixLen c < 0 \<Longrightarrow> Build input c = (c, Some MakeSliceLen)"
  "ch_prefixLen c = 0 \<Longrightarrow> Fields input \<noteq> [] \<Longrightarrow> snd (Build input c) = Some SliceBounds"
  by (simp add: Build_def make_prefix_def)
    (cases "Fields input", simp_all add: Build_def make_prefix_def Shift_def Let_def)

end
