(* ===== verification/SimpleBot.thy ===== *)
theory SimpleBot
  imports BotProps CoreSecurity Writer
begin

text \<open>
  The bot that comes with the framework, \<^verbatim>\<open>src/simple.go\<close>: quotes, queries to web services, running snippets of Go, and
  channel modes for users with flags.

  The packages \<^verbatim>\<open>quotes\<close> and \<^verbatim>\<open>query\<close>, the processes that compile and run a snippet, and the formatting of dates and of
  format strings are parameters.  What a handler sends is a list of replies, each a call of the writer (theory
  \<^verbatim>\<open>Writer\<close>) with its formatted text.  A command handler returns its error and replies, or a panic, and the event and world after it.
\<close>

section \<open>Helpers\<close>

datatype reply = NoticeTo string string | NotifyTo string string | PrivmsgTo string string | SendLine string

datatype SimpleErr = NotOnChannel | CmdRefused CmdError | SandboxErr string

type_synonym 'd cmd_result = "(SimpleErr option \<times> reply list) outcome \<times> CmdEvent \<times> 'd World"

abbreviation (input) bold :: "string \<Rightarrow> string" where "bold s \<equiv> [CHR 0x02] @ s @ [CHR 0x02]"

definition show_int :: "int \<Rightarrow> string" where
  "show_int i = (if i < 0 then CHR ''-'' # itoa (nat (- i)) else itoa (nat i))"

text \<open>The replacer tries its pairs in order at each position; then runs of at least two white spaces become one space.\<close>

fun sanitizeNewline :: "string \<Rightarrow> string" where
  "sanitizeNewline [] = []"
| "sanitizeNewline [c] = (if c = CHR 0x0A then '' '' else [c])"
| "sanitizeNewline (c # d # s) =
     (if c = CHR 0x0D \<and> d = CHR 0x0A then CHR '' '' # sanitizeNewline s
      else (if c = CHR 0x0A then CHR '' '' else c) # sanitizeNewline (d # s))"

function squeeze :: "string \<Rightarrow> string" where
  "squeeze [] = []"
| "squeeze (c # s) =
     (if rgx_space c \<and> s \<noteq> [] \<and> rgx_space (hd s) then CHR '' '' # squeeze (dropWhile rgx_space s)
      else c # squeeze s)"
  by pat_completeness auto
termination by (relation "measure length") (auto simp: le_imp_less_Suc length_dropWhile_le)

definition sanitize :: "string \<Rightarrow> string" where
  "sanitize str = squeeze (sanitizeNewline str)"

text \<open>The first \<^verbatim>\<open>maxlen - 3\<close> bytes of a reply that is too long, and dots.\<close>

definition shorten :: "string \<Rightarrow> string \<Rightarrow> string outcome" where
  "shorten target out =
     (let maxlen = 2 * (510 - 62 - 7 - int (length target) - 3 - 2) in
      if int (length out) > maxlen then
        (if maxlen - 3 < 0 then Inl SliceBounds else Inr (take (nat (maxlen - 3)) out @ ''...''))
      else Inr out)"

text \<open>A handler that closes its event and then only sends.\<close>

definition closing :: "CmdEvent \<Rightarrow> 'd World \<Rightarrow> (SimpleErr option \<times> reply list) outcome \<Rightarrow> 'd cmd_result" where
  "closing ev w res = (case CE_Close ev w of (ev, w) \<Rightarrow> (res, ev, w))"

definition cmd_nick :: "CmdEvent \<Rightarrow> string" where "cmd_nick ev = Nick (eSender (ce_event ev))"

section \<open>Quotes\<close>

text \<open>The database of quotes; every operation returns its error beside its results.\<close>

record 'q QuoteDB =
  qd_AddQuote :: "string \<Rightarrow> string \<Rightarrow> 'q \<Rightarrow> (int \<times> string option) \<times> 'q"
  qd_DelQuote :: "int \<Rightarrow> 'q \<Rightarrow> (bool \<times> string option) \<times> 'q"
  qd_EditQuote :: "int \<Rightarrow> string \<Rightarrow> 'q \<Rightarrow> (bool \<times> string option) \<times> 'q"
  qd_GetQuote :: "int \<Rightarrow> 'q \<Rightarrow> string \<times> string option"
  qd_RandomQuote :: "'q \<Rightarrow> int \<times> string \<times> string option"
  qd_NQuotes :: "'q \<Rightarrow> int"
  qd_GetDetails :: "int \<Rightarrow> 'q \<Rightarrow> int \<times> string \<times> string option"

definition quote_msg :: "string \<Rightarrow> string" where "quote_msg s = bold ''Quote:'' @ '' '' @ s"

definition quote_head :: "int \<Rightarrow> string" where "quote_head i = bold ''Quote ('' @ ''#'' @ show_int i @ bold ''):''"

definition Addquote :: "'q QuoteDB \<Rightarrow> CmdEvent \<Rightarrow> 'd World \<Rightarrow> 'q \<Rightarrow> 'd cmd_result \<times> 'q" where
  "Addquote Q ev w q =
     (let nick = cmd_nick ev; quote = CE_GetArg ''quote'' ev in
      if quote = [] then ((Inr (None, []), ev, w), q)
      else (case qd_AddQuote Q nick quote q of ((i, err), q) \<Rightarrow>
        (closing ev w (Inr (None, [NoticeTo nick (quote_msg
           (case err of Some e \<Rightarrow> e | None \<Rightarrow> ''Added quote #'' @ show_int i))])), q)))"

text \<open>
  The message of an unknown quote goes to \<^verbatim>\<open>Notice\<close> and not to \<^verbatim>\<open>Noticef\<close>: the verb is sent as it is, and the number after it.
\<close>

definition changed_msg :: "int \<Rightarrow> string \<Rightarrow> bool \<times> string option \<Rightarrow> string" where
  "changed_msg i what r =
     quote_msg (case r of
        (_, Some e) \<Rightarrow> e
      | (False, None) \<Rightarrow> ''Could not find quote %d.'' @ show_int i
      | (True, None) \<Rightarrow> ''Quote '' @ show_int i @ '' '' @ what @ ''.'')"

definition Delquote :: "'q QuoteDB \<Rightarrow> CmdEvent \<Rightarrow> 'd World \<Rightarrow> 'q \<Rightarrow> 'd cmd_result \<times> 'q" where
  "Delquote Q ev w q =
     (let nick = cmd_nick ev in
      case atoi (CE_GetArg ''id'' ev) of
        None \<Rightarrow> (closing ev w (Inr (None, [NoticeTo nick (quote_msg ''Not a valid id.'')])), q)
      | Some i \<Rightarrow>
          (case qd_DelQuote Q i q of (r, q) \<Rightarrow> (closing ev w (Inr (None, [NoticeTo nick (changed_msg i ''deleted'' r)])), q)))"

definition Editquote :: "'q QuoteDB \<Rightarrow> CmdEvent \<Rightarrow> 'd World \<Rightarrow> 'q \<Rightarrow> 'd cmd_result \<times> 'q" where
  "Editquote Q ev w q =
     (let nick = cmd_nick ev; quote = CE_GetArg ''quote'' ev in
      if quote = [] then (closing ev w (Inr (None, [])), q)
      else (case atoi (CE_GetArg ''id'' ev) of
        None \<Rightarrow> (closing ev w (Inr (None, [NoticeTo nick (quote_msg ''Not a valid id.'')])), q)
      | Some i \<Rightarrow>
          (case qd_EditQuote Q i quote q of (r, q) \<Rightarrow> (closing ev w (Inr (None, [NoticeTo nick (changed_msg i ''updated'' r)])), q))))"

text \<open>
  With an id the error of \<^verbatim>\<open>GetQuote\<close> goes to a variable of the inner block, and the test after the block sees
  no error.
\<close>

definition Quote :: "'q QuoteDB \<Rightarrow> CmdEvent \<Rightarrow> 'd World \<Rightarrow> 'q \<Rightarrow> 'd cmd_result" where
  "Quote Q ev w q =
     (let strid = CE_GetArg ''id'' ev; nick = cmd_nick ev;
          found = (\<lambda>i quote. if quote = [] then NotifyTo nick (quote_msg ''Does not exist.'')
                            else NotifyTo nick (quote_head i @ '' '' @ quote)) in
      closing ev w (Inr (None, [
        if strid \<noteq> [] then
          (case atoi strid of
             None \<Rightarrow> NoticeTo nick (quote_msg ''Not a valid id.'')
           | Some i \<Rightarrow> (case qd_GetQuote Q i q of (quote, _) \<Rightarrow> found i quote))
        else
          (case qd_RandomQuote Q q of
             (_, _, Some e) \<Rightarrow> NoticeTo nick (quote_msg e)
           | (i, quote, None) \<Rightarrow> found i quote)])))"

definition Quotes :: "'q QuoteDB \<Rightarrow> CmdEvent \<Rightarrow> 'd World \<Rightarrow> 'q \<Rightarrow> 'd cmd_result" where
  "Quotes Q ev w q =
     closing ev w (Inr (None, [NotifyTo (cmd_nick ev) (quote_msg (show_int (qd_NQuotes Q q) @ '' quote(s) in database.''))]))"

text \<open>\<^verbatim>\<open>date\<close> formats the seconds of Unix time.\<close>

definition Details :: "'q QuoteDB \<Rightarrow> (int \<Rightarrow> string) \<Rightarrow> CmdEvent \<Rightarrow> 'd World \<Rightarrow> 'q \<Rightarrow> 'd cmd_result" where
  "Details Q date ev w q =
     (let nick = cmd_nick ev in
      closing ev w (Inr (None, [
        case atoi (CE_GetArg ''id'' ev) of
          None \<Rightarrow> NoticeTo nick (quote_msg ''Not a valid id.'')
        | Some i \<Rightarrow>
            (case qd_GetDetails Q i q of
               (_, _, Some e) \<Rightarrow> NoticeTo nick (quote_msg e)
             | (d, author, None) \<Rightarrow> NotifyTo nick (quote_head i @ '' Created on '' @ date d @ '' by '' @ author))])))"

definition Quoteweb :: "CmdEvent \<Rightarrow> 'd World \<Rightarrow> 'd cmd_result" where
  "Quoteweb ev w = (Inr (None, [NotifyTo (cmd_nick ev) (quote_msg ''http://bitforge.ca:8000'')]), ev, w)"

section \<open>Queries\<close>

type_synonym query = "string \<Rightarrow> string \<times> string option"

definition Queryer_PrivmsgChannel :: "query \<Rightarrow> Event \<Rightarrow> reply list outcome" where
  "Queryer_PrivmsgChannel YouTube ev =
     and_then (Message ev) (\<lambda>m.
       case YouTube m of (out, err) \<Rightarrow>
         if out \<noteq> [] then and_then (Target ev) (\<lambda>t. Inr [PrivmsgTo t out])
         else Inr (case err of None \<Rightarrow> [] | Some e \<Rightarrow> [NoticeTo (Nick (eSender ev)) e]))"

text \<open>What \<^verbatim>\<open>Google\<close>, \<^verbatim>\<open>Weather\<close> and \<^verbatim>\<open>Calc\<close> share; \<^verbatim>\<open>fin\<close> is what is done to the sanitized answer.\<close>

definition ask :: "query \<Rightarrow> (string \<Rightarrow> string outcome) \<Rightarrow> CmdEvent \<Rightarrow> 'd World \<Rightarrow> 'd cmd_result" where
  "ask query fin ev w =
     (let nick = cmd_nick ev in
      closing ev w
        (case query (CE_GetArg ''query'' ev) of (out, err) \<Rightarrow>
           if out \<noteq> [] then and_then (fin (sanitize out)) (\<lambda>out. Inr (None, [NotifyTo nick out]))
           else Inr (None, case err of None \<Rightarrow> [] | Some e \<Rightarrow> [NoticeTo nick e])))"

definition Google :: "query \<Rightarrow> CmdEvent \<Rightarrow> 'd World \<Rightarrow> 'd cmd_result" where "Google google ev w = ask google Inr ev w"

definition Weather :: "query \<Rightarrow> CmdEvent \<Rightarrow> 'd World \<Rightarrow> 'd cmd_result" where "Weather weather ev w = ask weather Inr ev w"

definition Calc :: "query \<Rightarrow> CmdEvent \<Rightarrow> 'd World \<Rightarrow> 'd cmd_result" where
  "Calc wolfram ev w = ask wolfram (\<lambda>out. and_then (Target (ce_event ev)) (\<lambda>t. shorten t out)) ev w"

section \<open>Snippets\<close>

text \<open>
  The outside of \<^verbatim>\<open>sandboxGo\<close>: errors of writing the source; error and output of the formatter, of the compiler and of
  starting the program; its end with error, standard error and output, \<^verbatim>\<open>None\<close> if four seconds pass before.
\<close>

record Sandbox =
  sb_write :: "string \<Rightarrow> string option"
  sb_goimports :: "(string \<times> string) option"
  sb_build :: "(string \<times> string) option"
  sb_start :: "(string \<times> string) option"
  sb_wait :: "(string option \<times> string \<times> string) option"

definition putStdErr :: "string \<Rightarrow> string \<Rightarrow> string \<Rightarrow> string" where
  "putStdErr what buf e =
     bold ''go:'' @ '' '' @ what @ '': '' @ replace_all [CHR 0x0A] ''; '' e @ ''; '' @ replace_all [CHR 0x0A] ''; '' buf"

text \<open>The output of the program is used as a format string; \<^verbatim>\<open>sprintf\<close> is what formatting without arguments makes of it.\<close>

definition sandboxGo :: "Sandbox \<Rightarrow> (string \<Rightarrow> string) \<Rightarrow> string \<times> string \<Rightarrow> CmdEvent \<Rightarrow> 'd World \<Rightarrow> 'd cmd_result" where
  "sandboxGo S sprintf base ev w =
     (let nick = cmd_nick ev; tell = (\<lambda>s. Inr (None, [NotifyTo nick s])) in
      case Target (ce_event ev) of
        Inl p \<Rightarrow> (Inl p, ev, w)
      | Inr targ \<Rightarrow>
          closing ev w
            (case sb_write S (fst base @ CE_GetArg ''code'' ev @ snd base) of
               Some e \<Rightarrow> Inr (Some (SandboxErr e), [])
             | None \<Rightarrow>
                 (case sb_goimports S of
                    Some (e, buf) \<Rightarrow> tell (putStdErr ''Failed to format source'' buf e)
                  | None \<Rightarrow>
                      (case sb_build S of
                         Some (e, buf) \<Rightarrow> tell (putStdErr ''Failed to compile'' buf e)
                       | None \<Rightarrow>
                           (case sb_start S of
                              Some (e, buf) \<Rightarrow> tell (putStdErr ''Failed to run'' buf e)
                            | None \<Rightarrow>
                                (case sb_wait S of
                                   None \<Rightarrow> tell (bold ''go:'' @ '' Program took too long, terminated.'')
                                 | Some (Some e, buf, _) \<Rightarrow> tell (putStdErr ''Failed to run'' buf e)
                                 | Some (None, _, stdout) \<Rightarrow>
                                     and_then (shorten targ (bold ''go:'' @ '' '' @ replace_all [CHR 0x01] [] stdout))
                                       (\<lambda>out. tell (sprintf out))))))))"

definition NL :: string where "NL = [CHR 0x0A]"

definition Go :: "Sandbox \<Rightarrow> (string \<Rightarrow> string) \<Rightarrow> CmdEvent \<Rightarrow> 'd World \<Rightarrow> 'd cmd_result" where
  "Go S sprintf ev w = sandboxGo S sprintf (''package main'' @ NL @ NL @ ''func main() {'' @ NL, NL @ ''}'') ev w"

definition Gop :: "Sandbox \<Rightarrow> (string \<Rightarrow> string) \<Rightarrow> CmdEvent \<Rightarrow> 'd World \<Rightarrow> 'd cmd_result" where
  "Gop S sprintf ev w =
     sandboxGo S sprintf (''package main'' @ NL @ NL @ ''func main() {'' @ NL @ ''fmt.Println('', '')'' @ NL @ ''}'') ev w"

section \<open>Modes for users with flags\<close>

definition putPeopleUp :: "Event \<Rightarrow> string \<Rightarrow> StoredUser option \<Rightarrow> bool \<times> reply list" where
  "putPeopleUp ev ch a =
     (case a of
        None \<Rightarrow> (False, [])
      | Some a \<Rightarrow>
          (let nick = Nick (eSender ev) in
           if SU_HasFlag (eNetworkID ev) ch (CHR ''o'') a then (True, [SendLine (''MODE '' @ ch @ '' +o :'' @ nick)])
           else if SU_HasFlag (eNetworkID ev) ch (CHR ''v'') a then (True, [SendLine (''MODE '' @ ch @ '' +v :'' @ nick)])
           else (False, [])))"

text \<open>A pointer to an account is nil or points into the store.\<close>

definition account :: "uref option \<Rightarrow> 'd Store \<Rightarrow> StoredUser option outcome" where
  "account p st = (case p of None \<Rightarrow> Inr None | Some r \<Rightarrow> and_then (deref (heapSU st r)) (\<lambda>a. Inr (Some a)))"

definition event_account :: "CmdEvent \<Rightarrow> 'd World \<Rightarrow> StoredUser option outcome" where
  "event_account ev w =
     (case ce_StoredUser ev of None \<Rightarrow> Inr None | Some r \<Rightarrow> and_then (deref (w_store w)) (\<lambda>st. account (Some r) st))"

definition Up :: "CmdEvent \<Rightarrow> 'd World \<Rightarrow> 'd cmd_result" where
  "Up ev w =
     ((case ce_TargetChannel ev of
         None \<Rightarrow> Inr (Some NotOnChannel, [])
       | Some r \<Rightarrow>
           and_then (deref (w_state w)) (\<lambda>s. and_then (the_channel (Some r) s) (\<lambda>ch. and_then (event_account ev w) (\<lambda>user.
             case putPeopleUp (ce_event ev) (ch_name ch) user of
               (did, out) \<Rightarrow> Inr (if did then None else Some (CmdRefused (InsuffFlags ''ov'')), out))))), ev, w)"

text \<open>\<^verbatim>\<open>None\<close> while the store is locked for writing.\<close>

definition Handler_HandleRaw :: "Event \<Rightarrow> ('c, 'd, 'h) Bot \<Rightarrow> reply list outcome option" where
  "Handler_HandleRaw ev b =
     (if eName ev = JOIN then
        map_option (\<lambda>called. case called of None \<Rightarrow> Inr [] | Some r \<Rightarrow> r)
          (ReadStore (\<lambda>st.
             and_then (Target ev) (\<lambda>ch. and_then (account (GetAuthedUser (eNetworkID ev) (eSender ev) st) st) (\<lambda>a.
               Inr (snd (putPeopleUp ev ch a))))) b)
      else Some (Inr []))"

definition Handler_PrivmsgUser :: "Event \<Rightarrow> reply list outcome" where
  "Handler_PrivmsgUser ev =
     and_then (Message ev) (\<lambda>m.
       let flds = Fields m in
       if Nick (eSender ev) = ''Aaron'' then
         and_then (index_at flds 0) (\<lambda>f. if f = ''do'' then Inr [SendLine (Prelude.join '' '' (drop 1 flds))] else Inr [])
       else Inr [])"

section \<open>Registration\<close>

definition quote_cmds :: "'h \<Rightarrow> 'h Cmd list" where
  "quote_cmds quoter =
     [MkCmd ''quote'' ''Retrieves a quote. Randomly selects a quote if no id is provided.'' ''quote'' (Some quoter)
        MSG_PRIVMSG ALL_SCOPES [''[id]''],
      MkCmd ''quote'' ''Shows the number of quotes in the database.'' ''quotes'' (Some quoter) MSG_PRIVMSG ALL_SCOPES [],
      MkCmd ''quote'' ''Gets the details for a specific quote.'' ''details'' (Some quoter) MSG_PRIVMSG ALL_SCOPES [''id''],
      MkCmd ''quote'' ''Adds a quote to the database.'' ''addquote'' (Some quoter) MSG_PRIVMSG ALL_SCOPES [''quote...''],
      MkAuthCmd ''quote'' ''Removes a quote from the database.'' ''delquote'' (Some quoter) MSG_PRIVMSG ALL_SCOPES 0 ''Q'' [''id''],
      MkAuthCmd ''quote'' ''Edits an existing quote.'' ''editquote'' (Some quoter) MSG_PRIVMSG ALL_SCOPES 0 ''Q'' [''id'', ''quote...''],
      MkCmd ''quote'' ''Shows the address for the quote webserver.'' ''quoteweb'' (Some quoter) MSG_PRIVMSG ALL_SCOPES []]"

definition query_cmds :: "'h \<Rightarrow> 'h Cmd list" where
  "query_cmds queryer =
     [MkCmd ''query'' ''Submits a query to Google.'' ''google'' (Some queryer) MSG_PRIVMSG ALL_SCOPES [''query...''],
      MkCmd ''query'' ''Submits a query to Wolfram Alpha.'' ''calc'' (Some queryer) MSG_PRIVMSG ALL_SCOPES [''query...''],
      MkCmd ''query'' ''Fetches a weather report from yr.no.'' ''weather'' (Some queryer) MSG_PRIVMSG ALL_SCOPES [''query...'']]"

definition runnable_cmds :: "'h \<Rightarrow> 'h Cmd list" where
  "runnable_cmds runnable =
     [MkCmd ''runnable'' ''Runs a snippet of sandboxed go code.'' ''go'' (Some runnable) MSG_PRIVMSG ALL_SCOPES [''code...''],
      MkCmd ''runnable'' ''Runs a snippet of sandboxed go code inside fmt.Println().'' ''gop'' (Some runnable)
        MSG_PRIVMSG ALL_SCOPES [''code...'']]"

definition up_cmds :: "'h \<Rightarrow> 'h Cmd list" where
  "up_cmds handler =
     [MkAuthCmd ''simple'' ''Gives the user ops or voice if they have o or v flags respectively.'' ''up'' (Some handler)
        MSG_PRIVMSG ALL_SCOPES 0 [] [''#chan'']]"

text \<open>Commands are allocated from \<^verbatim>\<open>r\<close> on; the error of a registration is dropped.\<close>

fun register_cmds :: "'h Cmd list \<Rightarrow> cref \<Rightarrow> ('c, 'd, 'h) Bot \<Rightarrow> ('c, 'd, 'h) Bot" where
  "register_cmds [] r b = b"
| "register_cmds (c # cs) r b =
     register_cmds cs (r + 1)
       (snd (RegisterCmd r (b\<lparr>b_registry := (b_registry b)\<lparr>heapCmd := (heapCmd (b_registry b))(r \<mapsto> c)\<rparr>\<rparr>)))"

definition queryer_handler :: Handler where
  "queryer_handler = \<lparr>h_name = ''Queryer'', h_implements = [PrivmsgChannelHandler]\<rparr>"

definition simple_handler :: Handler where
  "simple_handler = \<lparr>h_name = ''Handler'', h_implements = [EventHandler, PrivmsgUserHandler]\<rparr>"

text \<open>
  The callback that \<^verbatim>\<open>main\<close> gives to \<^verbatim>\<open>Run\<close>, with the four values that implement the commands and the random numbers of the
  three registrations of handlers.
\<close>

record 'h simple_values =
  sv_quoter :: 'h
  sv_queryer :: 'h
  sv_runnable :: 'h
  sv_handler :: 'h

definition simple_setup :: "(nat \<Rightarrow> nat \<Rightarrow> int) \<Rightarrow> 'h simple_values \<Rightarrow> cref \<Rightarrow> ('c, 'd, 'h) Bot \<Rightarrow> ('c, 'd, 'h) Bot option" where
  "simple_setup rnds v r b =
     (let b = register_cmds (quote_cmds (sv_quoter v)) r b in
      case Bot_Register (rnds 0) PRIVMSG queryer_handler b of None \<Rightarrow> None | Some (_, b) \<Rightarrow>
      let b = register_cmds (runnable_cmds (sv_runnable v)) (r + 10) (register_cmds (query_cmds (sv_queryer v)) (r + 7) b) in
      case Bot_Register (rnds 1) PRIVMSG simple_handler b of None \<Rightarrow> None | Some (_, b) \<Rightarrow>
      case Bot_Register (rnds 2) JOIN simple_handler b of None \<Rightarrow> None | Some (_, b) \<Rightarrow>
      Some (register_cmds (up_cmds (sv_handler v)) (r + 12) b))"

section \<open>All commands are there\<close>

definition cmd_ok :: "'h Cmd \<Rightarrow> bool" where
  "cmd_ok c \<longleftrightarrow> c_Cmd c \<noteq> [] \<and> c_Extension c \<noteq> [] \<and> c_Description c \<noteq> [] \<and> c_Handler c \<noteq> None \<and> fst (parseArgs c) = None"

definition cmd_found :: "cref \<Rightarrow> 'h Cmd \<Rightarrow> ('c, 'd, 'h) Bot \<Rightarrow> bool" where
  "cmd_found r c b \<longleftrightarrow> commands (b_cmds b) (c_Cmd c) = Some r \<and> globalCmdRegistry (b_registry b) (makeIdentifier GLOBAL (c_Cmd c)) = Some r
     \<and> heapCmd (b_registry b) r = Some (snd (parseArgs c))"

text \<open>The commands of a bot are those of a list, with the places where they live.\<close>

definition cmd_names :: "(cref \<times> 'h Cmd) list \<Rightarrow> string list" where "cmd_names S = map (c_Cmd \<circ> snd) S"

definition cmd_refs :: "(cref \<times> 'h Cmd) list \<Rightarrow> cref list" where "cmd_refs S = map fst S"

lemma cmd_names_simps [simp]:
  "cmd_names [] = []" "cmd_names ((r, c) # S) = c_Cmd c # cmd_names S" "cmd_names (S @ T) = cmd_names S @ cmd_names T"
  "length rs = length cs \<Longrightarrow> cmd_names (zip rs cs) = map c_Cmd cs"
  by (simp_all add: cmd_names_def flip: map_map)

lemma cmd_refs_simps [simp]:
  "cmd_refs [] = []" "cmd_refs ((r, c) # S) = r # cmd_refs S" "cmd_refs (S @ T) = cmd_refs S @ cmd_refs T"
  "length rs = length cs \<Longrightarrow> cmd_refs (zip rs cs) = rs"
  by (simp_all add: cmd_refs_def)

definition has_cmds :: "(cref \<times> 'h Cmd) list \<Rightarrow> ('c, 'd, 'h) Bot \<Rightarrow> bool" where
  "has_cmds S b \<longleftrightarrow> (\<forall>(r, c) \<in> set S. cmd_found r c b)
     \<and> (\<forall>n. n \<notin> set (cmd_names S) \<longrightarrow> globalCmdRegistry (b_registry b) (makeIdentifier GLOBAL n) = None)"

lemma has_cmds_found: "has_cmds S b \<Longrightarrow> n \<in> set (cmd_names S) \<Longrightarrow> \<exists>r. commands (b_cmds b) n = Some r"
  by (force simp: has_cmds_def cmd_found_def cmd_names_def)

lemma RegisterCmd_new:
  assumes "cmd_ok c" "globalCmdRegistry (b_registry b) (makeIdentifier GLOBAL (c_Cmd c)) = None"
  shows "RegisterCmd r (b\<lparr>b_registry := (b_registry b)\<lparr>heapCmd := (heapCmd (b_registry b))(r \<mapsto> c)\<rparr>\<rparr>) =
    (None, b\<lparr>b_registry := (b_registry b)\<lparr>heapCmd := (heapCmd (b_registry b))(r \<mapsto> snd (parseArgs c)),
               globalCmdRegistry := (globalCmdRegistry (b_registry b))(makeIdentifier GLOBAL (c_Cmd c) \<mapsto> r)\<rparr>,
             b_cmds := (b_cmds b)\<lparr>commands := (commands (b_cmds b))(c_Cmd c \<mapsto> r)\<rparr>\<rparr>)"
  using assms by (cases "parseArgs c") (auto simp: RegisterCmd_def Cmds_Register_def cmd_ok_def Let_def)

lemma GLOBAL_inj [simp]: "makeIdentifier GLOBAL n = makeIdentifier GLOBAL n' \<longleftrightarrow> n = n'" by (simp add: makeIdentifier_def)

lemma register_cmds_has:
  assumes "has_cmds S b" "list_all cmd_ok cs" "distinct (map c_Cmd cs)"
    "set (map c_Cmd cs) \<inter> set (cmd_names S) = {}" "\<forall>x \<in> set (cmd_refs S). x < r"
  shows "has_cmds (S @ zip [r..<r + length cs] cs) (register_cmds cs r b)"
  using assms
proof (induction cs arbitrary: S r b)
  case (Cons c cs)
  let ?b = "snd (RegisterCmd r (b\<lparr>b_registry := (b_registry b)\<lparr>heapCmd := (heapCmd (b_registry b))(r \<mapsto> c)\<rparr>\<rparr>))"
  have new: "c_Cmd c \<notin> set (cmd_names S)" using Cons.prems(4) by auto
  then have "globalCmdRegistry (b_registry b) (makeIdentifier GLOBAL (c_Cmd c)) = None" using Cons.prems(1) by (auto simp: has_cmds_def)
  with Cons.prems(2) have b: "?b = b\<lparr>b_registry := (b_registry b)\<lparr>heapCmd := (heapCmd (b_registry b))(r \<mapsto> snd (parseArgs c)),
               globalCmdRegistry := (globalCmdRegistry (b_registry b))(makeIdentifier GLOBAL (c_Cmd c) \<mapsto> r)\<rparr>,
             b_cmds := (b_cmds b)\<lparr>commands := (commands (b_cmds b))(c_Cmd c \<mapsto> r)\<rparr>\<rparr>" by (simp add: RegisterCmd_new)
  have old: "x \<noteq> r \<and> c_Cmd d \<noteq> c_Cmd c" if "(x, d) \<in> set S" for x d using that Cons.prems(5) new by (force simp: cmd_names_def cmd_refs_def)
  have "has_cmds (S @ [(r, c)]) ?b" using Cons.prems(1) old unfolding has_cmds_def b by (auto simp: cmd_found_def)
  from Cons.IH [OF this, of "r + 1"] Cons.prems show ?case by (auto simp: upt_conv_Cons less_Suc_eq simp del: upt_Suc)
qed simp

lemma Bot_Register_has: "Bot_Register rnd ev h b = Some (i, b') \<Longrightarrow> has_cmds S b' \<longleftrightarrow> has_cmds S b"
  by (auto simp: Bot_Register_def has_cmds_def cmd_found_def)

definition core_list :: "('d, 'h) botEnv \<Rightarrow> (cref \<times> 'h Cmd) list" where
  "core_list E = zip [be_newCmd E..<be_newCmd E + 21] (map (core_cmd (be_coreHandler E)) core_table)"

lemma core_list_simps [simp]:
  "cmd_names (core_list E) = map en_Name core_table" "cmd_refs (core_list E) = [be_newCmd E..<be_newCmd E + 21]"
  using core_table_ok(3) by (simp_all add: core_list_def comp_def)

lemma attach_has:
  assumes "attach_commands E b = Inr b'" "globalCmdRegistry (b_registry b) = Map.empty"
  shows "has_cmds (core_list E) b'"
proof -
  let ?h = "be_coreHandler E" and ?r = "be_newCmd E"
  obtain reg c where rc: "register_entries ?h core_table ?r (b_registry b) (b_cmds b) = (None, reg, c)"
    "\<forall>i < length core_table. found_at ?h (?r + i) reg c (core_table ! i)"
    "\<forall>k. k \<notin> core_key ` set core_table \<longrightarrow> globalCmdRegistry reg k = globalCmdRegistry (b_registry b) k"
    using register_entries_ok [OF core_table_ok(1) core_table_ok(2), of "b_registry b" ?h ?r "b_cmds b"] assms(2) by auto
  then have b': "b_registry b' = reg" "b_cmds b' = c" using assms(1) by (auto simp: attach_commands_def NewCoreCmds_def)
  have "cmd_found r d b'" if rd: "(r, d) \<in> set (core_list E)" for r d
  proof -
    obtain i where "i < 21" "r = ?r + i" "d = core_cmd ?h (core_table ! i)" using rd core_table_ok(3) by (auto simp: core_list_def set_zip)
    then show ?thesis using rc(2) core_table_ok(3) by (simp add: found_at_def cmd_found_def b')
  qed
  moreover have "globalCmdRegistry reg (makeIdentifier GLOBAL n) = None" if "n \<notin> en_Name ` set core_table" for n
  proof -
    have "makeIdentifier GLOBAL n \<notin> core_key ` set core_table" using that by auto
    then show ?thesis using rc(3) assms(2) by simp
  qed
  ultimately show ?thesis unfolding has_cmds_def b' by auto
qed

text \<open>The 13 commands in the order of their registration.\<close>

definition simple_cmds :: "'h simple_values \<Rightarrow> 'h Cmd list" where
  "simple_cmds v = quote_cmds (sv_quoter v) @ query_cmds (sv_queryer v) @ runnable_cmds (sv_runnable v) @ up_cmds (sv_handler v)"

lemma simple_cmds_ok:
  "list_all cmd_ok (quote_cmds h)" "list_all cmd_ok (query_cmds h)" "list_all cmd_ok (runnable_cmds h)" "list_all cmd_ok (up_cmds h)"
  by code_simp+

lemma simple_names:
  "map c_Cmd (quote_cmds h) = [''quote'', ''quotes'', ''details'', ''addquote'', ''delquote'', ''editquote'', ''quoteweb'']"
  "map c_Cmd (query_cmds h) = [''google'', ''calc'', ''weather'']" "map c_Cmd (runnable_cmds h) = [''go'', ''gop'']"
  "map c_Cmd (up_cmds h) = [''up'']"
  by (simp_all add: quote_cmds_def query_cmds_def runnable_cmds_def up_cmds_def MkCmd_def MkAuthCmd_def)

lemma core_names: "set (map en_Name core_table) \<inter> set [''quote'', ''quotes'', ''details'', ''addquote'', ''delquote'', ''editquote'', ''quoteweb'',
    ''google'', ''calc'', ''weather'', ''go'', ''gop'', ''up''] = {}"
  by code_simp

lemma register_cmds_dispatcher [simp]: "b_dispatcher (register_cmds cs r b) = b_dispatcher b"
  by (induction cs r b rule: register_cmds.induct) (auto simp: RegisterCmd_def split: prod.splits)

lemma to_upper_events [simp]: "to_upper ''PRIVMSG'' = ''PRIVMSG''" "to_upper ''JOIN'' = ''JOIN''" by code_simp+

lemma simple_setup_returns:
  assumes "b_dispatcher b = NewDispatcher c" "rnds 0 0 \<noteq> rnds 1 0"
  shows "\<exists>b'. simple_setup rnds v r b = Some b' \<and> b_dispatcher b' =
    \<lparr>core = c, events = [(PRIVMSG, [(rnds 0 0, queryer_handler), (rnds 1 0, simple_handler)]), (JOIN, [(rnds 2 0, simple_handler)])]\<rparr>"
  using assms by (simp add: simple_setup_def Bot_Register_def Dispatcher_Register_def NewDispatcher_def reroll.simps Let_def)

text \<open>
  C28: The sample bot has all its commands.  On a bot that has attached its core commands, the
  callback of \<^verbatim>\<open>main\<close> returns if the identifiers of its two handlers for messages differ, and registers its 13 commands
  without an error, though it looks at none: every declared argument is accepted, and no name is taken by another
  command.  Afterwards each of the 13 and of the 21 core commands is found under its name, with its arguments
  parsed, and the handlers are those of the sources.
\<close>

theorem simple_commands:
  fixes E :: "('d, 'h) botEnv"
  assumes "attach_commands E b = Inr b1" and "globalCmdRegistry (b_registry b) = Map.empty" and "b_dispatcher b1 = NewDispatcher c"
    and "rnds 0 0 \<noteq> rnds 1 0" and "be_newCmd E + 21 \<le> r"
  shows "\<exists>b2. simple_setup rnds v r b1 = Some b2 \<and> length (simple_cmds v) = 13
    \<and> has_cmds (core_list E @ zip [r..<r + 13] (simple_cmds v)) b2
    \<and> events (b_dispatcher b2) = [(PRIVMSG, [(rnds 0 0, queryer_handler), (rnds 1 0, simple_handler)]), (JOIN, [(rnds 2 0, simple_handler)])]"
proof -
  from simple_setup_returns [of b1 c rnds v r] assms(3,4) obtain b2 where b2: "simple_setup rnds v r b1 = Some b2"
    "events (b_dispatcher b2) = [(PRIVMSG, [(rnds 0 0, queryer_handler), (rnds 1 0, simple_handler)]), (JOIN, [(rnds 2 0, simple_handler)])]"
    by auto
  let ?q = "zip [r..<r + 7] (quote_cmds (sv_quoter v))" and ?g = "zip [r + 7..<r + 10] (query_cmds (sv_queryer v))"
  let ?n = "zip [r + 10..<r + 12] (runnable_cmds (sv_runnable v))" and ?u = "zip [r + 12..<r + 13] (up_cmds (sv_handler v))"
  have len: "length (quote_cmds h) = 7" "length (query_cmds h) = 3" "length (runnable_cmds h) = 2" "length (up_cmds h) = 1" for h :: 'h
    by (simp_all add: quote_cmds_def query_cmds_def runnable_cmds_def up_cmds_def)
  have add: "has_cmds (S @ zip [x..<y] cs) (register_cmds cs x b')"
    if "has_cmds S b'" "list_all cmd_ok cs" "y = x + length cs" "distinct (map c_Cmd cs)"
      "set (map c_Cmd cs) \<inter> set (cmd_names S) = {}" "\<forall>z \<in> set (cmd_refs S). z < x"
    for S x y cs and b' :: "('e, 'd, 'h) Bot"
    unfolding that(3) by (rule register_cmds_has) (use that in auto)
  obtain b3 b4 b5 i j k where b:
    "Bot_Register (rnds 0) PRIVMSG queryer_handler (register_cmds (quote_cmds (sv_quoter v)) r b1) = Some (i, b3)"
    "Bot_Register (rnds 1) PRIVMSG simple_handler
       (register_cmds (runnable_cmds (sv_runnable v)) (r + 10) (register_cmds (query_cmds (sv_queryer v)) (r + 7) b3)) = Some (j, b4)"
    "Bot_Register (rnds 2) JOIN simple_handler b4 = Some (k, b5)" "b2 = register_cmds (up_cmds (sv_handler v)) (r + 12) b5"
    using b2(1) by (auto simp: simple_setup_def Let_def split: option.splits)
  have 1: "has_cmds (core_list E @ ?q) b3" unfolding Bot_Register_has [OF b(1)]
    by (rule add [OF attach_has [OF assms(1,2)] simple_cmds_ok(1)]) (use core_names assms(5) in \<open>auto simp: simple_names len simp del: list.set_map\<close>)
  have 2: "has_cmds ((core_list E @ ?q) @ ?g) (register_cmds (query_cmds (sv_queryer v)) (r + 7) b3)"
    by (rule add [OF 1 simple_cmds_ok(2)]) (use core_names assms(5) in \<open>auto simp: simple_names len simp del: list.set_map\<close>)
  have "has_cmds (((core_list E @ ?q) @ ?g) @ ?n) b4" unfolding Bot_Register_has [OF b(2)]
    by (rule add [OF 2 simple_cmds_ok(3)]) (use core_names assms(5) in \<open>auto simp: simple_names len simp del: list.set_map\<close>)
  then have 3: "has_cmds (((core_list E @ ?q) @ ?g) @ ?n) b5" unfolding Bot_Register_has [OF b(3)] .
  have "has_cmds ((((core_list E @ ?q) @ ?g) @ ?n) @ ?u) b2" unfolding b(4)
    by (rule add [OF 3 simple_cmds_ok(4)]) (use core_names assms(5) in \<open>auto simp: simple_names len simp del: list.set_map\<close>)
  moreover have "zip [r..<r + 13] (simple_cmds v) = ?q @ ?g @ ?n @ ?u"
    by (simp add: simple_cmds_def quote_cmds_def query_cmds_def runnable_cmds_def up_cmds_def upt_rec numeral_eq_Suc)
  moreover have "length (simple_cmds v) = 13" by (simp add: simple_cmds_def len)
  ultimately show ?thesis using b2 by simp
qed

theorem simple_commands_witness:
  "\<exists>b1 b2 :: (nat, unit, unit) Bot. attach_commands sample_env (empty_bot True (\<lambda>_. sample_config) 0 no_commands) = Inr b1
     \<and> simple_setup (\<lambda>i n. int i) \<lparr>sv_quoter = (), sv_queryer = (), sv_runnable = (), sv_handler = ()\<rparr> 21 b1 = Some b2
     \<and> (\<exists>r. commands (b_cmds b2) ''up'' = Some r) \<and> (\<exists>r. commands (b_cmds b2) ''help'' = Some r)"
proof -
  let ?b = "empty_bot True (\<lambda>_. sample_config) 0 no_commands :: (nat, unit, unit) Bot"
  let ?v = "\<lparr>sv_quoter = (), sv_queryer = (), sv_runnable = (), sv_handler = ()\<rparr>"
  have g: "globalCmdRegistry (b_registry ?b) = Map.empty" by (simp add: empty_bot_def no_commands_def)
  obtain reg c where "NewCoreCmds (be_coreHandler sample_env) (be_newCmd sample_env) (b_registry ?b) (b_cmds ?b) = (None, reg, c)"
    using register_entries_ok [OF core_table_ok(1) core_table_ok(2), of "b_registry ?b" "()" 0 "b_cmds ?b"] g
    by (auto simp: NewCoreCmds_def sample_env_def)
  then obtain b1 where b1: "attach_commands sample_env ?b = Inr b1" "b_dispatcher b1 = NewDispatcher (NewDispatchCore [])"
    by (simp add: attach_commands_def) (simp add: empty_bot_def)
  obtain b2 where b2: "simple_setup (\<lambda>i n. int i) ?v 21 b1 = Some b2" "has_cmds (core_list sample_env @ zip [21..<21 + 13] (simple_cmds ?v)) b2"
      "length (simple_cmds ?v) = 13"
    using simple_commands [OF b1(1) g b1(2), of "\<lambda>i n. int i" 21 ?v] by (auto simp: sample_env_def)
  have names: "cmd_names (core_list sample_env @ zip [21..<21 + 13] (simple_cmds ?v)) = map en_Name core_table @ map c_Cmd (simple_cmds ?v)"
    using b2(3) by (simp only: cmd_names_simps core_list_simps length_upt)
  have "''help'' \<in> set (map en_Name core_table)" "''up'' \<in> set (map c_Cmd (simple_cmds ?v))"
    by (code_simp, simp add: simple_cmds_def simple_names del: list.set_map)
  then have "\<exists>r. commands (b_cmds b2) ''help'' = Some r" "\<exists>r. commands (b_cmds b2) ''up'' = Some r"
    by (intro has_cmds_found [OF b2(2)], unfold names set_append, blast)+
  then show ?thesis using b1(1) b2(1) by blast
qed

end
