(* ===== verification/SimpleProps.thy ===== *)
theory SimpleProps
  imports SimpleBot
begin

text \<open>
  What the handlers of \<^verbatim>\<open>src/simple.go\<close> do: who is given a mode, how long answers get, and who commands the bot.
\<close>

section \<open>Modes\<close>

text \<open>The mode that the flags of an account are good for, \<^verbatim>\<open>o\<close> before \<^verbatim>\<open>v\<close>.\<close>

definition earned :: "string \<Rightarrow> string \<Rightarrow> StoredUser \<Rightarrow> char option" where
  "earned network ch a =
     (if SU_HasFlag network ch (CHR ''o'') a then Some (CHR ''o'')
      else if SU_HasFlag network ch (CHR ''v'') a then Some (CHR ''v'') else None)"

definition mode_line :: "string \<Rightarrow> char \<Rightarrow> string \<Rightarrow> string" where
  "mode_line ch m nk = ''MODE '' @ ch @ '' +'' @ [m] @ '' :'' @ nk"

lemma putPeopleUp_earned:
  "putPeopleUp ev ch a =
     (case a of
        None \<Rightarrow> (False, [])
      | Some a \<Rightarrow> (case earned (eNetworkID ev) ch a of
                    None \<Rightarrow> (False, []) | Some m \<Rightarrow> (True, [SendLine (mode_line ch m (Nick (eSender ev)))])))"
  by (simp add: putPeopleUp_def earned_def mode_line_def Let_def split: option.split)

text \<open>
  The sample bot gives a mode only to users with the flag for it, and gives it to all of them.  When
  someone joins, it sends a mode exactly if the sender is authenticated on that network and the account has the
  flag \<^verbatim>\<open>o\<close> or \<^verbatim>\<open>v\<close> there, on the channel that was joined; the mode is the higher one and goes to the sender.  The command
  \<^verbatim>\<open>up\<close> does the same for the channel it names and refuses with an error otherwise.
\<close>

theorem modes_for_flags:
  assumes "eName ev = JOIN" and "Target ev = Inr ch" and "b_store b = Some st" and "\<not> b_storeWriter b"
    and "\<And>h r. authed st h = Some r \<Longrightarrow> heapSU st r \<noteq> None"
    and "ce_event cev = ev" and "w_state w = Some s" and "w_store w = Some st" and "ce_TargetChannel cev = Some cr"
    and "heapChannel s cr = Some chan" and "ce_StoredUser cev = Some r" and "heapSU st r = Some a"
  shows "Handler_HandleRaw ev b = Some (Inr (case GetAuthedUser (eNetworkID ev) (eSender ev) st of
        None \<Rightarrow> []
      | Some r \<Rightarrow> (case earned (eNetworkID ev) ch (the (heapSU st r)) of
                    None \<Rightarrow> [] | Some m \<Rightarrow> [SendLine (mode_line ch m (Nick (eSender ev)))])))
    \<and> fst (Up cev w) = Inr (case earned (eNetworkID ev) (ch_name chan) a of
        None \<Rightarrow> (Some (CmdRefused (InsuffFlags ''ov'')), [])
      | Some m \<Rightarrow> (None, [SendLine (mode_line (ch_name chan) m (Nick (eSender ev)))]))"
proof -
  have "Up cev w = (Inr (case earned (eNetworkID ev) (ch_name chan) a of
        None \<Rightarrow> (Some (CmdRefused (InsuffFlags ''ov'')), [])
      | Some m \<Rightarrow> (None, [SendLine (mode_line (ch_name chan) m (Nick (eSender ev)))])), cev, w)"
    using assms(6-12)
    by (simp add: Up_def event_account_def account_def the_channel_def deref_def putPeopleUp_earned split: option.split)
  moreover have "Handler_HandleRaw ev b = Some (Inr (case GetAuthedUser (eNetworkID ev) (eSender ev) st of
        None \<Rightarrow> []
      | Some r \<Rightarrow> (case earned (eNetworkID ev) ch (the (heapSU st r)) of
                    None \<Rightarrow> [] | Some m \<Rightarrow> [SendLine (mode_line ch m (Nick (eSender ev)))])))"
    using assms(1-4) assms(5) [of "eNetworkID ev @ eSender ev"]
    by (auto simp: Handler_HandleRaw_def ReadStore_def account_def deref_def putPeopleUp_earned GetAuthedUser_def split: option.split)
  ultimately show ?thesis by simp
qed

section \<open>Commands by nick\<close>

text \<open>
  Whoever has the nick Aaron commands the sample bot.  A private message \<^verbatim>\<open>do\<close> and some words from a
  sender with that nick, authenticated or not and from whatever host, makes the bot send these words as a line
  of its own to the network; and a blank message from such a sender panics the handler.
\<close>

theorem nick_commands:
  assumes "eArgs ev = t # m # rest" and "Nick (eSender ev) = ''Aaron''"
  shows "(\<forall>ws. Fields m = ''do'' # ws \<longrightarrow> Handler_PrivmsgUser ev = Inr [SendLine (Prelude.join '' '' ws)])
    \<and> (Fields m = [] \<longrightarrow> Handler_PrivmsgUser ev = Inl IndexOutOfRange)"
  using assms by (simp add: Handler_PrivmsgUser_def Message_def index_at_def Let_def)

section \<open>Sanitized answers\<close>

definition single_spaced :: "string \<Rightarrow> bool" where
  "single_spaced s \<longleftrightarrow> successively (\<lambda>a b. \<not> (rgx_space a \<and> rgx_space b)) s"

lemma sanitizeNewline_clean: "CHR 0x0A \<notin> set (sanitizeNewline s)"
  by (induction s rule: sanitizeNewline.induct) auto

lemma sanitizeNewline_id: "CHR 0x0A \<notin> set s \<Longrightarrow> sanitizeNewline s = s"
  by (induction s rule: sanitizeNewline.induct) auto

lemma squeeze_clean: "CHR 0x0A \<notin> set s \<Longrightarrow> CHR 0x0A \<notin> set (squeeze s)"
proof (induction s rule: squeeze.induct)
  case (2 c s)
  then show ?case by (auto dest: set_dropWhileD)
qed simp

lemma hd_squeeze: "s \<noteq> [] \<Longrightarrow> squeeze s \<noteq> [] \<and> (\<not> rgx_space (hd s) \<longrightarrow> hd (squeeze s) = hd s)"
  by (cases s) auto

lemma squeeze_single: "single_spaced (squeeze s)"
proof (induction s rule: squeeze.induct)
  case (2 c s)
  show ?case
  proof (cases "rgx_space c \<and> s \<noteq> [] \<and> rgx_space (hd s)")
    case True
    let ?s = "dropWhile rgx_space s"
    have "squeeze ?s = [] \<or> \<not> rgx_space (hd (squeeze ?s))" using hd_squeeze [of ?s] by (metis hd_dropWhile squeeze.simps(1))
    then show ?thesis using 2(1) [OF True] True by (auto simp: single_spaced_def successively_Cons)
  next
    case False
    then have "\<not> (rgx_space c \<and> s \<noteq> [] \<and> rgx_space (hd (squeeze s)))"
      using hd_squeeze [of s] by auto
    then show ?thesis using 2(2) [OF False] False hd_squeeze [of s] by (cases "s = []") (auto simp: single_spaced_def successively_Cons)
  qed
qed (simp add: single_spaced_def)

lemma squeeze_id: "single_spaced s \<Longrightarrow> squeeze s = s"
  by (induction s rule: squeeze.induct) (auto simp: single_spaced_def successively_Cons)

text \<open>A sanitized answer is one line without runs of white space, and sanitizing it again changes nothing.\<close>

lemma sanitize_clean: "CHR 0x0A \<notin> set (sanitize s) \<and> single_spaced (sanitize s)"
  by (simp add: sanitize_def squeeze_clean sanitizeNewline_clean squeeze_single)

lemma sanitize_id: "CHR 0x0A \<notin> set s \<Longrightarrow> single_spaced s \<Longrightarrow> sanitize s = s"
  by (simp add: sanitize_def sanitizeNewline_id squeeze_id)

lemma sanitize_idem: "sanitize (sanitize s) = sanitize s" using sanitize_clean by (blast intro: sanitize_id)

section \<open>The length of an answer\<close>

lemma split_point_ge: "split_point ms m = Some i \<Longrightarrow> m - 19 \<le> i"
  unfolding split_point_def using find_SomeD by (fastforce simp: SPLIT_BACKWARD_def)

lemma next_piece_ge: "next_piece ms m = (sz, skip) \<Longrightarrow> m < length ms \<Longrightarrow> m - 19 \<le> sz"
  using split_point_ge [of ms m] by (auto simp: next_piece_def split: option.splits)

text \<open>All pieces but the last have at least \<^verbatim>\<open>m - 19\<close> characters.\<close>

lemma split_loop_count:
  assumes "19 < m"
  shows "\<exists>ps. split_loop recorder header m ms w = Some (w @ map (\<lambda>p. header @ p) ps, None)
    \<and> (length ps - 1) * (m - 19) \<le> length ms \<and> (\<forall>p \<in> set ps. length p \<le> m)"
proof (induction "length ms" arbitrary: ms w rule: less_induct)
  case less
  show ?case
  proof (cases "ms = []")
    case True
    then show ?thesis by (auto simp: split_loop.simps)
  next
    case False
    obtain sz skip where np: "next_piece ms m = (sz, skip)" by (cases "next_piece ms m")
    have m: "0 < m" using assms by simp
    note p = next_piece_props [OF np False m]
    let ?rest = "drop (sz + skip) ms"
    have "length ?rest < length ms" using p False by simp
    from less [OF this, of "w @ [header @ take sz ms]"] obtain ps where
      ps: "split_loop recorder header m ?rest (w @ [header @ take sz ms]) = Some (w @ map (\<lambda>p. header @ p) (take sz ms # ps), None)"
        "(length ps - 1) * (m - 19) \<le> length ?rest" "\<forall>p \<in> set ps. length p \<le> m" by auto
    have "split_loop recorder header m ms w = Some (w @ map (\<lambda>p. header @ p) (take sz ms # ps), None)"
      using False np ps(1) by (subst split_loop.simps) (simp add: recorder_def)
    moreover have "length ps * (m - 19) \<le> length ms"
    proof (cases "ps = []")
      case False
      then have "length ms > m"
        using np ps(1) by (cases "length ms \<le> m") (auto simp: next_piece_def split_loop.simps)
      then have "m - 19 \<le> sz" using next_piece_ge [OF np] by simp
      moreover have "length ps * (m - 19) = (length ps - 1) * (m - 19) + (m - 19)" using False by (cases "length ps") simp_all
      ultimately show ?thesis using ps(2) p(4) unfolding length_drop by linarith
    qed simp
    ultimately show ?thesis using ps(3) p(2) by (intro exI [of _ "take sz ms # ps"]) auto
  qed
qed

lemma shorten_length:
  assumes "length t \<le> 384"
  shows "\<exists>out'. shorten t out = Inr out' \<and> length out' \<le> 872 - 2 * length t \<and> (length out \<le> 872 - 2 * length t \<longrightarrow> out' = out)"
  using assms by (auto simp: shorten_def Let_def)

lemma send_lines:
  assumes "length t \<le> 384" "length ms \<le> 872 - 2 * length t"
  shows "\<exists>ls. splitSend recorder (msg_header PRIVMSG t) ms [] = Some (Inr (ls, None)) \<and> length ls \<le> 3
    \<and> (\<forall>l \<in> set ls. length l \<le> IRC_MAX_LENGTH)"
proof (cases "length (msg_header PRIVMSG t) + length ms \<le> IRC_MAX_LENGTH")
  case True
  then show ?thesis by (simp add: splitSend_def recorder_def)
next
  case False
  let ?m = "438 - length t"
  have h: "length (msg_header PRIVMSG t) = 10 + length t" by (simp add: msg_header_def)
  have "19 < ?m" using assms(1) by simp
  from split_loop_count [OF this, of "msg_header PRIVMSG t" ms "[]"] obtain ps where
    ps: "split_loop recorder (msg_header PRIVMSG t) ?m ms [] = Some (map (\<lambda>p. msg_header PRIVMSG t @ p) ps, None)"
      "(length ps - 1) * (?m - 19) \<le> length ms" "\<forall>p \<in> set ps. length p \<le> ?m" by auto
  have "length ps \<le> 3"
  proof (rule ccontr)
    assume "\<not> length ps \<le> 3"
    then have "3 * (?m - 19) \<le> (length ps - 1) * (?m - 19)" by (intro mult_le_mono1) simp
    then show False using ps(2) assms by linarith
  qed
  moreover have "splitSend recorder (msg_header PRIVMSG t) ms [] = Some (Inr (map (\<lambda>p. msg_header PRIVMSG t @ p) ps, None))"
    using False ps(1) assms(1) h by (auto simp: splitSend_def IRC_MAX_LENGTH_def)
  ultimately show ?thesis using ps(3) h assms(1) by (auto simp: IRC_MAX_LENGTH_def intro!: exI [of _ "map (\<lambda>p. msg_header PRIVMSG t @ p) ps"])
qed

text \<open>An answer of the longest length whose first piece ends at an early space.\<close>

definition long_answer :: "nat \<Rightarrow> string" where
  "long_answer m = replicate (m - 19) (CHR ''a'') @ CHR '' '' # replicate (m + 14) (CHR ''a'')"

lemma find_append: "find P (xs @ ys) = (case find P xs of None \<Rightarrow> find P ys | Some x \<Rightarrow> Some x)"
  by (induction xs) auto

lemma long_answer_first:
  assumes "19 < m" shows "next_piece (long_answer m) m = (m - 19, 1)"
proof -
  have "Suc (m - 19) = m - 18" using assms by simp
  then have "[max 1 (m + 1 - SPLIT_BACKWARD)..<m + 1] = (m - 19) # [m - 18..<m + 1]" using assms
    by (subst upt_conv_Cons) (auto simp: SPLIT_BACKWARD_def)
  moreover have "find (\<lambda>i. long_answer m ! i = CHR '' '') (rev [m - 18..<m + 1]) = None" using assms
    by (auto simp: find_None_iff long_answer_def nth_append nth_Cons split: nat.splits)
  moreover have "long_answer m ! (m - 19) = CHR '' ''" by (simp add: long_answer_def nth_append)
  ultimately have "split_point (long_answer m) m = Some (m - 19)"
    unfolding split_point_def by (simp only: rev.simps find_append option.case find.simps if_True simp_thms)
  moreover have "\<not> length (long_answer m) \<le> m" using assms by (simp add: long_answer_def)
  ultimately show ?thesis by (simp add: next_piece_def)
qed

lemma long_answer_three:
  assumes "length t \<le> 384"
  shows "\<exists>ls. splitSend recorder (msg_header PRIVMSG t) (long_answer (438 - length t)) [] = Some (Inr (ls, None)) \<and> length ls = 3"
proof -
  let ?m = "438 - length t" and ?h = "msg_header PRIVMSG t"
  have h: "length ?h = 10 + length t" by (simp add: msg_header_def)
  have 1: "next_piece (long_answer ?m) ?m = (?m - 19, 1)" using assms by (intro long_answer_first) simp
  have 2: "next_piece (replicate (?m + 14) (CHR ''a'')) ?m = (?m, 0)" unfolding next_piece_def split_point_def
    using assms by (auto split: option.split dest!: find_SomeD)
  have "14 \<le> ?m" using assms by linarith
  then have 3: "next_piece (replicate 14 (CHR ''a'')) ?m = (14, 0)" by (simp add: next_piece_def)
  have "drop (?m - 19 + 1) (long_answer ?m) = replicate (?m + 14) (CHR ''a'')" "long_answer ?m \<noteq> []"
    by (simp_all add: long_answer_def)
  then have "\<exists>ls. split_loop recorder ?h ?m (long_answer ?m) [] = Some (ls, None) \<and> length ls = 3"
    by (subst split_loop.simps, simp add: 1 recorder_def, subst split_loop.simps, simp add: 2 recorder_def,
      subst split_loop.simps, simp add: 3 recorder_def, subst split_loop.simps, simp)
  moreover have "\<not> length ?h + length (long_answer ?m) \<le> IRC_MAX_LENGTH" using assms h by (simp add: long_answer_def IRC_MAX_LENGTH_def)
  ultimately show ?thesis using assms h by (auto simp: splitSend_def IRC_MAX_LENGTH_def)
qed

lemma long_answer_plain: "sanitize (long_answer m) = long_answer m"
proof (rule sanitize_id)
  have a: "\<not> rgx_space (CHR ''a'')" by code_simp
  then have "single_spaced (replicate n (CHR ''a''))" for n by (auto simp: single_spaced_def successively_conv_nth)
  then show "single_spaced (long_answer m)" using a by (auto simp: single_spaced_def long_answer_def successively_append_iff successively_Cons)
qed (simp add: long_answer_def)

lemma Calc_reply:
  assumes "eArgs (ce_event ev) = t # rest" "wolfram (CE_GetArg ''query'' ev) = (out, err)" "out \<noteq> []" "shorten t (sanitize out) = Inr ms"
  shows "fst (Calc wolfram ev w) = Inr (None, [NotifyTo (cmd_nick ev) ms])"
  using assms by (simp add: Calc_def ask_def closing_def Target_def index_at_def Let_def split: prod.split)

text \<open>
  C34: An answer of \<^verbatim>\<open>calc\<close> in a channel takes at most three lines, whatever the service returns, and none is
  longer than a line may be.  Two are not enough, though the source says so: it counts full lines, but a
  line may end up to 19 characters early at a space.
\<close>

theorem Calc_lines:
  assumes "eArgs (ce_event ev) = t # rest" and "length t \<le> 384" and "IsTargetChan (ce_event ev) = Inr True"
  shows "(\<forall>wolfram. fst (wolfram (CE_GetArg ''query'' ev)) \<noteq> [] \<longrightarrow>
      (\<exists>ms ls. fst (Calc wolfram ev w) = Inr (None, [NotifyTo (cmd_nick ev) ms])
        \<and> Notify recorder (ce_event ev) (cmd_nick ev) [ms] [] = Some (Inr (ls, None)) \<and> length ls \<le> 3
        \<and> (\<forall>l \<in> set ls. length l \<le> IRC_MAX_LENGTH)))
    \<and> (\<exists>out ms ls. fst (Calc (\<lambda>_. (out, None)) ev w) = Inr (None, [NotifyTo (cmd_nick ev) ms])
        \<and> Notify recorder (ce_event ev) (cmd_nick ev) [ms] [] = Some (Inr (ls, None)) \<and> length ls = 3)"
proof -
  have notify: "Notify recorder (ce_event ev) (cmd_nick ev) [ms] [] = splitSend recorder (msg_header PRIVMSG t) ms []" for ms
    using assms by (simp add: Notify_def send_notify_def notify_header_def Target_def index_at_def Sprint_def)
  have "\<exists>ms ls. fst (Calc wolfram ev w) = Inr (None, [NotifyTo (cmd_nick ev) ms])
        \<and> Notify recorder (ce_event ev) (cmd_nick ev) [ms] [] = Some (Inr (ls, None)) \<and> length ls \<le> 3
        \<and> (\<forall>l \<in> set ls. length l \<le> IRC_MAX_LENGTH)" if ne: "fst (wolfram (CE_GetArg ''query'' ev)) \<noteq> []" for wolfram
  proof -
    obtain out err where w: "wolfram (CE_GetArg ''query'' ev) = (out, err)" "out \<noteq> []" using ne by (cases "wolfram (CE_GetArg ''query'' ev)") auto
    obtain ms where ms: "shorten t (sanitize out) = Inr ms" "length ms \<le> 872 - 2 * length t" using shorten_length [OF assms(2)] by metis
    from send_lines [OF assms(2) ms(2)] obtain ls where "splitSend recorder (msg_header PRIVMSG t) ms [] = Some (Inr (ls, None))" "length ls \<le> 3"
      "\<forall>l \<in> set ls. length l \<le> IRC_MAX_LENGTH" by blast
    then show ?thesis using Calc_reply [where wolfram = wolfram, OF assms(1) w ms(1)] unfolding notify by (intro exI [of _ ms] exI [of _ ls] conjI)
  qed
  moreover have "\<exists>out ms ls. fst (Calc (\<lambda>_. (out, None)) ev w) = Inr (None, [NotifyTo (cmd_nick ev) ms])
        \<and> Notify recorder (ce_event ev) (cmd_nick ev) [ms] [] = Some (Inr (ls, None)) \<and> length ls = 3"
  proof -
    let ?out = "long_answer (438 - length t)"
    have "length ?out \<le> 872 - 2 * length t" using assms(2) by (simp add: long_answer_def)
    then have "shorten t (sanitize ?out) = Inr ?out" using shorten_length [OF assms(2), of ?out] by (auto simp: long_answer_plain)
    moreover have "?out \<noteq> []" by (simp add: long_answer_def)
    ultimately have r: "fst (Calc (\<lambda>_. (?out, None)) ev w) = Inr (None, [NotifyTo (cmd_nick ev) ?out])"
      by (intro Calc_reply [OF assms(1) refl])
    from long_answer_three [OF assms(2)] obtain ls where "splitSend recorder (msg_header PRIVMSG t) ?out [] = Some (Inr (ls, None))" "length ls = 3" by blast
    with r show ?thesis unfolding notify by (intro exI [of _ ?out] exI [of _ ls] conjI)
  qed
  ultimately show ?thesis by blast
qed

section \<open>Lost errors\<close>

text \<open>A quote that cannot be read is reported as one that does not exist.\<close>

lemma Quote_error_lost:
  assumes "atoi (CE_GetArg ''id'' ev) = Some i" "CE_GetArg ''id'' ev \<noteq> []" "qd_GetQuote Q i q = ([], Some e)"
  shows "fst (Quote Q ev w q) = Inr (None, [NotifyTo (cmd_nick ev) (quote_msg ''Does not exist.'')])"
  using assms by (simp add: Quote_def closing_def Let_def split: prod.split)

section \<open>Samples\<close>

definition channel_message :: Event where
  "channel_message = NewEvent 0 ''net'' (Some NewNetworkInfo) ''PRIVMSG'' ''Aaron!u@h'' [''#c'', ''do JOIN #d'']"

definition join_event :: Event where
  "join_event = NewEvent 0 ''net'' (Some NewNetworkInfo) ''JOIN'' ''me!u@h'' [''#c'']"

definition op_user :: StoredUser where "op_user = GrantChannelFlags ''net'' ''#c'' [''o''] sample_user"

definition op_store :: "(string \<rightharpoonup> string) Store" where "op_store = ann_store\<lparr>heapSU := [0 \<mapsto> op_user]\<rparr>"

definition op_bot :: "(nat, string \<rightharpoonup> string, unit) Bot" where
  "op_bot = (empty_bot True (\<lambda>_. sample_config) 0 no_commands)\<lparr>b_store := Some op_store\<rparr>"

theorem nick_commands_witness: "Handler_PrivmsgUser channel_message = Inr [SendLine ''JOIN #d'']"
proof -
  have "eArgs channel_message = ''#c'' # ''do JOIN #d'' # []" "Nick (eSender channel_message) = ''Aaron''"
    by (simp_all add: channel_message_def NewEvent_def Nick_def)
  moreover have "Fields ''do JOIN #d'' = ''do'' # [''JOIN'', ''#d'']" by code_simp
  ultimately show ?thesis using nick_commands [of channel_message "''#c''" "''do JOIN #d''" "[]"] by simp
qed

theorem modes_for_flags_witness:
  "Handler_HandleRaw join_event op_bot = Some (Inr [SendLine ''MODE #c +o :me''])"
proof -
  have earned: "earned ''net'' ''#c'' op_user = Some (CHR ''o'')" by code_simp
  let ?cev = "(new_event join_event)\<lparr>ce_TargetChannel := Some 1, ce_StoredUser := Some 0\<rparr>"
  have e: "eName join_event = JOIN" "Target join_event = Inr ''#c''" "eNetworkID join_event = ''net''" "eSender join_event = ''me!u@h''"
    by (simp_all add: join_event_def NewEvent_def Target_def index_at_def)
  have st: "authed op_store = [''netme!u@h'' \<mapsto> 0]" "heapSU op_store = [0 \<mapsto> op_user]" by (simp_all add: op_store_def ann_store_def)
  have b: "b_store op_bot = Some op_store" "\<not> b_storeWriter op_bot" by (simp_all add: op_bot_def empty_bot_def)
  have "heapSU op_store r \<noteq> None" if "authed op_store h = Some r" for h r using that by (auto simp: st split: if_splits)
  from conjunct1 [OF modes_for_flags [OF e(1,2) b this, where cev = ?cev and w = "core_world op_store" and s = joined_state and cr = 1
        and chan = "\<lparr>ch_name = ''#c'', ch_topic = [], ch_modes = NewChannelModes\<rparr>" and r = 0 and a = op_user]]
  show ?thesis using earned by (simp add: e st GetAuthedUser_def core_world_def joined_state_def mode_line_def Nick_def new_event_def)
qed

theorem Calc_lines_witness:
  "\<exists>ms ls. fst (Calc (\<lambda>_. (''42'', None)) (new_event channel_message) (core_world ann_store)) = Inr (None, [NotifyTo ''Aaron'' ms])
     \<and> Notify recorder channel_message ''Aaron'' [ms] [] = Some (Inr (ls, None)) \<and> length ls \<le> 3"
proof -
  have "eArgs (ce_event (new_event channel_message)) = ''#c'' # [''do JOIN #d'']" "cmd_nick (new_event channel_message) = ''Aaron''"
    "ce_event (new_event channel_message) = channel_message"
    by (simp_all add: new_event_def channel_message_def NewEvent_def cmd_nick_def Nick_def)
  moreover have "IsTargetChan channel_message = Inr True" by code_simp
  ultimately show ?thesis
    using conjunct1 [OF Calc_lines [of "new_event channel_message" "''#c''" "[''do JOIN #d'']" "core_world ann_store"],
      THEN spec [of _ "\<lambda>_. (''42'', None)"]] by auto
qed

end
