(* ===== verification/Proto.thy ===== *)
theory Proto
  imports BotRun
begin

text \<open>
  The names of events, \<^verbatim>\<open>src/irc/proto.go\<close>: those of the protocol, the numeric replies and errors, and the pseudo
  events that the bot itself dispatches.  A table holds each constant with its value; the other theories name the
  constants they use by abbreviations with the same values.
\<close>

section \<open>The tables\<close>

definition event_names :: "(string \<times> string) list" where
  "event_names = [
     (''JOIN'', ''JOIN''), (''KICK'', ''KICK''), (''MODE'', ''MODE''), (''NICK'', ''NICK''), (''NOTICE'', ''NOTICE''),
     (''PART'', ''PART''), (''PING'', ''PING''), (''PONG'', ''PONG''), (''PRIVMSG'', ''PRIVMSG''), (''QUIT'', ''QUIT''),
     (''TOPIC'', ''TOPIC''), (''CTCP'', ''PRIVMSG''), (''CTCPReply'', ''NOTICE'')]"

definition reply_codes :: "(string \<times> string) list" where
  "reply_codes = [
     (''RPL_WELCOME'', ''001''), (''RPL_YOURHOST'', ''002''), (''RPL_CREATED'', ''003''), (''RPL_MYINFO'', ''004''),
     (''RPL_ISUPPORT'', ''005''), (''RPL_BOUNCE'', ''005''), (''RPL_USERHOST'', ''302''), (''RPL_ISON'', ''303''),
     (''RPL_AWAY'', ''301''), (''RPL_UNAWAY'', ''305''), (''RPL_NOWAWAY'', ''306''), (''RPL_WHOISUSER'', ''311''),
     (''RPL_WHOISSERVER'', ''312''), (''RPL_WHOISOPERATOR'', ''313''), (''RPL_WHOISIDLE'', ''317''),
     (''RPL_ENDOFWHOIS'', ''318''), (''RPL_WHOISCHANNELS'', ''319''), (''RPL_WHOWASUSER'', ''314''),
     (''RPL_ENDOFWHOWAS'', ''369''), (''RPL_LISTSTART'', ''321''), (''RPL_LIST'', ''322''), (''RPL_LISTEND'', ''323''),
     (''RPL_UNIQOPIS'', ''325''), (''RPL_CHANNELMODEIS'', ''324''), (''RPL_NOTOPIC'', ''331''), (''RPL_TOPIC'', ''332''),
     (''RPL_INVITING'', ''341''), (''RPL_SUMMONING'', ''342''), (''RPL_INVITELIST'', ''346''),
     (''RPL_ENDOFINVITELIST'', ''347''), (''RPL_EXCEPTLIST'', ''348''), (''RPL_ENDOFEXCEPTLIST'', ''349''),
     (''RPL_VERSION'', ''351''), (''RPL_WHOREPLY'', ''352''), (''RPL_ENDOFWHO'', ''315''), (''RPL_NAMREPLY'', ''353''),
     (''RPL_ENDOFNAMES'', ''366''), (''RPL_LINKS'', ''364''), (''RPL_ENDOFLINKS'', ''365''), (''RPL_BANLIST'', ''367''),
     (''RPL_ENDOFBANLIST'', ''368''), (''RPL_INFO'', ''371''), (''RPL_ENDOFINFO'', ''374''), (''RPL_MOTDSTART'', ''375''),
     (''RPL_MOTD'', ''372''), (''RPL_ENDOFMOTD'', ''376''), (''RPL_YOUREOPER'', ''381''), (''RPL_REHASHING'', ''382''),
     (''RPL_YOURESERVICE'', ''383''), (''RPL_TIME'', ''391''), (''RPL_USERSSTART'', ''392''), (''RPL_USERS'', ''393''),
     (''RPL_ENDOFUSERS'', ''394''), (''RPL_NOUSERS'', ''395''), (''RPL_TRACELINK'', ''200''),
     (''RPL_TRACECONNECTING'', ''201''), (''RPL_TRACEHANDSHAKE'', ''202''), (''RPL_TRACEUNKNOWN'', ''203''),
     (''RPL_TRACEOPERATOR'', ''204''), (''RPL_TRACEUSER'', ''205''), (''RPL_TRACESERVER'', ''206''),
     (''RPL_TRACESERVICE'', ''207''), (''RPL_TRACENEWTYPE'', ''208''), (''RPL_TRACECLASS'', ''209''),
     (''RPL_TRACERECONNECT'', ''210''), (''RPL_TRACELOG'', ''261''), (''RPL_TRACEEND'', ''262''),
     (''RPL_STATSLINKINFO'', ''211''), (''RPL_STATSCOMMANDS'', ''212''), (''RPL_ENDOFSTATS'', ''219''),
     (''RPL_STATSUPTIME'', ''242''), (''RPL_STATSOLINE'', ''243''), (''RPL_UMODEIS'', ''221''), (''RPL_SERVLIST'', ''234''),
     (''RPL_SERVLISTEND'', ''235''), (''RPL_LUSERCLIENT'', ''251''), (''RPL_LUSEROP'', ''252''),
     (''RPL_LUSERUNKNOWN'', ''253''), (''RPL_LUSERCHANNELS'', ''254''), (''RPL_LUSERME'', ''255''),
     (''RPL_ADMINME'', ''256''), (''RPL_ADMINLOC1'', ''257''), (''RPL_ADMINLOC2'', ''258''), (''RPL_ADMINEMAIL'', ''259''),
     (''RPL_TRYAGAIN'', ''263'')]"

definition error_codes :: "(string \<times> string) list" where
  "error_codes = [
     (''ERR_NOSUCHNICK'', ''401''), (''ERR_NOSUCHSERVER'', ''402''), (''ERR_NOSUCHCHANNEL'', ''403''),
     (''ERR_CANNOTSENDTOCHAN'', ''404''), (''ERR_TOOMANYCHANNELS'', ''405''), (''ERR_WASNOSUCHNICK'', ''406''),
     (''ERR_TOOMANYTARGETS'', ''407''), (''ERR_NOSUCHSERVICE'', ''408''), (''ERR_NOORIGIN'', ''409''),
     (''ERR_NORECIPIENT'', ''411''), (''ERR_NOTEXTTOSEND'', ''412''), (''ERR_NOTOPLEVEL'', ''413''),
     (''ERR_WILDTOPLEVEL'', ''414''), (''ERR_BADMASK'', ''415''), (''ERR_UNKNOWNCOMMAND'', ''421''),
     (''ERR_NOMOTD'', ''422''), (''ERR_NOADMININFO'', ''423''), (''ERR_FILEERROR'', ''424''),
     (''ERR_NONICKNAMEGIVEN'', ''431''), (''ERR_ERRONEUSNICKNAME'', ''432''), (''ERR_NICKNAMEINUSE'', ''433''),
     (''ERR_NICKCOLLISION'', ''436''), (''ERR_UNAVAILRESOURCE'', ''437''), (''ERR_USERNOTINCHANNEL'', ''441''),
     (''ERR_NOTONCHANNEL'', ''442''), (''ERR_USERONCHANNEL'', ''443''), (''ERR_NOLOGIN'', ''444''),
     (''ERR_SUMMONDISABLED'', ''445''), (''ERR_USERSDISABLED'', ''446''), (''ERR_NOTREGISTERED'', ''451''),
     (''ERR_NEEDMOREPARAMS'', ''461''), (''ERR_ALREADYREGISTRED'', ''462''), (''ERR_NOPERMFORHOST'', ''463''),
     (''ERR_PASSWDMISMATCH'', ''464''), (''ERR_YOUREBANNEDCREEP'', ''465''), (''ERR_YOUWILLBEBANNED'', ''466''),
     (''ERR_KEYSET'', ''467''), (''ERR_CHANNELISFULL'', ''471''), (''ERR_UNKNOWNMODE'', ''472''),
     (''ERR_INVITEONLYCHAN'', ''473''), (''ERR_BANNEDFROMCHAN'', ''474''), (''ERR_BADCHANNELKEY'', ''475''),
     (''ERR_BADCHANMASK'', ''476''), (''ERR_NOCHANMODES'', ''477''), (''ERR_BANLISTFULL'', ''478''),
     (''ERR_NOPRIVILEGES'', ''481''), (''ERR_CHANOPRIVSNEEDED'', ''482''), (''ERR_CANTKILLSERVER'', ''483''),
     (''ERR_RESTRICTED'', ''484''), (''ERR_UNIQOPPRIVSNEEDED'', ''485''), (''ERR_NOOPERHOST'', ''491''),
     (''ERR_UMODEUNKNOWNFLAG'', ''501''), (''ERR_USERSDONTMATCH'', ''502'')]"

definition pseudo_events :: "(string \<times> string) list" where
  "pseudo_events = [
     (''RAW'', ''RAW''), (''CONNECT'', ''CONNECT''), (''DISCONNECT'', ''DISCONNECT'')]"

definition proto_table :: "(string \<times> string) list" where
  "proto_table = event_names @ reply_codes @ error_codes @ pseudo_events"

section \<open>Properties\<close>

text \<open>The constants that are other names of one value.\<close>

definition alias_of :: "string \<Rightarrow> string" where
  "alias_of n = (if n = ''CTCP'' then ''PRIVMSG'' else if n = ''CTCPReply'' then ''NOTICE''
     else if n = ''RPL_BOUNCE'' then ''RPL_ISUPPORT'' else n)"

definition own_values :: "(string \<times> string) list \<Rightarrow> string list" where
  "own_values t = map snd (filter (\<lambda>(n, v). alias_of n = n) t)"

lemma own_values_append [simp]: "own_values (t @ u) = own_values t @ own_values u" by (simp add: own_values_def)

text \<open>Within a table the values differ, and the first characters keep the tables apart.\<close>

lemma table_values:
  "distinct (own_values event_names)" "distinct (own_values reply_codes)" "distinct (own_values error_codes)" "distinct (own_values pseudo_events)"
  by code_simp+

definition starts_with :: "string \<Rightarrow> string list \<Rightarrow> bool" where "starts_with cs vs = list_all (\<lambda>v. v \<noteq> [] \<and> hd v \<in> set cs) vs"

lemma table_starts:
  "starts_with ''023'' (own_values reply_codes)" "starts_with ''45'' (own_values error_codes)"
  "starts_with ''JKMNPQT'' (own_values event_names)" "starts_with ''RCD'' (own_values pseudo_events)"
  by code_simp+

lemma starts_disjoint: "starts_with cs vs \<Longrightarrow> starts_with ds ws \<Longrightarrow> set cs \<inter> set ds = {} \<Longrightarrow> set vs \<inter> set ws = {}"
  unfolding starts_with_def list_all_iff by blast

lemma proto_values: "distinct (own_values proto_table)"
proof -
  note d = starts_disjoint [OF table_starts(3,1)] starts_disjoint [OF table_starts(3,2)] starts_disjoint [OF table_starts(3,4)]
    starts_disjoint [OF table_starts(1,2)] starts_disjoint [OF table_starts(1,4)] starts_disjoint [OF table_starts(2,4)]
  have "set (own_values event_names) \<inter> set (own_values reply_codes) = {}" "set (own_values event_names) \<inter> set (own_values error_codes) = {}"
    "set (own_values event_names) \<inter> set (own_values pseudo_events) = {}" "set (own_values reply_codes) \<inter> set (own_values error_codes) = {}"
    "set (own_values reply_codes) \<inter> set (own_values pseudo_events) = {}" "set (own_values error_codes) \<inter> set (own_values pseudo_events) = {}"
    by (rule d; simp)+
  then show ?thesis using table_values unfolding proto_table_def own_values_append distinct_append set_append by blast
qed

lemma proto_aliases: "list_all (\<lambda>(n, v). alias_of n = n \<or> map_of proto_table (alias_of n) = Some v) proto_table" by code_simp

lemma proto_chars: "list_all (\<lambda>(n, v). v \<noteq> [] \<and> list_all name_char v) proto_table" by code_simp

text \<open>A line that is a single word of upper-case letters and digits is the event of that name.\<close>

lemma Parse_word:
  assumes "v \<noteq> []" "list_all name_char v" shows "Parse now v = Inr (NewEvent now [] None v [] [])"
proof -
  obtain c cs where v: "v = c # cs" using assms(1) by (cases v) auto
  have "c \<noteq> CHR '':''" using assms(2) v by (auto simp: name_char_def is_upper_def is_digit_def code_def)
  then have "rgx_sender v = Some ([], v)" using v by (simp add: rgx_sender_def)
  moreover have "takeWhile name_char v = v" "dropWhile name_char v = []" using assms(2) by (auto simp: list_all_iff)
  ultimately have "ircRegex v = Some ([], v, [], [])" using v by (simp add: ircRegex_def rgx_trailing_def)
  then show ?thesis by (simp add: Parse_def parse_args_def)
qed


end
