(* ===== verification/Locker.thy ===== *)
theory Locker
  imports BotProps CoreSecurity
begin

text \<open>
  The interface \<^verbatim>\<open>src/data/locker.go\<close> as the bot implements it (\<^verbatim>\<open>src/bot/bot.go\<close>): state and store are reached
  through callbacks or between an opening and a closing call, under the locks \<^verbatim>\<open>protectState\<close> and \<^verbatim>\<open>protectStore\<close>.

  A call that has to wait for a lock is \<^verbatim>\<open>None\<close>.  Giving back a lock that is not held ends the program, the value \<^verbatim>\<open>Inl ()\<close>.
\<close>

section \<open>The methods of the bot\<close>

definition Bot_OpenState :: "string \<Rightarrow> ('c, 'd, 'h) Bot \<Rightarrow> State option \<times> ('c, 'd, 'h) Bot" where
  "Bot_OpenState networkID b = (case OpenState (world_of networkID b) of (s, w) \<Rightarrow> (s, put_world networkID w b))"

definition Bot_CloseState :: "string \<Rightarrow> ('c, 'd, 'h) Bot \<Rightarrow> unit + ('c, 'd, 'h) Bot" where
  "Bot_CloseState networkID b =
     (let w = world_of networkID b in
      if w_known w \<and> w_stateLocks w \<le> 0 then Inl () else Inr (put_world networkID (CloseState w) b))"

definition Bot_OpenReadStore :: "('c, 'd, 'h) Bot \<Rightarrow> ('d Store option \<times> ('c, 'd, 'h) Bot) option" where
  "Bot_OpenReadStore b = (if b_storeWriter b then None else Some (b_store b, b\<lparr>b_storeReaders := b_storeReaders b + 1\<rparr>))"

definition Bot_CloseReadStore :: "('c, 'd, 'h) Bot \<Rightarrow> unit + ('c, 'd, 'h) Bot" where
  "Bot_CloseReadStore b = (if b_storeReaders b \<le> 0 then Inl () else Inr (b\<lparr>b_storeReaders := b_storeReaders b - 1\<rparr>))"

section \<open>Callbacks and brackets\<close>

text \<open>
  What the package documents of its two styles of access: between opening and closing a client sees what a
  callback would be given, and closing puts everything back.
\<close>

definition bracketed :: "('b \<Rightarrow> ('v option \<times> 'b) option) \<Rightarrow> ('b \<Rightarrow> unit + 'b) \<Rightarrow> ('v \<Rightarrow> 'a) \<Rightarrow> 'b \<Rightarrow> (unit + 'a option \<times> 'b) option" where
  "bracketed opn cls fn b =
     (case opn b of
        None \<Rightarrow> None
      | Some (v, b1) \<Rightarrow> Some (case cls b1 of Inl _ \<Rightarrow> Inl () | Inr b2 \<Rightarrow> Inr (map_option fn v, b2)))"

locale lock_bracket =
  fixes open_call :: "'b \<Rightarrow> ('v option \<times> 'b) option" and close_call :: "'b \<Rightarrow> unit + 'b"
    and read_call :: "('v \<Rightarrow> 'a) \<Rightarrow> 'b \<Rightarrow> 'a option option" and sound :: "'b \<Rightarrow> bool"
  assumes open_waits: "open_call b = None \<Longrightarrow> read_call fn b = None"
    and open_read: "open_call b = Some (v, b1) \<Longrightarrow> read_call fn b = Some (map_option fn v)"
    and open_close: "sound b \<Longrightarrow> open_call b = Some (v, b1) \<Longrightarrow> close_call b1 = Inr b"
begin

lemma bracketed_read: "sound b \<Longrightarrow> bracketed open_call close_call fn b = map_option (\<lambda>r. Inr (r, b)) (read_call fn b)"
  by (auto simp: bracketed_def open_waits open_read dest: open_close split: option.split)

end

text \<open>The counts of read locks are never negative.\<close>

definition counts_ok :: "('c, 'd, 'h) Bot \<Rightarrow> bool" where
  "counts_ok b \<longleftrightarrow> 0 \<le> b_storeReaders b \<and> (\<forall>r s. b_heap b r = Some s \<longrightarrow> 0 \<le> s_stateLocks s)"

lemma put_world_locked:
  "server_at n b = Some (r, s) \<Longrightarrow>
   put_world n (world_of n b\<lparr>w_stateLocks := k\<rparr>) b = put_server r (s\<lparr>s_stateLocks := k\<rparr>) b"
  by (simp add: put_world_def world_of_def put_server_def)

lemma server_at_put: "server_at n b = Some (r, s) \<Longrightarrow> server_at n (put_server r s' b) = Some (r, s')"
  by (auto simp: server_at_def getServer_def put_server_def split: option.splits)

lemma put_world_unknown: "server_at n b = None \<Longrightarrow> put_world n (world_of n b) b = b"
  by (simp add: put_world_def world_of_def)

lemma Bot_OpenState_value: "fst (Bot_OpenState n b) = (case server_at n b of None \<Rightarrow> None | Some (r, s) \<Rightarrow> s_state s)"
  by (simp add: Bot_OpenState_def OpenState_def world_of_def split: option.split)

lemma put_server_same: "server_at n b = Some (r, s) \<Longrightarrow> put_server r s (put_server r s' b) = b"
  by (auto simp: put_server_def server_at_def map_upd_triv split: option.splits)

lemma Bot_state_bracket:
  assumes "counts_ok b"
  shows "Bot_CloseState n (snd (Bot_OpenState n b)) = Inr b"
proof (cases "server_at n b")
  case None
  then have "\<not> w_known (world_of n b)" by (simp add: world_of_def)
  then show ?thesis using None by (simp add: Bot_OpenState_def Bot_CloseState_def OpenState_def CloseState_def put_world_unknown)
next
  case (Some p)
  then obtain r s where rs: "server_at n b = Some (r, s)" by (cases p) simp
  let ?s = "s\<lparr>s_stateLocks := s_stateLocks s + 1\<rparr>"
  have w: "w_known (world_of n b)" "w_stateLocks (world_of n b) = s_stateLocks s" using rs by (simp_all add: world_of_def)
  have o: "snd (Bot_OpenState n b) = put_server r ?s b" using w rs by (simp add: Bot_OpenState_def OpenState_def put_world_locked)
  have at: "server_at n (put_server r ?s b) = Some (r, ?s)" using rs by (rule server_at_put)
  have "0 \<le> s_stateLocks s" using assms rs by (auto simp: counts_ok_def server_at_def split: option.splits)
  moreover have "w_known (world_of n (put_server r ?s b))" "w_stateLocks (world_of n (put_server r ?s b)) = s_stateLocks s + 1"
    using at by (simp_all add: world_of_def)
  ultimately show ?thesis unfolding o
    by (simp add: Bot_CloseState_def CloseState_def Let_def put_world_locked [OF at] put_server_same [OF rs])
qed

lemma Bot_OpenState_bracket: "counts_ok b \<Longrightarrow> Bot_OpenState n b = (v, b1) \<Longrightarrow> Bot_CloseState n b1 = Inr b"
  using Bot_state_bracket [of b n] by simp

lemma ReadState_opened: "Bot_OpenState n b = (v, b1) \<Longrightarrow> ReadState n fn b = map_option fn v"
  using Bot_OpenState_value [of n b] by (auto simp: ReadState_def split: option.split)

interpretation state_lock: lock_bracket "\<lambda>b. Some (Bot_OpenState n b)" "Bot_CloseState n" "\<lambda>fn b. Some (ReadState n fn b)" counts_ok for n
  by unfold_locales (simp_all add: ReadState_opened Bot_OpenState_bracket)

interpretation store_lock: lock_bracket Bot_OpenReadStore Bot_CloseReadStore ReadStore counts_ok
  by unfold_locales (auto simp: Bot_OpenReadStore_def Bot_CloseReadStore_def ReadStore_def counts_ok_def split: if_splits)

text \<open>A write between opening and closing.\<close>

definition write_bracketed :: "('d Store \<Rightarrow> 'd Store) \<Rightarrow> ('c, 'd, 'h) Bot \<Rightarrow> (unit + bool \<times> ('c, 'd, 'h) Bot) option" where
  "write_bracketed fn b =
     (case OpenWriteStore b of
        None \<Rightarrow> None
      | Some (v, b1) \<Rightarrow>
          Some (case CloseWriteStore (b1\<lparr>b_store := map_option fn v\<rparr>) of Inl _ \<Rightarrow> Inl () | Inr b2 \<Rightarrow> Inr (v \<noteq> None, b2)))"

section \<open>Clients of the store\<close>

text \<open>
  Goroutines that use the store, each closing what it has opened: the bot, those that read and the one that writes.
  \<^verbatim>\<open>Assign\<close> is a change of the store by its writer.
\<close>

datatype 'd store_act =
  OpenRead nat | CloseRead nat | CallWrite "'d Store \<Rightarrow> 'd Store" | OpenWrite nat | Assign nat "'d Store \<Rightarrow> 'd Store" | CloseWrite nat

type_synonym ('c, 'd, 'h) clients = "('c, 'd, 'h) Bot \<times> nat set \<times> nat option"

fun store_do :: "'d store_act \<Rightarrow> ('c, 'd, 'h) clients \<Rightarrow> (unit + ('c, 'd, 'h) clients) option" where
  "store_do (OpenRead g) (b, R, W) =
     (if g \<in> R \<or> W = Some g then None else map_option (\<lambda>(_, b). Inr (b, insert g R, W)) (Bot_OpenReadStore b))"
| "store_do (CloseRead g) (b, R, W) =
     (if g \<in> R then Some (map_sum id (\<lambda>b. (b, R - {g}, W)) (Bot_CloseReadStore b)) else None)"
| "store_do (CallWrite fn) (b, R, W) = map_option (\<lambda>(_, b). Inr (b, R, W)) (WriteStore fn b)"
| "store_do (OpenWrite g) (b, R, W) =
     (if g \<in> R \<or> W = Some g then None else map_option (\<lambda>(_, b). Inr (b, R, Some g)) (OpenWriteStore b))"
| "store_do (Assign g fn) (b, R, W) =
     (if W = Some g then Some (Inr (b\<lparr>b_store := map_option fn (b_store b)\<rparr>, R, W)) else None)"
| "store_do (CloseWrite g) (b, R, W) =
     (if W = Some g then Some (map_sum id (\<lambda>b. (b, R, None)) (CloseWriteStore b)) else None)"

fun store_acts :: "'d store_act list \<Rightarrow> ('c, 'd, 'h) clients \<Rightarrow> (unit + ('c, 'd, 'h) clients) option" where
  "store_acts [] m = Some (Inr m)"
| "store_acts (a # as) m = (case store_do a m of None \<Rightarrow> None | Some (Inl _) \<Rightarrow> Some (Inl ()) | Some (Inr m) \<Rightarrow> store_acts as m)"

definition locked_right :: "('c, 'd, 'h) clients \<Rightarrow> bool" where
  "locked_right m = (case m of (b, R, W) \<Rightarrow>
     finite R \<and> b_storeReaders b = int (card R) \<and> b_storeWriter b = (W \<noteq> None) \<and> (W \<noteq> None \<longrightarrow> R = {}))"

lemmas store_eval = locked_right_def Bot_OpenReadStore_def Bot_CloseReadStore_def WriteStore_def OpenWriteStore_def CloseWriteStore_def

lemma locked_right_do:
  assumes "locked_right m" "store_do a m = Some r"
  shows "\<exists>m'. r = Inr m' \<and> locked_right m'"
proof -
  obtain b R W where m: "m = (b, R, W)" by (cases m)
  show ?thesis
  proof (cases a)
    case (CloseRead g)
    then have g: "g \<in> R" "finite R" using assms m by (auto simp: locked_right_def split: if_splits)
    then have "0 < card R" "card (R - {g}) = card R - 1" by (auto simp: card_gt_0_iff)
    then show ?thesis using CloseRead assms m g by (auto simp: store_eval split: if_splits)
  qed (use assms m in \<open>auto simp: store_eval card_insert_if split: if_splits option.splits\<close>)
qed

lemma locked_right_acts:
  "locked_right m \<Longrightarrow> store_acts as m = Some r \<Longrightarrow> \<exists>m'. r = Inr m' \<and> locked_right m'"
proof (induction as arbitrary: m)
  case (Cons a as)
  then obtain r1 where r1: "store_do a m = Some r1" by (auto split: option.splits)
  from locked_right_do [OF Cons.prems(1) r1] obtain m1 where "r1 = Inr m1" "locked_right m1" by blast
  with Cons r1 show ?case by simp
qed auto

text \<open>While a goroutine reads, nobody changes the store.\<close>

lemma store_do_stable:
  assumes "locked_right (b, R, W)" "g \<in> R" "a \<noteq> CloseRead g" "store_do a (b, R, W) = Some (Inr (b', R', W'))"
  shows "b_store b' = b_store b \<and> g \<in> R'"
proof -
  have "0 < card R" "W = None" using assms(1,2) by (auto simp: locked_right_def card_gt_0_iff)
  then show ?thesis using assms by (cases a) (auto simp: store_eval split: if_splits option.splits)
qed

lemma store_acts_stable:
  "locked_right (b, R, W) \<Longrightarrow> g \<in> R \<Longrightarrow> CloseRead g \<notin> set as \<Longrightarrow> store_acts as (b, R, W) = Some (Inr (b', R', W'))
   \<Longrightarrow> b_store b' = b_store b"
proof (induction as arbitrary: b R W)
  case (Cons a as)
  then obtain r1 where r1: "store_do a (b, R, W) = Some r1" by (auto split: option.splits)
  from locked_right_do [OF Cons.prems(1) r1] obtain b1 R1 W1 where m1: "r1 = Inr (b1, R1, W1)" "locked_right (b1, R1, W1)" by auto
  have "b_store b1 = b_store b \<and> g \<in> R1" using Cons.prems r1 m1 by (intro store_do_stable [of b R W g a]) auto
  with Cons r1 m1 show ?case by simp
qed simp

text \<open>
  C18: The lock of the store keeps its promises to goroutines that close what they have opened.  In every
  interleaving no lock is given back that is not held; nobody writes while anybody else reads or writes; from
  opening to closing a reader sees one and the same store, whatever the others do; and when all have closed, the lock is free.
  The callbacks do what opening, using and closing do, for state and store, and leave the locks as they were.
\<close>

theorem store_lock_exclusive:
  assumes "b_storeReaders b = 0" and "\<not> b_storeWriter b" and "store_acts as (b, {}, None) = Some r" and "counts_ok b"
  shows "(\<exists>b1 R W. r = Inr (b1, R, W) \<and> (W \<noteq> None \<longrightarrow> R = {})
      \<and> (\<forall>g as' b2 R' W'. g \<in> R \<longrightarrow> CloseRead g \<notin> set as' \<longrightarrow> store_acts as' (b1, R, W) = Some (Inr (b2, R', W')) \<longrightarrow> b_store b2 = b_store b1)
      \<and> (R = {} \<and> W = None \<longrightarrow> (\<forall>fn. WriteStore fn b1 \<noteq> None)))
    \<and> (\<forall>n fn. bracketed (\<lambda>b. Some (Bot_OpenState n b)) (Bot_CloseState n) fn b = Some (Inr (ReadState n fn b, b)))
    \<and> (\<forall>fn. bracketed Bot_OpenReadStore Bot_CloseReadStore fn b = map_option (\<lambda>x. Inr (x, b)) (ReadStore fn b))
    \<and> (\<forall>fn. write_bracketed fn b = map_option Inr (WriteStore fn b))"
proof -
  have "locked_right (b, {}, None)" using assms(1,2) by (simp add: locked_right_def)
  from locked_right_acts [OF this assms(3)] obtain b1 R W where r: "r = Inr (b1, R, W)" "locked_right (b1, R, W)" by auto
  have ex: "W \<noteq> None \<longrightarrow> R = {}" using r(2) by (simp add: locked_right_def)
  have free: "WriteStore fn b1 \<noteq> None" if "R = {} \<and> W = None" for fn using r(2) that by (simp add: store_eval)
  have "\<exists>b1 R W. r = Inr (b1, R, W) \<and> (W \<noteq> None \<longrightarrow> R = {})
      \<and> (\<forall>g as' b2 R' W'. g \<in> R \<longrightarrow> CloseRead g \<notin> set as' \<longrightarrow> store_acts as' (b1, R, W) = Some (Inr (b2, R', W')) \<longrightarrow> b_store b2 = b_store b1)
      \<and> (R = {} \<and> W = None \<longrightarrow> (\<forall>fn. WriteStore fn b1 \<noteq> None))"
    using r(1) store_acts_stable [OF r(2)] free ex by (intro exI [of _ b1] exI [of _ R] exI [of _ W]) blast
  moreover have "write_bracketed fn b = map_option Inr (WriteStore fn b)" for fn
    using assms(1,2) by (simp add: write_bracketed_def store_eval split: option.split)
  ultimately show ?thesis by (simp add: state_lock.bracketed_read [OF assms(4)] store_lock.bracketed_read [OF assms(4)])
qed

definition plain_bot :: "(nat, string \<rightharpoonup> string, unit) Bot" where
  "plain_bot = (empty_bot True (\<lambda>_. sample_config) 0 no_commands)\<lparr>b_store := Some ann_store\<rparr>"

theorem store_lock_exclusive_witness:
  "\<exists>b1. store_acts [OpenRead 0, OpenRead 1, CloseRead 0] (plain_bot, {}, None) = Some (Inr (b1, {1}, None))
    \<and> store_acts [CallWrite id] (b1, {1}, None) = None
    \<and> (\<forall>as' b2 R' W'. CloseRead 1 \<notin> set as' \<longrightarrow> store_acts as' (b1, {1}, None) = Some (Inr (b2, R', W')) \<longrightarrow> b_store b2 = b_store b1)"
proof -
  let ?b1 = "plain_bot\<lparr>b_storeReaders := 1\<rparr>"
  have free: "b_storeReaders plain_bot = 0" "\<not> b_storeWriter plain_bot" "counts_ok plain_bot"
    by (simp_all add: plain_bot_def empty_bot_def counts_ok_def)
  then have run: "store_acts [OpenRead 0, OpenRead 1, CloseRead 0] (plain_bot, {}, None) = Some (Inr (?b1, {1}, None))"
    by (simp add: store_eval insert_Diff_if)
  have "store_acts [CallWrite id] (?b1, {1}, None) = None" by (simp add: store_eval)
  moreover have "b_store b2 = b_store ?b1"
    if "CloseRead 1 \<notin> set as'" "store_acts as' (?b1, {1}, None) = Some (Inr (b2, R', W'))" for as' b2 R' W'
    using store_lock_exclusive [OF free(1,2) run free(3), THEN conjunct1] that by blast
  ultimately show ?thesis using run by (intro exI [of _ ?b1]) blast
qed

end
