(* ===== verification/Spec2Isabelle.thy ===== *)
theory Spec2Isabelle
  imports Hosts Ctcp NetworkInfo IrcEvent Modes ChannelModes ChannelData StateProps Store Writer InetClient Dispatch
    CmdsArgs ConfigProps CoreSecurity BotStates Monitor ServerClose Markov SimpleProps Proto Locker
begin

text \<open>
  \<^bold>\<open>A verification library for ultimateq\<close>

  ultimateq is a framework for IRC bots in Go.  Lines of the protocol come in through a buffered client
  (\<^verbatim>\<open>src/inet\<close>), are parsed (\<^verbatim>\<open>src/parse\<close>, \<^verbatim>\<open>src/irc\<close>), update a model of the channels and users of the
  network (\<^verbatim>\<open>src/data/state.go\<close> and the files beside it) and are handed to event handlers and to
  commands (\<^verbatim>\<open>src/dispatch\<close>, \<^verbatim>\<open>src/dispatch/cmd\<close>).  Commands are guarded by accounts in a database
  (\<^verbatim>\<open>src/data/store.go\<close>); the bot itself manages the accounts through its core commands
  (\<^verbatim>\<open>src/bot/core_commands.go\<close>).  What handlers send goes through \<^verbatim>\<open>src/irc/writer.go\<close> to the write queue and the flood
  protection of the client.  The configuration (\<^verbatim>\<open>src/config\<close>) is a tree of TOML values.  The bot (\<^verbatim>\<open>src/bot\<close>) ties all this together: it
  builds a server for each network of its configuration, connects and reconnects them, lets its core handler log in
  and answer, and replaces its configuration while it runs.  Two programs use the framework: a sample bot
  (\<^verbatim>\<open>src/simple.go\<close>) and a text generator (\<^verbatim>\<open>src/markov.go\<close>).

  \<^bold>\<open>The theories.\<close>  Each theory models the source it names in its first lines, one definition for each
  function, and proves what the source promises.

  \<^item> \<^verbatim>\<open>Prelude\<close>: panics as values (\<^verbatim>\<open>outcome\<close>), checked indexing, the functions of package strings.
  \<^item> \<^verbatim>\<open>Hosts\<close>, \<^verbatim>\<open>Ctcp\<close>, \<^verbatim>\<open>NetworkInfo\<close>, \<^verbatim>\<open>IrcEvent\<close> (\<^verbatim>\<open>src/irc\<close>, \<^verbatim>\<open>src/parse\<close>): masks and what the
    matcher accepts, the quoting of CTCP and where it is invertible, the replies 004 and 005, the parser
    of a line and its round trip with printing.
  \<^item> \<^verbatim>\<open>FlagBits\<close>, \<^verbatim>\<open>Modes\<close>, \<^verbatim>\<open>ChannelModes\<close>, \<^verbatim>\<open>ChannelData\<close> (\<^verbatim>\<open>src/data\<close>): sets of flags in words, mode
    strings over the interface \<^verbatim>\<open>moder\<close>, the modes of a channel with their invariant and printed form, the
    refinement of direct application by differences, bans.
  \<^item> \<^verbatim>\<open>State\<close>, \<^verbatim>\<open>StateInvariant\<close>, \<^verbatim>\<open>StateProps\<close> (\<^verbatim>\<open>src/data/state.go\<close>): users, channels and
    memberships with all event handlers; reachable states and the consistency of the two membership maps,
    what joining, quitting and changing a nick do, and the events on which an update panics.
  \<^item> \<^verbatim>\<open>Access\<close>, \<^verbatim>\<open>StoredUsers\<close>, \<^verbatim>\<open>Store\<close> (\<^verbatim>\<open>src/data\<close>): levels and flags, accounts with access at three
    levels, the store with its cache and table of authenticated hosts; its invariant, the soundness of
    authentication and that a saved account authenticates after a restart.
  \<^item> \<^verbatim>\<open>Writer\<close>, \<^verbatim>\<open>InetQueue\<close>, \<^verbatim>\<open>InetClient\<close>: splitting of long messages with its termination, the
    linked queue as a refinement of a list, framing of the incoming stream, the pump as a step relation
    with order, exactly-once delivery and the bounds of the flood protection.
  \<^item> \<^verbatim>\<open>Dispatch\<close> (\<^verbatim>\<open>src/dispatch\<close>): channel filter, handler tables, choice of the method, and the
    goroutines of handlers as an interleaving machine in which each handler runs once and waiting ends.
  \<^item> \<^verbatim>\<open>Cmd\<close>, \<^verbatim>\<open>Cmds\<close>, \<^verbatim>\<open>CmdsProps\<close>, \<^verbatim>\<open>CmdsArgs\<close> (\<^verbatim>\<open>src/dispatch/cmd\<close>): the declared arguments and the
    lists of them that are accepted, the registry, the path of a message to a handler; no handler
    runs without the access its command asks for, every lock is released, words are bound to
    arguments by position, and the messages on which dispatching panics.
  \<^item> \<^verbatim>\<open>Config\<close>, \<^verbatim>\<open>Validation\<close>, \<^verbatim>\<open>ConfigProps\<close> (\<^verbatim>\<open>src/config\<close>): the tree of values with contexts and typed
    getters, files, validation; a validated configuration is well typed and complete, what is
    set is read, a clone reads like the original.
  \<^item> \<^verbatim>\<open>CoreCommands\<close>, \<^verbatim>\<open>CoreProps\<close>, \<^verbatim>\<open>CoreSecurity\<close> (\<^verbatim>\<open>src/bot/core_commands.go\<close>): the 21 core
    commands over event, locks and store; they return, keep the invariant of the store and the
    locks; who may work on the accounts of others, what registration and a new password leave, what
    giving access does, and two ways to more access than was given.

  \<^item> \<^verbatim>\<open>Server\<close>, \<^verbatim>\<open>Bot\<close>, \<^verbatim>\<open>BotProps\<close> (\<^verbatim>\<open>src/bot/server.go\<close>, \<^verbatim>\<open>src/bot/bot.go\<close>): the status of a server with its
    listeners, addresses, connecting, the settings of the client; construction of a bot, registration, access to state
    and store.  A valid configuration gives a stopped server for each network.
  \<^item> \<^verbatim>\<open>CoreHandler\<close> (\<^verbatim>\<open>src/bot/core_handler.go\<close>): what the bot answers to the network by itself, among it the nick it takes
    after each collision.
  \<^item> \<^verbatim>\<open>BotRun\<close>, \<^verbatim>\<open>BotLife\<close>, \<^verbatim>\<open>BotStates\<close> (\<^verbatim>\<open>src/bot/bot.go\<close>): a line from the client through state, handlers and commands; the
    loop of a server between connecting, running and waiting; on every run the status follows the intended cycle, and
    the states of all networks stay consistent under every interleaving of lines.
  \<^item> \<^verbatim>\<open>Monitor\<close> (\<^verbatim>\<open>src/bot/bot.go\<close>): the goroutines that start, stop and end servers as a machine of rendezvous; when no
    server is started before its last run has ended, nothing panics; two schedules on which it fails.
  \<^item> \<^verbatim>\<open>BotConfig\<close> (\<^verbatim>\<open>src/bot/botconfig.go\<close>): replacing the configuration of a running bot, reading it again, writing it;
    afterwards there is a server for exactly the networks of the new configuration.
  \<^item> \<^verbatim>\<open>Locker\<close> (\<^verbatim>\<open>src/data/locker.go\<close>): callbacks and open-close brackets on state and store do the same, and
    the lock of the store keeps readers and writers apart in every interleaving.
  \<^item> \<^verbatim>\<open>InetLife\<close>, \<^verbatim>\<open>ServerClose\<close> (\<^verbatim>\<open>src/inet/client.go\<close>, \<^verbatim>\<open>src/bot/server.go\<close>): the goroutines of a connection from its start
    to its end.  Closing returns from every reachable state; under the lock of the server a write error can hang.
  \<^item> \<^verbatim>\<open>Proto\<close> (\<^verbatim>\<open>src/irc/proto.go\<close>): the names of events, which do not clash, and what a network can make of the pseudo events.
  \<^item> \<^verbatim>\<open>SimpleBot\<close>, \<^verbatim>\<open>SimpleProps\<close> (\<^verbatim>\<open>src/simple.go\<close>): the sample bot with all its commands; all of them register, answers are
    bounded, modes go to users with flags.
  \<^item> \<^verbatim>\<open>Markov\<close> (\<^verbatim>\<open>src/markov.go\<close>): what is generated is a walk through the texts that were read.

  \<^bold>\<open>Interfaces\<close> are locales: sets of flags in a word, the interpreter of modes over the interface
  \<^verbatim>\<open>moder\<close>, the wait group of handlers (\<^verbatim>\<open>wait_group\<close>), closing once (\<^verbatim>\<open>once_closer\<close>),
  invariants of command sessions (\<^verbatim>\<open>session_invariant\<close>), a level of access in an account
  (\<^verbatim>\<open>access_slot\<close>) and access between opening and closing (\<^verbatim>\<open>lock_bracket\<close>).  Each is interpreted on the definitions of the component that provides it.

  \<^bold>\<open>Conventions.\<close>  A panic of Go is a value of \<^verbatim>\<open>outcome\<close>, so a nil dereference, an index out of
  range or a write to a nil map is a branch of the model.  Errors are values of a datatype.  Objects
  shared by pointer live in heaps indexed by natural numbers; maps of Go are partial functions, or
  association lists where iteration order matters, and the order itself is a parameter.  Strings
  are lists of bytes; functions that look at runes are exact on ASCII.  Machine integers are words where
  overflow matters and integers elsewhere.  A regular expression is a deterministic matcher.

  \<^bold>\<open>Parameters\<close> stand for what is not in \<^verbatim>\<open>src\<close>: the key-value database and gob (with the laws \<^verbatim>\<open>kv_laws\<close> and
  \<^verbatim>\<open>gob_laws\<close>), bcrypt, random numbers, JSON and TOML, the socket and its dialer, the clock, files, the quote
  database and web services of the sample bot, the processes of its sandbox, the handlers
  of extensions and reflection on them, and the order in which Go iterates over a map.

  \<^bold>\<open>Loops.\<close>  A loop that ends by its data is a recursive function with a termination proof.  The loop of
  \<^verbatim>\<open>splitSend\<close> and the re-roll loop of \<^verbatim>\<open>Register\<close> may not end and are partial functions into
  an option; when they return is stated.  No definition needs fuel, except the star of the
  mask matcher, whose budget is the length of the host and is never used up.

  The loops that serve a network until somebody stops it run over the list of what the world does (lines, kills,
  timeouts), so they end with it.

  \<^bold>\<open>Concurrency.\<close>  Operations under a mutex are atomic.  Interleaving is modelled where the code relies on it:
  handlers and their wait group, the cases of the pump, read locks held by the events of commands, clients of the
  store, the goroutines of a connection, of the monitor and of the servers it starts, and the lock of a server over its
  client.  A rendezvous on an unbuffered channel is one step of both sides.  What is left out is that a waiting
  writer of a read-write lock keeps new readers out.

  \<^bold>\<open>Not modelled.\<close>  Logging, and stack traces of recovered panics.  The system calls around the code: opening files,
  databases, sockets and TLS sessions, signals, reading standard input and the final pause of \<^verbatim>\<open>Run\<close>, the start of the sample bot
  with its web server; they only call what is not in \<^verbatim>\<open>src\<close>, and their results are parameters where the code looks at
  them.  Interface declarations have no behaviour of their own; their methods are modelled where they are implemented.
  The fake connection of the tests (\<^verbatim>\<open>src/mocks\<close>) is no part of the program.  Texts of messages and of
  format strings are values with what is formatted into them, except where the text is sent to the network.
\<close>

end
